(* ===== verification/Irc_Prelude.thy ===== *)
theory Irc_Prelude
  imports Main "HOL-Library.FSet" "HOL-Library.Char_ord" "HOL-Library.List_Lexorder"
    "HOL-Library.Word"
begin

section \<open>Prelude: bytes, strings, decimal text and iteration\<close>

text \<open>
  What the components of the IRC server share. A C++ \<open>std::string\<close> is a byte sequence and
  is modelled by \<open>string\<close> (a list of 8-bit characters), \<open>std::set\<close> by a finite set that
  is iterated in ascending order (\<open>sorted_list_of_fset\<close>), \<open>std::map\<close> by a partial
  function, a loop over a container by \<open>fold\<close> with the state passed along. The theory
  holds the string searches of the C++ standard library that the sources use, decimal
  output, and the generic lemmas on them.
\<close>

named_theorems irc_defs \<open>definitions unfolded when an operation is computed\<close>
named_theorems frame_simps \<open>what an operation of the server leaves unchanged\<close>
named_theorems numeric_codes \<open>the numeric reply codes\<close>

subsection \<open>Bytes the protocol gives a meaning to\<close>

abbreviation NUL :: char where "NUL \<equiv> CHR 0x00"
abbreviation BEL :: char where "BEL \<equiv> CHR 0x07"
abbreviation TAB :: char where "TAB \<equiv> CHR 0x09"
abbreviation LF :: char where "LF \<equiv> CHR 0x0A"
abbreviation CR :: char where "CR \<equiv> CHR 0x0D"
abbreviation SP :: char where "SP \<equiv> CHR 0x20"

definition crlf :: string where
  "crlf = [CR, LF]"

lemma length_crlf [simp]: "length crlf = 2"
  by (simp add: crlf_def)

lemma crlf_not_Nil [simp]: "crlf \<noteq> []"
  by (simp add: crlf_def)

subsection \<open>Searching a string\<close>

text \<open>\<open>std::string::find(c)\<close>: the first position of a byte, \<open>None\<close> for \<open>npos\<close>.\<close>

definition find_char :: "char \<Rightarrow> string \<Rightarrow> nat option" where
  "find_char c s = (if c \<in> set s then Some (length (takeWhile (\<lambda>x. x \<noteq> c) s)) else None)"

lemma find_char_None [simp]: "find_char c s = None \<longleftrightarrow> c \<notin> set s"
  by (simp add: find_char_def)

lemma find_char_notin [simp]: "c \<notin> set s \<Longrightarrow> find_char c s = None"
  by simp

lemma find_char_append [simp]: "c \<notin> set a \<Longrightarrow> find_char c (a @ c # b) = Some (length a)"
  by (induction a) (auto simp: find_char_def)

lemma find_char_SomeE:
  assumes "find_char c s = Some i"
  obtains a b where "s = a @ c # b" and "c \<notin> set a" and "i = length a"
proof -
  from assms have "c \<in> set s" by (auto simp: find_char_def split: if_splits)
  then obtain a b where "s = a @ c # b" and "c \<notin> set a"
    using split_list_first by metis
  with assms that show thesis by simp
qed

lemma find_char_less: "find_char c s = Some i \<Longrightarrow> i < length s"
  by (erule find_char_SomeE) simp

subsection \<open>Characters as numbers\<close>

lemmas char_simps = less_eq_char_def less_char_def

lemma char_eqI: "(of_char c :: nat) = of_char d \<Longrightarrow> c = d"
  by (metis char_of_char)

lemma char_of_eq_char: "n < 256 \<Longrightarrow> char_of n = c \<longleftrightarrow> n = (of_char c :: nat)"
  by (auto simp: char_of_eq_iff take_bit_nat_eq_self)

subsection \<open>Decimal text\<close>

text \<open>
  Output of an unsigned number with \<open>operator<<\<close>, and the value of a string of digits.
\<close>

definition digit_char :: "nat \<Rightarrow> char" where
  "digit_char d = char_of (48 + d)"

fun show_nat :: "nat \<Rightarrow> string" where
  "show_nat n = (if n < 10 then [digit_char n] else show_nat (n div 10) @ [digit_char (n mod 10)])"

declare show_nat.simps [simp del]

definition digit_value :: "char \<Rightarrow> nat" where
  "digit_value c = of_char c - 48"

definition dec_value_from :: "nat \<Rightarrow> string \<Rightarrow> nat" where
  "dec_value_from acc ds = foldl (\<lambda>n c. n * 10 + digit_value c) acc ds"

definition dec_value :: "string \<Rightarrow> nat" where
  "dec_value ds = dec_value_from 0 ds"

definition is_digit :: "char \<Rightarrow> bool" where
  "is_digit c \<longleftrightarrow> CHR ''0'' \<le> c \<and> c \<le> CHR ''9''"

lemma is_digit_bounds: "is_digit c \<longleftrightarrow> 48 \<le> (of_char c :: nat) \<and> (of_char c :: nat) \<le> 57"
  by (simp add: is_digit_def char_simps)

lemma digit_value_less: "is_digit c \<Longrightarrow> digit_value c < 10"
  by (auto simp: is_digit_bounds digit_value_def)

lemma digit_char_facts:
  assumes "d < 10"
  shows "is_digit (digit_char d)" and "digit_value (digit_char d) = d"
  using assms by (simp_all add: is_digit_bounds digit_char_def digit_value_def)

lemma dec_value_from_simps [simp]:
  "dec_value_from n [] = n"
  "dec_value_from n (c # cs) = dec_value_from (n * 10 + digit_value c) cs"
  "dec_value_from n (cs @ ds) = dec_value_from (dec_value_from n cs) ds"
  by (simp_all add: dec_value_from_def)

lemma dec_value_from_ge: "n \<le> dec_value_from n cs"
proof (induction cs arbitrary: n)
  case (Cons c cs)
  have "n \<le> n * 10 + digit_value c" by simp
  also have "\<dots> \<le> dec_value_from (n * 10 + digit_value c) cs" by (rule Cons.IH)
  finally show ?case by simp
qed simp

lemma show_nat_digits: "c \<in> set (show_nat n) \<Longrightarrow> is_digit c"
proof (induction n rule: show_nat.induct)
  case (1 n)
  show ?case
  proof (cases "n < 10")
    case True
    with "1.prems" show ?thesis
      by (simp add: show_nat.simps [of n] digit_char_facts)
  next
    case False
    with "1.prems" have "c \<in> set (show_nat (n div 10)) \<or> c = digit_char (n mod 10)"
      by (auto simp: show_nat.simps [of n])
    then show ?thesis
      using "1.IH" False by (auto simp: digit_char_facts)
  qed
qed

lemma show_nat_not_Nil [simp]: "show_nat n \<noteq> []"
  by (subst show_nat.simps) simp

lemma dec_value_show_nat [simp]: "dec_value (show_nat n) = n"
proof (induction n rule: show_nat.induct)
  case (1 n)
  then show ?case
    by (cases "n < 10") (simp_all add: show_nat.simps [of n] dec_value_def digit_char_facts)
qed

subsection \<open>Ordered iteration over a finite set\<close>

lemma set_sorted_list_of_fset [simp]: "set (sorted_list_of_fset S) = fset S"
  by (simp add: sorted_list_of_fset.rep_eq)

lemma distinct_sorted_list_of_fset [simp]: "distinct (sorted_list_of_fset S)"
  by (simp add: sorted_list_of_fset.rep_eq)

text \<open>A loop keeps a predicate that each of its rounds keeps.\<close>

lemma fold_keeps:
  assumes "P s" and "\<And>x s. x \<in> set xs \<Longrightarrow> P s \<Longrightarrow> P (f x s)"
  shows "P (fold f xs s)"
  using assms by (induction xs arbitrary: s) auto

text \<open>An observation that no round of a loop changes is unchanged by the loop.\<close>

lemma fold_observes:
  assumes "\<And>x s. x \<in> set xs \<Longrightarrow> g (f x s) = g s"
  shows "g (fold f xs s) = g s"
  using assms by (induction xs arbitrary: s) auto

end
