(* ===== verification/Irc_Util.thy ===== *)
theory Irc_Util
  imports Irc_Prelude
begin

section \<open>IrcUtil and the numeric reply codes\<close>

text \<open>
  Models \<open>services/irc/prd/util/IrcUtil.cpp\<close> with its header (case mapping, validation,
  bounded number parsing, sanitising, comma lists) and \<open>util/Numerics.hpp\<close>. All functions
  are stateless. \<open>std::size_t\<close> arithmetic that can overflow is 64-bit word arithmetic.
\<close>

subsection \<open>Limits\<close>

definition IRC_MAX_LINE :: nat where "IRC_MAX_LINE = 512"
definition IRC_MAX_CONTENT :: nat where "IRC_MAX_CONTENT = 510"
definition NICKNAME_MAX_LENGTH :: nat where "NICKNAME_MAX_LENGTH = 9"
definition CHANNEL_NAME_MAX_LENGTH :: nat where "CHANNEL_NAME_MAX_LENGTH = 50"

subsection \<open>Numeric replies\<close>

definition RPL_WELCOME :: int where [numeric_codes]: "RPL_WELCOME = 1"
definition RPL_YOURHOST :: int where [numeric_codes]: "RPL_YOURHOST = 2"
definition RPL_CREATED :: int where [numeric_codes]: "RPL_CREATED = 3"
definition RPL_MYINFO :: int where [numeric_codes]: "RPL_MYINFO = 4"
definition RPL_CHANNELMODEIS :: int where [numeric_codes]: "RPL_CHANNELMODEIS = 324"
definition RPL_NOTOPIC :: int where [numeric_codes]: "RPL_NOTOPIC = 331"
definition RPL_TOPIC :: int where [numeric_codes]: "RPL_TOPIC = 332"
definition RPL_INVITING :: int where [numeric_codes]: "RPL_INVITING = 341"
definition RPL_NAMREPLY :: int where [numeric_codes]: "RPL_NAMREPLY = 353"
definition RPL_ENDOFNAMES :: int where [numeric_codes]: "RPL_ENDOFNAMES = 366"
definition ERR_NOSUCHNICK :: int where [numeric_codes]: "ERR_NOSUCHNICK = 401"
definition ERR_NOSUCHCHANNEL :: int where [numeric_codes]: "ERR_NOSUCHCHANNEL = 403"
definition ERR_CANNOTSENDTOCHAN :: int where [numeric_codes]: "ERR_CANNOTSENDTOCHAN = 404"
definition ERR_NOORIGIN :: int where [numeric_codes]: "ERR_NOORIGIN = 409"
definition ERR_NORECIPIENT :: int where [numeric_codes]: "ERR_NORECIPIENT = 411"
definition ERR_NOTEXTTOSEND :: int where [numeric_codes]: "ERR_NOTEXTTOSEND = 412"
definition ERR_UNKNOWNCOMMAND :: int where [numeric_codes]: "ERR_UNKNOWNCOMMAND = 421"
definition ERR_NOMOTD :: int where [numeric_codes]: "ERR_NOMOTD = 422"
definition ERR_NONICKNAMEGIVEN :: int where [numeric_codes]: "ERR_NONICKNAMEGIVEN = 431"
definition ERR_ERRONEUSNICKNAME :: int where [numeric_codes]: "ERR_ERRONEUSNICKNAME = 432"
definition ERR_NICKNAMEINUSE :: int where [numeric_codes]: "ERR_NICKNAMEINUSE = 433"
definition ERR_USERNOTINCHANNEL :: int where [numeric_codes]: "ERR_USERNOTINCHANNEL = 441"
definition ERR_NOTONCHANNEL :: int where [numeric_codes]: "ERR_NOTONCHANNEL = 442"
definition ERR_USERONCHANNEL :: int where [numeric_codes]: "ERR_USERONCHANNEL = 443"
definition ERR_NOTREGISTERED :: int where [numeric_codes]: "ERR_NOTREGISTERED = 451"
definition ERR_NEEDMOREPARAMS :: int where [numeric_codes]: "ERR_NEEDMOREPARAMS = 461"
definition ERR_ALREADYREGISTRED :: int where [numeric_codes]: "ERR_ALREADYREGISTRED = 462"
definition ERR_PASSWDMISMATCH :: int where [numeric_codes]: "ERR_PASSWDMISMATCH = 464"
definition ERR_CHANNELISFULL :: int where [numeric_codes]: "ERR_CHANNELISFULL = 471"
definition ERR_UNKNOWNMODE :: int where [numeric_codes]: "ERR_UNKNOWNMODE = 472"
definition ERR_INVITEONLYCHAN :: int where [numeric_codes]: "ERR_INVITEONLYCHAN = 473"
definition ERR_BADCHANNELKEY :: int where [numeric_codes]: "ERR_BADCHANNELKEY = 475"
definition ERR_CHANOPRIVSNEEDED :: int where [numeric_codes]: "ERR_CHANOPRIVSNEEDED = 482"

subsection \<open>Character classes\<close>

definition isAsciiLetter :: "char \<Rightarrow> bool" where
  "isAsciiLetter c \<longleftrightarrow> (CHR ''A'' \<le> c \<and> c \<le> CHR ''Z'') \<or> (CHR ''a'' \<le> c \<and> c \<le> CHR ''z'')"

definition isAsciiDigit :: "char \<Rightarrow> bool" where
  "isAsciiDigit c \<longleftrightarrow> CHR ''0'' \<le> c \<and> c \<le> CHR ''9''"

definition isNicknameSpecial :: "char \<Rightarrow> bool" where
  "isNicknameSpecial c \<longleftrightarrow> c = CHR ''['' \<or> c = CHR '']'' \<or> c = CHR 0x5C \<or> c = CHR 0x60
     \<or> c = CHR ''_'' \<or> c = CHR ''^'' \<or> c = CHR ''{'' \<or> c = CHR ''|'' \<or> c = CHR ''}''"

subsection \<open>Case mapping\<close>

definition upperAsciiChar :: "char \<Rightarrow> char" where
  "upperAsciiChar c =
     (if CHR ''a'' \<le> c \<and> c \<le> CHR ''z''
      then char_of (of_char c - of_char (CHR ''a'') + of_char (CHR ''A'') :: nat) else c)"

definition toUpperAscii :: "string \<Rightarrow> string" where
  "toUpperAscii value = map upperAsciiChar value"

definition foldChar :: "char \<Rightarrow> char" where
  "foldChar c =
     (if CHR ''A'' \<le> c \<and> c \<le> CHR ''Z''
      then char_of (of_char c - of_char (CHR ''A'') + of_char (CHR ''a'') :: nat)
      else if c = CHR ''['' then CHR ''{''
      else if c = CHR '']'' then CHR ''}''
      else if c = CHR 0x5C then CHR ''|''
      else if c = CHR ''^'' then CHR ''~''
      else c)"

definition ircCaseFold :: "string \<Rightarrow> string" where
  "ircCaseFold value = map foldChar value"

definition normalizeChannelName :: "string \<Rightarrow> string" where
  "normalizeChannelName value = ircCaseFold value"

subsection \<open>Validation\<close>

definition isValidNickname :: "string \<Rightarrow> bool" where
  "isValidNickname value \<longleftrightarrow>
     value \<noteq> [] \<and> length value \<le> NICKNAME_MAX_LENGTH
     \<and> (isAsciiLetter (value ! 0) \<or> isNicknameSpecial (value ! 0))
     \<and> list_all (\<lambda>c. isAsciiLetter c \<or> isAsciiDigit c \<or> isNicknameSpecial c \<or> c = CHR ''-'')
         (drop 1 value)"

definition isValidChannelName :: "string \<Rightarrow> bool" where
  "isValidChannelName value \<longleftrightarrow>
     2 \<le> length value \<and> length value \<le> CHANNEL_NAME_MAX_LENGTH
     \<and> value ! 0 = CHR ''#''
     \<and> list_all (\<lambda>c. \<not> (c = SP \<or> c = CHR '','' \<or> c = CHR '':'' \<or> c = BEL \<or> c = CR
                     \<or> c = LF \<or> c = NUL)) (drop 1 value)"

text \<open>
  The loop of \<open>parsePositiveSize\<close>: \<open>parsed\<close> is a 64-bit \<open>std::size_t\<close>, and the guard
  compares it with \<open>(maximum - digit) / 10\<close> before it multiplies.
\<close>

fun parseSizeLoop :: "64 word \<Rightarrow> string \<Rightarrow> 64 word option" where
  "parseSizeLoop parsed [] = Some parsed"
| "parseSizeLoop parsed (c # cs) =
     (if \<not> isAsciiDigit c then None
      else let digit = (word_of_nat (of_char c - of_char (CHR ''0'')) :: 64 word)
           in if (- 1 - digit) div 10 < parsed then None
              else parseSizeLoop (parsed * 10 + digit) cs)"

definition parsePositiveSize :: "string \<Rightarrow> 64 word option" where
  "parsePositiveSize value =
     (if value = [] then None
      else case parseSizeLoop 0 value of
             None \<Rightarrow> None
           | Some parsed \<Rightarrow> if parsed = 0 then None else Some parsed)"

definition fitsIrcLine :: "string \<Rightarrow> bool" where
  "fitsIrcLine withoutCrlf \<longleftrightarrow> length withoutCrlf \<le> IRC_MAX_CONTENT"

definition isSafeToken :: "string \<Rightarrow> bool" where
  "isSafeToken value \<longleftrightarrow>
     value \<noteq> [] \<and> value ! 0 \<noteq> CHR '':''
     \<and> list_all (\<lambda>c. \<not> (c = SP \<or> c = CR \<or> c = LF \<or> c = NUL)) value"

subsection \<open>String operations\<close>

definition sanitizeMessageText :: "string \<Rightarrow> string" where
  "sanitizeMessageText value = filter (\<lambda>c. c \<noteq> CR \<and> c \<noteq> LF \<and> c \<noteq> NUL) value"

text \<open>The loop of \<open>splitCommaList\<close> on what is left of the value after \<open>start\<close>.\<close>

function splitCommaFrom :: "string \<Rightarrow> string list" where
  "splitCommaFrom s =
     (case find_char (CHR '','') s of
        None \<Rightarrow> [s]
      | Some pos \<Rightarrow> take pos s # splitCommaFrom (drop (pos + 1) s))"
  by pat_completeness auto
termination
  by (relation "measure length") (auto dest: find_char_less)

declare splitCommaFrom.simps [simp del]

definition splitCommaList :: "string \<Rightarrow> string list" where
  "splitCommaList value = (if value = [] then [] else splitCommaFrom value)"

subsection \<open>Case mapping: lemmas\<close>

lemma foldChar_idem [simp]: "foldChar (foldChar c) = foldChar c"
  by (auto simp: foldChar_def char_simps char_of_eq_char)

lemma ircCaseFold_idem [simp]: "ircCaseFold (ircCaseFold s) = ircCaseFold s"
  by (simp add: ircCaseFold_def)

lemma normalizeChannelName_idem [simp]:
  "normalizeChannelName (normalizeChannelName s) = normalizeChannelName s"
  by (simp add: normalizeChannelName_def)

lemma ircCaseFold_Nil_iff [simp]: "ircCaseFold s = [] \<longleftrightarrow> s = []"
  by (simp add: ircCaseFold_def)

lemma upperAsciiChar_idem [simp]: "upperAsciiChar (upperAsciiChar c) = upperAsciiChar c"
  by (auto simp: upperAsciiChar_def char_simps char_of_eq_char)

lemma toUpperAscii_idem [simp]: "toUpperAscii (toUpperAscii s) = toUpperAscii s"
  by (simp add: toUpperAscii_def)

lemma toUpperAscii_Nil_iff [simp]: "toUpperAscii s = [] \<longleftrightarrow> s = []"
  by (simp add: toUpperAscii_def)

lemma upperAsciiChar_control:
  "of_char d < (65 :: nat) \<Longrightarrow> upperAsciiChar c = d \<longleftrightarrow> c = d"
  by (auto simp: upperAsciiChar_def char_simps char_of_eq_char)

lemma set_toUpperAscii_control:
  "of_char d < (65 :: nat) \<Longrightarrow> d \<in> set (toUpperAscii s) \<longleftrightarrow> d \<in> set s"
  using upperAsciiChar_control [of d] by (force simp: toUpperAscii_def)

subsection \<open>Clean text: no CR, LF or NUL\<close>

text \<open>
  The contents of one line on the wire. Clean text followed by CRLF is read back as
  exactly one line, whoever supplied the bytes.
\<close>

definition clean_text :: "string \<Rightarrow> bool" where
  "clean_text s \<longleftrightarrow> CR \<notin> set s \<and> LF \<notin> set s \<and> NUL \<notin> set s"

lemma clean_text_simps [simp]:
  "clean_text []"
  "clean_text (c # s) \<longleftrightarrow> c \<noteq> CR \<and> c \<noteq> LF \<and> c \<noteq> NUL \<and> clean_text s"
  "clean_text (s @ t) \<longleftrightarrow> clean_text s \<and> clean_text t"
  by (auto simp: clean_text_def)

lemma clean_sanitize [simp]: "clean_text (sanitizeMessageText s)"
  by (auto simp: clean_text_def sanitizeMessageText_def)

lemma sanitize_clean [simp]: "clean_text s \<Longrightarrow> sanitizeMessageText s = s"
  by (auto simp: clean_text_def sanitizeMessageText_def filter_id_conv)

lemma sanitize_simps [simp]:
  "sanitizeMessageText [] = []"
  "sanitizeMessageText (s @ t) = sanitizeMessageText s @ sanitizeMessageText t"
  by (simp_all add: sanitizeMessageText_def)

lemma sanitize_Cons:
  "sanitizeMessageText (c # s)
     = (if c \<noteq> CR \<and> c \<noteq> LF \<and> c \<noteq> NUL then c # sanitizeMessageText s else sanitizeMessageText s)"
  by (simp add: sanitizeMessageText_def)

lemma clean_show_nat [simp]: "clean_text (show_nat n)"
  by (auto simp: clean_text_def is_digit_bounds dest: show_nat_digits)

lemma safe_token_clean: "isSafeToken s \<Longrightarrow> clean_text s"
  by (auto simp: isSafeToken_def clean_text_def list_all_iff)

subsection \<open>Nicknames and channel names are safe tokens\<close>

lemma nickname_char_safe:
  assumes "isAsciiLetter c \<or> isAsciiDigit c \<or> isNicknameSpecial c \<or> c = CHR ''-''"
  shows "c \<noteq> SP \<and> c \<noteq> CR \<and> c \<noteq> LF \<and> c \<noteq> NUL \<and> c \<noteq> CHR '':'' \<and> c \<noteq> CHR '',''"
  using assms
  by (auto simp: isAsciiLetter_def isAsciiDigit_def isNicknameSpecial_def char_simps)

lemma isValidNickname_chars:
  assumes "isValidNickname s" and "c \<in> set s"
  shows "isAsciiLetter c \<or> isAsciiDigit c \<or> isNicknameSpecial c \<or> c = CHR ''-''"
  using assms by (cases s) (auto simp: isValidNickname_def list_all_iff)

lemma isValidNickname_safe: "isValidNickname s \<Longrightarrow> isSafeToken s"
proof -
  assume v: "isValidNickname s"
  then have ne: "s \<noteq> []" by (auto simp: isValidNickname_def)
  have ok: "c \<noteq> SP \<and> c \<noteq> CR \<and> c \<noteq> LF \<and> c \<noteq> NUL \<and> c \<noteq> CHR '':''"
    if "c \<in> set s" for c
    using nickname_char_safe [OF isValidNickname_chars [OF v that]] by simp
  with ne nth_mem [of 0 s] show ?thesis
    by (simp add: isSafeToken_def list_all_iff)
qed

lemma isValidNickname_not_Nil: "isValidNickname s \<Longrightarrow> s \<noteq> []"
  by (auto simp: isValidNickname_def)

lemma isValidChannelName_clean: "isValidChannelName s \<Longrightarrow> clean_text s"
  by (cases s) (auto simp: isValidChannelName_def clean_text_def list_all_iff)

lemma isValidChannelName_not_Nil: "isValidChannelName s \<Longrightarrow> s \<noteq> []"
  by (auto simp: isValidChannelName_def)

subsection \<open>Bounded number parsing\<close>

lemma isAsciiDigit_is_digit: "isAsciiDigit = is_digit"
  by (rule ext) (simp add: isAsciiDigit_def is_digit_def)

lemma size_guard:
  fixes p :: "64 word"
  assumes "d < 10"
  shows "(- 1 - word_of_nat d) div 10 < p \<longleftrightarrow> 2 ^ 64 \<le> unat p * 10 + d"
proof -
  have d: "unat (word_of_nat d :: 64 word) = d"
    using assms by (simp add: unat_of_nat)
  have m: "unat (- 1 :: 64 word) = 2 ^ 64 - 1"
    by (simp add: unsigned_minus_1_eq_mask mask_eq_exp_minus_1)
  have "unat ((- 1 - word_of_nat d :: 64 word) div 10) = (2 ^ 64 - 1 - d) div 10"
    using assms by (simp add: unat_div unat_sub_if' d m)
  then have "(- 1 - word_of_nat d) div 10 < p \<longleftrightarrow> (2 ^ 64 - 1 - d) div 10 < unat p"
    by (simp add: word_less_nat_alt)
  also have "\<dots> \<longleftrightarrow> 2 ^ 64 \<le> unat p * 10 + d"
    using assms by (simp add: div_less_iff_less_mult) arith
  finally show ?thesis .
qed

lemma unat_size_step:
  fixes p :: "64 word"
  assumes "unat p * 10 + d < 2 ^ 64"
  shows "unat (p * 10 + word_of_nat d) = unat p * 10 + d"
  using assms by (simp add: unat_word_ariths unat_of_nat mod_simps)

lemma parseSizeLoop_correct:
  "parseSizeLoop p cs =
     (if list_all is_digit cs \<and> dec_value_from (unat p) cs < 2 ^ 64
      then Some (word_of_nat (dec_value_from (unat p) cs)) else None)"
proof (induction cs arbitrary: p)
  case Nil
  have "unat p < 2 ^ 64" using unsigned_less [of p] by simp
  then show ?case by simp
next
  case (Cons c cs)
  show ?case
  proof (cases "is_digit c")
    case False
    then show ?thesis by (simp add: isAsciiDigit_is_digit)
  next
    case True
    let ?d = "digit_value c"
    have d: "?d < 10" using True by (rule digit_value_less)
    have dv: "of_char c - 48 = ?d" by (simp add: digit_value_def)
    note ge = dec_value_from_ge [of "unat p * 10 + ?d" cs]
    show ?thesis
    proof (cases "2 ^ 64 \<le> unat p * 10 + ?d")
      case True
      with ge \<open>is_digit c\<close> show ?thesis
        by (simp add: isAsciiDigit_is_digit dv Let_def size_guard [OF d])
    next
      case False
      with \<open>is_digit c\<close> show ?thesis
        by (simp add: isAsciiDigit_is_digit dv Let_def size_guard [OF d] Cons.IH unat_size_step)
    qed
  qed
qed

lemma parsePositiveSize_Some_iff:
  "parsePositiveSize v = Some w \<longleftrightarrow>
     v \<noteq> [] \<and> list_all is_digit v \<and> 0 < dec_value v \<and> dec_value v < 2 ^ 64
     \<and> unat w = dec_value v"
proof -
  have "word_of_nat n = (0 :: 64 word) \<longleftrightarrow> n = 0" and "unat (word_of_nat n :: 64 word) = n"
    if "n < 2 ^ 64" for n
    using that by (simp_all add: unat_of_nat unsigned_of_nat take_bit_nat_eq_self word_of_nat_eq_0_iff
        nat_dvd_not_less) (metis nat_dvd_not_less neq0_conv dvd_0_right)
  then show ?thesis
    by (auto simp: parsePositiveSize_def parseSizeLoop_correct dec_value_def
        split: option.splits if_splits) (metis of_nat_unat ucast_id)
qed

subsection \<open>Comma lists\<close>

text \<open>The inverse of \<open>splitCommaList\<close>: elements joined by commas.\<close>

fun join_commas :: "string list \<Rightarrow> string" where
  "join_commas [] = []"
| "join_commas [x] = x"
| "join_commas (x # xs) = x @ CHR '','' # join_commas xs"

lemma splitCommaFrom_no_comma: "CHR '','' \<notin> set s \<Longrightarrow> splitCommaFrom s = [s]"
  by (subst splitCommaFrom.simps) simp

lemma splitCommaFrom_comma:
  "CHR '','' \<notin> set a \<Longrightarrow> splitCommaFrom (a @ CHR '','' # b) = a # splitCommaFrom b"
  by (subst splitCommaFrom.simps) simp

lemma splitCommaFrom_not_Nil [simp]: "splitCommaFrom s \<noteq> []"
  by (subst splitCommaFrom.simps) (simp split: option.splits)

lemma splitCommaFrom_join:
  "xs \<noteq> [] \<Longrightarrow> \<forall>x \<in> set xs. CHR '','' \<notin> set x \<Longrightarrow> splitCommaFrom (join_commas xs) = xs"
  by (induction xs rule: join_commas.induct)
    (simp_all add: splitCommaFrom_no_comma splitCommaFrom_comma)

lemma splitCommaFrom_inverse:
  "join_commas (splitCommaFrom s) = s \<and> (\<forall>x \<in> set (splitCommaFrom s). CHR '','' \<notin> set x)"
proof (induction s rule: splitCommaFrom.induct)
  case (1 s)
  show ?case
  proof (cases "find_char (CHR '','') s")
    case None
    then show ?thesis by (simp add: splitCommaFrom_no_comma)
  next
    case (Some pos)
    then obtain a b where s: "s = a @ CHR '','' # b" and a: "CHR '','' \<notin> set a"
      and pos: "pos = length a"
      by (rule find_char_SomeE)
    have "drop (pos + 1) s = b" by (simp add: s pos)
    with "1.IH" [OF Some] have "join_commas (splitCommaFrom b) = b"
      and "\<forall>x \<in> set (splitCommaFrom b). CHR '','' \<notin> set x" by simp_all
    then show ?thesis
      by (cases "splitCommaFrom b") (simp_all add: s a splitCommaFrom_comma)
  qed
qed

end
