(* ===== verification/Irc_Channel.thy ===== *)
theory Irc_Channel
  imports Irc_Util
begin

section \<open>Channel: membership and modes\<close>

text \<open>
  Models \<open>services/irc/prd/domain/Channel.hpp\<close> and \<open>Channel.cpp\<close>: names, topic, the three
  sets of file descriptors (members, operators, invited) and the modes \<open>i\<close>, \<open>t\<close>, \<open>k\<close>,
  \<open>l\<close>. Getters are the record's selectors; operations that report whether a set changed
  return the flag with the new channel. \<open>_userLimit\<close> is a 64-bit \<open>std::size_t\<close>.
\<close>

record channel =
  ch_name :: string
  ch_keyName :: string
  ch_topic :: string
  ch_members :: "int fset"
  ch_operators :: "int fset"
  ch_invited :: "int fset"
  ch_inviteOnly :: bool
  ch_topicRestricted :: bool
  ch_keyEnabled :: bool
  ch_channelKey :: string
  ch_limitEnabled :: bool
  ch_userLimit :: "64 word"

definition new_channel :: "string \<Rightarrow> string \<Rightarrow> channel" where
  "new_channel name keyName =
     \<lparr>ch_name = name, ch_keyName = keyName, ch_topic = [], ch_members = {||},
      ch_operators = {||}, ch_invited = {||}, ch_inviteOnly = False,
      ch_topicRestricted = True, ch_keyEnabled = False, ch_channelKey = [],
      ch_limitEnabled = False, ch_userLimit = 0\<rparr>"

definition default_channel :: channel where
  "default_channel = new_channel [] []"

subsection \<open>Topic and members\<close>

definition setTopic :: "string \<Rightarrow> channel \<Rightarrow> channel" where
  "setTopic topic ch = ch\<lparr>ch_topic := topic\<rparr>"

definition hasTopic :: "channel \<Rightarrow> bool" where
  "hasTopic ch \<longleftrightarrow> ch_topic ch \<noteq> []"

definition getMemberCount :: "channel \<Rightarrow> nat" where
  "getMemberCount ch = fcard (ch_members ch)"

definition isEmpty :: "channel \<Rightarrow> bool" where
  "isEmpty ch \<longleftrightarrow> ch_members ch = {||}"

definition hasMember :: "int \<Rightarrow> channel \<Rightarrow> bool" where
  "hasMember fd ch \<longleftrightarrow> fd |\<in>| ch_members ch"

definition addMember :: "int \<Rightarrow> channel \<Rightarrow> bool \<times> channel" where
  "addMember fd ch =
     (fd |\<notin>| ch_members ch, ch\<lparr>ch_members := finsert fd (ch_members ch)\<rparr>)"

definition removeMember :: "int \<Rightarrow> channel \<Rightarrow> bool \<times> channel" where
  "removeMember fd ch =
     (fd |\<in>| ch_members ch,
      ch\<lparr>ch_members := ch_members ch |-| {|fd|}, ch_operators := ch_operators ch |-| {|fd|}\<rparr>)"

subsection \<open>Operators and invitations\<close>

definition isOperator :: "int \<Rightarrow> channel \<Rightarrow> bool" where
  "isOperator fd ch \<longleftrightarrow> fd |\<in>| ch_operators ch"

definition addOperator :: "int \<Rightarrow> channel \<Rightarrow> bool \<times> channel" where
  "addOperator fd ch =
     (if \<not> hasMember fd ch then (False, ch)
      else (fd |\<notin>| ch_operators ch, ch\<lparr>ch_operators := finsert fd (ch_operators ch)\<rparr>))"

definition removeOperator :: "int \<Rightarrow> channel \<Rightarrow> bool \<times> channel" where
  "removeOperator fd ch =
     (fd |\<in>| ch_operators ch, ch\<lparr>ch_operators := ch_operators ch |-| {|fd|}\<rparr>)"

definition isInvited :: "int \<Rightarrow> channel \<Rightarrow> bool" where
  "isInvited fd ch \<longleftrightarrow> fd |\<in>| ch_invited ch"

definition addInvite :: "int \<Rightarrow> channel \<Rightarrow> bool \<times> channel" where
  "addInvite fd ch =
     (fd |\<notin>| ch_invited ch, ch\<lparr>ch_invited := finsert fd (ch_invited ch)\<rparr>)"

definition removeInvite :: "int \<Rightarrow> channel \<Rightarrow> bool \<times> channel" where
  "removeInvite fd ch =
     (fd |\<in>| ch_invited ch, ch\<lparr>ch_invited := ch_invited ch |-| {|fd|}\<rparr>)"

subsection \<open>Modes\<close>

definition setInviteOnly :: "bool \<Rightarrow> channel \<Rightarrow> channel" where
  "setInviteOnly enabled ch = ch\<lparr>ch_inviteOnly := enabled\<rparr>"

definition setTopicRestricted :: "bool \<Rightarrow> channel \<Rightarrow> channel" where
  "setTopicRestricted enabled ch = ch\<lparr>ch_topicRestricted := enabled\<rparr>"

definition setChannelKey :: "string \<Rightarrow> channel \<Rightarrow> channel" where
  "setChannelKey key ch = ch\<lparr>ch_channelKey := key, ch_keyEnabled := True\<rparr>"

definition clearChannelKey :: "channel \<Rightarrow> channel" where
  "clearChannelKey ch = ch\<lparr>ch_channelKey := [], ch_keyEnabled := False\<rparr>"

definition matchesKey :: "string \<Rightarrow> channel \<Rightarrow> bool" where
  "matchesKey key ch \<longleftrightarrow> (if \<not> ch_keyEnabled ch then True else ch_channelKey ch = key)"

definition setUserLimit :: "64 word \<Rightarrow> channel \<Rightarrow> channel" where
  "setUserLimit limit ch = ch\<lparr>ch_userLimit := limit, ch_limitEnabled := True\<rparr>"

definition clearUserLimit :: "channel \<Rightarrow> channel" where
  "clearUserLimit ch = ch\<lparr>ch_userLimit := 0, ch_limitEnabled := False\<rparr>"

definition isFull :: "channel \<Rightarrow> bool" where
  "isFull ch \<longleftrightarrow>
     (if \<not> ch_limitEnabled ch then False else unat (ch_userLimit ch) \<le> fcard (ch_members ch))"

definition buildModeString :: "channel \<Rightarrow> string" where
  "buildModeString ch =
     ''+'' @ (if ch_inviteOnly ch then ''i'' else [])
     @ (if ch_topicRestricted ch then ''t'' else [])
     @ (if ch_keyEnabled ch then ''k'' else [])
     @ (if ch_limitEnabled ch then ''l'' else [])"

definition buildModeParameters :: "channel \<Rightarrow> string list" where
  "buildModeParameters ch =
     (if ch_keyEnabled ch then [ch_channelKey ch] else [])
     @ (if ch_limitEnabled ch then [show_nat (unat (ch_userLimit ch))] else [])"

lemmas channel_defs = new_channel_def setTopic_def hasTopic_def isEmpty_def hasMember_def
  addMember_def removeMember_def isOperator_def addOperator_def removeOperator_def
  isInvited_def addInvite_def removeInvite_def setInviteOnly_def setTopicRestricted_def
  setChannelKey_def clearChannelKey_def matchesKey_def setUserLimit_def clearUserLimit_def
  isFull_def getMemberCount_def

subsection \<open>The invariant of a channel\<close>

text \<open>
  Operators are members; a channel's key name is the normalised display name; the mode
  flags and the stored values agree.
\<close>

definition wf_channel :: "channel \<Rightarrow> bool" where
  "wf_channel ch \<longleftrightarrow>
     ch_operators ch |\<subseteq>| ch_members ch
     \<and> ch_keyName ch = normalizeChannelName (ch_name ch)
     \<and> isValidChannelName (ch_name ch)
     \<and> (\<not> ch_keyEnabled ch \<longrightarrow> ch_channelKey ch = [])
     \<and> (\<not> ch_limitEnabled ch \<longrightarrow> ch_userLimit ch = 0)"

lemma wf_new_channel:
  "isValidChannelName name \<Longrightarrow> wf_channel (new_channel name (normalizeChannelName name))"
  by (simp add: wf_channel_def new_channel_def)

lemma wf_channel_ops:
  assumes "wf_channel ch"
  shows "wf_channel (snd (addMember fd ch))" and "wf_channel (snd (removeMember fd ch))"
    and "wf_channel (snd (addOperator fd ch))" and "wf_channel (snd (removeOperator fd ch))"
    and "wf_channel (snd (addInvite fd ch))" and "wf_channel (snd (removeInvite fd ch))"
    and "wf_channel (setTopic t ch)" and "wf_channel (setInviteOnly b ch)"
    and "wf_channel (setTopicRestricted b ch)" and "wf_channel (setChannelKey k ch)"
    and "wf_channel (clearChannelKey ch)" and "wf_channel (setUserLimit n ch)"
    and "wf_channel (clearUserLimit ch)"
  using assms by (auto simp: wf_channel_def channel_defs)

end
