(* ===== verification/Irc_Client.thy ===== *)
theory Irc_Client
  imports Irc_Util
begin

section \<open>Client: one connection\<close>

text \<open>
  Models \<open>services/irc/prd/domain/Client.hpp\<close> and \<open>Client.cpp\<close>: the record of a connection
  and its operations. The getters of the class are the record's selectors. A file
  descriptor is an \<open>int\<close>, the set of joined channels a finite set of normalised names.
  Operations that return whether the set changed return the flag with the new state.
\<close>

record client =
  cl_fd :: int
  cl_nickname :: string
  cl_username :: string
  cl_realname :: string
  cl_hostname :: string
  cl_receiveBuffer :: string
  cl_sendBuffer :: string
  cl_passwordAccepted :: bool
  cl_userReceived :: bool
  cl_registered :: bool
  cl_joinedChannels :: "string fset"

definition new_client :: "int \<Rightarrow> string \<Rightarrow> client" where
  "new_client fd hostname =
     \<lparr>cl_fd = fd, cl_nickname = [], cl_username = [], cl_realname = [], cl_hostname = hostname,
      cl_receiveBuffer = [], cl_sendBuffer = [], cl_passwordAccepted = False,
      cl_userReceived = False, cl_registered = False, cl_joinedChannels = {||}\<rparr>"

definition default_client :: client where
  "default_client = new_client (- 1) []"

subsection \<open>Identity and registration\<close>

definition setNickname :: "string \<Rightarrow> client \<Rightarrow> client" where
  "setNickname nickname c = c\<lparr>cl_nickname := nickname\<rparr>"

definition setUser :: "string \<Rightarrow> string \<Rightarrow> client \<Rightarrow> client" where
  "setUser username realname c =
     c\<lparr>cl_username := username, cl_realname := realname, cl_userReceived := True\<rparr>"

definition hasNickname :: "client \<Rightarrow> bool" where
  "hasNickname c \<longleftrightarrow> cl_nickname c \<noteq> []"

definition acceptPassword :: "client \<Rightarrow> client" where
  "acceptPassword c = c\<lparr>cl_passwordAccepted := True\<rparr>"

definition tryCompleteRegistration :: "client \<Rightarrow> bool \<times> client" where
  "tryCompleteRegistration c =
     (if cl_registered c then (False, c)
      else if cl_passwordAccepted c \<and> hasNickname c \<and> cl_userReceived c
      then (True, c\<lparr>cl_registered := True\<rparr>)
      else (False, c))"

subsection \<open>Buffers\<close>

definition appendReceiveBuffer :: "string \<Rightarrow> client \<Rightarrow> client" where
  "appendReceiveBuffer data c =
     (if data = [] then c else c\<lparr>cl_receiveBuffer := cl_receiveBuffer c @ data\<rparr>)"

definition eraseReceivePrefix :: "nat \<Rightarrow> client \<Rightarrow> client" where
  "eraseReceivePrefix len c =
     (if length (cl_receiveBuffer c) \<le> len then c\<lparr>cl_receiveBuffer := []\<rparr>
      else c\<lparr>cl_receiveBuffer := drop len (cl_receiveBuffer c)\<rparr>)"

definition hasPendingOutput :: "client \<Rightarrow> bool" where
  "hasPendingOutput c \<longleftrightarrow> cl_sendBuffer c \<noteq> []"

definition appendSendBuffer :: "string \<Rightarrow> client \<Rightarrow> client" where
  "appendSendBuffer data c = c\<lparr>cl_sendBuffer := cl_sendBuffer c @ data\<rparr>"

definition eraseSendPrefix :: "nat \<Rightarrow> client \<Rightarrow> client" where
  "eraseSendPrefix len c =
     (if length (cl_sendBuffer c) \<le> len then c\<lparr>cl_sendBuffer := []\<rparr>
      else c\<lparr>cl_sendBuffer := drop len (cl_sendBuffer c)\<rparr>)"

definition clearBuffers :: "client \<Rightarrow> client" where
  "clearBuffers c = c\<lparr>cl_receiveBuffer := [], cl_sendBuffer := []\<rparr>"

subsection \<open>Channels the client has joined\<close>

definition hasJoinedChannel :: "string \<Rightarrow> client \<Rightarrow> bool" where
  "hasJoinedChannel key c \<longleftrightarrow> key |\<in>| cl_joinedChannels c"

definition addJoinedChannel :: "string \<Rightarrow> client \<Rightarrow> bool \<times> client" where
  "addJoinedChannel key c =
     (key |\<notin>| cl_joinedChannels c,
      c\<lparr>cl_joinedChannels := finsert key (cl_joinedChannels c)\<rparr>)"

definition removeJoinedChannel :: "string \<Rightarrow> client \<Rightarrow> bool \<times> client" where
  "removeJoinedChannel key c =
     (key |\<in>| cl_joinedChannels c,
      c\<lparr>cl_joinedChannels := cl_joinedChannels c |-| {|key|}\<rparr>)"

subsection \<open>Lemmas\<close>

text \<open>Erasing a prefix is \<open>drop\<close>, whichever branch the code takes.\<close>

lemma eraseReceivePrefix_eq:
  "eraseReceivePrefix len c = c\<lparr>cl_receiveBuffer := drop len (cl_receiveBuffer c)\<rparr>"
  by (simp add: eraseReceivePrefix_def)

lemma appendReceiveBuffer_eq:
  "appendReceiveBuffer data c = c\<lparr>cl_receiveBuffer := cl_receiveBuffer c @ data\<rparr>"
  by (simp add: appendReceiveBuffer_def)

lemma eraseSendPrefix_eq:
  "eraseSendPrefix len c = c\<lparr>cl_sendBuffer := drop len (cl_sendBuffer c)\<rparr>"
  by (simp add: eraseSendPrefix_def)

lemmas client_defs = new_client_def setNickname_def setUser_def acceptPassword_def
  hasPendingOutput_def appendSendBuffer_def hasNickname_def clearBuffers_def
  hasJoinedChannel_def addJoinedChannel_def removeJoinedChannel_def
  eraseReceivePrefix_eq appendReceiveBuffer_eq eraseSendPrefix_eq

text \<open>
  Registration: the three facts PASS, NICK and USER establish, and what the code
  guarantees of every client (\<open>wf_client\<close>).
\<close>

definition valid_username :: "string \<Rightarrow> bool" where
  "valid_username u \<longleftrightarrow>
     u \<noteq> [] \<and> SP \<notin> set u \<and> CHR ''@'' \<notin> set u \<and> CR \<notin> set u \<and> LF \<notin> set u \<and> NUL \<notin> set u"

definition wf_client :: "client \<Rightarrow> bool" where
  "wf_client c \<longleftrightarrow>
     (cl_nickname c = [] \<or> isValidNickname (cl_nickname c))
     \<and> (if cl_userReceived c then valid_username (cl_username c) else cl_username c = [])
     \<and> (cl_registered c \<longrightarrow>
          cl_passwordAccepted c \<and> cl_nickname c \<noteq> [] \<and> cl_userReceived c)
     \<and> (cl_joinedChannels c \<noteq> {||} \<longrightarrow> cl_registered c)"

lemma wf_new_client [simp]: "wf_client (new_client fd host)"
  by (simp add: wf_client_def new_client_def)

lemma wf_client_buffers [simp]:
  "wf_client (c\<lparr>cl_sendBuffer := b\<rparr>) \<longleftrightarrow> wf_client c"
  "wf_client (c\<lparr>cl_receiveBuffer := b\<rparr>) \<longleftrightarrow> wf_client c"
  by (simp_all add: wf_client_def)

lemma wf_client_accept: "wf_client c \<Longrightarrow> wf_client (acceptPassword c)"
  by (simp add: wf_client_def acceptPassword_def)

lemma wf_client_setNickname: "wf_client c \<Longrightarrow> isValidNickname n \<Longrightarrow> wf_client (setNickname n c)"
  by (auto simp: wf_client_def setNickname_def isValidNickname_def)

lemma wf_client_setUser:
  "wf_client c \<Longrightarrow> valid_username u \<Longrightarrow> wf_client (setUser u r c)"
  by (auto simp: wf_client_def setUser_def)

lemma wf_client_try: "wf_client c \<Longrightarrow> wf_client (snd (tryCompleteRegistration c))"
  by (auto simp: wf_client_def tryCompleteRegistration_def hasNickname_def)

end
