(* ===== verification/Irc_Reply.thy ===== *)
theory Irc_Reply
  imports Irc_Client
begin

section \<open>Reply: building the text of an outgoing line\<close>

text \<open>
  Models \<open>services/irc/prd/util/Reply.cpp\<close>. Every function returns the line without CRLF;
  the empty string reports an internal error (an unsafe token or a code out of range).
\<close>

definition clientPrefix :: "client \<Rightarrow> string" where
  "clientPrefix c =
     (let nickname = (if cl_nickname c = [] then ''*'' else cl_nickname c);
          username = (if cl_username c = [] then ''unknown'' else cl_username c);
          hostname = (if cl_hostname c = [] then ''0.0.0.0'' else cl_hostname c)
      in nickname @ ''!'' @ username @ ''@'' @ hostname)"

definition serverPrefix :: "string \<Rightarrow> string" where
  "serverPrefix serverName = serverName"

text \<open>\<open>std::setw(3) << std::setfill('0') << code\<close>\<close>

definition pad3 :: "nat \<Rightarrow> string" where
  "pad3 code = replicate (3 - length (show_nat code)) (CHR ''0'') @ show_nat code"

definition reply_numeric :: "string \<Rightarrow> client \<Rightarrow> int \<Rightarrow> string \<Rightarrow> string" where
  "reply_numeric serverName target code parameters =
     (if code < 0 \<or> 999 < code then []
      else if \<not> isSafeToken serverName then []
      else
        let targetName = (if cl_nickname target = [] then ''*'' else cl_nickname target)
        in if \<not> isSafeToken targetName then []
           else
             let line = '':'' @ serverName @ '' '' @ pad3 (nat code) @ '' '' @ targetName;
                 safeParameters = sanitizeMessageText parameters
             in if safeParameters \<noteq> [] then line @ '' '' @ safeParameters else line)"

definition reply_command :: "string \<Rightarrow> string \<Rightarrow> string \<Rightarrow> string" where
  "reply_command prefix cmd parameters =
     (if \<not> isSafeToken cmd then []
      else if prefix \<noteq> [] \<and> \<not> isSafeToken prefix then []
      else
        let result = (if prefix \<noteq> [] then '':'' @ prefix @ '' '' else []) @ cmd;
            safeParameters = sanitizeMessageText parameters
        in if safeParameters \<noteq> [] then result @ '' '' @ safeParameters else result)"

subsection \<open>Every reply is one clean line\<close>

lemma clean_replicate [simp]: "clean_text (replicate n c) \<longleftrightarrow> n = 0 \<or> (c \<noteq> CR \<and> c \<noteq> LF \<and> c \<noteq> NUL)"
  by (induction n) auto

lemma clean_pad3 [simp]: "clean_text (pad3 n)"
  by (simp add: pad3_def)

lemma clean_reply_numeric [simp]: "clean_text (reply_numeric srv c code ps)"
  by (auto simp: reply_numeric_def Let_def dest: safe_token_clean)

lemma clean_reply_command [simp]: "clean_text (reply_command prefix cmd ps)"
  by (auto simp: reply_command_def Let_def dest: safe_token_clean)

subsection \<open>Replies about well-formed clients are not empty\<close>

lemma safe_star [simp]: "isSafeToken ''*''"
  by (simp add: isSafeToken_def)

lemma safe_target:
  "wf_client c \<Longrightarrow> isSafeToken (if cl_nickname c = [] then ''*'' else cl_nickname c)"
  by (auto simp: wf_client_def isValidNickname_safe)

lemma reply_numeric_eq:
  assumes "wf_client c" and "isSafeToken srv" and "0 \<le> code" and "code \<le> 999"
  shows "reply_numeric srv c code ps =
    '':'' @ srv @ '' '' @ pad3 (nat code) @ '' ''
      @ (if cl_nickname c = [] then ''*'' else cl_nickname c)
      @ (if sanitizeMessageText ps = [] then [] else '' '' @ sanitizeMessageText ps)"
  using assms safe_target [OF assms(1)] by (simp add: reply_numeric_def Let_def split del: if_split) simp

lemma safe_clientPrefix:
  assumes "wf_client c" and "cl_hostname c = [] \<or> isSafeToken (cl_hostname c)"
  shows "isSafeToken (clientPrefix c)"
proof -
  let ?n = "if cl_nickname c = [] then ''*'' else cl_nickname c"
  let ?u = "if cl_username c = [] then ''unknown'' else cl_username c"
  let ?h = "if cl_hostname c = [] then ''0.0.0.0'' else cl_hostname c"
  have n: "isSafeToken ?n" by (rule safe_target [OF assms(1)])
  have u: "list_all (\<lambda>c. \<not> (c = SP \<or> c = CR \<or> c = LF \<or> c = NUL)) ?u"
    using assms(1) by (auto simp: wf_client_def valid_username_def list_all_iff split: if_splits)
  have h: "list_all (\<lambda>c. \<not> (c = SP \<or> c = CR \<or> c = LF \<or> c = NUL)) ?h"
    using assms(2) by (auto simp: isSafeToken_def list_all_iff)
  have eq: "clientPrefix c = ?n @ CHR ''!'' # ?u @ CHR ''@'' # ?h"
    by (simp add: clientPrefix_def)
  show ?thesis
    unfolding eq isSafeToken_def using n u h by (simp add: isSafeToken_def nth_append)
qed

end
