(* ===== verification/Poll_List.thy ===== *)
theory Poll_List
  imports Main
begin

section \<open>The poll list\<close>

text \<open>
  The entries \<open>struct pollfd\<close> both servers pass to \<open>poll\<close>, and the two walks both make over
  their list: to the first entry of a descriptor, to change its events or to erase it.
\<close>

datatype poll_flag = POLLIN | POLLOUT | POLLERR | POLLHUP | POLLNVAL

record pollfd =
  pf_fd :: int
  pf_events :: "poll_flag set"
  pf_revents :: "poll_flag set"

fun set_events :: "int \<Rightarrow> poll_flag set \<Rightarrow> pollfd list \<Rightarrow> pollfd list" where
  "set_events fd events [] = []"
| "set_events fd events (p # ps) =
     (if pf_fd p = fd then p\<lparr>pf_events := events\<rparr> # ps else p # set_events fd events ps)"

fun erase_pollfd :: "int \<Rightarrow> pollfd list \<Rightarrow> pollfd list" where
  "erase_pollfd fd [] = []"
| "erase_pollfd fd (p # ps) = (if pf_fd p = fd then ps else p # erase_pollfd fd ps)"

lemma map_pf_fd_set_events [simp]: "map pf_fd (set_events fd ev ps) = map pf_fd ps"
  by (induction ps) auto

lemma map_pf_fd_erase [simp]: "map pf_fd (erase_pollfd fd ps) = remove1 fd (map pf_fd ps)"
  by (induction ps) auto

lemma erase_pollfd_absent: "fd \<notin> pf_fd ` set ps \<Longrightarrow> erase_pollfd fd ps = ps"
  by (induction ps) auto

lemma set_events_map:
  "distinct (map pf_fd ps) \<Longrightarrow>
     set_events fd ev ps = map (\<lambda>p. if pf_fd p = fd then p\<lparr>pf_events := ev\<rparr> else p) ps"
proof (induction ps)
  case (Cons p ps)
  have "map (\<lambda>q. if pf_fd q = pf_fd p then q\<lparr>pf_events := ev\<rparr> else q) ps = ps"
    using Cons.prems by (intro map_idI) (force simp: image_iff)
  with Cons show ?case by auto
qed simp

lemma erase_pollfd_filter:
  "distinct (map pf_fd ps) \<Longrightarrow> erase_pollfd fd ps = filter (\<lambda>p. pf_fd p \<noteq> fd) ps"
proof (induction ps)
  case (Cons p ps)
  have "filter (\<lambda>q. pf_fd q \<noteq> pf_fd p) ps = ps"
    using Cons.prems by (intro filter_True) (force simp: image_iff)
  with Cons show ?case by auto
qed simp

end
