(* ===== verification/Irc_Server.thy ===== *)
theory Irc_Server
  imports Irc_Channel Irc_Reply Poll_List
begin

section \<open>Server: state, lookups, output and relations\<close>

text \<open>
  Models the state of \<open>services/irc/prd/interface/Server.hpp\<close>, the constructor of
  \<open>Server.cpp\<close>, \<open>ServerRelations.cpp\<close>, and the poll-list helpers of \<open>ServerNetwork.cpp\<close>.
  A pointer to a client or channel stands for its key in the owning map: reading through
  it looks the current state up, writing through it is \<open>updClient\<close> or \<open>updChannel\<close>.
  \<open>sv_opened\<close> and \<open>sv_closed\<close> record the descriptors that \<open>socket()\<close> and \<open>accept()\<close>
  returned and those passed to \<open>close()\<close>, in order; the C++ class has no such fields.
\<close>

record server =
  sv_port :: int
  sv_password :: string
  sv_serverName :: string
  sv_clients :: "int \<rightharpoonup> client"
  sv_channels :: "string \<rightharpoonup> channel"
  sv_nickToFd :: "string \<rightharpoonup> int"
  sv_serverStartTime :: string
  sv_pendingDisconnects :: "int fset"
  sv_disconnectReasons :: "int \<rightharpoonup> string"
  sv_listenFd :: int
  sv_running :: bool
  sv_pollFds :: "pollfd list"
  sv_opened :: "int list"
  sv_closed :: "int list"

text \<open>
  The constructor. \<open>start\<close> is what \<open>strftime\<close> wrote, \<open>None\<close> when it returned 0.
\<close>

definition new_server :: "int \<Rightarrow> string \<Rightarrow> string option \<Rightarrow> server" where
  "new_server port password start =
     \<lparr>sv_port = port, sv_password = password, sv_serverName = ''ircserv.local'',
      sv_clients = Map.empty, sv_channels = Map.empty, sv_nickToFd = Map.empty,
      sv_serverStartTime = (case start of None \<Rightarrow> ''unknown'' | Some t \<Rightarrow> t),
      sv_pendingDisconnects = {||}, sv_disconnectReasons = Map.empty, sv_listenFd = - 1,
      sv_running = True, sv_pollFds = [], sv_opened = [], sv_closed = []\<rparr>"

subsection \<open>Writing through a pointer\<close>

definition updClient :: "int \<Rightarrow> (client \<Rightarrow> client) \<Rightarrow> server \<Rightarrow> server" where
  "updClient fd f s =
     (case sv_clients s fd of None \<Rightarrow> s | Some c \<Rightarrow> s\<lparr>sv_clients := (sv_clients s)(fd \<mapsto> f c)\<rparr>)"

definition updChannel :: "string \<Rightarrow> (channel \<Rightarrow> channel) \<Rightarrow> server \<Rightarrow> server" where
  "updChannel key f s =
     (case sv_channels s key of
        None \<Rightarrow> s | Some ch \<Rightarrow> s\<lparr>sv_channels := (sv_channels s)(key \<mapsto> f ch)\<rparr>)"

subsection \<open>The client map and the lookups\<close>

definition addClient :: "int \<Rightarrow> string \<Rightarrow> server \<Rightarrow> bool \<times> server" where
  "addClient fd hostname s =
     (if sv_clients s fd \<noteq> None then (False, s)
      else (True, s\<lparr>sv_clients := (sv_clients s)(fd \<mapsto> new_client fd hostname)\<rparr>))"

definition findClientByFd :: "int \<Rightarrow> server \<Rightarrow> client option" where
  "findClientByFd fd s = sv_clients s fd"

definition findClientByNickname :: "string \<Rightarrow> server \<Rightarrow> client option" where
  "findClientByNickname nickname s =
     (case sv_nickToFd s (ircCaseFold nickname) of
        None \<Rightarrow> None
      | Some fd \<Rightarrow> findClientByFd fd s)"

definition findChannel :: "string \<Rightarrow> server \<Rightarrow> channel option" where
  "findChannel name s = sv_channels s (normalizeChannelName name)"

definition isNicknameAvailable :: "string \<Rightarrow> int \<Rightarrow> server \<Rightarrow> bool" where
  "isNicknameAvailable nickname exceptFd s \<longleftrightarrow>
     (case sv_nickToFd s (ircCaseFold nickname) of None \<Rightarrow> True | Some fd \<Rightarrow> fd = exceptFd)"

definition registerNickname :: "int \<Rightarrow> string \<Rightarrow> server \<Rightarrow> server" where
  "registerNickname fd nickname s =
     s\<lparr>sv_nickToFd := (sv_nickToFd s)(ircCaseFold nickname \<mapsto> fd)\<rparr>"

definition unregisterNickname :: "string \<Rightarrow> server \<Rightarrow> server" where
  "unregisterNickname nickname s =
     s\<lparr>sv_nickToFd := (sv_nickToFd s)(ircCaseFold nickname := None)\<rparr>"

definition removeClient :: "int \<Rightarrow> server \<Rightarrow> server" where
  "removeClient fd s =
     (case findClientByFd fd s of
        None \<Rightarrow> s
      | Some client \<Rightarrow>
          let s1 = (if cl_nickname client \<noteq> [] then unregisterNickname (cl_nickname client) s else s)
          in s1\<lparr>sv_clients := (sv_clients s1)(fd := None)\<rparr>)"

subsection \<open>The poll list\<close>

definition addClientPollFd :: "int \<Rightarrow> server \<Rightarrow> server" where
  "addClientPollFd fd s =
     s\<lparr>sv_pollFds := sv_pollFds s @ [\<lparr>pf_fd = fd, pf_events = {POLLIN}, pf_revents = {}\<rparr>]\<rparr>"

definition removeClientPollFd :: "int \<Rightarrow> server \<Rightarrow> server" where
  "removeClientPollFd fd s = s\<lparr>sv_pollFds := erase_pollfd fd (sv_pollFds s)\<rparr>"

definition updatePollEvents :: "int \<Rightarrow> server \<Rightarrow> server" where
  "updatePollEvents fd s =
     (case findClientByFd fd s of
        None \<Rightarrow> s
      | Some client \<Rightarrow>
          let events = {POLLIN} \<union> (if hasPendingOutput client then {POLLOUT} else {})
          in s\<lparr>sv_pollFds := set_events fd events (sv_pollFds s)\<rparr>)"

subsection \<open>Output\<close>

definition scheduleDisconnect :: "int \<Rightarrow> server \<Rightarrow> server" where
  "scheduleDisconnect fd s =
     s\<lparr>sv_pendingDisconnects := finsert fd (sv_pendingDisconnects s)\<rparr>"

definition MAX_SEND_BUFFER :: nat where "MAX_SEND_BUFFER = 1048576"

definition normalize_line :: "string \<Rightarrow> string" where
  "normalize_line message =
     (if 2 \<le> length message \<and> drop (length message - 2) message = crlf then message
      else message @ crlf)"

definition queueToClient :: "int \<Rightarrow> string \<Rightarrow> server \<Rightarrow> server" where
  "queueToClient fd message s =
     (case findClientByFd fd s of
        None \<Rightarrow> s
      | Some client \<Rightarrow>
          let normalized = normalize_line message
          in if MAX_SEND_BUFFER < length (cl_sendBuffer client) + length normalized
             then scheduleDisconnect fd s
             else updatePollEvents fd (updClient fd (appendSendBuffer normalized) s))"

text \<open>\<open>queueToClient(fd, Reply::numeric(_serverName, *client, code, parameters))\<close>\<close>

definition queueNumeric :: "int \<Rightarrow> int \<Rightarrow> string \<Rightarrow> server \<Rightarrow> server" where
  "queueNumeric fd code parameters s =
     (case findClientByFd fd s of
        None \<Rightarrow> s
      | Some client \<Rightarrow>
          queueToClient fd (reply_numeric (sv_serverName s) client code parameters) s)"

definition shared_targets :: "client \<Rightarrow> server \<Rightarrow> int fset" where
  "shared_targets client s =
     fold (\<lambda>key targets. case findChannel key s of
             None \<Rightarrow> targets | Some ch \<Rightarrow> targets |\<union>| ch_members ch)
       (sorted_list_of_fset (cl_joinedChannels client)) {||} |-| {|cl_fd client|}"

definition broadcastToSharedChannels :: "client \<Rightarrow> string \<Rightarrow> server \<Rightarrow> server" where
  "broadcastToSharedChannels client message s =
     fold (\<lambda>fd. queueToClient fd message) (sorted_list_of_fset (shared_targets client s)) s"

definition broadcastToChannel :: "channel \<Rightarrow> string \<Rightarrow> int \<Rightarrow> server \<Rightarrow> server" where
  "broadcastToChannel ch message excludeFd s =
     fold (\<lambda>fd s. if fd = excludeFd then s else queueToClient fd message s)
       (sorted_list_of_fset (ch_members ch)) s"

subsection \<open>Membership\<close>

definition joinChannel :: "int \<Rightarrow> string \<Rightarrow> server \<Rightarrow> bool \<times> server" where
  "joinChannel clientFd channelKey s =
     (case (findClientByFd clientFd s, findChannel channelKey s) of
        (Some client, Some ch) \<Rightarrow>
          let s1 = updChannel (normalizeChannelName channelKey) (\<lambda>ch. snd (addMember clientFd ch)) s;
              s2 = updClient clientFd (\<lambda>c. snd (addJoinedChannel (ch_keyName ch) c)) s1
          in (case (findChannel channelKey s2, findClientByFd clientFd s2) of
                (Some ch', Some c') \<Rightarrow>
                  (hasMember clientFd ch' \<and> hasJoinedChannel (ch_keyName ch') c', s2)
              | _ \<Rightarrow> (False, s2))
      | _ \<Rightarrow> (False, s))"

definition deleteChannelIfEmpty :: "string \<Rightarrow> server \<Rightarrow> server" where
  "deleteChannelIfEmpty channelKey s =
     (case findChannel channelKey s of
        None \<Rightarrow> s
      | Some ch \<Rightarrow>
          if isEmpty ch then s\<lparr>sv_channels := (sv_channels s)(ch_keyName ch := None)\<rparr> else s)"

definition leaveChannel :: "int \<Rightarrow> string \<Rightarrow> string \<Rightarrow> bool \<Rightarrow> server \<Rightarrow> bool \<times> server" where
  "leaveChannel clientFd channelKey reason sendPart s =
     (case (findClientByFd clientFd s, findChannel channelKey s) of
        (Some client, Some ch) \<Rightarrow>
          if \<not> hasMember clientFd ch then (False, s)
          else
            let keyName = ch_keyName ch;
                key = normalizeChannelName channelKey;
                s1 = (if sendPart
                      then broadcastToChannel ch
                             (reply_command (clientPrefix client) ''PART''
                                (ch_name ch @ '' :'' @ reason)) (- 1) s
                      else s);
                s2 = updChannel key (\<lambda>ch. snd (removeMember clientFd ch)) s1;
                s3 = updChannel key (\<lambda>ch. snd (removeInvite clientFd ch)) s2;
                s4 = updClient clientFd (\<lambda>c. snd (removeJoinedChannel keyName c)) s3
            in (True, deleteChannelIfEmpty keyName s4)
      | _ \<Rightarrow> (False, s))"

text \<open>
  \<open>removeClientFromAllChannels\<close>: the loop over a copy of the joined set, then the loop over
  all remaining channels, which removes the descriptor from every invite set.
\<close>

definition forgetMembership :: "int \<Rightarrow> string \<Rightarrow> server \<Rightarrow> server" where
  "forgetMembership clientFd key s =
     (case findChannel key s of
        None \<Rightarrow> s
      | Some ch \<Rightarrow>
          let s1 = updChannel (normalizeChannelName key) (\<lambda>ch. snd (removeMember clientFd ch)) s;
              s2 = updClient clientFd (\<lambda>c. snd (removeJoinedChannel key c)) s1
          in deleteChannelIfEmpty key s2)"

definition forgetInvites :: "int \<Rightarrow> server \<Rightarrow> server" where
  "forgetInvites clientFd s =
     s\<lparr>sv_channels := (\<lambda>key. map_option (\<lambda>ch. snd (removeInvite clientFd ch)) (sv_channels s key))\<rparr>"

definition removeClientFromAllChannels :: "int \<Rightarrow> server \<Rightarrow> server" where
  "removeClientFromAllChannels clientFd s =
     (case findClientByFd clientFd s of
        None \<Rightarrow> s
      | Some client \<Rightarrow>
          forgetInvites clientFd
            (fold (forgetMembership clientFd) (sorted_list_of_fset (cl_joinedChannels client)) s))"

subsection \<open>Disconnection\<close>

definition disconnectClient :: "int \<Rightarrow> string \<Rightarrow> server \<Rightarrow> server" where
  "disconnectClient fd reason s =
     (case findClientByFd fd s of
        None \<Rightarrow> s
      | Some client \<Rightarrow>
          let notice = reply_command (clientPrefix client) ''QUIT'' ('':'' @ reason);
              s1 = broadcastToSharedChannels client notice s;
              s2 = removeClientFromAllChannels fd s1;
              s3 = (if cl_nickname client \<noteq> [] then unregisterNickname (cl_nickname client) s2 else s2);
              s4 = removeClientPollFd fd s3;
              s5 = s4\<lparr>sv_closed := sv_closed s4 @ [fd]\<rparr>
          in s5\<lparr>sv_disconnectReasons := (sv_disconnectReasons s5)(fd := None),
                sv_clients := (sv_clients s5)(fd := None)\<rparr>)"

definition disconnect_reason :: "int \<Rightarrow> server \<Rightarrow> string" where
  "disconnect_reason fd s =
     (case sv_disconnectReasons s fd of Some reason \<Rightarrow> reason | None \<Rightarrow> ''Connection closed'')"

definition processPendingDisconnects :: "server \<Rightarrow> server" where
  "processPendingDisconnects s =
     fold (\<lambda>fd s. disconnectClient fd (disconnect_reason fd s) s)
       (sorted_list_of_fset (sv_pendingDisconnects s)) (s\<lparr>sv_pendingDisconnects := {||}\<rparr>)"

subsection \<open>Shared checks\<close>

definition requireChannelMember :: "int \<Rightarrow> channel \<Rightarrow> server \<Rightarrow> bool \<times> server" where
  "requireChannelMember fd ch s =
     (if hasMember fd ch then (True, s)
      else (False, queueNumeric fd ERR_NOTONCHANNEL (ch_name ch @ '' :You're not on that channel'') s))"

definition requireChannelOperator :: "int \<Rightarrow> channel \<Rightarrow> server \<Rightarrow> bool \<times> server" where
  "requireChannelOperator fd ch s =
     (if isOperator fd ch then (True, s)
      else (False, queueNumeric fd ERR_CHANOPRIVSNEEDED
                     (ch_name ch @ '' :You're not channel operator'') s))"

definition sendNoSuchChannel :: "int \<Rightarrow> string \<Rightarrow> server \<Rightarrow> server" where
  "sendNoSuchChannel fd channelName s =
     queueNumeric fd ERR_NOSUCHCHANNEL (channelName @ '' :No such channel'') s"

end
