(* ===== verification/Irc_Frame.thy ===== *)
theory Irc_Frame
  imports Irc_Server
begin

section \<open>What output leaves unchanged, and what it delivers\<close>

text \<open>
  Lemmas on \<open>queueToClient\<close> and the broadcasts of \<open>ServerRelations.cpp\<close>: output touches
  send buffers, poll events and the set of pending disconnects, nothing else; and every
  client's buffer after a broadcast is a function of its buffer before (\<open>push_line\<close>).
\<close>

subsection \<open>Writing through a pointer\<close>

lemma updClient_same [simp]:
  "sv_channels (updClient fd f s) = sv_channels s"
  "sv_nickToFd (updClient fd f s) = sv_nickToFd s"
  "sv_disconnectReasons (updClient fd f s) = sv_disconnectReasons s"
  "sv_pendingDisconnects (updClient fd f s) = sv_pendingDisconnects s"
  "sv_serverName (updClient fd f s) = sv_serverName s"
  "sv_password (updClient fd f s) = sv_password s"
  "sv_serverStartTime (updClient fd f s) = sv_serverStartTime s"
  "sv_closed (updClient fd f s) = sv_closed s"
  "sv_opened (updClient fd f s) = sv_opened s"
  "sv_pollFds (updClient fd f s) = sv_pollFds s"
  "sv_listenFd (updClient fd f s) = sv_listenFd s"
  "sv_running (updClient fd f s) = sv_running s"
  by (simp_all add: updClient_def split: option.split)

lemma updClient_clients:
  "sv_clients (updClient fd f s) = (sv_clients s)(fd := map_option f (sv_clients s fd))"
  by (auto simp: updClient_def fun_upd_idem split: option.split)

lemma updChannel_same [simp]:
  "sv_clients (updChannel key g s) = sv_clients s"
  "sv_nickToFd (updChannel key g s) = sv_nickToFd s"
  "sv_disconnectReasons (updChannel key g s) = sv_disconnectReasons s"
  "sv_pendingDisconnects (updChannel key g s) = sv_pendingDisconnects s"
  "sv_serverName (updChannel key g s) = sv_serverName s"
  "sv_password (updChannel key g s) = sv_password s"
  "sv_serverStartTime (updChannel key g s) = sv_serverStartTime s"
  "sv_closed (updChannel key g s) = sv_closed s"
  "sv_opened (updChannel key g s) = sv_opened s"
  "sv_pollFds (updChannel key g s) = sv_pollFds s"
  "sv_listenFd (updChannel key g s) = sv_listenFd s"
  "sv_running (updChannel key g s) = sv_running s"
  by (simp_all add: updChannel_def split: option.split)

lemma updChannel_channels:
  "sv_channels (updChannel key g s) = (sv_channels s)(key := map_option g (sv_channels s key))"
  by (auto simp: updChannel_def fun_upd_idem split: option.split)

lemma findChannel_cong: "sv_channels s' = sv_channels s \<Longrightarrow> findChannel name s' = findChannel name s"
  by (simp add: findChannel_def)

subsection \<open>Output touches buffers only\<close>

text \<open>Everything a line of output leaves alone.\<close>

definition same_frame :: "server \<Rightarrow> server \<Rightarrow> bool" where
  "same_frame s s' \<longleftrightarrow>
     sv_channels s' = sv_channels s \<and> sv_nickToFd s' = sv_nickToFd s
     \<and> sv_disconnectReasons s' = sv_disconnectReasons s \<and> sv_serverName s' = sv_serverName s
     \<and> sv_password s' = sv_password s \<and> sv_serverStartTime s' = sv_serverStartTime s
     \<and> sv_opened s' = sv_opened s \<and> sv_closed s' = sv_closed s \<and> map pf_fd (sv_pollFds s') = map pf_fd (sv_pollFds s)
     \<and> sv_listenFd s' = sv_listenFd s \<and> sv_running s' = sv_running s
     \<and> sv_pendingDisconnects s |\<subseteq>| sv_pendingDisconnects s'
     \<and> (\<forall>fd. map_option (cl_sendBuffer_update (\<lambda>_. [])) (sv_clients s' fd)
             = map_option (cl_sendBuffer_update (\<lambda>_. [])) (sv_clients s fd))"

lemma same_frame_refl [simp]: "same_frame s s"
  by (simp add: same_frame_def)

lemma same_frame_trans: "same_frame s t \<Longrightarrow> same_frame t u \<Longrightarrow> same_frame s u"
  by (auto simp: same_frame_def)

lemma same_frame_updatePollEvents [simp]: "same_frame s (updatePollEvents fd s)"
  by (auto simp: same_frame_def updatePollEvents_def Let_def split: option.split)

lemma same_frame_schedule [simp]: "same_frame s (scheduleDisconnect fd s)"
  by (auto simp: same_frame_def scheduleDisconnect_def)

lemma same_frame_appendSend [simp]: "same_frame s (updClient fd (appendSendBuffer d) s)"
  by (auto simp: same_frame_def updClient_clients appendSendBuffer_def option.map_comp o_def)

lemma same_frame_queue [simp]: "same_frame s (queueToClient fd msg s)"
  by (auto simp: queueToClient_def Let_def split: option.split
      intro: same_frame_trans [OF same_frame_appendSend same_frame_updatePollEvents])

lemma same_frame_queueNumeric [simp]: "same_frame s (queueNumeric fd code ps s)"
  by (simp add: queueNumeric_def split: option.split)

lemma same_frame_fold:
  assumes "\<And>x s. same_frame s (f x s)"
  shows "same_frame s (fold f xs s)"
  by (rule fold_keeps [where P = "same_frame s"]) (auto intro: same_frame_trans assms)

lemma same_frame_broadcast [simp]:
  "same_frame s (broadcastToChannel ch msg excl s)"
  "same_frame s (broadcastToSharedChannels c msg s)"
  unfolding broadcastToChannel_def broadcastToSharedChannels_def
  by (rule same_frame_fold, simp)+

lemma same_frame_checks [simp]:
  "same_frame s (snd (requireChannelMember fd ch s))"
  "same_frame s (snd (requireChannelOperator fd ch s))"
  "same_frame s (sendNoSuchChannel fd name s)"
  by (simp_all add: requireChannelMember_def requireChannelOperator_def sendNoSuchChannel_def)

lemma same_frame_fields:
  assumes "same_frame s s'"
  shows "sv_channels s' = sv_channels s" and "sv_nickToFd s' = sv_nickToFd s"
    and "sv_disconnectReasons s' = sv_disconnectReasons s"
    and "sv_serverName s' = sv_serverName s" and "sv_password s' = sv_password s"
    and "sv_closed s' = sv_closed s" and "sv_serverStartTime s' = sv_serverStartTime s"
    and "map pf_fd (sv_pollFds s') = map pf_fd (sv_pollFds s)"
    and "sv_listenFd s' = sv_listenFd s"
    and "sv_pendingDisconnects s |\<subseteq>| sv_pendingDisconnects s'"
    and "dom (sv_clients s') = dom (sv_clients s)"
    and "sv_opened s' = sv_opened s" and "sv_running s' = sv_running s"
proof -
  show "dom (sv_clients s') = dom (sv_clients s)"
    using assms by (auto simp: same_frame_def dom_def) (metis option.map_disc_iff option.exhaust)+
qed (use assms in \<open>simp_all add: same_frame_def\<close>)

lemmas queue_frame [simp] = same_frame_fields [OF same_frame_queue]
lemmas queueNumeric_frame [simp] = same_frame_fields [OF same_frame_queueNumeric]
lemmas broadcast_frame [simp] = same_frame_fields [OF same_frame_broadcast(1)]
  same_frame_fields [OF same_frame_broadcast(2)]
lemmas poll_frame [simp] = same_frame_fields [OF same_frame_updatePollEvents]
lemmas schedule_frame [simp] = same_frame_fields [OF same_frame_schedule]

text \<open>A client after output is the client before it with another send buffer.\<close>

lemma same_frame_client:
  assumes "same_frame s s'" and "sv_clients s' fd = Some c'"
  obtains c where "sv_clients s fd = Some c" and "c' = c\<lparr>cl_sendBuffer := cl_sendBuffer c'\<rparr>"
proof -
  have "map_option (cl_sendBuffer_update (\<lambda>_. [])) (sv_clients s fd)
    = Some (c'\<lparr>cl_sendBuffer := []\<rparr>)"
    using assms by (metis same_frame_def option.map(2))
  then obtain c where "sv_clients s fd = Some c" and "c\<lparr>cl_sendBuffer := []\<rparr> = c'\<lparr>cl_sendBuffer := []\<rparr>"
    by auto
  moreover from this(2) have "c' = c\<lparr>cl_sendBuffer := cl_sendBuffer c'\<rparr>"
    by (cases c; cases c') simp
  ultimately show thesis using that by blast
qed

lemma same_frame_client':
  assumes "same_frame s s'" and "sv_clients s fd = Some c"
  obtains b where "sv_clients s' fd = Some (c\<lparr>cl_sendBuffer := b\<rparr>)"
proof -
  have "fd \<in> dom (sv_clients s')" using assms same_frame_fields(11) by blast
  then obtain c' where c': "sv_clients s' fd = Some c'" by blast
  with assms same_frame_client [OF assms(1) c'] that show thesis by (metis option.inject)
qed

subsection \<open>What is delivered\<close>

definition push_line :: "string \<Rightarrow> client \<Rightarrow> client" where
  "push_line msg c =
     (if MAX_SEND_BUFFER < length (cl_sendBuffer c) + length (normalize_line msg) then c
      else c\<lparr>cl_sendBuffer := cl_sendBuffer c @ normalize_line msg\<rparr>)"

lemma updatePollEvents_clients [simp]: "sv_clients (updatePollEvents fd s) = sv_clients s"
  by (simp add: updatePollEvents_def Let_def split: option.split)

lemma scheduleDisconnect_clients [simp]: "sv_clients (scheduleDisconnect fd s) = sv_clients s"
  by (simp add: scheduleDisconnect_def)

lemma queueToClient_clients:
  "sv_clients (queueToClient fd msg s) = (sv_clients s)(fd := map_option (push_line msg) (sv_clients s fd))"
  by (auto simp: queueToClient_def findClientByFd_def Let_def push_line_def updClient_clients
      appendSendBuffer_def fun_upd_idem split: option.split)

lemma fold_queue_clients:
  "distinct fds \<Longrightarrow>
     sv_clients (fold (\<lambda>fd. queueToClient fd msg) fds s) =
       (\<lambda>fd. if fd \<in> set fds then map_option (push_line msg) (sv_clients s fd) else sv_clients s fd)"
  by (induction fds arbitrary: s) (auto simp: queueToClient_clients fun_eq_iff)

lemma broadcastToChannel_eq:
  "broadcastToChannel ch msg excl s =
     fold (\<lambda>fd. queueToClient fd msg)
       (filter (\<lambda>fd. fd \<noteq> excl) (sorted_list_of_fset (ch_members ch))) s"
proof -
  have "fold (\<lambda>fd s. if fd = excl then s else queueToClient fd msg s) fds s =
    fold (\<lambda>fd. queueToClient fd msg) (filter (\<lambda>fd. fd \<noteq> excl) fds) s" for fds
    by (induction fds arbitrary: s) auto
  then show ?thesis by (simp add: broadcastToChannel_def)
qed

lemma broadcastToChannel_clients:
  "sv_clients (broadcastToChannel ch msg excl s) =
     (\<lambda>fd. if fd |\<in>| ch_members ch \<and> fd \<noteq> excl
           then map_option (push_line msg) (sv_clients s fd) else sv_clients s fd)"
  by (simp add: broadcastToChannel_eq fold_queue_clients)

lemma shared_targets_iff:
  "fd |\<in>| shared_targets c s \<longleftrightarrow>
     fd \<noteq> cl_fd c \<and> (\<exists>key ch. key |\<in>| cl_joinedChannels c \<and> findChannel key s = Some ch
                               \<and> fd |\<in>| ch_members ch)"
proof -
  let ?f = "\<lambda>key targets. case findChannel key s of None \<Rightarrow> targets | Some ch \<Rightarrow> targets |\<union>| ch_members ch"
  have "fd |\<in>| fold ?f keys T \<longleftrightarrow>
    fd |\<in>| T \<or> (\<exists>key \<in> set keys. \<exists>ch. findChannel key s = Some ch \<and> fd |\<in>| ch_members ch)" for keys T
    by (induction keys arbitrary: T) (auto split: option.split)
  then show ?thesis by (auto simp: shared_targets_def)
qed

lemma broadcastToSharedChannels_clients:
  "sv_clients (broadcastToSharedChannels c msg s) =
     (\<lambda>fd. if fd |\<in>| shared_targets c s
           then map_option (push_line msg) (sv_clients s fd) else sv_clients s fd)"
  by (simp add: broadcastToSharedChannels_def fold_queue_clients)

end
