(* ===== verification/Irc_Parser.thy ===== *)
theory Irc_Parser
  imports Irc_Util
begin

section \<open>Parser: one line to one message\<close>

text \<open>
  Models \<open>services/irc/prd/domain/Message.hpp\<close> and \<open>util/Parser.cpp\<close>. The position
  \<open>pos\<close> of the C++ scanner is represented by the rest of the line from \<open>pos\<close> on:
  \<open>skipSpaces\<close> returns the new rest and \<open>takeToken\<close> the token and the new rest. A \<open>false\<close>
  return is \<open>None\<close>.
\<close>

record message =
  msg_prefix :: string
  msg_command :: string
  msg_params :: "string list"

definition MAX_PARAMS :: nat where "MAX_PARAMS = 15"

definition skipSpaces :: "string \<Rightarrow> string" where
  "skipSpaces rest = dropWhile (\<lambda>c. c = SP) rest"

definition takeToken :: "string \<Rightarrow> string \<times> string" where
  "takeToken rest = (takeWhile (\<lambda>c. c \<noteq> SP) rest, dropWhile (\<lambda>c. c \<noteq> SP) rest)"

lemma skipSpaces_hd: "skipSpaces r = c # cs \<Longrightarrow> c \<noteq> SP"
  by (auto simp: skipSpaces_def dropWhile_eq_Cons_conv)

lemma takeToken_shrinks:
  assumes "skipSpaces rest = c # cs" and "takeToken (c # cs) = (token, rest')"
  shows "length rest' < length rest"
proof -
  have "length rest' \<le> length cs"
    using assms skipSpaces_hd [OF assms(1)] by (auto simp: takeToken_def length_dropWhile_le)
  also have "\<dots> < length rest"
    using assms(1) length_dropWhile_le [of "\<lambda>c. c = SP" rest] by (simp add: skipSpaces_def)
  finally show ?thesis .
qed

text \<open>The loop over the parameters; \<open>params\<close> is \<open>parsed.params\<close> so far.\<close>

function parseParams :: "string \<Rightarrow> string list \<Rightarrow> string list option" where
  "parseParams rest params =
     (case skipSpaces rest of
        [] \<Rightarrow> Some params
      | c # cs \<Rightarrow>
          if MAX_PARAMS \<le> length params then None
          else if c = CHR '':'' then Some (params @ [cs])
          else (case takeToken (c # cs) of
                  (token, rest') \<Rightarrow> parseParams rest' (params @ [token])))"
  by pat_completeness auto
termination
  by (relation "measure (\<lambda>(rest, _). length rest)") (auto dest: takeToken_shrinks takeToken_shrinks [OF _ sym])

declare parseParams.simps [simp del]

definition parse :: "string \<Rightarrow> message option" where
  "parse line =
     (if NUL \<in> set line then None
      else
        let rest0 = skipSpaces line;
            (prefix, rest1, bad) =
              (if rest0 \<noteq> [] \<and> hd rest0 = CHR '':''
               then (case takeToken (tl rest0) of (p, r) \<Rightarrow> (p, skipSpaces r, p = []))
               else ([], rest0, False));
            (token, rest2) = takeToken rest1;
            command = toUpperAscii token
        in if bad then None
           else if command = [] then None
           else (case parseParams rest2 [] of
                   None \<Rightarrow> None
                 | Some params \<Rightarrow>
                     Some \<lparr>msg_prefix = prefix, msg_command = command, msg_params = params\<rparr>))"

subsection \<open>Well-formed messages and their wire form\<close>

definition middle_param :: "string \<Rightarrow> bool" where
  "middle_param p \<longleftrightarrow> p \<noteq> [] \<and> SP \<notin> set p \<and> hd p \<noteq> CHR '':''"

definition wf_message :: "message \<Rightarrow> bool" where
  "wf_message m \<longleftrightarrow>
     SP \<notin> set (msg_prefix m) \<and> NUL \<notin> set (msg_prefix m)
     \<and> msg_command m \<noteq> [] \<and> SP \<notin> set (msg_command m) \<and> NUL \<notin> set (msg_command m)
     \<and> toUpperAscii (msg_command m) = msg_command m
     \<and> (msg_prefix m = [] \<longrightarrow> hd (msg_command m) \<noteq> CHR '':'')
     \<and> length (msg_params m) \<le> MAX_PARAMS
     \<and> list_all middle_param (butlast (msg_params m))
     \<and> list_all (\<lambda>p. NUL \<notin> set p) (msg_params m)"

fun render_params :: "string list \<Rightarrow> string" where
  "render_params [] = []"
| "render_params [p] = SP # CHR '':'' # p"
| "render_params (p # ps) = SP # p @ render_params ps"

definition render_message :: "message \<Rightarrow> string" where
  "render_message m =
     (if msg_prefix m = [] then [] else CHR '':'' # msg_prefix m @ [SP])
     @ msg_command m @ render_params (msg_params m)"

subsection \<open>Scanning lemmas\<close>

lemma skipSpaces_simps [simp]:
  "skipSpaces [] = []"
  "skipSpaces (SP # r) = skipSpaces r"
  "c \<noteq> SP \<Longrightarrow> skipSpaces (c # r) = c # r"
  by (simp_all add: skipSpaces_def)

lemma set_skipSpaces: "set (skipSpaces r) \<subseteq> set r"
  by (auto simp: skipSpaces_def dest: set_dropWhileD)

lemma takeToken_at_space [simp]:
  "SP \<notin> set p \<Longrightarrow> takeToken (p @ SP # r) = (p, SP # r)"
  "SP \<notin> set p \<Longrightarrow> takeToken p = (p, [])"
  by (auto simp: takeToken_def takeWhile_append dropWhile_append takeWhile_eq_all_conv)

lemma takeTokenD:
  assumes "takeToken r = (p, r')"
  shows "r = p @ r'" and "SP \<notin> set p" and "r' = [] \<or> hd r' = SP"
  using assms by (auto simp: takeToken_def dest: set_takeWhileD hd_dropWhile)

lemma parseParams_Nil: "skipSpaces r = [] \<Longrightarrow> parseParams r ps = Some ps"
  by (subst parseParams.simps) simp

lemma parseParams_trailing:
  "length ps < MAX_PARAMS \<Longrightarrow> parseParams (SP # CHR '':'' # p) ps = Some (ps @ [p])"
  by (subst parseParams.simps) simp

lemma parseParams_middle:
  assumes "middle_param p" and "length ps < MAX_PARAMS"
  shows "parseParams (SP # p @ SP # r) ps = parseParams (SP # r) (ps @ [p])"
proof -
  obtain c cs where p: "p = c # cs" and c: "c \<noteq> SP" "c \<noteq> CHR '':''" and sp: "SP \<notin> set p"
    using assms(1) by (cases p) (auto simp: middle_param_def)
  have "takeToken (c # cs @ SP # r) = (p, SP # r)"
    using takeToken_at_space(1) [OF sp, of r] by (simp add: p)
  with assms(2) c show ?thesis
    by (subst parseParams.simps) (simp add: p)
qed

lemma render_params_hd: "ps \<noteq> [] \<Longrightarrow> \<exists>r. render_params ps = SP # r"
  by (cases ps rule: render_params.cases) auto

lemma parseParams_render:
  assumes "list_all middle_param (butlast ps)" and "length acc + length ps \<le> MAX_PARAMS"
  shows "parseParams (render_params ps) acc = Some (acc @ ps)"
  using assms
proof (induction ps arbitrary: acc rule: render_params.induct)
  case 1
  show ?case by (simp add: parseParams_Nil)
next
  case (2 p)
  then show ?case by (simp add: parseParams_trailing)
next
  case (3 p q ps)
  obtain r where r: "render_params (q # ps) = SP # r" using render_params_hd by blast
  have "parseParams (render_params (p # q # ps)) acc = parseParams (SP # p @ SP # r) acc"
    by (simp add: r)
  also have "\<dots> = parseParams (render_params (q # ps)) (acc @ [p])"
    using "3.prems" by (simp add: parseParams_middle r)
  also have "\<dots> = Some ((acc @ [p]) @ q # ps)"
    using "3.prems" by (intro "3.IH") simp_all
  finally show ?case by simp
qed

lemma parseParams_sound:
  assumes "parseParams r acc = Some ps" and "NUL \<notin> set r"
    and "list_all middle_param acc" and "list_all (\<lambda>p. NUL \<notin> set p) acc"
    and "length acc \<le> MAX_PARAMS"
  shows "length ps \<le> MAX_PARAMS \<and> list_all middle_param (butlast ps)
    \<and> list_all (\<lambda>p. NUL \<notin> set p) ps"
  using assms
proof (induction r acc rule: parseParams.induct)
  case (1 r acc)
  show ?case
  proof (cases "skipSpaces r")
    case Nil
    with "1.prems" show ?thesis
      by (auto simp: parseParams_Nil list_all_iff dest: in_set_butlastD)
  next
    case (Cons c cs)
    have sub: "set (c # cs) \<subseteq> set r" using set_skipSpaces [of r] Cons by simp
    have len: "\<not> MAX_PARAMS \<le> length acc"
      using "1.prems"(1) Cons by (subst (asm) parseParams.simps) (auto split: if_splits)
    show ?thesis
    proof (cases "c = CHR '':''")
      case True
      with "1.prems" Cons sub len have "ps = acc @ [cs]" and "NUL \<notin> set cs"
        by (auto simp: parseParams.simps [of r acc])
      with "1.prems" len show ?thesis by (simp add: butlast_append)
    next
      case False
      obtain token r' where tk: "takeToken (c # cs) = (token, r')" by fastforce
      note td = takeTokenD [OF tk]
      have ne: "token \<noteq> []" and hd: "hd token = c"
        using td skipSpaces_hd [OF Cons] by (cases token; auto)+
      have mid: "middle_param token" using ne td hd False by (simp add: middle_param_def)
      have nul: "NUL \<notin> set token" "NUL \<notin> set r'" using sub td(1) "1.prems"(2) by auto
      have "parseParams r' (acc @ [token]) = Some ps"
        using "1.prems"(1) Cons False len tk by (simp add: parseParams.simps [of r acc])
      then show ?thesis
        using "1.IH" [OF Cons len False tk [symmetric]] "1.prems" mid nul len tk by simp
    qed
  qed
qed

lemma takeToken_render_params [simp]:
  assumes "SP \<notin> set c"
  shows "takeToken (c @ render_params ps) = (c, render_params ps)"
proof (cases "ps = []")
  case False
  then obtain r where "render_params ps = SP # r" using render_params_hd by blast
  with assms show ?thesis by simp
qed (use assms in simp)

lemma NUL_render_params:
  "list_all (\<lambda>p. NUL \<notin> set p) ps \<Longrightarrow> NUL \<notin> set (render_params ps)"
  by (induction ps rule: render_params.induct) auto

subsection \<open>Round trip\<close>

lemma parse_render:
  assumes "wf_message m"
  shows "parse (render_message m) = Some m"
proof -
  obtain c cs where cmd: "msg_command m = c # cs" and c: "c \<noteq> SP"
    using assms by (cases "msg_command m") (auto simp: wf_message_def)
  have sp: "SP \<notin> set (c # cs)" using assms cmd by (simp add: wf_message_def)
  have params: "parseParams (render_params (msg_params m)) [] = Some (msg_params m)"
    using assms by (simp add: parseParams_render wf_message_def)
  have nul: "NUL \<notin> set (render_message m)"
    using assms NUL_render_params by (auto simp: wf_message_def render_message_def)
  have tok: "takeToken (c # cs @ render_params (msg_params m)) = (c # cs, render_params (msg_params m))"
    using takeToken_render_params [OF sp, of "msg_params m"] by simp
  have up: "toUpperAscii (c # cs) = c # cs" using assms cmd by (simp add: wf_message_def)
  show ?thesis
  proof (cases "msg_prefix m = []")
    case True
    with assms cmd have "c \<noteq> CHR '':''" by (simp add: wf_message_def)
    with True nul c show ?thesis
      by (simp add: parse_def render_message_def cmd tok up params)
  next
    case False
    have "SP \<notin> set (msg_prefix m)" using assms by (simp add: wf_message_def)
    with False nul c show ?thesis
      by (simp add: parse_def render_message_def cmd tok up params)
  qed
qed

lemma parse_sound:
  assumes "parse line = Some m"
  shows "wf_message m"
proof -
  have nul: "NUL \<notin> set line" using assms by (auto simp: parse_def split: if_splits)
  let ?r0 = "skipSpaces line"
  obtain prefix rest1 where pr:
    "(prefix, rest1, False) =
       (if ?r0 \<noteq> [] \<and> hd ?r0 = CHR '':''
        then (case takeToken (tl ?r0) of (p, r) \<Rightarrow> (p, skipSpaces r, p = [])) else ([], ?r0, False))"
    using assms nul by (fastforce simp: parse_def Let_def split: prod.splits if_splits)
  obtain token rest2 where tk: "takeToken rest1 = (token, rest2)" by fastforce
  have m: "token \<noteq> []" "msg_prefix m = prefix" "msg_command m = toUpperAscii token"
    "parseParams rest2 [] = Some (msg_params m)"
    using assms nul tk unfolding parse_def Let_def pr [symmetric]
    by (auto split: if_splits option.splits)
  have r0: "set ?r0 \<subseteq> set line" by (rule set_skipSpaces)
  have pre: "SP \<notin> set prefix \<and> NUL \<notin> set prefix \<and> NUL \<notin> set rest1
    \<and> (prefix = [] \<longrightarrow> rest1 = ?r0 \<and> \<not> (?r0 \<noteq> [] \<and> hd ?r0 = CHR '':''))"
  proof (cases "?r0 \<noteq> [] \<and> hd ?r0 = CHR '':''")
    case True
    then obtain cs where cs: "?r0 = CHR '':'' # cs" by (cases ?r0) auto
    obtain p r where tr: "takeToken cs = (p, r)" by fastforce
    note td = takeTokenD [OF tr]
    from pr True cs tr have "prefix = p" "rest1 = skipSpaces r" "p \<noteq> []" by auto
    with td r0 nul cs set_skipSpaces [of r] show ?thesis by auto
  next
    case False
    with pr r0 nul show ?thesis by auto
  qed
  note td = takeTokenD [OF tk]
  have tok: "SP \<notin> set (toUpperAscii token) \<and> NUL \<notin> set (toUpperAscii token)"
    using td pre by (auto simp: set_toUpperAscii_control)
  have hd: "prefix = [] \<longrightarrow> hd (toUpperAscii token) \<noteq> CHR '':''"
  proof
    assume "prefix = []"
    then have "hd rest1 \<noteq> CHR '':''" using pre td(1) m(1) by auto
    moreover have "hd rest1 = hd token" using m(1) by (simp add: td(1))
    ultimately have "hd token \<noteq> CHR '':''" by simp
    with m(1) show "hd (toUpperAscii token) \<noteq> CHR '':''"
      by (simp add: toUpperAscii_def hd_map upperAsciiChar_control)
  qed
  have "NUL \<notin> set rest2" using td(1) pre by auto
  from parseParams_sound [OF m(4) this] have "length (msg_params m) \<le> MAX_PARAMS
    \<and> list_all middle_param (butlast (msg_params m)) \<and> list_all (\<lambda>p. NUL \<notin> set p) (msg_params m)"
    by simp
  with m tok hd pre show ?thesis by (simp add: wf_message_def)
qed

end
