(* ===== verification/Irc_Auth.thy ===== *)
theory Irc_Auth
  imports Irc_Server Irc_Parser
begin

section \<open>Registration commands: PASS, NICK, USER, CAP, PING, PONG\<close>

text \<open>
  Models \<open>services/irc/prd/handler/ServerAuthCommands.cpp\<close>. A handler takes the descriptor
  and the message and maps the server state to the new one; \<open>requireParams\<close> also returns
  its \<open>bool\<close>. Parameters are indexed after their number was checked, as in the code.
\<close>

definition requireParams :: "int \<Rightarrow> message \<Rightarrow> nat \<Rightarrow> server \<Rightarrow> bool \<times> server" where
  "requireParams fd msg cnt s =
     (if cnt \<le> length (msg_params msg) then (True, s)
      else (False, queueNumeric fd ERR_NEEDMOREPARAMS
                     (msg_command msg @ '' :Not enough parameters'') s))"

definition sendWelcomeSequence :: "int \<Rightarrow> server \<Rightarrow> server" where
  "sendWelcomeSequence fd s =
     (case findClientByFd fd s of
        None \<Rightarrow> s
      | Some client \<Rightarrow>
          let s1 = queueNumeric fd RPL_WELCOME
                     ('':Welcome to the Internet Relay Network '' @ clientPrefix client) s;
              s2 = queueNumeric fd RPL_YOURHOST
                     ('':Your host is '' @ sv_serverName s @ '', running version 1.0'') s1;
              s3 = queueNumeric fd RPL_CREATED
                     ('':This server was created '' @ sv_serverStartTime s) s2;
              s4 = queueNumeric fd RPL_MYINFO (sv_serverName s @ '' 1.0 - itkol'') s3
          in queueNumeric fd ERR_NOMOTD '':MOTD File is missing'' s4)"

definition tryRegisterClient :: "int \<Rightarrow> server \<Rightarrow> server" where
  "tryRegisterClient fd s =
     (case findClientByFd fd s of
        None \<Rightarrow> s
      | Some client \<Rightarrow>
          let s1 = updClient fd (\<lambda>c. snd (tryCompleteRegistration c)) s
          in if fst (tryCompleteRegistration client) then sendWelcomeSequence fd s1 else s1)"

definition handlePass :: "int \<Rightarrow> message \<Rightarrow> server \<Rightarrow> server" where
  "handlePass fd msg s =
     (case findClientByFd fd s of
        None \<Rightarrow> s
      | Some client \<Rightarrow>
          (case requireParams fd msg 1 s of (ok, s1) \<Rightarrow>
             if \<not> ok then s1
             else if msg_params msg ! 0 \<noteq> sv_password s1
             then queueNumeric fd ERR_PASSWDMISMATCH '':Password incorrect'' s1
             else tryRegisterClient fd (updClient fd acceptPassword s1)))"

text \<open>The three writes of NICK after all checks have passed: the old index entry goes, the
  new one comes, the client's own nickname follows.\<close>

definition renameClient :: "int \<Rightarrow> string \<Rightarrow> server \<Rightarrow> server" where
  "renameClient fd nickname s =
     (case findClientByFd fd s of
        None \<Rightarrow> s
      | Some client \<Rightarrow>
          let s1 = (if cl_nickname client \<noteq> [] then unregisterNickname (cl_nickname client) s else s);
              s2 = registerNickname fd nickname s1
          in updClient fd (setNickname nickname) s2)"

definition handleNick :: "int \<Rightarrow> message \<Rightarrow> server \<Rightarrow> server" where
  "handleNick fd msg s =
     (case findClientByFd fd s of
        None \<Rightarrow> s
      | Some client \<Rightarrow>
          if msg_params msg = [] then queueNumeric fd ERR_NONICKNAMEGIVEN '':No nickname given'' s
          else
            let nickname = msg_params msg ! 0
            in if \<not> isValidNickname nickname
               then queueNumeric fd ERR_ERRONEUSNICKNAME (nickname @ '' :Erroneous nickname'') s
               else if \<not> isNicknameAvailable nickname fd s
               then queueNumeric fd ERR_NICKNAMEINUSE
                      (nickname @ '' :Nickname is already in use'') s
               else
                 let oldPrefix = clientPrefix client;
                     wasRegistered = cl_registered client;
                     s1 = renameClient fd nickname s
                 in if wasRegistered
                    then
                      let notice = reply_command oldPrefix ''NICK'' ('':'' @ nickname);
                          s2 = queueToClient fd notice s1
                      in (case findClientByFd fd s2 of
                            None \<Rightarrow> s2
                          | Some c \<Rightarrow> broadcastToSharedChannels c notice s2)
                    else tryRegisterClient fd s1)"

definition handleUser :: "int \<Rightarrow> message \<Rightarrow> server \<Rightarrow> server" where
  "handleUser fd msg s =
     (case findClientByFd fd s of
        None \<Rightarrow> s
      | Some client \<Rightarrow>
          if cl_userReceived client
          then queueNumeric fd ERR_ALREADYREGISTRED
                 '':Unauthorized command (already registered)'' s
          else
            (case requireParams fd msg 4 s of (ok, s1) \<Rightarrow>
               if \<not> ok then s1
               else
                 let username = msg_params msg ! 0
                 in if username = []
                       \<or> list_ex (\<lambda>c. c = SP \<or> c = CHR ''@'' \<or> c = CR \<or> c = LF) username
                       \<or> NUL \<in> set username
                    then queueNumeric fd ERR_NEEDMOREPARAMS
                           (msg_command msg @ '' :Not enough parameters'') s1
                    else tryRegisterClient fd
                           (updClient fd (setUser username (msg_params msg ! 3)) s1)))"

definition handleCap :: "int \<Rightarrow> message \<Rightarrow> server \<Rightarrow> server" where
  "handleCap fd msg s =
     (if findClientByFd fd s = None \<or> msg_params msg = [] then s
      else
        let subcommand = toUpperAscii (msg_params msg ! 0)
        in if subcommand = ''LS''
           then queueToClient fd
                  (reply_command (serverPrefix (sv_serverName s)) ''CAP'' ''* LS :'') s
           else if subcommand = ''REQ''
           then
             let requested = (if 2 \<le> length (msg_params msg) then msg_params msg ! 1 else [])
             in queueToClient fd
                  (reply_command (serverPrefix (sv_serverName s)) ''CAP'' (''* NAK :'' @ requested)) s
           else s)"

definition handlePing :: "int \<Rightarrow> message \<Rightarrow> server \<Rightarrow> server" where
  "handlePing fd msg s =
     (case findClientByFd fd s of
        None \<Rightarrow> s
      | Some client \<Rightarrow>
          if msg_params msg = [] \<or> msg_params msg ! 0 = []
          then queueNumeric fd ERR_NOORIGIN '':No origin specified'' s
          else queueToClient fd
                 (reply_command (serverPrefix (sv_serverName s)) ''PONG''
                    (sv_serverName s @ '' :'' @ msg_params msg ! 0)) s)"

definition handlePong :: "int \<Rightarrow> message \<Rightarrow> server \<Rightarrow> server" where
  "handlePong fd msg s = s"

end
