(* ===== verification/Irc_ChannelCmds.thy ===== *)
theory Irc_ChannelCmds
  imports Irc_Auth
begin

section \<open>Channel commands: JOIN, PART, KICK, INVITE, TOPIC, QUIT\<close>

text \<open>
  Models \<open>services/irc/prd/handler/ServerChannelCommands.cpp\<close>. Loops over comma lists are
  \<open>fold\<close>s over the element indices; the body of a loop is its own definition and starts by
  reading the client through its pointer again.
\<close>

subsection \<open>JOIN\<close>

text \<open>
  The writes of one successful JOIN: insert the channel when it is new, add the membership
  on both sides (undoing the insertion if that fails), make the creator operator, consume
  the invitation.
\<close>

definition enterChannel :: "int \<Rightarrow> string \<Rightarrow> bool \<Rightarrow> server \<Rightarrow> bool \<times> server" where
  "enterChannel fd channelName created s =
     (let key = normalizeChannelName channelName;
          s1 = (if created
                then s\<lparr>sv_channels := (sv_channels s)(key \<mapsto> new_channel channelName key)\<rparr> else s)
      in case joinChannel fd key s1 of (ok, s2) \<Rightarrow>
           if \<not> ok then (False, deleteChannelIfEmpty key s2)
           else
             let s3 = (if created then updChannel key (\<lambda>ch. snd (addOperator fd ch)) s2 else s2)
             in (True, updChannel key (\<lambda>ch. snd (removeInvite fd ch)) s3))"

definition names_list :: "channel \<Rightarrow> server \<Rightarrow> string" where
  "names_list ch s =
     fold (\<lambda>m names.
             case findClientByFd m s of
               None \<Rightarrow> names
             | Some member \<Rightarrow>
                 (if names \<noteq> [] then names @ '' '' else names)
                 @ (if isOperator m ch then ''@'' else []) @ cl_nickname member)
       (sorted_list_of_fset (ch_members ch)) []"

text \<open>The notifications after a successful JOIN: JOIN to all members, topic, names.\<close>

definition announceJoin :: "int \<Rightarrow> string \<Rightarrow> server \<Rightarrow> server" where
  "announceJoin fd key s =
     (case (findClientByFd fd s, findChannel key s) of
        (Some client, Some ch) \<Rightarrow>
          let s1 = broadcastToChannel ch
                     (reply_command (clientPrefix client) ''JOIN'' ('':'' @ ch_name ch)) (- 1) s;
              s2 = (if hasTopic ch
                    then queueNumeric fd RPL_TOPIC (ch_name ch @ '' :'' @ ch_topic ch) s1
                    else queueNumeric fd RPL_NOTOPIC (ch_name ch @ '' :No topic is set'') s1);
              s3 = queueNumeric fd RPL_NAMREPLY (''= '' @ ch_name ch @ '' :'' @ names_list ch s2) s2
          in queueNumeric fd RPL_ENDOFNAMES (ch_name ch @ '' :End of NAMES list'') s3
      | _ \<Rightarrow> s)"

definition joinOne :: "int \<Rightarrow> string \<Rightarrow> string \<Rightarrow> server \<Rightarrow> server" where
  "joinOne fd channelName key s =
     (case findClientByFd fd s of
        None \<Rightarrow> s
      | Some client \<Rightarrow>
          if \<not> isValidChannelName channelName then sendNoSuchChannel fd channelName s
          else
            let normalizedKey = normalizeChannelName channelName
            in if hasJoinedChannel normalizedKey client then s
               else
                 (case findChannel normalizedKey s of
                    Some ch \<Rightarrow>
                      if ch_inviteOnly ch \<and> \<not> isInvited fd ch
                      then queueNumeric fd ERR_INVITEONLYCHAN
                             (ch_name ch @ '' :Cannot join channel (+i)'') s
                      else if \<not> matchesKey key ch
                      then queueNumeric fd ERR_BADCHANNELKEY
                             (ch_name ch @ '' :Cannot join channel (+k)'') s
                      else if isFull ch
                      then queueNumeric fd ERR_CHANNELISFULL
                             (ch_name ch @ '' :Cannot join channel (+l)'') s
                      else (case enterChannel fd channelName False s of (ok, s1) \<Rightarrow>
                              if ok then announceJoin fd normalizedKey s1 else s1)
                  | None \<Rightarrow>
                      (case enterChannel fd channelName True s of (ok, s1) \<Rightarrow>
                         if ok then announceJoin fd normalizedKey s1 else s1)))"

definition handleJoin :: "int \<Rightarrow> message \<Rightarrow> server \<Rightarrow> server" where
  "handleJoin fd msg s =
     (case findClientByFd fd s of
        None \<Rightarrow> s
      | Some client \<Rightarrow>
          (case requireParams fd msg 1 s of (ok, s0) \<Rightarrow>
             if \<not> ok then s0
             else if msg_params msg ! 0 = ''0''
             then
               let reason = cl_nickname client
               in fold (\<lambda>key s. snd (leaveChannel fd key reason True s))
                    (sorted_list_of_fset (cl_joinedChannels client)) s0
             else
               let channels = splitCommaList (msg_params msg ! 0);
                   keys = (if 2 \<le> length (msg_params msg) then splitCommaList (msg_params msg ! 1)
                           else [])
               in fold (\<lambda>i. joinOne fd (channels ! i) (if i < length keys then keys ! i else []))
                    [0..<length channels] s0))"

subsection \<open>PART\<close>

definition partOne :: "int \<Rightarrow> string \<Rightarrow> string \<Rightarrow> server \<Rightarrow> server" where
  "partOne fd reason channelName s =
     (let normalizedKey = normalizeChannelName channelName
      in case findChannel normalizedKey s of
           None \<Rightarrow> sendNoSuchChannel fd channelName s
         | Some ch \<Rightarrow>
             (case requireChannelMember fd ch s of (ok, s1) \<Rightarrow>
                if \<not> ok then s1 else snd (leaveChannel fd normalizedKey reason True s1)))"

definition handlePart :: "int \<Rightarrow> message \<Rightarrow> server \<Rightarrow> server" where
  "handlePart fd msg s =
     (case findClientByFd fd s of
        None \<Rightarrow> s
      | Some client \<Rightarrow>
          (case requireParams fd msg 1 s of (ok, s0) \<Rightarrow>
             if \<not> ok then s0
             else
               let channels = splitCommaList (msg_params msg ! 0);
                   reason = (if 2 \<le> length (msg_params msg) then msg_params msg ! 1
                             else cl_nickname client)
               in fold (\<lambda>i. partOne fd reason (channels ! i)) [0..<length channels] s0))"

subsection \<open>KICK\<close>

definition handleKick :: "int \<Rightarrow> message \<Rightarrow> server \<Rightarrow> server" where
  "handleKick fd msg s =
     (case findClientByFd fd s of
        None \<Rightarrow> s
      | Some client \<Rightarrow>
          (case requireParams fd msg 2 s of (ok, s0) \<Rightarrow>
             if \<not> ok then s0
             else
               let channelName = msg_params msg ! 0;
                   targetNick = msg_params msg ! 1
               in case findChannel channelName s0 of
                    None \<Rightarrow> sendNoSuchChannel fd channelName s0
                  | Some ch \<Rightarrow>
                      (case requireChannelMember fd ch s0 of (ok1, s1) \<Rightarrow>
                         if \<not> ok1 then s1
                         else (case requireChannelOperator fd ch s1 of (ok2, s2) \<Rightarrow>
                                 if \<not> ok2 then s2
                                 else (case findClientByNickname targetNick s2 of
                                         None \<Rightarrow>
                                           queueNumeric fd ERR_NOSUCHNICK
                                             (targetNick @ '' :No such nick/channel'') s2
                                       | Some target \<Rightarrow>
                                           if \<not> hasMember (cl_fd target) ch
                                           then queueNumeric fd ERR_USERNOTINCHANNEL
                                                  (targetNick @ '' '' @ ch_name ch
                                                     @ '' :They aren't on that channel'') s2
                                           else
                                             let reason = (if 3 \<le> length (msg_params msg)
                                                           then msg_params msg ! 2
                                                           else cl_nickname client);
                                                 notice = reply_command (clientPrefix client) ''KICK''
                                                            (ch_name ch @ '' '' @ cl_nickname target
                                                               @ '' :'' @ reason);
                                                 s3 = broadcastToChannel ch notice (- 1) s2
                                             in snd (leaveChannel (cl_fd target) (ch_keyName ch)
                                                       reason False s3))))))"

subsection \<open>INVITE\<close>

definition handleInvite :: "int \<Rightarrow> message \<Rightarrow> server \<Rightarrow> server" where
  "handleInvite fd msg s =
     (case findClientByFd fd s of
        None \<Rightarrow> s
      | Some client \<Rightarrow>
          (case requireParams fd msg 2 s of (ok, s0) \<Rightarrow>
             if \<not> ok then s0
             else
               let targetNick = msg_params msg ! 0;
                   channelName = msg_params msg ! 1
               in case findClientByNickname targetNick s0 of
                    None \<Rightarrow>
                      queueNumeric fd ERR_NOSUCHNICK (targetNick @ '' :No such nick/channel'') s0
                  | Some target \<Rightarrow>
                      (case findChannel channelName s0 of
                         None \<Rightarrow> sendNoSuchChannel fd channelName s0
                       | Some ch \<Rightarrow>
                           (case requireChannelMember fd ch s0 of (ok1, s1) \<Rightarrow>
                              if \<not> ok1 then s1
                              else (case requireChannelOperator fd ch s1 of (ok2, s2) \<Rightarrow>
                                      if \<not> ok2 then s2
                                      else if hasMember (cl_fd target) ch
                                      then queueNumeric fd ERR_USERONCHANNEL
                                             (cl_nickname target @ '' '' @ ch_name ch
                                                @ '' :is already on channel'') s2
                                      else
                                        let s3 = updChannel (normalizeChannelName channelName)
                                                   (\<lambda>ch. snd (addInvite (cl_fd target) ch)) s2;
                                            s4 = queueNumeric fd RPL_INVITING
                                                   (ch_name ch @ '' '' @ cl_nickname target) s3
                                        in queueToClient (cl_fd target)
                                             (reply_command (clientPrefix client) ''INVITE''
                                                (cl_nickname target @ '' :'' @ ch_name ch)) s4)))))"

subsection \<open>TOPIC\<close>

definition handleTopic :: "int \<Rightarrow> message \<Rightarrow> server \<Rightarrow> server" where
  "handleTopic fd msg s =
     (case findClientByFd fd s of
        None \<Rightarrow> s
      | Some client \<Rightarrow>
          (case requireParams fd msg 1 s of (ok, s0) \<Rightarrow>
             if \<not> ok then s0
             else
               let channelName = msg_params msg ! 0
               in case findChannel channelName s0 of
                    None \<Rightarrow> sendNoSuchChannel fd channelName s0
                  | Some ch \<Rightarrow>
                      (case requireChannelMember fd ch s0 of (ok1, s1) \<Rightarrow>
                         if \<not> ok1 then s1
                         else if length (msg_params msg) < 2
                         then (if hasTopic ch
                               then queueNumeric fd RPL_TOPIC (ch_name ch @ '' :'' @ ch_topic ch) s1
                               else queueNumeric fd RPL_NOTOPIC
                                      (ch_name ch @ '' :No topic is set'') s1)
                         else
                           (case (if ch_topicRestricted ch then requireChannelOperator fd ch s1
                                  else (True, s1)) of (ok2, s2) \<Rightarrow>
                              if \<not> ok2 then s2
                              else
                                let topic = msg_params msg ! 1;
                                    s3 = updChannel (normalizeChannelName channelName)
                                           (setTopic topic) s2;
                                    notice = reply_command (clientPrefix client) ''TOPIC''
                                               (ch_name ch @ '' :'' @ topic)
                                in broadcastToChannel ch notice (- 1) s3))))"

subsection \<open>QUIT\<close>

definition handleQuit :: "int \<Rightarrow> message \<Rightarrow> server \<Rightarrow> server" where
  "handleQuit fd msg s =
     (case findClientByFd fd s of
        None \<Rightarrow> s
      | Some client \<Rightarrow>
          let reason = (if msg_params msg \<noteq> [] then msg_params msg ! 0 else ''Client Quit'')
          in scheduleDisconnect fd
               (s\<lparr>sv_disconnectReasons := (sv_disconnectReasons s)(fd \<mapsto> reason)\<rparr>))"

end
