(* ===== verification/Irc_MessageCmds.thy ===== *)
theory Irc_MessageCmds
  imports Irc_Auth
begin

section \<open>PRIVMSG\<close>

text \<open>
  Models \<open>services/irc/prd/handler/ServerMessageCommands.cpp\<close>: one target of the list is
  \<open>privmsgOne\<close>, the loop is a \<open>fold\<close> over the target indices.
\<close>

definition privmsgOne :: "int \<Rightarrow> string \<Rightarrow> string \<Rightarrow> server \<Rightarrow> server" where
  "privmsgOne fd txt target s =
     (case findClientByFd fd s of
        None \<Rightarrow> s
      | Some client \<Rightarrow>
          if target \<noteq> [] \<and> target ! 0 = CHR ''#''
          then (case findChannel target s of
                  None \<Rightarrow> sendNoSuchChannel fd target s
                | Some ch \<Rightarrow>
                    if \<not> hasMember fd ch
                    then queueNumeric fd ERR_CANNOTSENDTOCHAN
                           (ch_name ch @ '' :Cannot send to channel'') s
                    else broadcastToChannel ch
                           (reply_command (clientPrefix client) ''PRIVMSG''
                              (ch_name ch @ '' :'' @ txt)) fd s)
          else (case findClientByNickname target s of
                  None \<Rightarrow>
                    queueNumeric fd ERR_NOSUCHNICK (target @ '' :No such nick/channel'') s
                | Some targetClient \<Rightarrow>
                    queueToClient (cl_fd targetClient)
                      (reply_command (clientPrefix client) ''PRIVMSG''
                         (cl_nickname targetClient @ '' :'' @ txt)) s))"

definition handlePrivmsg :: "int \<Rightarrow> message \<Rightarrow> server \<Rightarrow> server" where
  "handlePrivmsg fd msg s =
     (case findClientByFd fd s of
        None \<Rightarrow> s
      | Some client \<Rightarrow>
          if msg_params msg = []
          then queueNumeric fd ERR_NORECIPIENT '':No recipient given (PRIVMSG)'' s
          else if length (msg_params msg) < 2 \<or> msg_params msg ! 1 = []
          then queueNumeric fd ERR_NOTEXTTOSEND '':No text to send'' s
          else
            let txt = msg_params msg ! 1;
                targets = splitCommaList (msg_params msg ! 0)
            in fold (\<lambda>i. privmsgOne fd txt (targets ! i)) [0..<length targets] s)"

end
