(* ===== verification/Irc_Mode.thy ===== *)
theory Irc_Mode
  imports Irc_Auth
begin

section \<open>MODE\<close>

text \<open>
  Models \<open>services/irc/prd/handler/ServerMode.cpp\<close>. The local variables of the scan over
  the mode string are the record \<open>mode_scan\<close>; one character is \<open>modeChar\<close>, one \<open>case\<close> of
  the \<open>switch\<close> a definition of its own. \<open>lastSign\<close> starts as the character 0.
\<close>

definition isValidChannelKey :: "string \<Rightarrow> bool" where
  "isValidChannelKey key \<longleftrightarrow>
     key \<noteq> [] \<and> length key \<le> 23
     \<and> list_all (\<lambda>c. \<not> (c = SP \<or> c = NUL \<or> c = CR \<or> c = LF \<or> c = TAB)) key"

definition MODE_MAX_USER_LIMIT :: "64 word" where "MODE_MAX_USER_LIMIT = 100000"

record mode_scan =
  ms_adding :: bool
  ms_signSeen :: bool
  ms_argIndex :: nat
  ms_changedModes :: string
  ms_changedParams :: "string list"
  ms_lastSign :: char

definition initial_scan :: mode_scan where
  "initial_scan =
     \<lparr>ms_adding = True, ms_signSeen = False, ms_argIndex = 2, ms_changedModes = [],
      ms_changedParams = [], ms_lastSign = NUL\<rparr>"

definition appendChangedMode :: "bool \<Rightarrow> char \<Rightarrow> mode_scan \<Rightarrow> mode_scan" where
  "appendChangedMode adding mode sc =
     (let sgn_char = (if adding then CHR ''+'' else CHR ''-'');
          sc1 = (if ms_lastSign sc \<noteq> sgn_char
                 then sc\<lparr>ms_changedModes := ms_changedModes sc @ [sgn_char], ms_lastSign := sgn_char\<rparr>
                 else sc)
      in sc1\<lparr>ms_changedModes := ms_changedModes sc1 @ [mode]\<rparr>)"

definition pushChangedParam :: "string \<Rightarrow> mode_scan \<Rightarrow> mode_scan" where
  "pushChangedParam p sc = sc\<lparr>ms_changedParams := ms_changedParams sc @ [p]\<rparr>"

definition nextArg :: "mode_scan \<Rightarrow> mode_scan" where
  "nextArg sc = sc\<lparr>ms_argIndex := ms_argIndex sc + 1\<rparr>"

definition needMoreParams :: "int \<Rightarrow> message \<Rightarrow> server \<Rightarrow> server" where
  "needMoreParams fd msg s =
     queueNumeric fd ERR_NEEDMOREPARAMS (msg_command msg @ '' :Not enough parameters'') s"

definition unknownMode :: "int \<Rightarrow> char \<Rightarrow> channel \<Rightarrow> server \<Rightarrow> server" where
  "unknownMode fd c ch s =
     queueNumeric fd ERR_UNKNOWNMODE ([c] @ '' :is unknown mode char to me for '' @ ch_name ch) s"

subsection \<open>The cases of the switch\<close>

definition modeI :: "string \<Rightarrow> channel \<Rightarrow> mode_scan \<times> server \<Rightarrow> mode_scan \<times> server" where
  "modeI key ch st =
     (case st of (sc, s) \<Rightarrow>
        if ch_inviteOnly ch \<noteq> ms_adding sc
        then (appendChangedMode (ms_adding sc) (CHR ''i'') sc,
              updChannel key (setInviteOnly (ms_adding sc)) s)
        else (sc, s))"

definition modeT :: "string \<Rightarrow> channel \<Rightarrow> mode_scan \<times> server \<Rightarrow> mode_scan \<times> server" where
  "modeT key ch st =
     (case st of (sc, s) \<Rightarrow>
        if ch_topicRestricted ch \<noteq> ms_adding sc
        then (appendChangedMode (ms_adding sc) (CHR ''t'') sc,
              updChannel key (setTopicRestricted (ms_adding sc)) s)
        else (sc, s))"

definition modeK :: "int \<Rightarrow> message \<Rightarrow> string \<Rightarrow> channel \<Rightarrow> mode_scan \<times> server \<Rightarrow> mode_scan \<times> server" where
  "modeK fd msg key ch st =
     (case st of (sc, s) \<Rightarrow>
        if ms_adding sc
        then
          if length (msg_params msg) \<le> ms_argIndex sc then (sc, needMoreParams fd msg s)
          else
            let arg = msg_params msg ! ms_argIndex sc
            in if \<not> isValidChannelKey arg then (sc, needMoreParams fd msg s)
               else (nextArg (pushChangedParam arg (appendChangedMode True (CHR ''k'') sc)),
                     updChannel key (setChannelKey arg) s)
        else if ch_keyEnabled ch
        then (appendChangedMode False (CHR ''k'') sc, updChannel key clearChannelKey s)
        else (sc, s))"

definition modeO :: "int \<Rightarrow> message \<Rightarrow> string \<Rightarrow> channel \<Rightarrow> mode_scan \<times> server \<Rightarrow> mode_scan \<times> server" where
  "modeO fd msg key ch st =
     (case st of (sc, s) \<Rightarrow>
        if length (msg_params msg) \<le> ms_argIndex sc then (sc, needMoreParams fd msg s)
        else
          let nickArg = msg_params msg ! ms_argIndex sc;
              sc1 = nextArg sc
          in case findClientByNickname nickArg s of
               None \<Rightarrow> (sc1, queueNumeric fd ERR_NOSUCHNICK (nickArg @ '' :No such nick/channel'') s)
             | Some target \<Rightarrow>
                 if \<not> hasMember (cl_fd target) ch
                 then (sc1, queueNumeric fd ERR_USERNOTINCHANNEL
                              (nickArg @ '' '' @ ch_name ch @ '' :They aren't on that channel'') s)
                 else
                   let operation = (if ms_adding sc then addOperator (cl_fd target)
                                    else removeOperator (cl_fd target));
                       changed = fst (operation ch);
                       s1 = updChannel key (\<lambda>ch. snd (operation ch)) s
                   in if changed
                      then (pushChangedParam (cl_nickname target)
                              (appendChangedMode (ms_adding sc) (CHR ''o'') sc1), s1)
                      else (sc1, s1))"

definition modeL :: "int \<Rightarrow> message \<Rightarrow> string \<Rightarrow> channel \<Rightarrow> mode_scan \<times> server \<Rightarrow> mode_scan \<times> server" where
  "modeL fd msg key ch st =
     (case st of (sc, s) \<Rightarrow>
        if ms_adding sc
        then
          if length (msg_params msg) \<le> ms_argIndex sc then (sc, needMoreParams fd msg s)
          else
            let arg = msg_params msg ! ms_argIndex sc;
                sc1 = nextArg sc
            in case parsePositiveSize arg of
                 None \<Rightarrow> (sc1, s)
               | Some limit \<Rightarrow>
                   if MODE_MAX_USER_LIMIT < limit then (sc1, s)
                   else (pushChangedParam arg (appendChangedMode True (CHR ''l'') sc1),
                         updChannel key (setUserLimit limit) s)
        else if ch_limitEnabled ch
        then (appendChangedMode False (CHR ''l'') sc, updChannel key clearUserLimit s)
        else (sc, s))"

subsection \<open>The scan and the handler\<close>

definition modeChar :: "int \<Rightarrow> message \<Rightarrow> string \<Rightarrow> char \<Rightarrow> mode_scan \<times> server \<Rightarrow> mode_scan \<times> server" where
  "modeChar fd msg key c st =
     (case st of (sc, s) \<Rightarrow>
        if c = CHR ''+'' then (sc\<lparr>ms_adding := True, ms_signSeen := True\<rparr>, s)
        else if c = CHR ''-'' then (sc\<lparr>ms_adding := False, ms_signSeen := True\<rparr>, s)
        else
          (case sv_channels s key of
             None \<Rightarrow> (sc, s)
           | Some ch \<Rightarrow>
               if \<not> ms_signSeen sc then (sc, unknownMode fd c ch s)
               else if c = CHR ''i'' then modeI key ch (sc, s)
               else if c = CHR ''t'' then modeT key ch (sc, s)
               else if c = CHR ''k'' then modeK fd msg key ch (sc, s)
               else if c = CHR ''o'' then modeO fd msg key ch (sc, s)
               else if c = CHR ''l'' then modeL fd msg key ch (sc, s)
               else (sc, unknownMode fd c ch s)))"

definition modeScan :: "int \<Rightarrow> message \<Rightarrow> string \<Rightarrow> server \<Rightarrow> mode_scan \<times> server" where
  "modeScan fd msg key s = fold (modeChar fd msg key) (msg_params msg ! 1) (initial_scan, s)"

definition modeNotify :: "int \<Rightarrow> string \<Rightarrow> mode_scan \<times> server \<Rightarrow> server" where
  "modeNotify fd key st =
     (case st of (sc, s) \<Rightarrow>
        if ms_changedModes sc = [] then s
        else
          (case (findClientByFd fd s, sv_channels s key) of
             (Some client, Some ch) \<Rightarrow>
               let notifyParams = fold (\<lambda>p acc. acc @ '' '' @ p) (ms_changedParams sc)
                                    (ms_changedModes sc)
               in broadcastToChannel ch
                    (reply_command (clientPrefix client) ''MODE''
                       (ch_name ch @ '' '' @ notifyParams)) (- 1) s
           | _ \<Rightarrow> s))"

definition modeQuery :: "int \<Rightarrow> channel \<Rightarrow> server \<Rightarrow> server" where
  "modeQuery fd ch s =
     queueNumeric fd RPL_CHANNELMODEIS
       (fold (\<lambda>p acc. acc @ '' '' @ p) (buildModeParameters ch)
          (ch_name ch @ '' '' @ buildModeString ch)) s"

definition handleMode :: "int \<Rightarrow> message \<Rightarrow> server \<Rightarrow> server" where
  "handleMode fd msg s =
     (case findClientByFd fd s of
        None \<Rightarrow> s
      | Some client \<Rightarrow>
          (case requireParams fd msg 1 s of (ok, s0) \<Rightarrow>
             if \<not> ok then s0
             else
               let target = msg_params msg ! 0
               in if target = [] \<or> target ! 0 \<noteq> CHR ''#''
                  then queueNumeric fd ERR_UNKNOWNCOMMAND (target @ '' :Unknown command'') s0
                  else
                    (case findChannel target s0 of
                       None \<Rightarrow> sendNoSuchChannel fd target s0
                     | Some ch \<Rightarrow>
                         if length (msg_params msg) = 1 then modeQuery fd ch s0
                         else
                           (case requireChannelMember fd ch s0 of (ok1, s1) \<Rightarrow>
                              if \<not> ok1 then s1
                              else (case requireChannelOperator fd ch s1 of (ok2, s2) \<Rightarrow>
                                      if \<not> ok2 then s2
                                      else
                                        let key = normalizeChannelName target
                                        in modeNotify fd key (modeScan fd msg key s2))))))"

end
