(* ===== verification/Irc_Dispatch.thy ===== *)
theory Irc_Dispatch
  imports Irc_ChannelCmds Irc_MessageCmds Irc_Mode
begin

section \<open>The command dispatcher\<close>

text \<open>
  Models \<open>services/irc/prd/interface/ServerDispatch.cpp\<close>: the table of commands with their
  registration requirements, in the order of the source, and \<open>dispatchCommand\<close>.
\<close>

record command_entry =
  ce_name :: string
  ce_handler :: "int \<Rightarrow> message \<Rightarrow> server \<Rightarrow> server"
  ce_requiresRegistration :: bool
  ce_rejectsWhenRegistered :: bool

definition command_table :: "command_entry list" where
  "command_table =
     [\<lparr>ce_name = ''PASS'', ce_handler = handlePass,
       ce_requiresRegistration = False, ce_rejectsWhenRegistered = True\<rparr>,
      \<lparr>ce_name = ''NICK'', ce_handler = handleNick,
       ce_requiresRegistration = False, ce_rejectsWhenRegistered = False\<rparr>,
      \<lparr>ce_name = ''USER'', ce_handler = handleUser,
       ce_requiresRegistration = False, ce_rejectsWhenRegistered = True\<rparr>,
      \<lparr>ce_name = ''CAP'', ce_handler = handleCap,
       ce_requiresRegistration = False, ce_rejectsWhenRegistered = False\<rparr>,
      \<lparr>ce_name = ''PING'', ce_handler = handlePing,
       ce_requiresRegistration = False, ce_rejectsWhenRegistered = False\<rparr>,
      \<lparr>ce_name = ''PONG'', ce_handler = handlePong,
       ce_requiresRegistration = False, ce_rejectsWhenRegistered = False\<rparr>,
      \<lparr>ce_name = ''QUIT'', ce_handler = handleQuit,
       ce_requiresRegistration = False, ce_rejectsWhenRegistered = False\<rparr>,
      \<lparr>ce_name = ''JOIN'', ce_handler = handleJoin,
       ce_requiresRegistration = True, ce_rejectsWhenRegistered = False\<rparr>,
      \<lparr>ce_name = ''PRIVMSG'', ce_handler = handlePrivmsg,
       ce_requiresRegistration = True, ce_rejectsWhenRegistered = False\<rparr>,
      \<lparr>ce_name = ''KICK'', ce_handler = handleKick,
       ce_requiresRegistration = True, ce_rejectsWhenRegistered = False\<rparr>,
      \<lparr>ce_name = ''INVITE'', ce_handler = handleInvite,
       ce_requiresRegistration = True, ce_rejectsWhenRegistered = False\<rparr>,
      \<lparr>ce_name = ''TOPIC'', ce_handler = handleTopic,
       ce_requiresRegistration = True, ce_rejectsWhenRegistered = False\<rparr>,
      \<lparr>ce_name = ''MODE'', ce_handler = handleMode,
       ce_requiresRegistration = True, ce_rejectsWhenRegistered = False\<rparr>,
      \<lparr>ce_name = ''PART'', ce_handler = handlePart,
       ce_requiresRegistration = True, ce_rejectsWhenRegistered = False\<rparr>]"

definition find_entry :: "string \<Rightarrow> command_entry option" where
  "find_entry command = find (\<lambda>e. command = ce_name e) command_table"

definition dispatchCommand :: "int \<Rightarrow> message \<Rightarrow> server \<Rightarrow> server" where
  "dispatchCommand fd msg s =
     (case findClientByFd fd s of
        None \<Rightarrow> s
      | Some client \<Rightarrow>
          (case find_entry (msg_command msg) of
             None \<Rightarrow>
               if cl_registered client
               then queueNumeric fd ERR_UNKNOWNCOMMAND (msg_command msg @ '' :Unknown command'') s
               else s
           | Some entry \<Rightarrow>
               if \<not> cl_registered client \<and> ce_requiresRegistration entry
               then queueNumeric fd ERR_NOTREGISTERED '':You have not registered'' s
               else if cl_registered client \<and> ce_rejectsWhenRegistered entry
               then queueNumeric fd ERR_ALREADYREGISTRED
                      '':Unauthorized command (already registered)'' s
               else ce_handler entry fd msg s))"

end
