(* ===== verification/Irc_Stable.thy ===== *)
theory Irc_Stable
  imports Irc_Frame Irc_Dispatch
begin

section \<open>What no command changes\<close>

text \<open>
  A command handler never touches a receive buffer, the set of connected descriptors, the
  listening socket, the descriptors of the poll list, or the server's own settings; it never
  removes a pending disconnection either. These facts hold in every state. They make the
  receive loop terminate (its buffer shrinks only by what it consumes) and are the frame of
  every property of the network layer.
\<close>

text \<open>The receive buffers, by descriptor; \<open>None\<close> where nobody is connected.\<close>

definition inputs :: "server \<Rightarrow> int \<Rightarrow> string option" where
  "inputs s fd = map_option cl_receiveBuffer (sv_clients s fd)"

definition steady :: "server \<Rightarrow> server \<Rightarrow> bool" where
  "steady s s' \<longleftrightarrow>
     inputs s' = inputs s \<and> sv_listenFd s' = sv_listenFd s \<and> sv_running s' = sv_running s
     \<and> sv_opened s' = sv_opened s \<and> sv_closed s' = sv_closed s
     \<and> map pf_fd (sv_pollFds s') = map pf_fd (sv_pollFds s)
     \<and> sv_password s' = sv_password s \<and> sv_serverName s' = sv_serverName s
     \<and> sv_pendingDisconnects s |\<subseteq>| sv_pendingDisconnects s'"

lemma steady_refl [simp]: "steady s s"
  by (simp add: steady_def)

lemma steady_trans: "steady s t \<Longrightarrow> steady t u \<Longrightarrow> steady s u"
  by (auto simp: steady_def)

lemma steady_fold:
  assumes "\<And>x s. steady s (f x s)"
  shows "steady s (fold f xs s)"
  by (rule fold_keeps [where P = "steady s"]) (auto intro: steady_trans assms)

lemma inputs_cong: "sv_clients s' = sv_clients s \<Longrightarrow> inputs s' = inputs s"
  by (simp add: inputs_def fun_eq_iff)

lemma inputs_dom: "inputs s' = inputs s \<Longrightarrow> dom (sv_clients s') = dom (sv_clients s)"
  unfolding inputs_def fun_eq_iff by (auto simp: dom_def) (metis option.map_disc_iff option.exhaust)+

lemma inputs_same_frame: "same_frame s s' \<Longrightarrow> inputs s' = inputs s"
proof
  fix fd assume f: "same_frame s s'"
  then have "map_option cl_receiveBuffer (map_option (cl_sendBuffer_update (\<lambda>_. [])) (sv_clients s' fd))
    = map_option cl_receiveBuffer (map_option (cl_sendBuffer_update (\<lambda>_. [])) (sv_clients s fd))"
    by (simp add: same_frame_def)
  then show "inputs s' fd = inputs s fd" by (simp add: inputs_def option.map_comp o_def)
qed

lemma steady_same_frame: "same_frame s s' \<Longrightarrow> steady s s'"
  by (simp add: steady_def inputs_same_frame same_frame_fields)

text \<open>Output and other writes, put after a steady change.\<close>

lemma steady_output [frame_simps]:
  assumes "steady s t"
  shows "steady s (queueToClient fd msg t)" and "steady s (queueNumeric fd code ps t)"
    and "steady s (broadcastToChannel ch msg excl t)"
    and "steady s (broadcastToSharedChannels c msg t)"
    and "steady s (sendNoSuchChannel fd name t)" and "steady s (scheduleDisconnect fd t)"
    and "steady s (snd (requireChannelMember fd ch t))"
    and "steady s (snd (requireChannelOperator fd ch t))"
    and "steady s (updatePollEvents fd t)"
  using assms by (blast intro: steady_trans steady_same_frame same_frame_queue same_frame_queueNumeric
      same_frame_broadcast same_frame_checks same_frame_schedule same_frame_updatePollEvents)+

lemma steady_updClient [frame_simps]:
  assumes "steady s t" and "\<And>c. cl_receiveBuffer (f c) = cl_receiveBuffer c"
  shows "steady s (updClient fd f t)"
proof -
  have "inputs (updClient fd f t) = inputs t"
    using assms(2) by (auto simp: inputs_def updClient_clients fun_eq_iff option.map_comp o_def)
  with assms(1) show ?thesis by (simp add: steady_def)
qed

lemma steady_updChannel [frame_simps]: "steady s t \<Longrightarrow> steady s (updChannel key f t)"
  using inputs_cong [of "updChannel key f t" t] by (simp add: steady_def)

lemma steady_relations [frame_simps]:
  assumes "steady s t"
  shows "steady s (t\<lparr>sv_channels := chs\<rparr>)" and "steady s (t\<lparr>sv_disconnectReasons := rs\<rparr>)"
    and "steady s (t\<lparr>sv_nickToFd := ix\<rparr>)" and "steady s (deleteChannelIfEmpty key t)"
    and "steady s (registerNickname fd n t)" and "steady s (unregisterNickname n t)"
proof -
  show chs: "steady s (t\<lparr>sv_channels := chs\<rparr>)" for chs
    using assms inputs_cong [of "t\<lparr>sv_channels := chs\<rparr>" t] by (simp add: steady_def)
  show "steady s (t\<lparr>sv_disconnectReasons := rs\<rparr>)"
    using assms inputs_cong [of "t\<lparr>sv_disconnectReasons := rs\<rparr>" t] by (simp add: steady_def)
  show ix: "steady s (t\<lparr>sv_nickToFd := ix\<rparr>)" for ix
    using assms inputs_cong [of "t\<lparr>sv_nickToFd := ix\<rparr>" t] by (simp add: steady_def)
  show "steady s (deleteChannelIfEmpty key t)"
    using chs assms by (simp add: deleteChannelIfEmpty_def split: option.split)
  show "steady s (registerNickname fd n t)" and "steady s (unregisterNickname n t)"
    using ix by (simp_all add: registerNickname_def unregisterNickname_def)
qed

text \<open>The pure updates of a client that handlers apply keep its receive buffer.\<close>

lemma receiveBuffer_updates [simp]:
  "cl_receiveBuffer (setNickname n c) = cl_receiveBuffer c"
  "cl_receiveBuffer (setUser u r c) = cl_receiveBuffer c"
  "cl_receiveBuffer (acceptPassword c) = cl_receiveBuffer c"
  "cl_receiveBuffer (snd (tryCompleteRegistration c)) = cl_receiveBuffer c"
  "cl_receiveBuffer (snd (addJoinedChannel key c)) = cl_receiveBuffer c"
  "cl_receiveBuffer (snd (removeJoinedChannel key c)) = cl_receiveBuffer c"
  "cl_receiveBuffer (appendSendBuffer d c) = cl_receiveBuffer c"
  "cl_receiveBuffer (eraseSendPrefix k c) = cl_receiveBuffer c"
  by (simp_all add: client_defs tryCompleteRegistration_def)

subsection \<open>The relations and the handlers\<close>

lemma steady_requireParams [frame_simps]: "steady s t \<Longrightarrow> steady s (snd (requireParams fd msg n t))"
  by (simp add: frame_simps requireParams_def)

lemma steady_leaveChannel [frame_simps]:
  "steady s t \<Longrightarrow> steady s (snd (leaveChannel fd name reason b t))"
  by (simp add: frame_simps leaveChannel_def Let_def split: option.split)

lemma steady_joinChannel [frame_simps]: "steady s t \<Longrightarrow> steady s (snd (joinChannel fd key t))"
  by (simp add: frame_simps joinChannel_def Let_def split: option.split)

lemma steady_enterChannel [frame_simps]:
  "steady s t \<Longrightarrow> steady s (snd (enterChannel fd name created t))"
  by (simp add: enterChannel_def Let_def case_prod_beta frame_simps)

lemma steady_announceJoin [frame_simps]: "steady s t \<Longrightarrow> steady s (announceJoin fd key t)"
  by (simp add: frame_simps announceJoin_def Let_def split: option.split)

lemma steady_joinOne [frame_simps]: "steady s t \<Longrightarrow> steady s (joinOne fd name key t)"
  by (simp add: joinOne_def Let_def case_prod_beta frame_simps split: option.split)

lemma steady_fold_from [frame_simps]:
  assumes "steady s t" and "\<And>x u. steady s u \<Longrightarrow> steady s (f x u)"
  shows "steady s (fold f xs t)"
  by (rule fold_keeps [where P = "steady s"]) (simp_all add: assms)

text \<open>The handlers, with the shared checks unfolded.\<close>

lemmas check_defs = requireParams_def requireChannelMember_def requireChannelOperator_def

lemma steady_tryRegister [frame_simps]: "steady s t \<Longrightarrow> steady s (tryRegisterClient fd t)"
  by (simp add: frame_simps tryRegisterClient_def sendWelcomeSequence_def Let_def split: option.split)

lemma steady_rename [frame_simps]: "steady s t \<Longrightarrow> steady s (renameClient fd n t)"
  by (simp add: frame_simps renameClient_def Let_def split: option.split)

lemma steady_auth:
  "steady s (handlePass fd msg s)" "steady s (handleUser fd msg s)" "steady s (handleNick fd msg s)"
  "steady s (handleCap fd msg s)" "steady s (handlePing fd msg s)" "steady s (handlePong fd msg s)"
proof -
  show "steady s (handlePass fd msg s)"
    by (simp add: frame_simps handlePass_def check_defs split: option.split)
  show "steady s (handleUser fd msg s)"
    by (simp add: frame_simps handleUser_def check_defs Let_def split: option.split)
  show "steady s (handleNick fd msg s)"
    by (simp add: frame_simps handleNick_def Let_def split: option.split)
  show "steady s (handleCap fd msg s)" and "steady s (handlePing fd msg s)"
    and "steady s (handlePong fd msg s)"
    by (simp_all add: frame_simps handleCap_def handlePing_def handlePong_def Let_def split: option.split)
qed

lemma steady_handleJoin: "steady s (handleJoin fd msg s)"
  by (simp add: frame_simps handleJoin_def check_defs Let_def split: option.split)

lemma steady_partOne [frame_simps]: "steady s t \<Longrightarrow> steady s (partOne fd reason name t)"
  by (simp add: frame_simps partOne_def check_defs Let_def split: option.split)

lemma steady_handlePart: "steady s (handlePart fd msg s)"
  by (simp add: frame_simps handlePart_def check_defs Let_def split: option.split)

lemma steady_handleKick: "steady s (handleKick fd msg s)"
  by (simp add: frame_simps handleKick_def check_defs Let_def split: option.split)

lemma steady_handleInvite: "steady s (handleInvite fd msg s)"
  by (simp add: frame_simps handleInvite_def check_defs Let_def split: option.split)

lemma steady_handleTopic: "steady s (handleTopic fd msg s)"
  by (simp add: frame_simps handleTopic_def check_defs Let_def split: option.split)

lemma steady_handleQuit: "steady s (handleQuit fd msg s)"
  by (simp add: frame_simps handleQuit_def Let_def split: option.split)

lemma steady_privmsgOne [frame_simps]: "steady s t \<Longrightarrow> steady s (privmsgOne fd txt target t)"
  by (simp add: frame_simps privmsgOne_def split: option.split)

lemma steady_handlePrivmsg: "steady s (handlePrivmsg fd msg s)"
  by (simp add: frame_simps handlePrivmsg_def Let_def split: option.split)

lemma steady_modeChar [frame_simps]: "steady s (snd st) \<Longrightarrow> steady s (snd (modeChar fd msg key c st))"
  by (cases st)
    (simp add: frame_simps modeChar_def modeI_def modeT_def modeK_def modeO_def modeL_def Let_def
      needMoreParams_def unknownMode_def split: option.split)

lemma steady_modeScan [frame_simps]: "steady s t \<Longrightarrow> steady s (snd (modeScan fd msg key t))"
  unfolding modeScan_def
  by (rule fold_keeps [where P = "\<lambda>st. steady s (snd st)"]) (simp_all add: steady_modeChar)

lemma steady_modeNotify [frame_simps]: "steady s (snd st) \<Longrightarrow> steady s (modeNotify fd key st)"
  by (cases st) (simp add: frame_simps modeNotify_def Let_def split: option.split)

lemma steady_handleMode: "steady s (handleMode fd msg s)"
  by (simp add: frame_simps handleMode_def check_defs modeQuery_def Let_def split: option.split)

lemma steady_dispatch: "steady s (dispatchCommand fd msg s)"
proof -
  have "steady s (ce_handler e fd msg s)" if "find_entry (msg_command msg) = Some e" for e
  proof -
    from that have "e \<in> set command_table" by (auto simp: find_entry_def find_Some_iff)
    then show ?thesis
      by (auto simp: command_table_def steady_auth steady_handleJoin steady_handlePart
          steady_handleKick steady_handleInvite steady_handleTopic steady_handleQuit
          steady_handlePrivmsg steady_handleMode)
  qed
  then show ?thesis by (simp add: frame_simps dispatchCommand_def split: option.split)
qed

end
