(* ===== verification/Irc_Buffer.thy ===== *)
theory Irc_Buffer
  imports Irc_Util
begin

section \<open>BufferUtil: cutting lines out of the receive buffer\<close>

text \<open>
  Models \<open>services/irc/prd/util/BufferUtil.cpp\<close>. \<open>findLine\<close> takes the caller's \<open>out\<close>
  argument and returns its new value, the status and \<open>consumed\<close>. \<open>drain\<close> is not code: it
  iterates \<open>findLine\<close> on a buffer as the receive loop does and is the specification the
  receive loop is compared with.
\<close>

datatype line_status = LINE_INCOMPLETE | LINE_EXTRACTED | LINE_TOO_LONG

definition hasCompleteLine :: "string \<Rightarrow> bool" where
  "hasCompleteLine buffer \<longleftrightarrow> find_char LF buffer \<noteq> None"

definition findLine :: "string \<Rightarrow> string \<Rightarrow> line_status \<times> string \<times> nat" where
  "findLine buffer out =
     (case find_char LF buffer of
        None \<Rightarrow>
          if IRC_MAX_LINE \<le> length buffer then (LINE_TOO_LONG, out, length buffer)
          else (LINE_INCOMPLETE, out, 0)
      | Some pos \<Rightarrow>
          let consumed = pos + 1;
              raw0 = take pos buffer;
              raw = (if raw0 \<noteq> [] \<and> last raw0 = CR then butlast raw0 else raw0)
          in if IRC_MAX_CONTENT < length raw then (LINE_TOO_LONG, out, consumed)
             else (LINE_EXTRACTED, raw, consumed))"

subsection \<open>What findLine returns\<close>

definition strip_cr :: "string \<Rightarrow> string" where
  "strip_cr raw = (if raw \<noteq> [] \<and> last raw = CR then butlast raw else raw)"

lemma strip_cr_append [simp]: "strip_cr (l @ [CR]) = l"
  by (simp add: strip_cr_def)

lemma set_strip_cr: "set (strip_cr raw) \<subseteq> set raw"
  by (auto simp: strip_cr_def dest: in_set_butlastD)

lemma findLine_no_LF:
  "LF \<notin> set buffer \<Longrightarrow>
     findLine buffer out =
       (if 512 \<le> length buffer then (LINE_TOO_LONG, out, length buffer)
        else (LINE_INCOMPLETE, out, 0))"
  by (simp add: findLine_def IRC_MAX_LINE_def)

lemma findLine_LF:
  "LF \<notin> set raw \<Longrightarrow>
     findLine (raw @ LF # rest) out =
       (if 510 < length (strip_cr raw) then (LINE_TOO_LONG, out, length raw + 1)
        else (LINE_EXTRACTED, strip_cr raw, length raw + 1))"
  by (simp add: findLine_def strip_cr_def IRC_MAX_CONTENT_def Let_def)

text \<open>Every buffer is of one of the two shapes.\<close>

lemma buffer_cases:
  obtains (no_LF) "LF \<notin> set buffer"
  | (line) raw rest where "buffer = raw @ LF # rest" and "LF \<notin> set raw"
  using split_list_first [of LF buffer] by blast

lemma findLine_consumed:
  assumes "findLine buffer out = (status, line, consumed)"
  shows "consumed \<le> length buffer" and "status \<noteq> LINE_INCOMPLETE \<Longrightarrow> 0 < consumed"
    and "status = LINE_INCOMPLETE \<Longrightarrow> consumed = 0"
    and "status = LINE_EXTRACTED \<Longrightarrow> LF \<notin> set line \<and> length line \<le> 510"
    and "status \<noteq> LINE_EXTRACTED \<Longrightarrow> line = out"
proof -
  have "consumed \<le> length buffer \<and> (status \<noteq> LINE_INCOMPLETE \<longrightarrow> 0 < consumed)
    \<and> (status = LINE_INCOMPLETE \<longrightarrow> consumed = 0)
    \<and> (status = LINE_EXTRACTED \<longrightarrow> LF \<notin> set line \<and> length line \<le> 510)
    \<and> (status \<noteq> LINE_EXTRACTED \<longrightarrow> line = out)"
  proof (cases rule: buffer_cases [of buffer])
    case no_LF
    with assms show ?thesis by (auto simp: findLine_no_LF split: if_splits)
  next
    case (line raw rest)
    with assms set_strip_cr [of raw] show ?thesis by (auto simp: findLine_LF split: if_splits)
  qed
  then show "consumed \<le> length buffer" and "status \<noteq> LINE_INCOMPLETE \<Longrightarrow> 0 < consumed"
    and "status = LINE_INCOMPLETE \<Longrightarrow> consumed = 0"
    and "status = LINE_EXTRACTED \<Longrightarrow> LF \<notin> set line \<and> length line \<le> 510"
    and "status \<noteq> LINE_EXTRACTED \<Longrightarrow> line = out" by blast+
qed

lemma findLine_shrinks:
  "findLine buffer out = (LINE_EXTRACTED, line, consumed) \<Longrightarrow> buffer \<noteq> [] \<and> 0 < consumed"
  using findLine_consumed(1,2) [of buffer out LINE_EXTRACTED line consumed] by auto

lemma hasCompleteLine_iff: "hasCompleteLine buffer \<longleftrightarrow> LF \<in> set buffer"
  by (simp add: hasCompleteLine_def)

subsection \<open>Draining a buffer\<close>

text \<open>
  The lines \<open>findLine\<close> cuts off one after the other, the status that ends the iteration and
  the bytes that are left in the buffer.
\<close>

function drain :: "string \<Rightarrow> string list \<times> line_status \<times> string" where
  "drain buffer =
     (case findLine buffer [] of
        (LINE_EXTRACTED, line, consumed) \<Rightarrow>
          (let (ls, status, rest) = drain (drop consumed buffer) in (line # ls, status, rest))
      | (status, _, consumed) \<Rightarrow> ([], status, drop consumed buffer))"
  by pat_completeness auto
termination
  by (relation "measure length") (auto dest: findLine_shrinks findLine_shrinks [OF sym])

declare drain.simps [simp del]

lemma drain_no_LF:
  "LF \<notin> set buffer \<Longrightarrow>
     drain buffer = (if 512 \<le> length buffer then ([], LINE_TOO_LONG, []) else ([], LINE_INCOMPLETE, buffer))"
  by (subst drain.simps) (simp add: findLine_no_LF)

lemma drain_LF:
  "LF \<notin> set raw \<Longrightarrow>
     drain (raw @ LF # rest) =
       (if 510 < length (strip_cr raw) then ([], LINE_TOO_LONG, rest)
        else (let (ls, status, left) = drain rest in (strip_cr raw # ls, status, left)))"
  by (subst drain.simps) (simp add: findLine_LF)

text \<open>Cutting is independent of how the stream was split into chunks.\<close>

lemma drain_append:
  assumes "drain a = (ls, LINE_INCOMPLETE, left)"
  shows "drain (a @ b) = (let (ls', status, left') = drain (left @ b) in (ls @ ls', status, left'))"
  using assms
proof (induction a arbitrary: ls rule: length_induct)
  case (1 a)
  show ?case
  proof (cases rule: buffer_cases [of a])
    case no_LF
    with "1.prems" show ?thesis by (auto simp: drain_no_LF split: if_splits prod.splits)
  next
    case (line raw rest)
    with "1.prems" obtain ls' where short: "\<not> 510 < length (strip_cr raw)"
      and rest: "drain rest = (ls', LINE_INCOMPLETE, left)" and ls: "ls = strip_cr raw # ls'"
      by (auto simp: drain_LF split: if_splits prod.splits)
    have "length rest < length a" by (simp add: line)
    with "1.IH" rest
    have "drain (rest @ b) = (let (ls'', status, left') = drain (left @ b) in (ls' @ ls'', status, left'))"
      by blast
    then show ?thesis
      using line(2) short by (simp add: line(1) drain_LF ls split: prod.splits)
  qed
qed

lemma drain_lines:
  "\<forall>l \<in> set ls. LF \<notin> set l \<and> length l \<le> 510 \<Longrightarrow>
     drain (concat (map (\<lambda>l. l @ crlf) ls) @ tail) =
       (let (ls', status, left) = drain tail in (ls @ ls', status, left))"
proof (induction ls)
  case Nil
  then show ?case by (simp split: prod.splits)
next
  case (Cons l ls)
  let ?rest = "concat (map (\<lambda>l. l @ crlf) ls) @ tail"
  have "drain (concat (map (\<lambda>l. l @ crlf) (l # ls)) @ tail) = drain ((l @ [CR]) @ LF # ?rest)"
    by (simp add: crlf_def)
  also have "\<dots> = (let (ls', status, left) = drain ?rest in (l # ls', status, left))"
    using Cons.prems by (subst drain_LF) simp_all
  finally show ?case using Cons by (simp split: prod.splits)
qed

end
