(* ===== verification/Irc_Network.thy ===== *)
theory Irc_Network
  imports Irc_Stable Irc_Buffer
begin

section \<open>The network layer: receiving, sending and the event loop\<close>

text \<open>
  Models \<open>services/irc/prd/interface/ServerNetwork.cpp\<close> and the destructor of \<open>Server.cpp\<close>.
  What the kernel answers is an argument: \<open>setup_env\<close> holds the results of the calls that
  open the listening socket, a \<open>tick\<close> the results of one round of \<open>poll\<close>, \<open>accept\<close>,
  \<open>recv\<close> and \<open>send\<close> and the value of the stop flag \<open>g_stopRequested\<close> at its two reads.
  A \<open>std::runtime_error\<close> is the left value of the result, with its message and the state it
  leaves; the event loop runs over the sequence of answers the kernel has given so far.
  Log output is not modelled.
\<close>

datatype recv_result = RecvError | Received string

record accept_result =
  ac_fd :: int
  ac_fcntl :: int
  ac_ip :: "string option"

record tick =
  tk_stopBefore :: bool
  tk_ready :: int
  tk_stopAfter :: bool
  tk_revents :: "nat \<Rightarrow> poll_flag set"
  tk_recv :: "int \<Rightarrow> recv_result"
  tk_send :: "int \<Rightarrow> int"
  tk_accept :: accept_result

record setup_env =
  se_socket :: int
  se_fcntl :: int
  se_bind :: int
  se_listen :: int

type_synonym outcome = "(string \<times> server) + server"

definition RECV_CHUNK_SIZE :: nat where "RECV_CHUNK_SIZE = 4096"
definition MAX_RECEIVE_BUFFER :: nat where "MAX_RECEIVE_BUFFER = 65536"

subsection \<open>Opening the listening socket\<close>

definition setupListeningSocket :: "setup_env \<Rightarrow> server \<Rightarrow> outcome" where
  "setupListeningSocket e s =
     (let fd = se_socket e;
          s0 = s\<lparr>sv_listenFd := fd\<rparr>
      in if fd < 0 then Inl (''socket() failed'', s0)
         else
           let s1 = s0\<lparr>sv_opened := sv_opened s0 @ [fd]\<rparr>;
               undone = s1\<lparr>sv_closed := sv_closed s1 @ [fd], sv_listenFd := - 1\<rparr>
           in if se_fcntl e < 0 then Inl (''fcntl() failed'', undone)
              else if se_bind e < 0 then Inl (''bind() failed'', undone)
              else if se_listen e < 0 then Inl (''listen() failed'', undone)
              else Inr (s1\<lparr>sv_pollFds := sv_pollFds s1
                             @ [\<lparr>pf_fd = fd, pf_events = {POLLIN}, pf_revents = {}\<rparr>]\<rparr>))"

definition stop :: "server \<Rightarrow> server" where
  "stop s = s\<lparr>sv_running := False\<rparr>"

subsection \<open>Accepting\<close>

definition acceptClient :: "accept_result \<Rightarrow> server \<Rightarrow> server" where
  "acceptClient r s =
     (let fd = ac_fd r
      in if fd < 0 then s
         else
           let s0 = s\<lparr>sv_opened := sv_opened s @ [fd]\<rparr>
           in if ac_fcntl r < 0 then s0\<lparr>sv_closed := sv_closed s0 @ [fd]\<rparr>
              else
                let peerAddress = (case ac_ip r of Some a \<Rightarrow> a | None \<Rightarrow> ''0.0.0.0'')
                in (case addClient fd peerAddress s0 of (added, s1) \<Rightarrow>
                      if \<not> added then s1\<lparr>sv_closed := sv_closed s1 @ [fd]\<rparr>
                      else addClientPollFd fd s1))"

definition handleListenEvent :: "accept_result \<Rightarrow> poll_flag set \<Rightarrow> server \<Rightarrow> outcome" where
  "handleListenEvent r revents s =
     (let s1 = (if POLLIN \<in> revents then acceptClient r s else s)
      in if POLLERR \<in> revents \<or> POLLHUP \<in> revents \<or> POLLNVAL \<in> revents
         then Inl (''listen socket error'', s1) else Inr s1)"

subsection \<open>Receiving\<close>

definition processLine :: "int \<Rightarrow> string \<Rightarrow> server \<Rightarrow> server" where
  "processLine fd line s =
     (case parse line of None \<Rightarrow> s | Some message \<Rightarrow> dispatchCommand fd message s)"

lemma steady_processLine [frame_simps]: "steady s (processLine fd line s)"
  by (simp add: processLine_def steady_dispatch split: option.split)

text \<open>
  The loop of \<open>receiveFromClient\<close>. Its state is the server and the variable \<open>line\<close>. It
  terminates because a command leaves the receive buffer alone and an extracted line takes
  at least its terminator away.
\<close>

definition input_length :: "int \<Rightarrow> server \<Rightarrow> nat" where
  "input_length fd s = (case inputs s fd of None \<Rightarrow> 0 | Some b \<Rightarrow> length b)"

lemma inputs_erase:
  "inputs (updClient fd (eraseReceivePrefix n) s) = (inputs s)(fd := map_option (drop n) (inputs s fd))"
  by (auto simp: inputs_def updClient_clients eraseReceivePrefix_eq fun_eq_iff option.map_comp o_def)

lemma inputs_append:
  "inputs (updClient fd (appendReceiveBuffer d) s) = (inputs s)(fd := map_option (\<lambda>b. b @ d) (inputs s fd))"
  by (auto simp: inputs_def updClient_clients appendReceiveBuffer_eq fun_eq_iff option.map_comp o_def)

lemma inputs_processLine [simp]: "inputs (processLine fd line s) = inputs s"
  using steady_processLine [of s fd line] by (simp add: steady_def)

text \<open>What one round that extracts a line does to the receive buffer.\<close>

lemma input_length_line:
  assumes c: "findClientByFd fd s = Some client"
    and f: "findLine (cl_receiveBuffer client) line = (LINE_EXTRACTED, line', consumed)"
  shows "input_length fd (processLine fd line' (updClient fd (eraseReceivePrefix consumed) s))
    < input_length fd s"
proof -
  have "inputs s fd = Some (cl_receiveBuffer client)"
    using c by (simp add: inputs_def findClientByFd_def)
  moreover have "0 < consumed" and "consumed \<le> length (cl_receiveBuffer client)"
    using findLine_consumed(1,2) [OF f] by simp_all
  ultimately show ?thesis by (simp add: input_length_def inputs_erase)
qed

function receiveLoop :: "int \<Rightarrow> string \<Rightarrow> server \<Rightarrow> server" where
  "receiveLoop fd line s =
     (case findClientByFd fd s of
        None \<Rightarrow> s
      | Some client \<Rightarrow>
          (case findLine (cl_receiveBuffer client) line of (status, line', consumed) \<Rightarrow>
             (case status of
                LINE_EXTRACTED \<Rightarrow>
                  let s1 = processLine fd line' (updClient fd (eraseReceivePrefix consumed) s)
                  in if fd |\<in>| sv_pendingDisconnects s1 then s1 else receiveLoop fd line' s1
              | LINE_TOO_LONG \<Rightarrow>
                  scheduleDisconnect fd
                    (queueToClient fd ''ERROR :Input line too long''
                       (updClient fd (eraseReceivePrefix consumed) s))
              | LINE_INCOMPLETE \<Rightarrow> s)))"
  by pat_completeness auto

termination
  by (relation "measure (\<lambda>(fd, line, s). input_length fd s)") (auto simp: input_length_line)

declare receiveLoop.simps [simp del]

lemma clean_errors [simp]:
  "clean_text ''ERROR :Input line too long''" "clean_text ''ERROR :Receive buffer limit exceeded''"
  by (simp_all add: clean_text_def)

text \<open>A predicate that every write of the loop keeps is kept by the loop.\<close>

lemma receiveLoop_keeps:
  assumes "P s"
    and consume: "\<And>n s. P s \<Longrightarrow> P (updClient fd (eraseReceivePrefix n) s)"
    and line: "\<And>l s. P s \<Longrightarrow> P (processLine fd l s)"
    and queue: "\<And>m s. clean_text m \<Longrightarrow> P s \<Longrightarrow> P (queueToClient fd m s)"
    and sched: "\<And>s. P s \<Longrightarrow> P (scheduleDisconnect fd s)"
  shows "P (receiveLoop fd out s)"
  using assms(1)
proof (induction "input_length fd s" arbitrary: s out rule: less_induct)
  case less
  show ?case
  proof (cases "findClientByFd fd s")
    case None
    with less.prems show ?thesis by (simp add: receiveLoop.simps)
  next
    case (Some c)
    obtain st l n where f: "findLine (cl_receiveBuffer c) out = (st, l, n)"
      using prod_cases3 by blast
    let ?s' = "processLine fd l (updClient fd (eraseReceivePrefix n) s)"
    have "P (receiveLoop fd l ?s')" if "st = LINE_EXTRACTED"
      using that f input_length_line [OF Some] less line consume by blast
    then show ?thesis
      using f Some less.prems line consume queue sched
      by (cases st) (simp_all add: receiveLoop.simps [of fd out s] Let_def)
  qed
qed

definition receiveFromClient :: "int \<Rightarrow> recv_result \<Rightarrow> server \<Rightarrow> server" where
  "receiveFromClient fd r s =
     (case findClientByFd fd s of
        None \<Rightarrow> s
      | Some client \<Rightarrow>
          (case r of
             RecvError \<Rightarrow> scheduleDisconnect fd s
           | Received data \<Rightarrow>
               if data = [] then scheduleDisconnect fd s
               else
                 let s1 = updClient fd (appendReceiveBuffer data) s
                 in if MAX_RECEIVE_BUFFER < length (cl_receiveBuffer (appendReceiveBuffer data client))
                    then scheduleDisconnect fd
                           (queueToClient fd ''ERROR :Receive buffer limit exceeded'' s1)
                    else receiveLoop fd [] s1))"

subsection \<open>Sending\<close>

definition flushSendBuffer :: "int \<Rightarrow> int \<Rightarrow> server \<Rightarrow> server" where
  "flushSendBuffer fd sent s =
     (case findClientByFd fd s of
        None \<Rightarrow> s
      | Some client \<Rightarrow>
          if cl_sendBuffer client \<noteq> []
          then (if 0 < sent
                then updatePollEvents fd (updClient fd (eraseSendPrefix (nat sent)) s)
                else scheduleDisconnect fd s)
          else updatePollEvents fd s)"

subsection \<open>The event loop\<close>

definition handleClientEvent :: "tick \<Rightarrow> int \<Rightarrow> poll_flag set \<Rightarrow> server \<Rightarrow> server" where
  "handleClientEvent tk fd revents s =
     (if findClientByFd fd s = None then s
      else if POLLNVAL \<in> revents then scheduleDisconnect fd s
      else
        let s1 = (if POLLIN \<in> revents then receiveFromClient fd (tk_recv tk fd) s else s)
        in if POLLIN \<in> revents \<and> fd |\<in>| sv_pendingDisconnects s1 then s1
           else
             let s2 = (if POLLOUT \<in> revents then flushSendBuffer fd (tk_send tk fd) s1 else s1)
             in if POLLOUT \<in> revents \<and> fd |\<in>| sv_pendingDisconnects s2 then s2
                else if POLLERR \<in> revents \<or> POLLHUP \<in> revents then scheduleDisconnect fd s2
                else s2)"

fun event_round :: "tick \<Rightarrow> nat list \<Rightarrow> server \<Rightarrow> outcome" where
  "event_round tk [] s = Inr s"
| "event_round tk (i # is) s =
     (let p = sv_pollFds s ! i; fd = pf_fd p; revents = pf_revents p
      in if revents = {} then event_round tk is s
         else if fd = sv_listenFd s
         then (case handleListenEvent (tk_accept tk) revents s of
                 Inl err \<Rightarrow> Inl err
               | Inr s1 \<Rightarrow> event_round tk is s1)
         else event_round tk is (handleClientEvent tk fd revents s))"

text \<open>The same for the whole handling of one client's event.\<close>

lemma handleClientEvent_keeps:
  assumes "P s"
    and receive: "\<And>d s. P s \<Longrightarrow> P (updClient fd (appendReceiveBuffer d) s)"
    and consume: "\<And>n s. P s \<Longrightarrow> P (updClient fd (eraseReceivePrefix n) s)"
    and line: "\<And>l s. P s \<Longrightarrow> P (processLine fd l s)"
    and queue: "\<And>m s. clean_text m \<Longrightarrow> P s \<Longrightarrow> P (queueToClient fd m s)"
    and sched: "\<And>s. P s \<Longrightarrow> P (scheduleDisconnect fd s)"
    and flush: "\<And>n s. P s \<Longrightarrow> P (updatePollEvents fd (updClient fd (eraseSendPrefix n) s))"
  shows "P (handleClientEvent tk fd revents s)"
proof -
  have r: "P (receiveFromClient fd r s)" if "P s" for r s
    using that receive sched queue
      receiveLoop_keeps [of P, OF _ consume line queue sched]
    by (simp add: receiveFromClient_def Let_def split: option.split recv_result.split)
  have f: "P (flushSendBuffer fd sent s)" if P: "P s" for sent s
  proof -
    have "P (updatePollEvents fd s)" if "sv_clients s fd = Some c" and "cl_sendBuffer c = []" for c
    proof -
      have "updClient fd (eraseSendPrefix 0) s = s"
        using that by (simp add: updClient_def eraseSendPrefix_def fun_upd_idem)
      with flush [OF P, of 0] show ?thesis by simp
    qed
    with P flush sched show ?thesis
      by (simp add: flushSendBuffer_def findClientByFd_def split: option.split)
  qed
  show ?thesis using assms(1) r f sched by (simp add: handleClientEvent_def Let_def)
qed

text \<open>\<open>poll\<close> writes the \<open>revents\<close> of every entry.\<close>

definition poll_write :: "(nat \<Rightarrow> poll_flag set) \<Rightarrow> server \<Rightarrow> server" where
  "poll_write r s =
     s\<lparr>sv_pollFds := map (\<lambda>(i, p). p\<lparr>pf_revents := r i\<rparr>) (enumerate 0 (sv_pollFds s))\<rparr>"

definition poll_round :: "tick \<Rightarrow> server \<Rightarrow> outcome" where
  "poll_round tk s =
     (let s1 = poll_write (tk_revents tk) s
      in case event_round tk [0..<length (sv_pollFds s1)] s1 of
           Inl err \<Rightarrow> Inl err
         | Inr s2 \<Rightarrow> Inr (processPendingDisconnects s2))"

fun eventLoop :: "tick list \<Rightarrow> server \<Rightarrow> outcome" where
  "eventLoop [] s = Inr s"
| "eventLoop (tk # tks) s =
     (if \<not> (sv_running s \<and> \<not> tk_stopBefore tk) then Inr s
      else if tk_ready tk < 0
      then (if tk_stopAfter tk then Inr s else Inl (''poll() failed'', s))
      else (case poll_round tk s of Inl err \<Rightarrow> Inl err | Inr s1 \<Rightarrow> eventLoop tks s1))"

definition run :: "setup_env \<Rightarrow> tick list \<Rightarrow> server \<Rightarrow> outcome" where
  "run e tks s =
     (case (if sv_listenFd s < 0 then setupListeningSocket e s else Inr s) of
        Inl err \<Rightarrow> Inl err
      | Inr s1 \<Rightarrow> eventLoop tks s1)"

text \<open>The destructor closes every client's descriptor and the listening socket.\<close>

definition destroy :: "server \<Rightarrow> server" where
  "destroy s =
     s\<lparr>sv_closed := sv_closed s @ sorted_list_of_set (dom (sv_clients s))
                     @ (if 0 \<le> sv_listenFd s then [sv_listenFd s] else [])\<rparr>"

end
