(* ===== verification/Irc_Invariant.thy ===== *)
theory Irc_Invariant
  imports Irc_Frame Irc_ChannelCmds
begin

section \<open>The invariant of the server state\<close>

text \<open>
  \<open>wf_server\<close> collects the consistency conditions the class comment of \<open>Server.hpp\<close> and
  the design notes state for the relations: the client map is keyed by the clients' own
  descriptors, the channel map by the normalised names, empty channels do not exist,
  membership is recorded on both sides, the nickname index is the inverse of the clients'
  nicknames, and invitations and quit reasons mention connected clients only. This theory
  shows that the elementary writes of the handlers and of a disconnection keep it.
\<close>

definition clients_ok :: "server \<Rightarrow> bool" where
  "clients_ok s \<longleftrightarrow> (\<forall>fd c. sv_clients s fd = Some c \<longrightarrow> cl_fd c = fd \<and> 0 \<le> fd \<and> wf_client c)"

definition channels_ok :: "server \<Rightarrow> bool" where
  "channels_ok s \<longleftrightarrow>
     (\<forall>key ch. sv_channels s key = Some ch \<longrightarrow>
        ch_keyName ch = key \<and> wf_channel ch \<and> ch_members ch \<noteq> {||}
        \<and> fset (ch_invited ch) \<subseteq> dom (sv_clients s))"

definition member_of :: "server \<Rightarrow> int \<Rightarrow> string \<Rightarrow> bool" where
  "member_of s fd key \<longleftrightarrow> (\<exists>ch. sv_channels s key = Some ch \<and> fd |\<in>| ch_members ch)"

definition joined_of :: "server \<Rightarrow> int \<Rightarrow> string \<Rightarrow> bool" where
  "joined_of s fd key \<longleftrightarrow> (\<exists>c. sv_clients s fd = Some c \<and> key |\<in>| cl_joinedChannels c)"

definition membership_ok :: "server \<Rightarrow> bool" where
  "membership_ok s \<longleftrightarrow> (\<forall>fd key. member_of s fd key \<longleftrightarrow> joined_of s fd key)"

definition nick_of :: "server \<Rightarrow> int \<Rightarrow> string \<Rightarrow> bool" where
  "nick_of s fd n \<longleftrightarrow>
     (\<exists>c. sv_clients s fd = Some c \<and> cl_nickname c \<noteq> [] \<and> ircCaseFold (cl_nickname c) = n)"

definition nicks_ok :: "server \<Rightarrow> bool" where
  "nicks_ok s \<longleftrightarrow> (\<forall>n fd. sv_nickToFd s n = Some fd \<longleftrightarrow> nick_of s fd n)"

definition wf_server :: "server \<Rightarrow> bool" where
  "wf_server s \<longleftrightarrow>
     clients_ok s \<and> channels_ok s \<and> membership_ok s \<and> nicks_ok s
     \<and> dom (sv_disconnectReasons s) \<subseteq> dom (sv_clients s)"

lemmas wf_parts = clients_ok_def channels_ok_def membership_ok_def nicks_ok_def

lemma wf_new_server [simp]: "wf_server (new_server port pw start)"
  by (simp add: wf_server_def wf_parts new_server_def member_of_def joined_of_def nick_of_def)

subsection \<open>Reading the invariant\<close>

lemma wf_client_at:
  "wf_server s \<Longrightarrow> sv_clients s fd = Some c \<Longrightarrow> cl_fd c = fd \<and> 0 \<le> fd \<and> wf_client c"
  by (auto simp: wf_server_def clients_ok_def)

lemma wf_channel_at:
  "wf_server s \<Longrightarrow> sv_channels s key = Some ch \<Longrightarrow>
     ch_keyName ch = key \<and> wf_channel ch \<and> ch_members ch \<noteq> {||}
     \<and> fset (ch_invited ch) \<subseteq> dom (sv_clients s)"
  by (auto simp: wf_server_def channels_ok_def)

lemma wf_channel_key:
  assumes "wf_server s" and "sv_channels s key = Some ch"
  shows "normalizeChannelName key = key" and "normalizeChannelName (ch_name ch) = key"
  using wf_channel_at [OF assms] by (auto simp: wf_channel_def)

lemma wf_findChannel:
  assumes "wf_server s" and "findChannel name s = Some ch"
  shows "ch_keyName ch = normalizeChannelName name"
    and "sv_channels s (normalizeChannelName name) = Some ch" and "wf_channel ch"
    and "findChannel (normalizeChannelName name) s = Some ch"
  using assms wf_channel_at by (auto simp: findChannel_def)

lemma wf_joined:
  "wf_server s \<Longrightarrow> sv_clients s fd = Some c \<Longrightarrow> key |\<in>| cl_joinedChannels c \<Longrightarrow>
     \<exists>ch. sv_channels s key = Some ch \<and> fd |\<in>| ch_members ch"
  by (auto simp: wf_server_def membership_ok_def member_of_def joined_of_def)

lemma wf_member:
  "wf_server s \<Longrightarrow> sv_channels s key = Some ch \<Longrightarrow> fd |\<in>| ch_members ch \<Longrightarrow>
     \<exists>c. sv_clients s fd = Some c \<and> key |\<in>| cl_joinedChannels c"
  by (auto simp: wf_server_def membership_ok_def member_of_def joined_of_def)

lemma wf_nick:
  "wf_server s \<Longrightarrow> sv_nickToFd s n = Some fd \<longleftrightarrow> nick_of s fd n"
  by (auto simp: wf_server_def nicks_ok_def)

lemma wf_findByNick:
  assumes "wf_server s" and "findClientByNickname n s = Some c"
  shows "sv_clients s (cl_fd c) = Some c" and "ircCaseFold (cl_nickname c) = ircCaseFold n"
    and "cl_nickname c \<noteq> []"
proof -
  from assms(2) obtain fd where fd: "sv_nickToFd s (ircCaseFold n) = Some fd"
    and c: "sv_clients s fd = Some c"
    by (auto simp: findClientByNickname_def findClientByFd_def split: option.splits)
  from c wf_client_at [OF assms(1)] show "sv_clients s (cl_fd c) = Some c" by auto
  from fd c wf_nick [OF assms(1)] show "ircCaseFold (cl_nickname c) = ircCaseFold n"
    and "cl_nickname c \<noteq> []" by (auto simp: nick_of_def)
qed

subsection \<open>Writes that the invariant does not see\<close>

lemma wf_server_cong:
  assumes "sv_clients s' = sv_clients s" and "sv_channels s' = sv_channels s"
    and "sv_nickToFd s' = sv_nickToFd s" and "sv_disconnectReasons s' = sv_disconnectReasons s"
  shows "wf_server s' \<longleftrightarrow> wf_server s"
  using assms by (simp add: wf_server_def wf_parts member_of_def joined_of_def nick_of_def)

lemma wf_updClient:
  assumes wf: "wf_server s"
    and f: "\<And>c. sv_clients s fd = Some c \<Longrightarrow>
      cl_fd (f c) = cl_fd c \<and> cl_joinedChannels (f c) = cl_joinedChannels c
      \<and> cl_nickname (f c) = cl_nickname c \<and> wf_client (f c)"
  shows "wf_server (updClient fd f s)"
proof (cases "sv_clients s fd")
  case None
  then show ?thesis using wf by (simp add: updClient_def)
next
  case (Some c)
  let ?s' = "updClient fd f s"
  have cl: "sv_clients ?s' = (sv_clients s)(fd \<mapsto> f c)" by (simp add: updClient_clients Some)
  note fc = f [OF Some]
  have d: "dom (sv_clients ?s') = dom (sv_clients s)" using Some by (auto simp: cl)
  have "clients_ok ?s'" using wf fc Some by (auto simp: wf_server_def clients_ok_def cl)
  moreover have "channels_ok ?s'" using wf by (simp add: wf_server_def channels_ok_def d)
  moreover have "joined_of ?s' = joined_of s" and "nick_of ?s' = nick_of s"
    using fc Some by (auto simp: joined_of_def nick_of_def cl fun_eq_iff)
  then have "membership_ok ?s'" and "nicks_ok ?s'"
    using wf by (simp_all add: wf_server_def wf_parts member_of_def)
  ultimately show ?thesis using wf d by (simp add: wf_server_def)
qed

lemma wf_same_frame:
  assumes wf: "wf_server s" and fr: "same_frame s s'"
  shows "wf_server s'"
proof -
  note fields = same_frame_fields [OF fr]
  have cl: "\<exists>c b. sv_clients s fd = Some c \<and> c' = c\<lparr>cl_sendBuffer := b\<rparr>" if "sv_clients s' fd = Some c'" for fd c'
    using same_frame_client [OF fr that] by metis
  have cl': "\<exists>b. sv_clients s' fd = Some (c\<lparr>cl_sendBuffer := b\<rparr>)" if "sv_clients s fd = Some c" for fd c
    using same_frame_client' [OF fr that] by metis
  have "clients_ok s'" using wf_client_at [OF wf] by (auto simp: clients_ok_def dest!: cl)
  moreover have "joined_of s' = joined_of s" and "nick_of s' = nick_of s"
    by (force simp: joined_of_def nick_of_def fun_eq_iff dest: cl cl')+
  ultimately show ?thesis
    using wf fields by (simp add: wf_server_def wf_parts member_of_def)
qed

lemma wf_updChannel:
  assumes wf: "wf_server s"
    and f: "\<And>ch. sv_channels s key = Some ch \<Longrightarrow>
      ch_keyName (f ch) = ch_keyName ch \<and> ch_members (f ch) = ch_members ch \<and> wf_channel (f ch)
      \<and> fset (ch_invited (f ch)) \<subseteq> fset (ch_invited ch) \<union> dom (sv_clients s)"
  shows "wf_server (updChannel key f s)"
proof (cases "sv_channels s key")
  case None
  then show ?thesis using wf by (simp add: updChannel_def)
next
  case (Some ch)
  let ?s' = "updChannel key f s"
  have chs: "sv_channels ?s' = (sv_channels s)(key \<mapsto> f ch)" by (simp add: updChannel_channels Some)
  have "channels_ok ?s'"
    using wf f [OF Some] wf_channel_at [OF wf Some] by (auto simp: wf_server_def channels_ok_def chs)
  moreover have "member_of ?s' = member_of s"
    using f [OF Some] Some by (auto simp: member_of_def chs fun_eq_iff)
  ultimately show ?thesis
    using wf by (simp add: wf_server_def wf_parts joined_of_def nick_of_def)
qed

lemma wf_reason:
  assumes "wf_server s" and "sv_clients s fd \<noteq> None"
  shows "wf_server (s\<lparr>sv_disconnectReasons := (sv_disconnectReasons s)(fd \<mapsto> r)\<rparr>)"
  using assms by (auto simp: wf_server_def wf_parts member_of_def joined_of_def nick_of_def)

lemma wf_schedule: "wf_server s \<Longrightarrow> wf_server (scheduleDisconnect fd s)"
  by (rule wf_same_frame [OF _ same_frame_schedule])

subsection \<open>Nickname change\<close>

lemma wf_rename:
  assumes wf: "wf_server s" and v: "isValidNickname n" and av: "isNicknameAvailable n fd s"
  shows "wf_server (renameClient fd n s)"
proof (cases "sv_clients s fd")
  case None
  with wf show ?thesis by (simp add: renameClient_def findClientByFd_def)
next
  case (Some c)
  let ?s' = "renameClient fd n s"
  let ?o = "ircCaseFold (cl_nickname c)" and ?n = "ircCaseFold n"
  have ne: "n \<noteq> []" using v by (rule isValidNickname_not_Nil)
  have cl: "sv_clients ?s' = (sv_clients s)(fd \<mapsto> setNickname n c)"
    and chs: "sv_channels ?s' = sv_channels s"
    and rs: "sv_disconnectReasons ?s' = sv_disconnectReasons s"
    and ix: "sv_nickToFd ?s' = (if cl_nickname c \<noteq> [] then (sv_nickToFd s)(?o := None)
                                else sv_nickToFd s)(?n \<mapsto> fd)"
    using Some by (auto simp: renameClient_def findClientByFd_def updClient_clients
        registerNickname_def unregisterNickname_def Let_def)
  have d: "dom (sv_clients ?s') = dom (sv_clients s)" using Some by (auto simp: cl)
  have "clients_ok ?s'"
    using wf wf_client_at [OF wf Some] v wf_client_setNickname [of c n]
    by (auto simp: wf_server_def clients_ok_def cl) (simp add: setNickname_def)
  moreover have "channels_ok ?s'" using wf by (simp add: wf_server_def channels_ok_def chs d)
  moreover have "joined_of ?s' = joined_of s"
    using Some by (auto simp: joined_of_def cl fun_eq_iff setNickname_def)
  moreover have "member_of ?s' = member_of s" by (simp add: member_of_def chs fun_eq_iff)
  moreover have "sv_nickToFd ?s' m = Some g \<longleftrightarrow> nick_of ?s' g m" for m g
  proof -
    have old: "sv_nickToFd s m = Some g \<longleftrightarrow> nick_of s g m" using wf by (rule wf_nick)
    have new: "nick_of ?s' g m \<longleftrightarrow> (if g = fd then m = ?n else nick_of s g m)"
      using ne by (auto simp: nick_of_def cl setNickname_def)
    have fd: "nick_of s fd m \<longleftrightarrow> cl_nickname c \<noteq> [] \<and> m = ?o" using Some by (auto simp: nick_of_def)
    have excl: "nick_of s g ?n \<Longrightarrow> g = fd"
      using av wf_nick [OF wf, of ?n g]
      by (auto simp: isNicknameAvailable_def split: option.splits)
    have own: "cl_nickname c \<noteq> [] \<Longrightarrow> nick_of s g ?o \<Longrightarrow> g = fd"
      using wf_nick [OF wf, of ?o g] wf_nick [OF wf, of ?o fd] fd Some by (auto simp: nick_of_def)
    show ?thesis
    proof (cases "m = ?n")
      case True
      then have "sv_nickToFd ?s' m = Some g \<longleftrightarrow> g = fd" by (auto simp: ix)
      with True new excl show ?thesis by auto
    next
      case False
      then have "sv_nickToFd ?s' m = (if cl_nickname c \<noteq> [] \<and> m = ?o then None else sv_nickToFd s m)"
        by (simp add: ix)
      with False old new fd own show ?thesis by (cases "g = fd") auto
    qed
  qed
  ultimately show ?thesis
    using wf d rs by (simp add: wf_server_def membership_ok_def nicks_ok_def)
qed

subsection \<open>Changing one membership\<close>

text \<open>
  JOIN, PART, KICK and a disconnection write both sides of one membership: the client's
  joined set and one entry of the channel map (which may appear or disappear).
\<close>

lemma wf_membership_update:
  assumes wf: "wf_server s" and c: "sv_clients s fd = Some c"
    and c': "c' = c\<lparr>cl_joinedChannels := J\<rparr>" "wf_client c'"
    and other: "\<And>k. k \<noteq> key \<Longrightarrow> k |\<in>| J \<longleftrightarrow> k |\<in>| cl_joinedChannels c"
    and ch': "\<And>ch. och = Some ch \<Longrightarrow> ch_keyName ch = key \<and> wf_channel ch
      \<and> ch_members ch \<noteq> {||} \<and> fset (ch_invited ch) \<subseteq> dom (sv_clients s)"
    and mem: "\<And>g. (\<exists>ch. och = Some ch \<and> g |\<in>| ch_members ch)
      \<longleftrightarrow> (if g = fd then key |\<in>| J else member_of s g key)"
  shows "wf_server (s\<lparr>sv_channels := (sv_channels s)(key := och),
                      sv_clients := (sv_clients s)(fd \<mapsto> c')\<rparr>)" (is "wf_server ?s'")
proof -
  have d: "dom (sv_clients ?s') = dom (sv_clients s)" using c by auto
  have "clients_ok ?s'"
    using wf wf_client_at [OF wf c] c' by (auto simp: wf_server_def clients_ok_def)
  moreover have "channels_ok ?s'"
    using wf ch' unfolding channels_ok_def d by (auto simp: wf_server_def channels_ok_def)
  moreover have "member_of ?s' g k \<longleftrightarrow> joined_of ?s' g k" for g k
  proof -
    have old: "member_of s g k \<longleftrightarrow> joined_of s g k"
      using wf by (simp add: wf_server_def membership_ok_def)
    show ?thesis
      using old mem [of g] other [of k] c c'(1)
      by (cases "k = key"; cases "g = fd") (auto simp: member_of_def joined_of_def)
  qed
  moreover have "nick_of ?s' = nick_of s"
    using c c'(1) by (auto simp: nick_of_def fun_eq_iff)
  ultimately show ?thesis
    using wf d by (simp add: wf_server_def membership_ok_def nicks_ok_def)
qed

subsection \<open>JOIN\<close>

definition entered_channel :: "int \<Rightarrow> string \<Rightarrow> bool \<Rightarrow> channel \<Rightarrow> channel" where
  "entered_channel fd name created ch =
     (let base = (if created then new_channel name (normalizeChannelName name) else ch)
      in base\<lparr>ch_members := finsert fd (ch_members base),
              ch_operators := (if created then {|fd|} else ch_operators base),
              ch_invited := ch_invited base |-| {|fd|}\<rparr>)"

text \<open>On a well-formed state the join always succeeds, and this is its effect.\<close>

lemma enterChannel_eq:
  assumes wf: "wf_server s" and c: "sv_clients s fd = Some c"
    and cr: "created \<longleftrightarrow> findChannel name s = None"
  shows "enterChannel fd name created s =
    (True, s\<lparr>sv_channels := (sv_channels s)(normalizeChannelName name \<mapsto>
                entered_channel fd name created (the (findChannel name s))),
             sv_clients := (sv_clients s)(fd \<mapsto>
                c\<lparr>cl_joinedChannels := finsert (normalizeChannelName name) (cl_joinedChannels c)\<rparr>)\<rparr>)"
proof (cases "findChannel name s")
  case None
  with cr have created: "created" by simp
  show ?thesis
    using None c unfolding enterChannel_def
    by (simp add: created joinChannel_def findClientByFd_def findChannel_def updChannel_def
        updClient_def new_channel_def entered_channel_def addMember_def addJoinedChannel_def
        hasMember_def hasJoinedChannel_def addOperator_def removeInvite_def Let_def)
next
  case (Some ch)
  with cr have created: "\<not> created" by simp
  note f = wf_findChannel [OF wf Some]
  show ?thesis
    using Some f(1,2) c unfolding enterChannel_def
    by (simp add: created joinChannel_def findClientByFd_def findChannel_def updChannel_def
        updClient_def entered_channel_def addMember_def addJoinedChannel_def
        hasMember_def hasJoinedChannel_def addOperator_def removeInvite_def Let_def)
qed

lemma wf_enter:
  assumes wf: "wf_server s" and c: "sv_clients s fd = Some c" and reg: "cl_registered c"
    and v: "isValidChannelName name" and cr: "created \<longleftrightarrow> findChannel name s = None"
  shows "wf_server (snd (enterChannel fd name created s))"
proof -
  let ?k = "normalizeChannelName name"
  let ?ch = "entered_channel fd name created (the (findChannel name s))"
  have members: "g |\<in>| ch_members ?ch \<longleftrightarrow> g = fd \<or> member_of s g ?k" for g
    using cr by (auto simp: entered_channel_def new_channel_def member_of_def findChannel_def)
  have ok: "ch_keyName ?ch = ?k \<and> wf_channel ?ch \<and> ch_members ?ch \<noteq> {||}
    \<and> fset (ch_invited ?ch) \<subseteq> dom (sv_clients s)"
  proof (cases "findChannel name s")
    case None
    with cr v show ?thesis
      by (auto simp: entered_channel_def new_channel_def wf_channel_def)
  next
    case (Some ch)
    with cr wf_findChannel [OF wf Some] wf_channel_at [OF wf, of ?k ch] show ?thesis
      by (auto simp: entered_channel_def wf_channel_def)
  qed
  have "wf_client (c\<lparr>cl_joinedChannels := finsert ?k (cl_joinedChannels c)\<rparr>)"
    using wf_client_at [OF wf c] reg by (auto simp: wf_client_def)
  from wf_membership_update [OF wf c refl this, of ?k "Some ?ch"] ok members
  show ?thesis by (simp add: enterChannel_eq [OF wf c cr] member_of_def)
qed

subsection \<open>Leaving a channel\<close>

definition left_channel :: "int \<Rightarrow> channel \<Rightarrow> channel option" where
  "left_channel fd ch =
     (if ch_members ch |-| {|fd|} = {||} then None
      else Some (ch\<lparr>ch_members := ch_members ch |-| {|fd|},
                    ch_operators := ch_operators ch |-| {|fd|}\<rparr>))"

definition drop_invite :: "int \<Rightarrow> channel \<Rightarrow> channel" where
  "drop_invite fd ch = ch\<lparr>ch_invited := ch_invited ch |-| {|fd|}\<rparr>"

lemma leaveChannel_silent:
  assumes wf: "wf_server s" and c: "sv_clients s fd = Some c" and ch: "findChannel name s = Some ch"
    and m: "fd |\<in>| ch_members ch"
  shows "leaveChannel fd name reason False s =
    (True, s\<lparr>sv_channels := (sv_channels s)(ch_keyName ch := left_channel fd (drop_invite fd ch)),
             sv_clients := (sv_clients s)(fd \<mapsto>
                c\<lparr>cl_joinedChannels := cl_joinedChannels c |-| {|ch_keyName ch|}\<rparr>)\<rparr>)"
proof -
  note f = wf_findChannel [OF wf ch]
  have k: "normalizeChannelName (ch_keyName ch) = normalizeChannelName name" using f(1) by simp
  show ?thesis
    using c ch f m unfolding leaveChannel_def
    by (cases ch) (simp add: findClientByFd_def findChannel_def hasMember_def updChannel_def updClient_def
        removeMember_def removeInvite_def removeJoinedChannel_def deleteChannelIfEmpty_def
        isEmpty_def left_channel_def drop_invite_def Let_def)
qed

lemma leaveChannel_skip:
  "(case (sv_clients s fd, findChannel name s) of
      (Some c, Some ch) \<Rightarrow> fd |\<notin>| ch_members ch | _ \<Rightarrow> True) \<Longrightarrow>
     leaveChannel fd name reason b s = (False, s)"
  by (auto simp: leaveChannel_def findClientByFd_def hasMember_def split: option.splits)

lemma wf_left_channel:
  assumes "wf_channel ch" and "left_channel fd ch = Some ch'"
  shows "wf_channel ch' \<and> ch_members ch' \<noteq> {||} \<and> ch_keyName ch' = ch_keyName ch
    \<and> ch_invited ch' = ch_invited ch"
  using assms by (auto simp: left_channel_def wf_channel_def split: if_splits)

lemma left_channel_members:
  "(\<exists>ch'. left_channel fd ch = Some ch' \<and> g |\<in>| ch_members ch') \<longleftrightarrow> g \<noteq> fd \<and> g |\<in>| ch_members ch"
  by (auto simp: left_channel_def)

text \<open>The effect common to PART, KICK and a disconnection; \<open>dr\<close> may change the invite set.\<close>

lemma wf_detach:
  assumes wf: "wf_server s" and c: "sv_clients s fd = Some c" and ch: "sv_channels s key = Some ch"
    and dr: "ch' = ch\<lparr>ch_invited := V\<rparr>" "V |\<subseteq>| ch_invited ch"
  shows "wf_server (s\<lparr>sv_channels := (sv_channels s)(key := left_channel fd ch'),
     sv_clients := (sv_clients s)(fd \<mapsto> c\<lparr>cl_joinedChannels := cl_joinedChannels c |-| {|key|}\<rparr>)\<rparr>)"
proof -
  note at = wf_channel_at [OF wf ch]
  have wfch: "wf_channel ch'" "ch_keyName ch' = key" "fset (ch_invited ch') \<subseteq> dom (sv_clients s)"
    using at dr by (auto simp: wf_channel_def)
  have cl: "wf_client (c\<lparr>cl_joinedChannels := cl_joinedChannels c |-| {|key|}\<rparr>)"
    using wf_client_at [OF wf c] by (auto simp: wf_client_def)
  show ?thesis
  proof (rule wf_membership_update [OF wf c refl cl])
    fix d assume "left_channel fd ch' = Some d"
    then show "ch_keyName d = key \<and> wf_channel d \<and> ch_members d \<noteq> {||}
        \<and> fset (ch_invited d) \<subseteq> dom (sv_clients s)"
      using wf_left_channel [OF wfch(1)] wfch by auto
  next
    fix g
    show "(\<exists>d. left_channel fd ch' = Some d \<and> g |\<in>| ch_members d) \<longleftrightarrow>
      (if g = fd then key |\<in>| cl_joinedChannels c |-| {|key|} else member_of s g key)"
      using ch dr(1) by (simp add: left_channel_members member_of_def)
  qed auto
qed

lemma wf_leave:
  assumes wf: "wf_server s"
  shows "wf_server (snd (leaveChannel fd name reason False s))"
proof (cases "case (sv_clients s fd, findChannel name s) of
      (Some c, Some ch) \<Rightarrow> fd |\<notin>| ch_members ch | _ \<Rightarrow> True")
  case True
  from leaveChannel_skip [OF this] wf show ?thesis by simp
next
  case False
  then obtain c ch where c: "sv_clients s fd = Some c" and ch: "findChannel name s = Some ch"
    and m: "fd |\<in>| ch_members ch" by (auto split: option.splits)
  note f = wf_findChannel [OF wf ch]
  have at: "sv_channels s (ch_keyName ch) = Some ch" using f by simp
  have "wf_server (s\<lparr>sv_channels := (sv_channels s)(ch_keyName ch := left_channel fd (drop_invite fd ch)),
     sv_clients := (sv_clients s)(fd \<mapsto>
       c\<lparr>cl_joinedChannels := cl_joinedChannels c |-| {|ch_keyName ch|}\<rparr>)\<rparr>)"
    by (rule wf_detach [OF wf c at]) (auto simp: drop_invite_def)
  then show ?thesis by (simp add: leaveChannel_silent [OF wf c ch m])
qed

text \<open>With a notice: leaving is the broadcast followed by the silent leave.\<close>

lemma leaveChannel_notice:
  assumes "sv_clients s fd = Some c" and "findChannel name s = Some ch" and "fd |\<in>| ch_members ch"
  shows "leaveChannel fd name reason True s =
    leaveChannel fd name reason False
      (broadcastToChannel ch (reply_command (clientPrefix c) ''PART'' (ch_name ch @ '' :'' @ reason)) (- 1) s)"
proof -
  let ?t = "broadcastToChannel ch (reply_command (clientPrefix c) ''PART'' (ch_name ch @ '' :'' @ reason)) (- 1) s"
  have "findChannel name ?t = Some ch" using assms(2) by (simp add: findChannel_def)
  moreover obtain b where "sv_clients ?t fd = Some (c\<lparr>cl_sendBuffer := b\<rparr>)"
    using same_frame_client' [OF same_frame_broadcast(1) assms(1)] by metis
  ultimately show ?thesis
    using assms by (simp add: leaveChannel_def findClientByFd_def hasMember_def Let_def)
qed

end
