(* ===== verification/Irc_Disconnect.thy ===== *)
theory Irc_Disconnect
  imports Irc_Invariant
begin

section \<open>Connecting and disconnecting\<close>

text \<open>
  \<open>addClient\<close>, \<open>removeClientFromAllChannels\<close> and \<open>disconnectClient\<close> of
  \<open>ServerRelations.cpp\<close>: they keep \<open>wf_server\<close>, and a disconnected descriptor is gone from
  the client map, every channel, the nickname index and the poll list, while the other
  clients keep their memberships.
\<close>

subsection \<open>A new connection\<close>

lemma wf_addClient:
  assumes wf: "wf_server s" and "0 \<le> fd"
  shows "wf_server (snd (addClient fd host s))"
proof (cases "sv_clients s fd")
  case None
  have nc: "cl_fd (new_client fd host) = fd" "cl_nickname (new_client fd host) = []"
    "cl_joinedChannels (new_client fd host) = {||}" by (simp_all add: new_client_def)
  let ?s' = "s\<lparr>sv_clients := (sv_clients s)(fd \<mapsto> new_client fd host)\<rparr>"
  have "clients_ok ?s'" using wf nc \<open>0 \<le> fd\<close> by (auto simp: wf_server_def clients_ok_def)
  moreover have "channels_ok ?s'" using wf by (fastforce simp: wf_server_def channels_ok_def)
  moreover have "joined_of ?s' = joined_of s" and "nick_of ?s' = nick_of s"
    using nc None by (auto simp: joined_of_def nick_of_def fun_eq_iff)
  ultimately have "wf_server ?s'"
    using wf by (auto simp: wf_server_def membership_ok_def nicks_ok_def member_of_def)
  then show ?thesis by (simp add: addClient_def None)
qed (use wf in \<open>simp add: addClient_def\<close>)

subsection \<open>Leaving all channels\<close>

lemma deleteChannelIfEmpty_same [simp]:
  "sv_clients (deleteChannelIfEmpty key s) = sv_clients s"
  "sv_nickToFd (deleteChannelIfEmpty key s) = sv_nickToFd s"
  "sv_disconnectReasons (deleteChannelIfEmpty key s) = sv_disconnectReasons s"
  "sv_pendingDisconnects (deleteChannelIfEmpty key s) = sv_pendingDisconnects s"
  "sv_serverName (deleteChannelIfEmpty key s) = sv_serverName s"
  "sv_pollFds (deleteChannelIfEmpty key s) = sv_pollFds s"
  "sv_closed (deleteChannelIfEmpty key s) = sv_closed s"
  "sv_opened (deleteChannelIfEmpty key s) = sv_opened s"
  "sv_listenFd (deleteChannelIfEmpty key s) = sv_listenFd s"
  "sv_running (deleteChannelIfEmpty key s) = sv_running s"
  "sv_password (deleteChannelIfEmpty key s) = sv_password s"
  by (simp_all add: deleteChannelIfEmpty_def split: option.split)

text \<open>What the relation updates of a disconnection do not write.\<close>

definition same_outside :: "server \<Rightarrow> server \<Rightarrow> bool" where
  "same_outside s s' \<longleftrightarrow>
     sv_nickToFd s' = sv_nickToFd s \<and> sv_disconnectReasons s' = sv_disconnectReasons s
     \<and> sv_pendingDisconnects s' = sv_pendingDisconnects s \<and> sv_pollFds s' = sv_pollFds s
     \<and> sv_opened s' = sv_opened s \<and> sv_closed s' = sv_closed s \<and> sv_serverName s' = sv_serverName s
     \<and> sv_listenFd s' = sv_listenFd s \<and> sv_running s' = sv_running s
     \<and> sv_password s' = sv_password s"

lemma same_outside_forgetMembership: "same_outside s (forgetMembership fd key s)"
  by (simp add: same_outside_def forgetMembership_def Let_def split: option.split)

lemma same_outside_forgetMemberships: "same_outside s (fold (forgetMembership fd) keys s)"
  by (rule fold_keeps [where P = "same_outside s"])
    (use same_outside_forgetMembership in \<open>auto simp: same_outside_def\<close>)

lemma forgetMembership_eq:
  assumes wf: "wf_server s" and c: "sv_clients s fd = Some c" and ch: "sv_channels s key = Some ch"
  shows "forgetMembership fd key s =
    s\<lparr>sv_channels := (sv_channels s)(key := left_channel fd ch),
      sv_clients := (sv_clients s)(fd \<mapsto> c\<lparr>cl_joinedChannels := cl_joinedChannels c |-| {|key|}\<rparr>)\<rparr>"
  using c ch wf_channel_key(1) [OF wf ch] wf_channel_at [OF wf ch]
  by (simp add: forgetMembership_def findChannel_def updChannel_def updClient_def removeMember_def
      removeJoinedChannel_def deleteChannelIfEmpty_def isEmpty_def left_channel_def Let_def)

text \<open>Modes, topic and names of a channel: everything but the three descriptor sets.\<close>

definition same_settings :: "channel \<Rightarrow> channel \<Rightarrow> bool" where
  "same_settings ch ch' \<longleftrightarrow>
     ch\<lparr>ch_members := {||}, ch_operators := {||}, ch_invited := {||}\<rparr>
       = ch'\<lparr>ch_members := {||}, ch_operators := {||}, ch_invited := {||}\<rparr>"

lemma forgetMemberships:
  assumes "wf_server s" and "sv_clients s fd = Some c" and "set keys \<subseteq> fset (cl_joinedChannels c)"
    and "distinct keys"
  shows "wf_server (fold (forgetMembership fd) keys s)
    \<and> sv_clients (fold (forgetMembership fd) keys s) =
        (sv_clients s)(fd \<mapsto> c\<lparr>cl_joinedChannels := cl_joinedChannels c |-| fset_of_list keys\<rparr>)
    \<and> (\<forall>g k. g \<noteq> fd \<longrightarrow> member_of (fold (forgetMembership fd) keys s) g k = member_of s g k)"
  using assms
proof (induction keys arbitrary: s c)
  case Nil
  then show ?case by (simp add: fun_upd_idem)
next
  case (Cons key keys)
  let ?c' = "c\<lparr>cl_joinedChannels := cl_joinedChannels c |-| {|key|}\<rparr>"
  from Cons.prems obtain ch where ch: "sv_channels s key = Some ch"
    using wf_joined [of s fd c key] by auto
  let ?s' = "forgetMembership fd key s"
  note eq = forgetMembership_eq [OF Cons.prems(1,2) ch]
  have wf': "wf_server ?s'"
    unfolding eq by (rule wf_detach [OF Cons.prems(1,2) ch, of ch "ch_invited ch"]) simp_all
  have c': "sv_clients ?s' fd = Some ?c'" by (simp add: eq)
  have mem: "member_of ?s' g k = member_of s g k" if "g \<noteq> fd" for g k
    using that ch left_channel_members [of fd ch g] by (auto simp: member_of_def eq)
  have sub: "set keys \<subseteq> fset (cl_joinedChannels ?c')" and dist: "distinct keys"
    using Cons.prems by auto
  have "?c'\<lparr>cl_joinedChannels := cl_joinedChannels ?c' |-| fset_of_list keys\<rparr>
    = c\<lparr>cl_joinedChannels := cl_joinedChannels c |-| fset_of_list (key # keys)\<rparr>"
    by simp (rule arg_cong [where f = "\<lambda>J. c\<lparr>cl_joinedChannels := J\<rparr>"], auto)
  then have "(sv_clients ?s')(fd \<mapsto> ?c'\<lparr>cl_joinedChannels := cl_joinedChannels ?c' |-| fset_of_list keys\<rparr>)
    = (sv_clients s)(fd \<mapsto> c\<lparr>cl_joinedChannels := cl_joinedChannels c |-| fset_of_list (key # keys)\<rparr>)"
    by (simp add: eq fun_eq_iff)
  then show ?case
    using Cons.IH [OF wf' c' sub dist] mem by simp
qed

lemma forgetInvites_facts:
  assumes wf: "wf_server s"
  shows "wf_server (forgetInvites fd s)" and "sv_clients (forgetInvites fd s) = sv_clients s"
    and "member_of (forgetInvites fd s) = member_of s"
    and "same_outside s (forgetInvites fd s)"
    and "sv_channels (forgetInvites fd s) key = Some ch \<Longrightarrow> fd |\<notin>| ch_invited ch"
proof -
  show cl: "sv_clients (forgetInvites fd s) = sv_clients s" by (simp add: forgetInvites_def)
  show mem: "member_of (forgetInvites fd s) = member_of s"
    by (auto simp: member_of_def forgetInvites_def removeInvite_def fun_eq_iff)
  show "same_outside s (forgetInvites fd s)" by (simp add: same_outside_def forgetInvites_def)
  show "sv_channels (forgetInvites fd s) key = Some ch \<Longrightarrow> fd |\<notin>| ch_invited ch"
    by (auto simp: forgetInvites_def removeInvite_def)
  have "channels_ok (forgetInvites fd s)"
    unfolding channels_ok_def cl
  proof (intro allI impI)
    fix k d assume "sv_channels (forgetInvites fd s) k = Some d"
    then obtain ch where ch: "sv_channels s k = Some ch" and d: "d = snd (removeInvite fd ch)"
      by (auto simp: forgetInvites_def)
    from wf_channel_at [OF wf ch] wf_channel_ops(6) [of ch fd]
    show "ch_keyName d = k \<and> wf_channel d \<and> ch_members d \<noteq> {||} \<and> fset (ch_invited d) \<subseteq> dom (sv_clients s)"
      by (auto simp: d removeInvite_def)
  qed
  then show "wf_server (forgetInvites fd s)"
    using wf mem by (simp add: wf_server_def clients_ok_def membership_ok_def nicks_ok_def
        joined_of_def nick_of_def forgetInvites_def)
qed

lemma removeClientFromAllChannels_facts:
  assumes wf: "wf_server s" and c: "sv_clients s fd = Some c"
  shows "wf_server (removeClientFromAllChannels fd s)"
    and "sv_clients (removeClientFromAllChannels fd s) =
      (sv_clients s)(fd \<mapsto> c\<lparr>cl_joinedChannels := {||}\<rparr>)"
    and "g \<noteq> fd \<Longrightarrow> member_of (removeClientFromAllChannels fd s) g k = member_of s g k"
    and "same_outside s (removeClientFromAllChannels fd s)"
    and "sv_channels (removeClientFromAllChannels fd s) key = Some ch \<Longrightarrow> fd |\<notin>| ch_invited ch"
proof -
  let ?t = "fold (forgetMembership fd) (sorted_list_of_fset (cl_joinedChannels c)) s"
  have eq: "removeClientFromAllChannels fd s = forgetInvites fd ?t"
    using c by (simp add: removeClientFromAllChannels_def findClientByFd_def)
  have empty: "cl_joinedChannels c |-| fset_of_list (sorted_list_of_fset (cl_joinedChannels c)) = {||}"
    by (simp add: fset_eq_iff fset_of_list_elem)
  have t: "wf_server ?t \<and> sv_clients ?t = (sv_clients s)(fd \<mapsto> c\<lparr>cl_joinedChannels := {||}\<rparr>)
    \<and> (\<forall>g k. g \<noteq> fd \<longrightarrow> member_of ?t g k = member_of s g k)"
    using forgetMemberships [OF wf c, of "sorted_list_of_fset (cl_joinedChannels c)"] empty by simp
  then have wft: "wf_server ?t" by blast
  note fi = forgetInvites_facts [OF wft, of fd]
  show "wf_server (removeClientFromAllChannels fd s)"
    and "sv_clients (removeClientFromAllChannels fd s) =
      (sv_clients s)(fd \<mapsto> c\<lparr>cl_joinedChannels := {||}\<rparr>)"
    and "g \<noteq> fd \<Longrightarrow> member_of (removeClientFromAllChannels fd s) g k = member_of s g k"
    and "sv_channels (removeClientFromAllChannels fd s) key = Some ch \<Longrightarrow> fd |\<notin>| ch_invited ch"
    using fi t by (simp_all add: eq)
  show "same_outside s (removeClientFromAllChannels fd s)"
    using fi(4) same_outside_forgetMemberships [of s fd] by (simp add: eq same_outside_def)
qed

subsection \<open>Removing the client itself\<close>

text \<open>The last writes of \<open>disconnectClient\<close>, once no channel mentions the descriptor.\<close>

lemma wf_drop_client:
  assumes wf: "wf_server s" and c: "sv_clients s fd = Some c" and j: "cl_joinedChannels c = {||}"
    and inv: "\<And>key ch. sv_channels s key = Some ch \<Longrightarrow> fd |\<notin>| ch_invited ch"
    and cl: "sv_clients s' = (sv_clients s)(fd := None)" and chs: "sv_channels s' = sv_channels s"
    and ix: "sv_nickToFd s' = (if cl_nickname c = [] then sv_nickToFd s
                              else (sv_nickToFd s)(ircCaseFold (cl_nickname c) := None))"
    and rs: "sv_disconnectReasons s' = (sv_disconnectReasons s)(fd := None)"
  shows "wf_server s'"
proof -
  have "clients_ok s'" using wf by (auto simp: wf_server_def clients_ok_def cl)
  moreover have "channels_ok s'"
    unfolding channels_ok_def chs cl
  proof (intro allI impI)
    fix k d assume d: "sv_channels s k = Some d"
    from wf_channel_at [OF wf d] inv [OF d]
    show "ch_keyName d = k \<and> wf_channel d \<and> ch_members d \<noteq> {||}
        \<and> fset (ch_invited d) \<subseteq> dom ((sv_clients s)(fd := None))" by auto
  qed
  moreover have "joined_of s' = joined_of s"
    using c j by (auto simp: joined_of_def cl fun_eq_iff)
  moreover have "member_of s' = member_of s" by (simp add: member_of_def chs fun_eq_iff)
  moreover have "sv_nickToFd s' n = Some g \<longleftrightarrow> nick_of s' g n" for n g
  proof -
    have old: "sv_nickToFd s n = Some g \<longleftrightarrow> nick_of s g n" using wf by (rule wf_nick)
    have new: "nick_of s' g n \<longleftrightarrow> g \<noteq> fd \<and> nick_of s g n" by (auto simp: nick_of_def cl)
    have fd: "nick_of s fd n \<longleftrightarrow> cl_nickname c \<noteq> [] \<and> n = ircCaseFold (cl_nickname c)" for n
      using c by (auto simp: nick_of_def)
    have uniq: "nick_of s g n \<Longrightarrow> nick_of s fd n \<Longrightarrow> g = fd"
      using wf_nick [OF wf, of n g] wf_nick [OF wf, of n fd] by simp
    have "sv_nickToFd s' n = (if nick_of s fd n then None else sv_nickToFd s n)"
      by (auto simp: ix fd)
    then show ?thesis using old new uniq by auto
  qed
  ultimately show ?thesis
    using wf by (auto simp: wf_server_def membership_ok_def nicks_ok_def rs cl)
qed

text \<open>The writes after the notice, as a relation between the states before and after them.\<close>

definition dropped :: "int \<Rightarrow> server \<Rightarrow> server \<Rightarrow> bool" where
  "dropped fd t u \<longleftrightarrow>
     sv_clients u = (sv_clients t)(fd := None) \<and> sv_pollFds u = erase_pollfd fd (sv_pollFds t)
     \<and> sv_opened u = sv_opened t \<and> sv_closed u = sv_closed t @ [fd]
     \<and> sv_disconnectReasons u = (sv_disconnectReasons t)(fd := None)
     \<and> sv_listenFd u = sv_listenFd t \<and> sv_pendingDisconnects u = sv_pendingDisconnects t
     \<and> sv_running u = sv_running t \<and> sv_password u = sv_password t
     \<and> sv_serverName u = sv_serverName t
     \<and> (\<forall>g k. g \<noteq> fd \<longrightarrow> member_of u g k = member_of t g k)"

text \<open>The complete effect of \<open>disconnectClient\<close> on the relations.\<close>

lemma disconnectClient_facts:
  fixes reason :: string
  assumes wf: "wf_server s" and c: "sv_clients s fd = Some c"
  defines "notice \<equiv> reply_command (clientPrefix c) ''QUIT'' ('':'' @ reason)"
  shows "wf_server (disconnectClient fd reason s)"
    and "sv_clients (disconnectClient fd reason s) =
      (\<lambda>g. if g = fd then None
           else if g |\<in>| shared_targets c s then map_option (push_line notice) (sv_clients s g)
           else sv_clients s g)"
    and "g \<noteq> fd \<Longrightarrow> member_of (disconnectClient fd reason s) g k = member_of s g k"
    and "sv_disconnectReasons (disconnectClient fd reason s) = (sv_disconnectReasons s)(fd := None)"
    and "sv_closed (disconnectClient fd reason s) = sv_closed s @ [fd]"
    and "map pf_fd (sv_pollFds (disconnectClient fd reason s)) = remove1 fd (map pf_fd (sv_pollFds s))"
    and "sv_listenFd (disconnectClient fd reason s) = sv_listenFd s"
    and "sv_pendingDisconnects s |\<subseteq>| sv_pendingDisconnects (disconnectClient fd reason s)"
    and "dropped fd (broadcastToSharedChannels c notice s) (disconnectClient fd reason s)"
proof -
  define s1 where "s1 = broadcastToSharedChannels c notice s"
  define s2 where "s2 = removeClientFromAllChannels fd s1"
  have fr: "same_frame s s1" by (simp add: s1_def)
  have wf1: "wf_server s1" using wf fr by (rule wf_same_frame)
  have nt: "fd |\<notin>| shared_targets c s" using wf_client_at [OF wf c] by (simp add: shared_targets_iff)
  have c1: "sv_clients s1 fd = Some c"
    using c nt by (simp add: s1_def broadcastToSharedChannels_clients)
  note r = removeClientFromAllChannels_facts [OF wf1 c1, folded s2_def]
  let ?d = "disconnectClient fd reason s"
  have d: "sv_clients ?d = (sv_clients s2)(fd := None)" "sv_channels ?d = sv_channels s2"
    "sv_nickToFd ?d = (if cl_nickname c = [] then sv_nickToFd s2
       else (sv_nickToFd s2)(ircCaseFold (cl_nickname c) := None))"
    "sv_disconnectReasons ?d = (sv_disconnectReasons s2)(fd := None)"
    "sv_closed ?d = sv_closed s2 @ [fd]" "sv_pollFds ?d = erase_pollfd fd (sv_pollFds s2)"
    "sv_listenFd ?d = sv_listenFd s2" "sv_pendingDisconnects ?d = sv_pendingDisconnects s2"
    "sv_opened ?d = sv_opened s2" "sv_running ?d = sv_running s2" "sv_password ?d = sv_password s2"
    "sv_serverName ?d = sv_serverName s2"
    using c by (simp_all add: disconnectClient_def findClientByFd_def s1_def s2_def notice_def Let_def
        unregisterNickname_def removeClientPollFd_def)
  have c2: "sv_clients s2 fd = Some (c\<lparr>cl_joinedChannels := {||}\<rparr>)" by (simp add: r(2))
  show "wf_server ?d"
    by (rule wf_drop_client [OF r(1) c2 _ r(5) d(1,2) _ d(4)]) (simp_all add: d(3))
  show "sv_clients ?d = (\<lambda>g. if g = fd then None
      else if g |\<in>| shared_targets c s then map_option (push_line notice) (sv_clients s g)
      else sv_clients s g)"
    by (auto simp: d(1) r(2) s1_def broadcastToSharedChannels_clients fun_eq_iff)
  have m: "member_of s1 = member_of s" by (simp add: member_of_def s1_def fun_eq_iff)
  have "member_of ?d = member_of s2" by (simp add: member_of_def d(2) fun_eq_iff)
  with r(3) have mem: "g \<noteq> fd \<Longrightarrow> member_of ?d g k = member_of s1 g k" for g k by simp
  then show "g \<noteq> fd \<Longrightarrow> member_of ?d g k = member_of s g k" using m by simp
  have "dropped fd s1 ?d"
    using r(2,4) mem by (simp add: dropped_def d same_outside_def)
  then show "dropped fd (broadcastToSharedChannels c notice s) ?d" by (simp add: s1_def)
  show "sv_disconnectReasons ?d = (sv_disconnectReasons s)(fd := None)"
    and "sv_closed ?d = sv_closed s @ [fd]"
    and "map pf_fd (sv_pollFds ?d) = remove1 fd (map pf_fd (sv_pollFds s))"
    and "sv_listenFd ?d = sv_listenFd s"
    and "sv_pendingDisconnects s |\<subseteq>| sv_pendingDisconnects ?d"
    using r(4) same_frame_fields [OF fr] by (simp_all add: d(4-8) same_outside_def)
qed

lemma disconnectClient_absent: "sv_clients s fd = None \<Longrightarrow> disconnectClient fd reason s = s"
  by (simp add: disconnectClient_def findClientByFd_def)

lemma wf_disconnect: "wf_server s \<Longrightarrow> wf_server (disconnectClient fd reason s)"
  by (cases "sv_clients s fd") (simp_all add: disconnectClient_absent disconnectClient_facts)

lemma wf_processPending: "wf_server s \<Longrightarrow> wf_server (processPendingDisconnects s)"
  unfolding processPendingDisconnects_def
  by (rule fold_keeps [where P = wf_server])
    (simp_all add: wf_server_cong [of "s\<lparr>sv_pendingDisconnects := {||}\<rparr>" s] wf_disconnect)

end
