(* ===== verification/Irc_Contract.thy ===== *)
theory Irc_Contract
  imports Irc_Disconnect Irc_Dispatch Irc_Buffer
begin

section \<open>The contract between the handlers and the server's relations\<close>

text \<open>
  The handlers change the state only by queueing clean lines and by a small set of writes
  (\<open>ServerRelations.cpp\<close>, the setters of \<open>Client\<close> and \<open>Channel\<close>), each under the guards the
  handler has checked. \<open>output_contract\<close> and \<open>command_contract\<close> state what a predicate on
  states has to satisfy to survive those writes; inside them every command handler and the
  dispatcher are shown to keep the predicate, once for all predicates. The
  interpretations give the invariants of the development.
\<close>

definition kept :: "(server \<Rightarrow> bool) \<Rightarrow> server \<Rightarrow> bool" where
  "kept I s \<longleftrightarrow> wf_server s \<and> I s"

definition registered_fd :: "int \<Rightarrow> server \<Rightarrow> bool" where
  "registered_fd fd s \<longleftrightarrow> (\<exists>c. sv_clients s fd = Some c \<and> cl_registered c)"

text \<open>The three checks of JOIN on an existing channel.\<close>

definition admits :: "int \<Rightarrow> string \<Rightarrow> channel \<Rightarrow> bool" where
  "admits fd key ch \<longleftrightarrow>
     (ch_inviteOnly ch \<longrightarrow> isInvited fd ch) \<and> matchesKey key ch \<and> \<not> isFull ch"

text \<open>The channel updates MODE and TOPIC make.\<close>

definition mode_changes :: "(channel \<Rightarrow> channel) set" where
  "mode_changes =
     range setInviteOnly \<union> range setTopicRestricted \<union> {setChannelKey k | k. isValidChannelKey k}
     \<union> range setUserLimit \<union> {clearChannelKey, clearUserLimit} \<union> range setTopic
     \<union> range (\<lambda>fd ch. snd (addOperator fd ch)) \<union> range (\<lambda>fd ch. snd (removeOperator fd ch))"

lemma mode_changesI [intro]:
  "setInviteOnly b \<in> mode_changes" "setTopicRestricted b \<in> mode_changes"
  "isValidChannelKey k \<Longrightarrow> setChannelKey k \<in> mode_changes" "clearChannelKey \<in> mode_changes"
  "setUserLimit n \<in> mode_changes" "clearUserLimit \<in> mode_changes" "setTopic t \<in> mode_changes"
  "(\<lambda>ch. snd (addOperator fd ch)) \<in> mode_changes"
  "(\<lambda>ch. snd (removeOperator fd ch)) \<in> mode_changes"
  by (auto simp: mode_changes_def)

lemma mode_change_facts:
  assumes "f \<in> mode_changes"
  shows "ch_keyName (f ch) = ch_keyName ch" and "ch_name (f ch) = ch_name ch"
    and "ch_members (f ch) = ch_members ch" and "ch_invited (f ch) = ch_invited ch"
    and "wf_channel ch \<Longrightarrow> wf_channel (f ch)"
proof -
  have ops: "ch_keyName (snd (addOperator fd ch)) = ch_keyName ch \<and> ch_name (snd (addOperator fd ch)) = ch_name ch
    \<and> ch_members (snd (addOperator fd ch)) = ch_members ch
    \<and> ch_invited (snd (addOperator fd ch)) = ch_invited ch" for fd
    by (simp add: addOperator_def)
  have all: "ch_keyName (f ch) = ch_keyName ch \<and> ch_name (f ch) = ch_name ch
    \<and> ch_members (f ch) = ch_members ch \<and> ch_invited (f ch) = ch_invited ch"
    using assms ops unfolding mode_changes_def
    by (elim UnE rangeE CollectE insertE exE conjE emptyE)
      (simp_all add: setInviteOnly_def setTopicRestricted_def setChannelKey_def setUserLimit_def
        clearChannelKey_def clearUserLimit_def setTopic_def removeOperator_def)
  then show "ch_keyName (f ch) = ch_keyName ch" and "ch_name (f ch) = ch_name ch"
    and "ch_members (f ch) = ch_members ch" and "ch_invited (f ch) = ch_invited ch" by simp_all
  assume "wf_channel ch"
  with assms show "wf_channel (f ch)"
    unfolding mode_changes_def
    by (elim UnE rangeE CollectE insertE exE conjE emptyE) (simp_all add: wf_channel_ops)
qed

lemma wf_mode_change: "f \<in> mode_changes \<Longrightarrow> wf_server s \<Longrightarrow> wf_server (updChannel key f s)"
  by (rule wf_updChannel) (auto simp: mode_change_facts dest: wf_channel_at)

lemma wf_invite:
  assumes "wf_server s" and "sv_clients s tfd \<noteq> None"
  shows "wf_server (updChannel key (\<lambda>ch. snd (addInvite tfd ch)) s)"
proof (rule wf_updChannel [OF assms(1)])
  fix ch assume "sv_channels s key = Some ch"
  from wf_channel_at [OF assms(1) this] assms(2) wf_channel_ops(5) [of ch tfd]
  show "ch_keyName (snd (addInvite tfd ch)) = ch_keyName ch
      \<and> ch_members (snd (addInvite tfd ch)) = ch_members ch \<and> wf_channel (snd (addInvite tfd ch))
      \<and> fset (ch_invited (snd (addInvite tfd ch))) \<subseteq> fset (ch_invited ch) \<union> dom (sv_clients s)"
    by (auto simp: addInvite_def)
qed

lemma wf_accept: "wf_server s \<Longrightarrow> wf_server (updClient fd acceptPassword s)"
  by (rule wf_updClient) (auto simp: acceptPassword_def wf_client_def dest: wf_client_at)

lemma wf_setUser:
  "valid_username u \<Longrightarrow> wf_server s \<Longrightarrow> wf_server (updClient fd (setUser u r) s)"
  by (rule wf_updClient) (auto simp: setUser_def wf_client_def dest: wf_client_at)

lemma wf_register:
  "wf_server s \<Longrightarrow> wf_server (updClient fd (\<lambda>c. snd (tryCompleteRegistration c)) s)"
  by (rule wf_updClient)
    (auto simp: tryCompleteRegistration_def hasNickname_def wf_client_def dest: wf_client_at)

lemma registered_same_frame:
  assumes "same_frame s s'" and "registered_fd fd s"
  shows "registered_fd fd s'"
  using assms same_frame_client' [OF assms(1)] by (fastforce simp: registered_fd_def)

lemma registered_enter:
  assumes "wf_server s" and "registered_fd fd s" and "created \<longleftrightarrow> findChannel name s = None"
  shows "registered_fd fd (snd (enterChannel fd name created s))"
  using assms by (auto simp: registered_fd_def enterChannel_eq)

lemma same_frame_then:
  "same_frame s t \<Longrightarrow> same_frame s (queueNumeric fd code ps t)"
  "same_frame s t \<Longrightarrow> same_frame s (broadcastToChannel ch msg excl t)"
  by (erule same_frame_trans, simp)+

lemma same_frame_announceJoin [simp]: "same_frame s (announceJoin fd key s)"
  by (simp add: announceJoin_def Let_def same_frame_then split: option.split)

subsection \<open>Output\<close>

locale output_contract =
  fixes I :: "server \<Rightarrow> bool"
  assumes I_queue: "clean_text msg \<Longrightarrow> kept I s \<Longrightarrow> I (queueToClient fd msg s)"
begin

lemma K_queue: "clean_text msg \<Longrightarrow> kept I s \<Longrightarrow> kept I (queueToClient fd msg s)"
  using I_queue by (simp add: kept_def wf_same_frame [OF _ same_frame_queue])

lemma K_queueNumeric: "kept I s \<Longrightarrow> kept I (queueNumeric fd code ps s)"
  by (auto simp: queueNumeric_def K_queue split: option.split)

lemma K_broadcastToChannel:
  "clean_text msg \<Longrightarrow> kept I s \<Longrightarrow> kept I (broadcastToChannel ch msg excl s)"
  unfolding broadcastToChannel_def by (rule fold_keeps) (simp_all add: K_queue)

lemma K_broadcastToShared:
  "clean_text msg \<Longrightarrow> kept I s \<Longrightarrow> kept I (broadcastToSharedChannels c msg s)"
  unfolding broadcastToSharedChannels_def by (rule fold_keeps) (simp_all add: K_queue)

lemma K_sendNoSuchChannel: "kept I s \<Longrightarrow> kept I (sendNoSuchChannel fd name s)"
  by (simp add: sendNoSuchChannel_def K_queueNumeric)

lemma K_sendWelcome: "kept I s \<Longrightarrow> kept I (sendWelcomeSequence fd s)"
  by (simp add: sendWelcomeSequence_def Let_def K_queueNumeric split: option.split)

lemma K_announceJoin: "kept I s \<Longrightarrow> kept I (announceJoin fd key s)"
  by (simp add: announceJoin_def Let_def K_queueNumeric K_broadcastToChannel split: option.split)

lemma K_unknownMode: "kept I s \<Longrightarrow> kept I (unknownMode fd c ch s)"
  by (simp add: unknownMode_def K_queueNumeric)

lemma K_needMoreParams: "kept I s \<Longrightarrow> kept I (needMoreParams fd msg s)"
  by (simp add: needMoreParams_def K_queueNumeric)

lemmas K_output = K_queue K_queueNumeric K_broadcastToChannel K_broadcastToShared
  K_sendNoSuchChannel K_sendWelcome K_announceJoin K_unknownMode K_needMoreParams

text \<open>The commands that only send.\<close>

lemma K_handleCap: "kept I s \<Longrightarrow> kept I (handleCap fd msg s)"
  by (simp add: handleCap_def Let_def K_output)

lemma K_handlePing: "kept I s \<Longrightarrow> kept I (handlePing fd msg s)"
  by (simp add: handlePing_def Let_def K_output split: option.split)

lemma K_privmsgOne: "kept I s \<Longrightarrow> kept I (privmsgOne fd txt target s)"
  by (simp add: privmsgOne_def Let_def K_output split: option.split)

lemma K_handlePrivmsg: "kept I s \<Longrightarrow> kept I (handlePrivmsg fd msg s)"
  by (auto simp: handlePrivmsg_def Let_def K_output split: option.split
      intro!: fold_keeps [where P = "kept I"] K_privmsgOne)

lemma K_modeQuery: "kept I s \<Longrightarrow> kept I (modeQuery fd ch s)"
  by (simp add: modeQuery_def K_output)

lemma K_modeNotify: "kept I (snd st) \<Longrightarrow> kept I (modeNotify fd key st)"
  by (cases st) (simp add: modeNotify_def Let_def K_output split: option.split)

end

subsection \<open>Commands\<close>

locale command_contract = output_contract +
  assumes I_schedule: "kept I s \<Longrightarrow> I (scheduleDisconnect fd s)"
    and I_reason: "kept I s \<Longrightarrow> sv_clients s fd \<noteq> None \<Longrightarrow>
      I (s\<lparr>sv_disconnectReasons := (sv_disconnectReasons s)(fd \<mapsto> r)\<rparr>)"
    and I_setUser: "kept I s \<Longrightarrow> valid_username u \<Longrightarrow> I (updClient fd (setUser u r) s)"
    and I_register: "kept I s \<Longrightarrow> I (updClient fd (\<lambda>c. snd (tryCompleteRegistration c)) s)"
    and I_rename: "kept I s \<Longrightarrow> isValidNickname n \<Longrightarrow> isNicknameAvailable n fd s \<Longrightarrow>
      I (renameClient fd n s)"
    and I_enter: "kept I s \<Longrightarrow> sv_clients s fd = Some c \<Longrightarrow> cl_registered c \<Longrightarrow>
      isValidChannelName name \<Longrightarrow> normalizeChannelName name |\<notin>| cl_joinedChannels c \<Longrightarrow>
      created \<longleftrightarrow> findChannel name s = None \<Longrightarrow>
      (\<And>ch. findChannel name s = Some ch \<Longrightarrow> \<exists>key. admits fd key ch) \<Longrightarrow>
      I (snd (enterChannel fd name created s))"
    and I_leave: "kept I s \<Longrightarrow> I (snd (leaveChannel fd name reason False s))"
    and I_invite: "kept I s \<Longrightarrow> sv_clients s tfd \<noteq> None \<Longrightarrow>
      I (updChannel key (\<lambda>ch. snd (addInvite tfd ch)) s)"
    and I_mode: "kept I s \<Longrightarrow> f \<in> mode_changes \<Longrightarrow> I (updChannel key f s)"
begin

lemma K_writes:
  assumes "kept I s"
  shows K_schedule: "kept I (scheduleDisconnect fd s)"
    and K_reason: "sv_clients s fd \<noteq> None \<Longrightarrow>
      kept I (s\<lparr>sv_disconnectReasons := (sv_disconnectReasons s)(fd \<mapsto> r)\<rparr>)"
    and K_setUser: "valid_username u \<Longrightarrow> kept I (updClient fd (setUser u r) s)"
    and K_register: "kept I (updClient fd (\<lambda>c. snd (tryCompleteRegistration c)) s)"
    and K_rename: "isValidNickname n \<Longrightarrow> isNicknameAvailable n fd s \<Longrightarrow> kept I (renameClient fd n s)"
    and K_leave: "kept I (snd (leaveChannel fd name reason False s))"
    and K_invite: "sv_clients s tfd \<noteq> None \<Longrightarrow>
      kept I (updChannel key (\<lambda>ch. snd (addInvite tfd ch)) s)"
    and K_mode: "f \<in> mode_changes \<Longrightarrow> kept I (updChannel key f s)"
  using assms I_schedule I_reason I_setUser I_register I_rename I_leave I_invite I_mode
  by (simp_all add: kept_def wf_schedule wf_reason wf_setUser wf_register wf_rename
      wf_leave wf_invite wf_mode_change)

lemma K_leave_any: "kept I s \<Longrightarrow> kept I (snd (leaveChannel fd name reason b s))"
proof (cases b)
  case True
  assume k: "kept I s"
  show ?thesis
  proof (cases "case (sv_clients s fd, findChannel name s) of
      (Some c, Some ch) \<Rightarrow> fd |\<notin>| ch_members ch | _ \<Rightarrow> True")
    case True
    from leaveChannel_skip [OF this] k show ?thesis by simp
  next
    case False
    then obtain c ch where "sv_clients s fd = Some c" and "findChannel name s = Some ch"
      and "fd |\<in>| ch_members ch" by (auto split: option.splits)
    from leaveChannel_notice [OF this] \<open>b\<close> k show ?thesis
      by (simp add: K_leave K_output)
  qed
qed (simp add: K_leave)

lemma K_tryRegister: "kept I s \<Longrightarrow> kept I (tryRegisterClient fd s)"
  by (simp add: tryRegisterClient_def Let_def K_register K_output split: option.split)

lemma K_handleNick: "kept I s \<Longrightarrow> kept I (handleNick fd msg s)"
  by (simp add: handleNick_def Let_def K_output K_tryRegister K_rename split: option.split)

lemma K_handleUser: "kept I s \<Longrightarrow> kept I (handleUser fd msg s)"
  by (auto simp: handleUser_def requireParams_def Let_def K_output split: option.split
      intro!: K_tryRegister K_setUser) (auto simp: valid_username_def list_ex_iff)

lemma K_handleQuit: "kept I s \<Longrightarrow> kept I (handleQuit fd msg s)"
  by (simp add: handleQuit_def Let_def K_schedule K_reason findClientByFd_def split: option.split)

lemma K_enter:
  assumes "kept I s" and "sv_clients s fd = Some c" and "cl_registered c"
    and "isValidChannelName name" and "normalizeChannelName name |\<notin>| cl_joinedChannels c"
    and "created \<longleftrightarrow> findChannel name s = None"
    and "\<And>ch. findChannel name s = Some ch \<Longrightarrow> \<exists>key. admits fd key ch"
  shows "kept I (snd (enterChannel fd name created s))"
  using assms I_enter [OF assms] by (simp add: kept_def wf_enter)

lemma K_joinOne:
  assumes k: "kept I s" and r: "registered_fd fd s"
  shows "kept I (joinOne fd name key s) \<and> registered_fd fd (joinOne fd name key s)"
proof -
  from r obtain c where c: "sv_clients s fd = Some c" "cl_registered c"
    by (auto simp: registered_fd_def)
  have wf: "wf_server s" using k by (simp add: kept_def)
  have norm: "findChannel (normalizeChannelName name) s = findChannel name s"
    by (simp add: findChannel_def)
  have enter: "kept I (case enterChannel fd name cr s of (ok, s1) \<Rightarrow>
        if ok then announceJoin fd k' s1 else s1)
      \<and> registered_fd fd (case enterChannel fd name cr s of (ok, s1) \<Rightarrow>
        if ok then announceJoin fd k' s1 else s1)"
    if "kept I (snd (enterChannel fd name cr s))" and "cr \<longleftrightarrow> findChannel name s = None" for cr k'
    using that registered_enter [OF wf r that(2)]
    by (auto simp: K_output split: prod.split intro: registered_same_frame [OF same_frame_announceJoin])
  have quiet: "registered_fd fd (queueNumeric fd code ps s)"
    "registered_fd fd (sendNoSuchChannel fd name s)" for code ps
    using r registered_same_frame same_frame_queueNumeric same_frame_checks(3) by blast+
  show ?thesis
  proof (cases "isValidChannelName name \<and> normalizeChannelName name |\<notin>| cl_joinedChannels c")
    case False
    with c k r quiet show ?thesis
      by (auto simp: joinOne_def findClientByFd_def hasJoinedChannel_def Let_def K_output)
  next
    case True
    then have v: "isValidChannelName name" and nj: "normalizeChannelName name |\<notin>| cl_joinedChannels c"
      by simp_all
    show ?thesis
    proof (cases "findChannel name s")
      case None
      then have "kept I (snd (enterChannel fd name True s))"
        using K_enter [OF k c v nj] by simp
      from enter [OF this] None c v nj show ?thesis
        by (simp add: joinOne_def findClientByFd_def hasJoinedChannel_def Let_def norm)
    next
      case (Some ch)
      show ?thesis
      proof (cases "admits fd key ch")
        case True
        then have "kept I (snd (enterChannel fd name False s))"
          using K_enter [OF k c v nj, of False] Some by auto
        from enter [OF this] Some True c v nj show ?thesis
          by (auto simp: joinOne_def findClientByFd_def hasJoinedChannel_def Let_def norm admits_def)
      next
        case False
        with Some c v nj k quiet show ?thesis
          by (auto simp: joinOne_def findClientByFd_def hasJoinedChannel_def Let_def norm
              admits_def K_output)
      qed
    qed
  qed
qed

lemma K_handleJoin:
  assumes "kept I s" and "registered_fd fd s"
  shows "kept I (handleJoin fd msg s)"
proof -
  have "kept I (fold (\<lambda>i. joinOne fd (cs ! i) (f i)) is s)
    \<and> registered_fd fd (fold (\<lambda>i. joinOne fd (cs ! i) (f i)) is s)" for cs f "is"
    by (rule fold_keeps [where P = "\<lambda>s. kept I s \<and> registered_fd fd s"])
      (use assms K_joinOne in auto)
  moreover have "kept I (fold (\<lambda>key s. snd (leaveChannel fd key r True s)) ks s)" for r ks
    by (rule fold_keeps) (simp_all add: assms K_leave_any)
  ultimately show ?thesis
    using assms(1)
    by (simp add: handleJoin_def requireParams_def Let_def K_output split: option.split)
qed

lemma K_partOne: "kept I s \<Longrightarrow> kept I (partOne fd reason name s)"
  by (simp add: partOne_def requireChannelMember_def Let_def K_output K_leave_any
      split: option.split)

lemma K_handlePart: "kept I s \<Longrightarrow> kept I (handlePart fd msg s)"
  by (auto simp: handlePart_def requireParams_def Let_def K_output split: option.split
      intro!: fold_keeps [where P = "kept I"] K_partOne)

lemma K_handleKick: "kept I s \<Longrightarrow> kept I (handleKick fd msg s)"
  by (simp add: handleKick_def requireParams_def requireChannelMember_def
      requireChannelOperator_def Let_def K_output K_leave_any split: option.split)

lemma K_handleInvite: "kept I s \<Longrightarrow> kept I (handleInvite fd msg s)"
proof -
  assume k: "kept I s"
  then have "sv_clients s (cl_fd t) \<noteq> None" if "findClientByNickname n s = Some t" for n t
    using wf_findByNick(1) that by (fastforce simp: kept_def)
  with k show ?thesis
    by (simp add: handleInvite_def requireParams_def requireChannelMember_def
        requireChannelOperator_def Let_def K_output K_invite split: option.split)
qed

lemma K_handleTopic: "kept I s \<Longrightarrow> kept I (handleTopic fd msg s)"
  by (simp add: handleTopic_def requireParams_def requireChannelMember_def
      requireChannelOperator_def Let_def K_output K_mode mode_changesI split: option.split)

lemma K_modeChar: "kept I (snd st) \<Longrightarrow> kept I (snd (modeChar fd msg key c st))"
  by (cases st)
    (simp add: modeChar_def modeI_def modeT_def modeK_def modeO_def modeL_def Let_def
      K_output K_mode mode_changesI split: option.split)

lemma K_handleMode: "kept I s \<Longrightarrow> kept I (handleMode fd msg s)"
proof -
  assume k: "kept I s"
  then have "kept I (snd (modeScan fd msg key s))" for key
    unfolding modeScan_def
    by (intro fold_keeps [where P = "\<lambda>st. kept I (snd st)"]) (simp_all add: K_modeChar)
  with k show ?thesis
    by (simp add: handleMode_def requireParams_def requireChannelMember_def
        requireChannelOperator_def Let_def K_output K_modeQuery K_modeNotify split: option.split)
qed

text \<open>The dispatcher: the table's guards give the handlers their preconditions.\<close>

lemma K_entry:
  assumes "kept I s" and "find_entry cmd = Some e" and "cmd \<noteq> ''PASS''"
    and "ce_requiresRegistration e \<Longrightarrow> registered_fd fd s"
  shows "kept I (ce_handler e fd msg s)"
proof -
  have "e \<in> set command_table" and "ce_name e \<noteq> ''PASS''"
    using assms(2,3) by (auto simp: find_entry_def find_Some_iff)
  then show ?thesis
    using assms(1,4)
    by (auto simp: command_table_def K_handleNick K_handleUser K_handleCap
        K_handlePing handlePong_def K_handleQuit K_handleJoin K_handlePrivmsg K_handleKick
        K_handleInvite K_handleTopic K_handleMode K_handlePart)
qed

lemma K_dispatch_with:
  assumes "kept I s"
    and "\<And>e c. find_entry (msg_command msg) = Some e \<Longrightarrow> sv_clients s fd = Some c \<Longrightarrow>
      (ce_requiresRegistration e \<Longrightarrow> cl_registered c) \<Longrightarrow> kept I (ce_handler e fd msg s)"
  shows "kept I (dispatchCommand fd msg s)"
proof (cases "sv_clients s fd")
  case (Some c)
  show ?thesis
  proof (cases "find_entry (msg_command msg)")
    case None
    with assms(1) Some show ?thesis by (simp add: dispatchCommand_def findClientByFd_def K_output)
  next
    case (Some e)
    with assms(2) [OF Some \<open>sv_clients s fd = Some c\<close>] \<open>sv_clients s fd = Some c\<close> assms(1)
    show ?thesis
      by (cases "ce_requiresRegistration e")
        (simp_all add: dispatchCommand_def findClientByFd_def K_output registered_fd_def)
  qed
qed (simp add: dispatchCommand_def findClientByFd_def assms(1))

text \<open>Without the law for the password, every command but PASS.\<close>

lemma K_dispatch_not_PASS:
  assumes "kept I s" and "msg_command msg \<noteq> ''PASS''"
  shows "kept I (dispatchCommand fd msg s)"
  by (rule K_dispatch_with [OF assms(1)])
    (rule K_entry [OF assms(1) _ assms(2)], auto simp: registered_fd_def)

end

text \<open>A session may also authenticate.\<close>

locale session_contract = command_contract +
  assumes I_accept: "kept I s \<Longrightarrow> I (updClient fd acceptPassword s)"
begin

lemma K_accept: "kept I s \<Longrightarrow> kept I (updClient fd acceptPassword s)"
  using I_accept by (simp add: kept_def wf_accept)

lemma K_handlePass: "kept I s \<Longrightarrow> kept I (handlePass fd msg s)"
  by (simp add: handlePass_def requireParams_def K_output K_tryRegister K_accept split: option.split)

lemma K_dispatch: "kept I s \<Longrightarrow> kept I (dispatchCommand fd msg s)"
proof (cases "msg_command msg = ''PASS''")
  case True
  assume k: "kept I s"
  have "find_entry ''PASS'' = Some e \<Longrightarrow> ce_handler e = handlePass" for e
    by (auto simp: find_entry_def command_table_def)
  with k True show ?thesis
    by (intro K_dispatch_with) (simp_all add: K_handlePass)
qed (rule K_dispatch_not_PASS)

end

subsection \<open>The invariant itself\<close>

interpretation any: session_contract "\<lambda>_. True"
  by unfold_locales simp_all

lemma wf_dispatch: "wf_server s \<Longrightarrow> wf_server (dispatchCommand fd msg s)"
  using any.K_dispatch [of s fd msg] by (simp add: kept_def)

end
