(* ===== verification/Irc_Rounds.thy ===== *)
theory Irc_Rounds
  imports Irc_Network Irc_Contract
begin

section \<open>The contract of the event loop and the reachable states\<close>

text \<open>
  \<open>network_contract\<close> adds to the contract of the handlers the writes of the network layer:
  a connection, the two buffers, the result of \<open>poll\<close>, and a disconnection. Inside it one
  round of the event loop and the whole loop keep the predicate. \<open>serving\<close> is the set of
  states at the head of the loop; every predicate with the contract that holds once the
  socket listens holds in all of them. The only assumption on the kernel is that
  \<open>accept\<close> does not return the listening descriptor itself.
\<close>

definition connected :: "int \<Rightarrow> string \<Rightarrow> server \<Rightarrow> server" where
  "connected fd host s =
     addClientPollFd fd (snd (addClient fd host (s\<lparr>sv_opened := sv_opened s @ [fd]\<rparr>)))"

definition accept_ok :: "int \<Rightarrow> tick \<Rightarrow> bool" where
  "accept_ok lfd tk \<longleftrightarrow> ac_fd (tk_accept tk) \<noteq> lfd \<or> ac_fd (tk_accept tk) < 0"

text \<open>The state an outcome leaves, with or without an exception.\<close>

definition outcome_state :: "outcome \<Rightarrow> server" where
  "outcome_state r = (case r of Inl (msg, s) \<Rightarrow> s | Inr s \<Rightarrow> s)"

lemma outcome_state_simps [simp]:
  "outcome_state (Inl (msg, s)) = s" "outcome_state (Inr s) = s"
  by (simp_all add: outcome_state_def)

subsection \<open>The invariant under the network's writes\<close>

lemma wf_receive: "wf_server s \<Longrightarrow> wf_server (updClient fd (appendReceiveBuffer d) s)"
  by (rule wf_updClient) (auto simp: appendReceiveBuffer_eq dest: wf_client_at)

lemma wf_consume: "wf_server s \<Longrightarrow> wf_server (updClient fd (eraseReceivePrefix n) s)"
  by (rule wf_updClient) (auto simp: eraseReceivePrefix_eq dest: wf_client_at)

lemma wf_flush: "wf_server s \<Longrightarrow> wf_server (updatePollEvents fd (updClient fd (eraseSendPrefix n) s))"
  by (rule wf_same_frame [OF wf_updClient same_frame_updatePollEvents])
    (auto simp: eraseSendPrefix_eq dest: wf_client_at)

lemma wf_poll_write: "wf_server s \<Longrightarrow> wf_server (poll_write r s)"
  by (subst wf_server_cong [of "poll_write r s" s]) (simp_all add: poll_write_def)

lemma wf_connected:
  assumes "wf_server s" and "0 \<le> fd"
  shows "wf_server (connected fd host s)"
proof -
  from assms(1) have "wf_server (s\<lparr>sv_opened := sv_opened s @ [fd]\<rparr>)"
    by (subst wf_server_cong [of _ s]) simp_all
  then have "wf_server (snd (addClient fd host (s\<lparr>sv_opened := sv_opened s @ [fd]\<rparr>)))"
    by (rule wf_addClient) (rule assms(2))
  then show ?thesis
    unfolding connected_def
    by (subst wf_server_cong [of _ "snd (addClient fd host (s\<lparr>sv_opened := sv_opened s @ [fd]\<rparr>))"])
      (simp_all add: addClientPollFd_def)
qed

subsection \<open>One round of the loop\<close>

text \<open>What the network layer relies on of the commands: only the dispatcher.\<close>

locale dispatch_contract = output_contract +
  assumes D_schedule: "kept I s \<Longrightarrow> I (scheduleDisconnect fd s)"
    and D_dispatch: "kept I s \<Longrightarrow> I (dispatchCommand fd msg s)"
begin

lemma N_schedule: "kept I s \<Longrightarrow> kept I (scheduleDisconnect fd s)"
  by (simp add: kept_def wf_schedule) (simp add: D_schedule kept_def)

lemma N_dispatch: "kept I s \<Longrightarrow> kept I (dispatchCommand fd msg s)"
  by (simp add: kept_def wf_dispatch) (simp add: D_dispatch kept_def)

end

text \<open>The contract of the handlers gives it.\<close>

sublocale session_contract \<subseteq> dispatch_contract I
  by unfold_locales (simp_all add: I_schedule K_dispatch [unfolded kept_def, THEN conjunct2] kept_def)

locale network_contract = dispatch_contract +
  assumes I_close: "kept I s \<Longrightarrow>
      I (s\<lparr>sv_opened := sv_opened s @ [fd], sv_closed := sv_closed s @ [fd]\<rparr>)"
    and I_connect: "kept I s \<Longrightarrow> sv_clients s fd = None \<Longrightarrow> fd \<noteq> sv_listenFd s \<Longrightarrow>
      0 \<le> fd \<Longrightarrow> I (connected fd host s)"
    and I_receive: "kept I s \<Longrightarrow> I (updClient fd (appendReceiveBuffer d) s)"
    and I_consume: "kept I s \<Longrightarrow> I (updClient fd (eraseReceivePrefix n) s)"
    and I_flush: "kept I s \<Longrightarrow> I (updatePollEvents fd (updClient fd (eraseSendPrefix n) s))"
    and I_poll: "kept I s \<Longrightarrow> I (poll_write r s)"
    and I_pending: "kept I s \<Longrightarrow> I (s\<lparr>sv_pendingDisconnects := {||}\<rparr>)"
    and I_drop: "kept I s \<Longrightarrow> sv_clients s fd = Some c \<Longrightarrow> wf_server s' \<Longrightarrow> dropped fd s s' \<Longrightarrow> I s'"
begin

lemma K_network_writes:
  assumes "kept I s"
  shows K_close: "kept I (s\<lparr>sv_opened := sv_opened s @ [fd], sv_closed := sv_closed s @ [fd]\<rparr>)"
    and K_connect: "sv_clients s fd = None \<Longrightarrow> fd \<noteq> sv_listenFd s \<Longrightarrow> 0 \<le> fd \<Longrightarrow>
      kept I (connected fd host s)"
    and K_receive: "kept I (updClient fd (appendReceiveBuffer d) s)"
    and K_consume: "kept I (updClient fd (eraseReceivePrefix n) s)"
    and K_flush: "kept I (updatePollEvents fd (updClient fd (eraseSendPrefix n) s))"
    and K_poll: "kept I (poll_write r s)"
    and K_pending: "kept I (s\<lparr>sv_pendingDisconnects := {||}\<rparr>)"
  using assms I_close I_connect I_receive I_consume I_flush I_poll I_pending
  by (simp_all add: kept_def wf_receive wf_consume wf_flush wf_poll_write wf_connected
      wf_server_cong [of "s\<lparr>sv_pendingDisconnects := {||}\<rparr>" s]
      wf_server_cong [of "s\<lparr>sv_opened := sv_opened s @ [fd], sv_closed := sv_closed s @ [fd]\<rparr>" s])

lemma K_processLine: "kept I s \<Longrightarrow> kept I (processLine fd line s)"
  by (simp add: processLine_def N_dispatch split: option.split)

lemma K_clientEvent: "kept I s \<Longrightarrow> kept I (handleClientEvent tk fd revents s)"
  by (rule handleClientEvent_keeps [of "kept I" s fd tk revents])
    (simp_all add: K_receive K_consume K_processLine K_queue N_schedule K_flush)

lemma K_acceptClient:
  assumes k: "kept I s" and ok: "ac_fd r \<noteq> sv_listenFd s \<or> ac_fd r < 0"
  shows "kept I (acceptClient r s)"
proof (cases "ac_fd r < 0 \<or> ac_fcntl r < 0 \<or> sv_clients s (ac_fd r) \<noteq> None")
  case True
  with k K_close [OF k, of "ac_fd r"] show ?thesis
    by (auto simp: acceptClient_def addClient_def Let_def)
next
  case False
  let ?host = "case ac_ip r of Some a \<Rightarrow> a | None \<Rightarrow> ''0.0.0.0''"
  from False have "acceptClient r s = connected (ac_fd r) ?host s"
    by (simp add: acceptClient_def connected_def addClient_def Let_def)
  with K_connect [OF k, of "ac_fd r"] ok False show ?thesis by simp
qed

end

text \<open>What a client's event leaves alone, in every state.\<close>

definition quiet :: "server \<Rightarrow> server \<Rightarrow> bool" where
  "quiet s s' \<longleftrightarrow>
     dom (sv_clients s') = dom (sv_clients s) \<and> sv_listenFd s' = sv_listenFd s
     \<and> sv_running s' = sv_running s \<and> sv_opened s' = sv_opened s \<and> sv_closed s' = sv_closed s
     \<and> map pf_fd (sv_pollFds s') = map pf_fd (sv_pollFds s) \<and> sv_password s' = sv_password s
     \<and> sv_pendingDisconnects s |\<subseteq>| sv_pendingDisconnects s'"

lemma quiet_refl [simp]: "quiet s s"
  by (simp add: quiet_def)

lemma quiet_trans: "quiet s t \<Longrightarrow> quiet t u \<Longrightarrow> quiet s u"
  by (auto simp: quiet_def)

lemma quiet_steady: "steady s s' \<Longrightarrow> quiet s s'"
  using inputs_dom [of s' s] by (simp add: quiet_def steady_def)

lemma quiet_updClient: "quiet s (updClient fd f s)"
  by (auto simp: quiet_def updClient_clients)

lemma quiet_clientEvent: "quiet s (handleClientEvent tk fd revents s)"
proof (rule handleClientEvent_keeps [of "quiet s" s fd tk revents])
  fix n t assume t: "quiet s t"
  show "quiet s (updatePollEvents fd (updClient fd (eraseSendPrefix n) t))"
    using t quiet_updClient quiet_steady [OF steady_output(9) [OF steady_refl]] by (blast intro: quiet_trans)
qed (blast intro: quiet_trans quiet_refl quiet_updClient quiet_steady steady_processLine
      steady_output steady_refl)+

subsection \<open>The whole loop\<close>

lemma listenFd_acceptClient [simp]: "sv_listenFd (acceptClient r s) = sv_listenFd s"
  by (simp add: acceptClient_def addClient_def addClientPollFd_def Let_def)

lemma listenFd_handleListenEvent:
  "sv_listenFd (outcome_state (handleListenEvent r revents s)) = sv_listenFd s"
  by (simp add: handleListenEvent_def Let_def)

lemma handleListenEvent_state:
  "outcome_state (handleListenEvent r revents s) = (if POLLIN \<in> revents then acceptClient r s else s)"
  by (simp add: handleListenEvent_def Let_def)

context network_contract
begin

lemma K_event_round:
  "kept I s \<Longrightarrow> accept_ok (sv_listenFd s) tk \<Longrightarrow>
     kept I (outcome_state (event_round tk is s))
     \<and> sv_listenFd (outcome_state (event_round tk is s)) = sv_listenFd s"
proof (induction "is" arbitrary: s)
  case (Cons i "is")
  let ?p = "sv_pollFds s ! i"
  let ?t = "outcome_state (handleListenEvent (tk_accept tk) (pf_revents ?p) s)"
  let ?u = "handleClientEvent tk (pf_fd ?p) (pf_revents ?p) s"
  have t: "kept I ?t" "sv_listenFd ?t = sv_listenFd s"
    using Cons.prems K_acceptClient [OF Cons.prems(1)]
    by (simp_all add: handleListenEvent_state accept_ok_def)
  have u: "kept I ?u" "sv_listenFd ?u = sv_listenFd s"
    using K_clientEvent [OF Cons.prems(1)] quiet_clientEvent [of s tk] by (simp_all add: quiet_def)
  show ?case
    using Cons.IH [OF Cons.prems] Cons.IH [of ?u] Cons.IH [of ?t] Cons.prems(2) t u
    by (auto simp: Let_def split: sum.split)
qed simp

lemma K_disconnect:
  assumes k: "kept I s"
  shows "kept I (disconnectClient fd reason s)
    \<and> sv_listenFd (disconnectClient fd reason s) = sv_listenFd s"
proof (cases "sv_clients s fd")
  case None
  with k show ?thesis by (simp add: disconnectClient_absent)
next
  case (Some c)
  have wf: "wf_server s" using k by (simp add: kept_def)
  let ?n = "reply_command (clientPrefix c) ''QUIT'' ('':'' @ reason)"
  let ?t = "broadcastToSharedChannels c ?n s"
  have t: "kept I ?t" using k by (simp add: K_output)
  obtain b where "sv_clients ?t fd = Some (c\<lparr>cl_sendBuffer := b\<rparr>)"
    using same_frame_client' [OF same_frame_broadcast(2) Some] by metis
  from I_drop [OF t this disconnectClient_facts(1) [OF wf Some] disconnectClient_facts(9) [OF wf Some]]
  show ?thesis
    using disconnectClient_facts(1,7) [OF wf Some] by (simp add: kept_def)
qed

lemma K_processPending:
  assumes "kept I s"
  shows "kept I (processPendingDisconnects s)
    \<and> sv_listenFd (processPendingDisconnects s) = sv_listenFd s"
  unfolding processPendingDisconnects_def
  by (rule fold_keeps [where P = "\<lambda>t. kept I t \<and> sv_listenFd t = sv_listenFd s"])
    (use assms K_disconnect in \<open>simp_all add: K_pending\<close>)

lemma K_poll_round:
  assumes "kept I s" and "accept_ok (sv_listenFd s) tk"
  shows "kept I (outcome_state (poll_round tk s))
    \<and> sv_listenFd (outcome_state (poll_round tk s)) = sv_listenFd s"
proof -
  let ?s1 = "poll_write (tk_revents tk) s"
  have "kept I ?s1" and l: "sv_listenFd ?s1 = sv_listenFd s"
    using K_poll [OF assms(1)] by (simp_all add: poll_write_def)
  let ?r = "event_round tk [0..<length (sv_pollFds ?s1)] ?s1"
  have r: "kept I (outcome_state ?r)" "sv_listenFd (outcome_state ?r) = sv_listenFd s"
    using K_event_round [OF \<open>kept I ?s1\<close>, of tk] l assms(2) by simp_all
  show ?thesis
  proof (cases ?r)
    case (Inl err)
    with r show ?thesis by (simp add: poll_round_def Let_def)
  next
    case (Inr s2)
    with r K_processPending [of s2] show ?thesis by (simp add: poll_round_def Let_def)
  qed
qed

lemma K_eventLoop:
  "kept I s \<Longrightarrow> (\<And>tk. tk \<in> set tks \<Longrightarrow> accept_ok (sv_listenFd s) tk) \<Longrightarrow>
     kept I (outcome_state (eventLoop tks s))
     \<and> sv_listenFd (outcome_state (eventLoop tks s)) = sv_listenFd s"
proof (induction tks arbitrary: s)
  case (Cons tk tks)
  have "kept I (outcome_state (poll_round tk s))
    \<and> sv_listenFd (outcome_state (poll_round tk s)) = sv_listenFd s"
    using Cons.prems by (intro K_poll_round) simp_all
  moreover from this Cons.prems(2) have "kept I (outcome_state (eventLoop tks s1))
    \<and> sv_listenFd (outcome_state (eventLoop tks s1)) = sv_listenFd s" if "poll_round tk s = Inr s1" for s1
    using Cons.IH [of s1] that by simp
  ultimately show ?case
    using Cons.prems(1) by (auto split: sum.split)
qed simp

end

subsection \<open>The states of a running server\<close>

inductive serving :: "server \<Rightarrow> bool" where
  serving_start: "setupListeningSocket e (new_server port pw start) = Inr s \<Longrightarrow> serving s"
| serving_round: "serving s \<Longrightarrow> sv_running s \<Longrightarrow> accept_ok (sv_listenFd s) tk \<Longrightarrow>
    poll_round tk s = Inr s' \<Longrightarrow> serving s'"

inductive_cases serving_cases: "serving s"

text \<open>The state once the socket listens.\<close>

definition listening :: "int \<Rightarrow> int \<Rightarrow> string \<Rightarrow> string option \<Rightarrow> server" where
  "listening fd port pw start =
     (new_server port pw start)\<lparr>sv_listenFd := fd, sv_opened := [fd],
        sv_pollFds := [\<lparr>pf_fd = fd, pf_events = {POLLIN}, pf_revents = {}\<rparr>]\<rparr>"

lemma setup_listening:
  "setupListeningSocket e (new_server port pw start) = Inr s \<longleftrightarrow>
     0 \<le> se_socket e \<and> 0 \<le> se_fcntl e \<and> 0 \<le> se_bind e \<and> 0 \<le> se_listen e
     \<and> s = listening (se_socket e) port pw start"
  by (auto simp: setupListeningSocket_def Let_def new_server_def listening_def)

lemma wf_listening [simp]: "wf_server (listening fd port pw start)"
  using wf_new_server [of port pw start]
  by (subst wf_server_cong [of _ "new_server port pw start"]) (simp_all add: listening_def)

context network_contract
begin

lemma K_serving:
  assumes start: "\<And>fd port pw st. 0 \<le> fd \<Longrightarrow> I (listening fd port pw st)"
    and "serving s"
  shows "kept I s"
  using assms(2)
proof (induction rule: serving.induct)
  case (serving_start e port pw st s)
  then show ?case using start by (auto simp: setup_listening kept_def)
next
  case (serving_round s tk s')
  with K_poll_round [of s tk] show ?case by simp
qed

end

interpretation net: network_contract "\<lambda>_. True"
  by unfold_locales simp_all

lemma wf_serving: "serving s \<Longrightarrow> wf_server s"
  using net.K_serving [of s] by (simp add: kept_def)

text \<open>Every run of the loop ends in such a state, unless it throws.\<close>

lemma eventLoop_serving:
  assumes "serving s" and "\<And>tk. tk \<in> set tks \<Longrightarrow> accept_ok (sv_listenFd s) tk"
    and "eventLoop tks s = Inr s'"
  shows "serving s'"
  using assms
proof (induction tks arbitrary: s)
  case (Cons tk tks)
  note prems = Cons.prems
  show ?case
  proof (cases "sv_running s \<and> \<not> tk_stopBefore tk \<and> 0 \<le> tk_ready tk")
    case False
    with prems(1,3) show ?thesis by (auto split: if_splits)
  next
    case True
    with prems(3) obtain s1 where s1: "poll_round tk s = Inr s1" and "eventLoop tks s1 = Inr s'"
      by (auto split: sum.splits)
    have "serving s1" using True prems(2) [of tk] s1 by (auto intro: serving_round prems(1))
    moreover have "sv_listenFd s1 = sv_listenFd s"
      using net.K_poll_round [of s tk] wf_serving [OF prems(1)] prems(2) [of tk] s1
      by (simp add: kept_def)
    ultimately show ?thesis using Cons.IH [of s1] prems(2) \<open>eventLoop tks s1 = Inr s'\<close> by simp
  qed
qed simp

end
