(* ===== verification/Irc_Access.thy ===== *)
theory Irc_Access
  imports Irc_Rounds
begin

section \<open>Authentication and authority\<close>

text \<open>
  Who may do what: a session is authenticated only by PASS with the server's password, an
  unregistered session reaches no channel and no other client, and only the operators of a
  channel change it through MODE, KICK, INVITE and (when restricted) TOPIC. The
  authentication part is an instance of the contract of the handlers without the law for
  the password.
\<close>

subsection \<open>The password\<close>

definition authenticated :: "int \<Rightarrow> server \<Rightarrow> bool" where
  "authenticated fd s \<longleftrightarrow> (\<exists>c. sv_clients s fd = Some c \<and> cl_passwordAccepted c)"

definition auth_within :: "int set \<Rightarrow> server \<Rightarrow> bool" where
  "auth_within A s \<longleftrightarrow> (\<forall>fd. authenticated fd s \<longrightarrow> fd \<in> A)"

text \<open>Writes that give nobody a password.\<close>

definition no_auth :: "server \<Rightarrow> server \<Rightarrow> bool" where
  "no_auth s s' \<longleftrightarrow> (\<forall>fd. authenticated fd s' \<longrightarrow> authenticated fd s)"

lemma no_auth_refl [simp]: "no_auth s s"
  by (simp add: no_auth_def)

lemma no_auth_cong: "sv_clients s' = sv_clients s \<Longrightarrow> no_auth t s' = no_auth t s"
  by (simp add: no_auth_def authenticated_def)

lemma no_auth_within: "no_auth s s' \<Longrightarrow> auth_within A s \<Longrightarrow> auth_within A s'"
  by (auto simp: no_auth_def auth_within_def)

lemma no_auth_updClient [frame_simps]:
  assumes "no_auth s t" and "\<And>c. cl_passwordAccepted (f c) = cl_passwordAccepted c"
  shows "no_auth s (updClient fd f t)"
  using assms by (auto simp: no_auth_def authenticated_def updClient_clients split: if_splits)

lemma no_auth_relations [frame_simps]:
  assumes "no_auth s t"
  shows "no_auth s (t\<lparr>sv_channels := chs\<rparr>)" and "no_auth s (t\<lparr>sv_disconnectReasons := rs\<rparr>)"
    and "no_auth s (t\<lparr>sv_nickToFd := ix\<rparr>)" and "no_auth s (updChannel key g t)"
    and "no_auth s (deleteChannelIfEmpty key t)" and "no_auth s (registerNickname fd n t)"
    and "no_auth s (unregisterNickname n t)" and "no_auth s (scheduleDisconnect fd t)"
  using assms no_auth_cong
  by (auto simp: registerNickname_def unregisterNickname_def deleteChannelIfEmpty_def
      scheduleDisconnect_def no_auth_def authenticated_def split: option.split)

lemma accepted_updates [simp]:
  "cl_passwordAccepted (setNickname n c) = cl_passwordAccepted c"
  "cl_passwordAccepted (setUser u r c) = cl_passwordAccepted c"
  "cl_passwordAccepted (snd (tryCompleteRegistration c)) = cl_passwordAccepted c"
  "cl_passwordAccepted (snd (addJoinedChannel key c)) = cl_passwordAccepted c"
  "cl_passwordAccepted (snd (removeJoinedChannel key c)) = cl_passwordAccepted c"
  by (simp_all add: client_defs tryCompleteRegistration_def)

lemma no_auth_queue: "no_auth s (queueToClient fd msg s)"
  by (auto simp: no_auth_def authenticated_def queueToClient_clients push_line_def split: if_splits)

lemma no_auth_rename: "no_auth s (renameClient fd n s)"
  by (simp add: renameClient_def Let_def frame_simps split: option.split)

lemma no_auth_leave: "no_auth s (snd (leaveChannel fd name reason False s))"
  by (simp add: leaveChannel_def Let_def frame_simps split: option.split)

lemma no_auth_enter: "no_auth s (snd (enterChannel fd name created s))"
proof -
  have "no_auth s (snd (joinChannel fd key t))" if "no_auth s t" for key t
    using that by (simp add: joinChannel_def Let_def frame_simps split: option.split)
  then show ?thesis
    by (simp add: enterChannel_def Let_def case_prod_beta frame_simps)
qed

interpretation auth: command_contract "auth_within A" for A
  by unfold_locales
    (auto simp: kept_def frame_simps
      elim!: no_auth_within [rotated] intro!: no_auth_queue no_auth_rename no_auth_leave no_auth_enter)

text \<open>Whoever is authenticated after a command was so before or gave the right password.\<close>

lemma auth_dispatch:
  assumes wf: "wf_server s" and a: "authenticated g (dispatchCommand fd msg s)"
  shows "authenticated g s
    \<or> g = fd \<and> msg_command msg = ''PASS'' \<and> (\<exists>ps. msg_params msg = sv_password s # ps)"
proof -
  let ?A = "{g. authenticated g s}"
  have k: "kept (auth_within ?A) s" using wf by (simp add: kept_def auth_within_def)
  show ?thesis
  proof (cases "msg_command msg = ''PASS'' \<and> (\<exists>ps. msg_params msg = sv_password s # ps)")
    case False
    have "kept (auth_within ?A) (dispatchCommand fd msg s)"
    proof (cases "msg_command msg = ''PASS''")
      case True
      with False have w: "msg_params msg = [] \<or> msg_params msg ! 0 \<noteq> sv_password s"
        by (cases "msg_params msg") auto
      have "find_entry ''PASS'' = Some e \<Longrightarrow> ce_handler e = handlePass" for e
        by (auto simp: find_entry_def command_table_def)
      then show ?thesis
        using k w True
        by (intro auth.K_dispatch_with)
          (auto simp: handlePass_def requireParams_def auth.K_queueNumeric split: option.split)
    qed (use k auth.K_dispatch_not_PASS in blast)
    with a show ?thesis by (auto simp: kept_def auth_within_def)
  next
    case True
    let ?B = "insert fd ?A"
    have kB: "kept (auth_within ?B) s" using wf by (simp add: kept_def auth_within_def)
    have acc: "kept (auth_within ?B) (updClient fd acceptPassword s)"
      using wf wf_accept by (auto simp: kept_def auth_within_def authenticated_def updClient_clients
          split: if_splits)
    have "find_entry ''PASS'' = Some e \<Longrightarrow> ce_handler e = handlePass" for e
      by (auto simp: find_entry_def command_table_def)
    then have "kept (auth_within ?B) (dispatchCommand fd msg s)"
      using kB acc True
      by (intro auth.K_dispatch_with)
        (auto simp: handlePass_def requireParams_def auth.K_queueNumeric auth.K_tryRegister
          split: option.split)
    with a True show ?thesis by (auto simp: kept_def auth_within_def)
  qed
qed

subsection \<open>Before registration\<close>

lemma dispatch_unregistered:
  assumes "sv_clients s fd = Some c" and "\<not> cl_registered c"
    and "msg_command msg \<in> {''JOIN'', ''PRIVMSG'', ''KICK'', ''INVITE'', ''TOPIC'', ''MODE'', ''PART''}"
  shows "dispatchCommand fd msg s = queueNumeric fd ERR_NOTREGISTERED '':You have not registered'' s"
proof -
  from assms(3) obtain e where "find_entry (msg_command msg) = Some e" and "ce_requiresRegistration e"
    by (auto simp: find_entry_def command_table_def)
  then show ?thesis using assms(1,2) by (simp add: dispatchCommand_def findClientByFd_def)
qed

text \<open>Whatever such a session sends, no channel and no other session changes.\<close>

definition own_only :: "int \<Rightarrow> server \<Rightarrow> server \<Rightarrow> bool" where
  "own_only fd s s' \<longleftrightarrow>
     sv_channels s' = sv_channels s \<and> (\<forall>g. g \<noteq> fd \<longrightarrow> sv_clients s' g = sv_clients s g)"

lemma own_only_refl [simp]: "own_only fd s s"
  by (simp add: own_only_def)

lemma own_only_writes [frame_simps]:
  assumes "own_only fd s t"
  shows "own_only fd s (queueToClient fd msg t)" and "own_only fd s (updClient fd f t)"
    and "own_only fd s (scheduleDisconnect g t)" and "own_only fd s (t\<lparr>sv_disconnectReasons := rs\<rparr>)"
    and "own_only fd s (registerNickname g n t)" and "own_only fd s (unregisterNickname n t)"
  using assms
  by (simp_all add: own_only_def queueToClient_clients updClient_clients registerNickname_def
      unregisterNickname_def scheduleDisconnect_def)

lemma own_only_numeric [frame_simps]:
  "own_only fd s t \<Longrightarrow> own_only fd s (queueNumeric fd code ps t)"
  by (simp add: queueNumeric_def frame_simps split: option.split)

lemma own_only_tryRegister [frame_simps]:
  "own_only fd s t \<Longrightarrow> own_only fd s (tryRegisterClient fd t)"
  by (simp add: tryRegisterClient_def sendWelcomeSequence_def Let_def frame_simps split: option.split)

lemma own_only_rename [frame_simps]:
  "own_only fd s t \<Longrightarrow> own_only fd s (renameClient fd n t)"
  by (simp add: renameClient_def Let_def frame_simps split: option.split)

lemma own_only_open_commands:
  assumes "sv_clients s fd = Some c" and "\<not> cl_registered c"
  shows "own_only fd s (handlePass fd msg s)" and "own_only fd s (handleNick fd msg s)"
    and "own_only fd s (handleUser fd msg s)" and "own_only fd s (handleCap fd msg s)"
    and "own_only fd s (handlePing fd msg s)" and "own_only fd s (handlePong fd msg s)"
    and "own_only fd s (handleQuit fd msg s)"
  using assms
  by (simp_all add: handlePass_def handleNick_def handleUser_def handleCap_def handlePing_def
      handlePong_def handleQuit_def requireParams_def findClientByFd_def Let_def frame_simps)

lemma own_only_dispatch:
  assumes c: "sv_clients s fd = Some c" "\<not> cl_registered c"
  shows "own_only fd s (dispatchCommand fd msg s)"
proof (cases "find_entry (msg_command msg)")
  case None
  with c show ?thesis by (simp add: dispatchCommand_def findClientByFd_def)
next
  case (Some e)
  then have "e \<in> set command_table" by (auto simp: find_entry_def find_Some_iff)
  then have "\<not> ce_requiresRegistration e \<Longrightarrow> own_only fd s (ce_handler e fd msg s)"
    using own_only_open_commands [OF c] by (auto simp: command_table_def)
  with c Some show ?thesis
    by (simp add: dispatchCommand_def findClientByFd_def frame_simps)
qed

subsection \<open>Channel operators\<close>

text \<open>
  The four commands that change a channel on behalf of its operators only send a reply when
  the sender is no operator of the channel they name.
\<close>

lemma mode_needs_operator:
  assumes "msg_params msg = name # ps" and "findChannel name s = Some ch" and "\<not> isOperator fd ch"
  shows "same_frame s (handleMode fd msg s)"
  using assms
  by (auto simp: handleMode_def requireParams_def requireChannelMember_def
      requireChannelOperator_def modeQuery_def Let_def split: option.split)

lemma kick_needs_operator:
  assumes "msg_params msg = name # ps" and "findChannel name s = Some ch" and "\<not> isOperator fd ch"
  shows "same_frame s (handleKick fd msg s)"
  using assms
  by (auto simp: handleKick_def requireParams_def requireChannelMember_def
      requireChannelOperator_def Let_def split: option.split)

lemma invite_needs_operator:
  assumes "msg_params msg = nick # name # ps" and "findChannel name s = Some ch" and "\<not> isOperator fd ch"
  shows "same_frame s (handleInvite fd msg s)"
  using assms
  by (auto simp: handleInvite_def requireParams_def requireChannelMember_def
      requireChannelOperator_def Let_def split: option.split)

lemma topic_needs_operator:
  assumes "msg_params msg = name # ps" and "findChannel name s = Some ch" and "\<not> isOperator fd ch"
    and "ch_topicRestricted ch"
  shows "same_frame s (handleTopic fd msg s)"
  using assms
  by (auto simp: handleTopic_def requireParams_def requireChannelMember_def
      requireChannelOperator_def Let_def split: option.split)

lemma authority_dispatch:
  assumes ch: "findChannel name s = Some ch" "\<not> isOperator fd ch"
    and "(msg_command msg \<in> {''MODE'', ''KICK''} \<and> (\<exists>ps. msg_params msg = name # ps))
      \<or> (msg_command msg = ''INVITE'' \<and> (\<exists>nick ps. msg_params msg = nick # name # ps))
      \<or> (msg_command msg = ''TOPIC'' \<and> ch_topicRestricted ch \<and> (\<exists>ps. msg_params msg = name # ps))"
  shows "same_frame s (dispatchCommand fd msg s)"
proof -
  have e: "find_entry cmd = Some e \<Longrightarrow> e \<in> set command_table \<and> ce_name e = cmd" for cmd e
    by (auto simp: find_entry_def find_Some_iff)
  have "same_frame s (ce_handler e fd msg s)" if "find_entry (msg_command msg) = Some e" for e
    using e [OF that] assms(3) mode_needs_operator [OF _ ch] kick_needs_operator [OF _ ch]
      invite_needs_operator [OF _ ch] topic_needs_operator [OF _ ch]
    by (auto simp: command_table_def)
  then show ?thesis by (simp add: dispatchCommand_def split: option.split)
qed

end
