(* ===== verification/Irc_Wire.thy ===== *)
theory Irc_Wire
  imports Irc_Rounds
begin

section \<open>Invariants of the output side\<close>

text \<open>
  The send buffers, the poll list, the listening socket and the descriptors opened and
  closed form the output side of the server. Handlers reach it only through
  \<open>queueToClient\<close>, so a predicate on it needs a handful of laws (\<open>wire_contract\<close>) to
  satisfy the contract of the whole server. Four invariants are obtained this way: the
  bound on the send buffers, the agreement of the poll list with the clients and their
  pending output, the account of opened and closed descriptors, and the shape of the bytes
  that are sent.
\<close>

definition outputs :: "server \<Rightarrow> int \<Rightarrow> string option" where
  "outputs s fd = map_option cl_sendBuffer (sv_clients s fd)"

definition same_wire :: "server \<Rightarrow> server \<Rightarrow> bool" where
  "same_wire s s' \<longleftrightarrow>
     outputs s' = outputs s \<and> sv_pollFds s' = sv_pollFds s \<and> sv_listenFd s' = sv_listenFd s
     \<and> sv_opened s' = sv_opened s \<and> sv_closed s' = sv_closed s"

lemma same_wire_refl [simp]: "same_wire s s"
  by (simp add: same_wire_def)

lemma same_wire_trans: "same_wire s t \<Longrightarrow> same_wire t u \<Longrightarrow> same_wire s u"
  by (simp add: same_wire_def)

lemma outputs_cong: "sv_clients s' = sv_clients s \<Longrightarrow> outputs s' = outputs s"
  by (simp add: outputs_def fun_eq_iff)

lemma outputs_dom: "outputs s fd = None \<longleftrightarrow> sv_clients s fd = None"
  by (simp add: outputs_def)

lemma outputs_dom_eq: "outputs s' = outputs s \<Longrightarrow> dom (sv_clients s') = dom (sv_clients s)"
proof -
  assume "outputs s' = outputs s"
  then have "sv_clients s' fd = None \<longleftrightarrow> sv_clients s fd = None" for fd
    by (metis outputs_dom)
  then show ?thesis by (auto simp: dom_def)
qed

lemma wire_updClient [frame_simps]:
  assumes "same_wire s t" and "\<And>c. cl_sendBuffer (f c) = cl_sendBuffer c"
  shows "same_wire s (updClient fd f t)"
proof -
  have "outputs (updClient fd f t) = outputs t"
    using assms(2) by (auto simp: outputs_def updClient_clients fun_eq_iff option.map_comp o_def)
  with assms(1) show ?thesis by (simp add: same_wire_def)
qed

lemma wire_relations [frame_simps]:
  assumes "same_wire s t"
  shows "same_wire s (t\<lparr>sv_channels := chs\<rparr>)" and "same_wire s (t\<lparr>sv_disconnectReasons := rs\<rparr>)"
    and "same_wire s (t\<lparr>sv_nickToFd := ix\<rparr>)" and "same_wire s (t\<lparr>sv_pendingDisconnects := ps\<rparr>)"
    and "same_wire s (updChannel key g t)" and "same_wire s (deleteChannelIfEmpty key t)"
    and "same_wire s (registerNickname fd n t)" and "same_wire s (unregisterNickname n t)"
    and "same_wire s (scheduleDisconnect fd t)"
proof -
  show chs: "same_wire s (t\<lparr>sv_channels := chs\<rparr>)" for chs
    using assms outputs_cong [of "t\<lparr>sv_channels := chs\<rparr>" t] by (simp add: same_wire_def)
  show "same_wire s (t\<lparr>sv_disconnectReasons := rs\<rparr>)"
    using assms outputs_cong [of "t\<lparr>sv_disconnectReasons := rs\<rparr>" t] by (simp add: same_wire_def)
  show ix: "same_wire s (t\<lparr>sv_nickToFd := ix\<rparr>)" for ix
    using assms outputs_cong [of "t\<lparr>sv_nickToFd := ix\<rparr>" t] by (simp add: same_wire_def)
  show pd: "same_wire s (t\<lparr>sv_pendingDisconnects := ps\<rparr>)" for ps
    using assms outputs_cong [of "t\<lparr>sv_pendingDisconnects := ps\<rparr>" t] by (simp add: same_wire_def)
  show "same_wire s (updChannel key g t)" and "same_wire s (deleteChannelIfEmpty key t)"
    using chs assms by (simp_all add: updChannel_def deleteChannelIfEmpty_def split: option.split)
  show "same_wire s (registerNickname fd n t)" and "same_wire s (unregisterNickname n t)"
    using ix by (simp_all add: registerNickname_def unregisterNickname_def)
  show "same_wire s (scheduleDisconnect fd t)" using pd by (simp add: scheduleDisconnect_def)
qed

lemma sendBuffer_updates [simp]:
  "cl_sendBuffer (setNickname n c) = cl_sendBuffer c"
  "cl_sendBuffer (setUser u r c) = cl_sendBuffer c"
  "cl_sendBuffer (acceptPassword c) = cl_sendBuffer c"
  "cl_sendBuffer (snd (tryCompleteRegistration c)) = cl_sendBuffer c"
  "cl_sendBuffer (snd (addJoinedChannel key c)) = cl_sendBuffer c"
  "cl_sendBuffer (snd (removeJoinedChannel key c)) = cl_sendBuffer c"
  "cl_sendBuffer (appendReceiveBuffer d c) = cl_sendBuffer c"
  "cl_sendBuffer (eraseReceivePrefix k c) = cl_sendBuffer c"
  by (simp_all add: client_defs tryCompleteRegistration_def)

lemma wire_rename [frame_simps]: "same_wire s t \<Longrightarrow> same_wire s (renameClient fd n t)"
  by (simp add: renameClient_def Let_def frame_simps split: option.split)

lemma wire_joinChannel [frame_simps]: "same_wire s t \<Longrightarrow> same_wire s (snd (joinChannel fd key t))"
  by (simp add: joinChannel_def Let_def frame_simps split: option.split)

lemma wire_enterChannel [frame_simps]:
  "same_wire s t \<Longrightarrow> same_wire s (snd (enterChannel fd name created t))"
  by (simp add: enterChannel_def Let_def case_prod_beta frame_simps)

lemma wire_leave [frame_simps]:
  "same_wire s t \<Longrightarrow> same_wire s (snd (leaveChannel fd name reason False t))"
  by (simp add: leaveChannel_def Let_def frame_simps split: option.split)

subsection \<open>The contract\<close>

locale wire_contract =
  fixes I :: "server \<Rightarrow> bool"
  assumes W_cong: "same_wire s s' \<Longrightarrow> I s \<Longrightarrow> I s'"
    and W_queue: "clean_text msg \<Longrightarrow> kept I s \<Longrightarrow> I (queueToClient fd msg s)"
    and W_close: "kept I s \<Longrightarrow>
      I (s\<lparr>sv_opened := sv_opened s @ [fd], sv_closed := sv_closed s @ [fd]\<rparr>)"
    and W_connect: "kept I s \<Longrightarrow> sv_clients s fd = None \<Longrightarrow> fd \<noteq> sv_listenFd s \<Longrightarrow>
      0 \<le> fd \<Longrightarrow> I (connected fd host s)"
    and W_flush: "kept I s \<Longrightarrow> I (updatePollEvents fd (updClient fd (eraseSendPrefix n) s))"
    and W_poll: "kept I s \<Longrightarrow> I (poll_write r s)"
    and W_drop: "kept I s \<Longrightarrow> sv_clients s fd = Some c \<Longrightarrow> wf_server s' \<Longrightarrow> dropped fd s s' \<Longrightarrow> I s'"
begin

lemma W_same: "kept I s \<Longrightarrow> same_wire s s' \<Longrightarrow> I s'"
  by (auto simp: kept_def intro: W_cong)

end

sublocale wire_contract \<subseteq> session_contract I
  by unfold_locales (fact W_queue | (erule W_same, simp add: frame_simps))+

sublocale wire_contract \<subseteq> network_contract I
  by unfold_locales
    (fact W_close W_connect W_flush W_poll W_drop | (erule W_same, simp add: frame_simps))+

subsection \<open>Send buffers\<close>

text \<open>What one message does to a buffer.\<close>

definition push_bytes :: "string \<Rightarrow> string \<Rightarrow> string" where
  "push_bytes msg b = (if MAX_SEND_BUFFER < length b + length (normalize_line msg) then b
                       else b @ normalize_line msg)"

lemma sendBuffer_push_line [simp]: "cl_sendBuffer (push_line msg c) = push_bytes msg (cl_sendBuffer c)"
  by (simp add: push_line_def push_bytes_def)

lemma normalize_clean: "clean_text msg \<Longrightarrow> normalize_line msg = msg @ crlf"
proof -
  assume c: "clean_text msg"
  have "drop (length msg - 2) msg \<noteq> crlf"
  proof
    assume "drop (length msg - 2) msg = crlf"
    then have "CR \<in> set msg" by (metis crlf_def in_set_dropD list.set_intros(1))
    with c show False by (simp add: clean_text_def)
  qed
  then show ?thesis by (simp add: normalize_line_def)
qed

lemma outputs_queue:
  "outputs (queueToClient fd msg s) = (outputs s)(fd := map_option (push_bytes msg) (outputs s fd))"
  by (auto simp: outputs_def queueToClient_clients fun_eq_iff option.map_comp o_def)

lemma outputs_flush:
  "outputs (updatePollEvents fd (updClient fd (eraseSendPrefix n) s))
   = (outputs s)(fd := map_option (drop n) (outputs s fd))"
  by (auto simp: outputs_def updClient_clients eraseSendPrefix_eq fun_eq_iff option.map_comp o_def)

lemma outputs_connected:
  "sv_clients s fd = None \<Longrightarrow> outputs (connected fd host s) = (outputs s)(fd \<mapsto> [])"
  by (auto simp: outputs_def connected_def addClient_def addClientPollFd_def new_client_def fun_eq_iff)

lemma outputs_dropped: "dropped fd s s' \<Longrightarrow> outputs s' = (outputs s)(fd := None)"
  by (auto simp: outputs_def dropped_def fun_eq_iff)

text \<open>A property of buffers that empty buffers have and that pushing and dropping keep.\<close>

definition all_buffers :: "(string \<Rightarrow> bool) \<Rightarrow> server \<Rightarrow> bool" where
  "all_buffers Q s \<longleftrightarrow> (\<forall>fd b. outputs s fd = Some b \<longrightarrow> Q b)"

lemma all_buffers_cong: "outputs s' = outputs s \<Longrightarrow> all_buffers Q s \<Longrightarrow> all_buffers Q s'"
  by (simp add: all_buffers_def)

lemma all_buffers_upd:
  assumes "outputs s' = (outputs s)(fd := b)" and "all_buffers Q s" and "\<And>c. b = Some c \<Longrightarrow> Q c"
  shows "all_buffers Q s'"
  using assms by (simp add: all_buffers_def)

locale buffer_contract =
  fixes Q :: "string \<Rightarrow> bool"
  assumes Q_Nil: "Q []"
    and Q_push: "Q b \<Longrightarrow> clean_text msg \<Longrightarrow> length b + length msg + 2 \<le> MAX_SEND_BUFFER \<Longrightarrow>
      Q (b @ msg @ crlf)"
    and Q_drop: "Q b \<Longrightarrow> Q (drop n b)"
begin

lemma Q_push_bytes: "Q b \<Longrightarrow> clean_text msg \<Longrightarrow> Q (push_bytes msg b)"
  using Q_push by (simp add: push_bytes_def normalize_clean)

lemma Q_at: "kept (all_buffers Q) s \<Longrightarrow> outputs s fd = Some b \<Longrightarrow> Q b"
  by (simp add: kept_def all_buffers_def)

end

sublocale buffer_contract \<subseteq> wire_contract "all_buffers Q"
proof
  show "all_buffers Q s'" if "same_wire s s'" and "all_buffers Q s" for s s'
    using that by (simp add: same_wire_def all_buffers_def)
next
  fix s assume k: "kept (all_buffers Q) s"
  then have a: "all_buffers Q s" by (simp add: kept_def)
  show "all_buffers Q (queueToClient fd msg s)" if "clean_text msg" for fd msg
    by (rule all_buffers_upd [OF outputs_queue a]) (auto intro: Q_push_bytes that Q_at [OF k])
  show "all_buffers Q (s\<lparr>sv_opened := sv_opened s @ [fd], sv_closed := sv_closed s @ [fd]\<rparr>)" for fd
    by (rule all_buffers_cong [OF _ a]) (simp add: outputs_def fun_eq_iff)
  show "all_buffers Q (connected fd host s)" if "sv_clients s fd = None" for fd host
    by (rule all_buffers_upd [OF outputs_connected [OF that] a]) (auto intro: Q_Nil)
  show "all_buffers Q (updatePollEvents fd (updClient fd (eraseSendPrefix n) s))" for fd n
    by (rule all_buffers_upd [OF outputs_flush a]) (auto intro: Q_drop Q_at [OF k])
  show "all_buffers Q (poll_write r s)" for r
    by (rule all_buffers_cong [OF _ a]) (simp add: outputs_def poll_write_def fun_eq_iff)
  show "all_buffers Q s'" if "dropped fd s s'" for fd s'
    by (rule all_buffers_upd [OF outputs_dropped [OF that] a]) simp
qed

text \<open>The bound of 1 MiB, and the shape: what is left of a sequence of clean lines.\<close>

definition send_bounded :: "string \<Rightarrow> bool" where
  "send_bounded b \<longleftrightarrow> length b \<le> MAX_SEND_BUFFER"

definition line_stream :: "string \<Rightarrow> bool" where
  "line_stream b \<longleftrightarrow>
     (\<exists>sent ls. sent @ b = concat (map (\<lambda>l. l @ crlf) ls) \<and> (\<forall>l \<in> set ls. clean_text l))"

interpretation bounded: buffer_contract send_bounded
  by unfold_locales (auto simp: send_bounded_def)

lemma line_stream_push:
  assumes "line_stream b" and "clean_text l"
  shows "line_stream (b @ l @ crlf)"
proof -
  from assms(1) obtain sent ls where "sent @ b = concat (map (\<lambda>l. l @ crlf) ls)"
    and "\<forall>l \<in> set ls. clean_text l" by (auto simp: line_stream_def)
  then have "sent @ (b @ l @ crlf) = concat (map (\<lambda>l. l @ crlf) (ls @ [l]))
    \<and> (\<forall>l \<in> set (ls @ [l]). clean_text l)"
    using assms(2) by simp
  then show ?thesis unfolding line_stream_def by blast
qed

lemma line_stream_drop: "line_stream b \<Longrightarrow> line_stream (drop n b)"
  unfolding line_stream_def by (metis append.assoc append_take_drop_id)

interpretation lines: buffer_contract line_stream
proof unfold_locales
  have "[] @ [] = concat (map (\<lambda>l. l @ crlf) []) \<and> (\<forall>l \<in> set []. clean_text l)" by simp
  then show "line_stream []" unfolding line_stream_def by blast
qed (simp_all add: line_stream_push line_stream_drop)

lemma listening_buffers: "all_buffers Q (listening fd port pw start)"
  by (simp add: all_buffers_def outputs_def listening_def new_server_def)

lemma serving_bounded: "serving s \<Longrightarrow> sv_clients s fd = Some c \<Longrightarrow> send_bounded (cl_sendBuffer c)"
  using bounded.K_serving [OF listening_buffers, of s]
  by (auto simp: kept_def all_buffers_def outputs_def)

lemma serving_line_stream: "serving s \<Longrightarrow> sv_clients s fd = Some c \<Longrightarrow> line_stream (cl_sendBuffer c)"
  using lines.K_serving [OF listening_buffers, of s]
  by (auto simp: kept_def all_buffers_def outputs_def)

subsection \<open>Opened and closed descriptors\<close>

definition fd_account :: "server \<Rightarrow> bool" where
  "fd_account s \<longleftrightarrow> finite (dom (sv_clients s)) \<and>
     (\<forall>fd. count_list (sv_opened s) fd = count_list (sv_closed s) fd
        + (if fd \<in> dom (sv_clients s) then 1 else 0)
        + (if fd = sv_listenFd s \<and> 0 \<le> fd then 1 else 0))"

lemma fd_account_cong:
  "sv_opened s' = sv_opened s \<Longrightarrow> sv_closed s' = sv_closed s \<Longrightarrow> dom (sv_clients s') = dom (sv_clients s) \<Longrightarrow>
     sv_listenFd s' = sv_listenFd s \<Longrightarrow> fd_account s \<Longrightarrow> fd_account s'"
  by (simp add: fd_account_def)

interpretation account: wire_contract fd_account
proof
  show "fd_account s'" if "same_wire s s'" and "fd_account s" for s s'
    by (rule fd_account_cong [OF _ _ _ _ that(2)])
      (use that(1) outputs_dom_eq [of s' s] in \<open>simp_all add: same_wire_def\<close>)
next
  fix s assume "kept fd_account s"
  then have a: "fd_account s" by (simp add: kept_def)
  show "fd_account (queueToClient fd msg s)" for fd msg
    by (rule fd_account_cong [OF _ _ _ _ a]) (simp_all add: same_frame_fields(12) [OF same_frame_queue])
  show "fd_account (s\<lparr>sv_opened := sv_opened s @ [fd], sv_closed := sv_closed s @ [fd]\<rparr>)" for fd
    using a by (simp add: fd_account_def)
  show "fd_account (connected fd host s)" if "sv_clients s fd = None" and "fd \<noteq> sv_listenFd s" for fd host
  proof -
    have "sv_clients (connected fd host s) = (sv_clients s)(fd \<mapsto> new_client fd host)"
      and "sv_opened (connected fd host s) = sv_opened s @ [fd]"
      and "sv_closed (connected fd host s) = sv_closed s" and "sv_listenFd (connected fd host s) = sv_listenFd s"
      using that by (simp_all add: connected_def addClient_def addClientPollFd_def)
    with a that show ?thesis by (auto simp: fd_account_def)
  qed
  show "fd_account (updatePollEvents fd (updClient fd (eraseSendPrefix n) s))" for fd n
    by (rule fd_account_cong [OF _ _ _ _ a])
      (auto simp: updClient_clients same_frame_fields(12) [OF same_frame_updatePollEvents])
  show "fd_account (poll_write r s)" for r
    by (rule fd_account_cong [OF _ _ _ _ a]) (simp_all add: poll_write_def)
  show "fd_account s'" if "sv_clients s fd = Some c" and "dropped fd s s'" for fd c s'
    using a that by (auto simp: fd_account_def dropped_def)
qed

lemma fd_account_listening: "0 \<le> fd \<Longrightarrow> fd_account (listening fd port pw start)"
  by (auto simp: fd_account_def listening_def new_server_def)

lemma count_list_distinct: "distinct xs \<Longrightarrow> count_list xs x = (if x \<in> set xs then 1 else 0)"
  by (induction xs) auto

text \<open>After the destructor every descriptor has been closed as often as it was opened.\<close>

lemma destroy_account:
  "fd_account s \<Longrightarrow> count_list (sv_opened (destroy s)) fd = count_list (sv_closed (destroy s)) fd"
  by (simp add: fd_account_def destroy_def count_list_distinct) 

lemma run_account:
  assumes "\<And>tk. tk \<in> set tks \<Longrightarrow> accept_ok (se_socket e) tk"
  shows "fd_account (outcome_state (run e tks (new_server port pw start)))"
proof (cases "setupListeningSocket e (new_server port pw start)")
  case (Inl err)
  then show ?thesis
    by (auto simp: run_def setupListeningSocket_def Let_def new_server_def fd_account_def split: if_splits)
next
  case (Inr s)
  then have s: "0 \<le> se_socket e" "s = listening (se_socket e) port pw start"
    by (simp_all add: setup_listening)
  then have "kept fd_account s" and "sv_listenFd s = se_socket e"
    by (simp_all add: kept_def fd_account_listening) (simp add: listening_def)
  with account.K_eventLoop [of s tks] assms have "fd_account (outcome_state (eventLoop tks s))"
    by (simp add: kept_def)
  with Inr show ?thesis by (simp add: run_def new_server_def)
qed

subsection \<open>The poll list\<close>

text \<open>
  The list mentions the listening socket and every client exactly once, and a client's entry
  asks for \<open>POLLOUT\<close> exactly when bytes are waiting for it.
\<close>

definition interest :: "string \<Rightarrow> poll_flag set" where
  "interest b = {POLLIN} \<union> (if b \<noteq> [] then {POLLOUT} else {})"

definition poll_sync :: "server \<Rightarrow> bool" where
  "poll_sync s \<longleftrightarrow>
     distinct (map pf_fd (sv_pollFds s))
     \<and> pf_fd ` set (sv_pollFds s) = insert (sv_listenFd s) (dom (sv_clients s))
     \<and> sv_listenFd s \<notin> dom (sv_clients s)
     \<and> (\<forall>p \<in> set (sv_pollFds s). \<forall>b. outputs s (pf_fd p) = Some b \<longrightarrow> pf_events p = interest b)"

lemma poll_sync_cong:
  assumes "poll_sync s" and "sv_listenFd s' = sv_listenFd s" and "sv_pollFds s' = sv_pollFds s"
    and "outputs s' = outputs s"
  shows "poll_sync s'"
  using assms outputs_dom_eq [of s' s] by (simp add: poll_sync_def)

text \<open>One client's buffer changes and its entry is recomputed.\<close>

lemma poll_sync_update:
  assumes "poll_sync s" and "sv_listenFd s' = sv_listenFd s" and "outputs s fd \<noteq> None"
    and "outputs s' = (outputs s)(fd \<mapsto> b)"
    and "sv_pollFds s' = set_events fd (interest b) (sv_pollFds s)"
  shows "poll_sync s'"
proof -
  have d: "dom (sv_clients s') = dom (sv_clients s)"
  proof -
    have "sv_clients s' g = None \<longleftrightarrow> sv_clients s g = None" for g
      using assms(3,4) outputs_dom [of s' g] outputs_dom [of s g] by (auto split: if_splits)
    then show ?thesis by (auto simp: dom_def)
  qed
  let ?f = "\<lambda>p. if pf_fd p = fd then p\<lparr>pf_events := interest b\<rparr> else p"
  have m: "sv_pollFds s' = map ?f (sv_pollFds s)"
    using assms(1,5) by (simp add: poll_sync_def set_events_map)
  have f: "pf_fd (?f p) = pf_fd p" for p by simp
  have "map pf_fd (sv_pollFds s') = map pf_fd (sv_pollFds s)" by (simp add: m comp_def f cong: map_cong)
  then have "distinct (map pf_fd (sv_pollFds s'))"
    and "pf_fd ` set (sv_pollFds s') = insert (sv_listenFd s') (dom (sv_clients s'))"
    using assms(1,2) d by (simp_all add: poll_sync_def flip: set_map)
  moreover have "\<forall>p \<in> set (sv_pollFds s'). \<forall>c. outputs s' (pf_fd p) = Some c \<longrightarrow> pf_events p = interest c"
    using assms(1,4) by (auto simp: m poll_sync_def)
  ultimately show ?thesis using assms(1,2) d by (simp add: poll_sync_def)
qed

lemma outputs_poll_events [simp]: "outputs (updatePollEvents fd s) = outputs s"
  by (simp add: outputs_def fun_eq_iff)

lemma updatePollEvents_pollFds:
  "sv_pollFds (updatePollEvents fd s) =
     (case outputs s fd of None \<Rightarrow> sv_pollFds s | Some b \<Rightarrow> set_events fd (interest b) (sv_pollFds s))"
  by (simp add: updatePollEvents_def findClientByFd_def outputs_def interest_def hasPendingOutput_def
      Let_def split: option.split)

text \<open>Any change of one buffer followed by \<open>updatePollEvents\<close>.\<close>

lemma poll_sync_buffer:
  assumes "poll_sync s"
  shows "poll_sync (updatePollEvents fd (updClient fd f s))"
proof (cases "sv_clients s fd")
  case None
  then have "updatePollEvents fd (updClient fd f s) = s"
    by (simp add: updClient_def updatePollEvents_def findClientByFd_def)
  with assms show ?thesis by simp
next
  case (Some c)
  let ?s' = "updatePollEvents fd (updClient fd f s)"
  have o: "outputs (updClient fd f s) = (outputs s)(fd \<mapsto> cl_sendBuffer (f c))"
    using Some by (auto simp: outputs_def updClient_clients fun_eq_iff)
  show ?thesis
    by (rule poll_sync_update [OF assms, of _ fd "cl_sendBuffer (f c)"])
      (simp_all add: o updatePollEvents_pollFds, simp add: outputs_def Some)
qed

lemma poll_sync_queue:
  assumes s: "poll_sync s"
  shows "poll_sync (queueToClient fd msg s)"
proof -
  have "poll_sync (scheduleDisconnect fd s)"
    by (rule poll_sync_cong [OF s]) (simp_all add: scheduleDisconnect_def outputs_def fun_eq_iff)
  with s poll_sync_buffer [OF s] show ?thesis
    by (simp add: queueToClient_def Let_def split: option.split)
qed

lemma poll_sync_connected:
  assumes s: "poll_sync s" and new: "sv_clients s fd = None" "fd \<noteq> sv_listenFd s"
  shows "poll_sync (connected fd host s)"
proof -
  let ?s' = "connected fd host s"
  have cl: "dom (sv_clients ?s') = insert fd (dom (sv_clients s))"
    and l: "sv_listenFd ?s' = sv_listenFd s"
    and p: "sv_pollFds ?s' = sv_pollFds s @ [\<lparr>pf_fd = fd, pf_events = {POLLIN}, pf_revents = {}\<rparr>]"
    using new by (simp_all add: connected_def addClient_def addClientPollFd_def)
  have "fd \<notin> pf_fd ` set (sv_pollFds s)" using s new by (auto simp: poll_sync_def)
  then show ?thesis
    using s new by (auto simp: poll_sync_def cl l p outputs_connected interest_def split: if_splits)
qed

lemma poll_sync_dropped:
  assumes s: "poll_sync s" and c: "sv_clients s fd = Some c" and d: "dropped fd s s'"
  shows "poll_sync s'"
proof -
  have p: "sv_pollFds s' = filter (\<lambda>p. pf_fd p \<noteq> fd) (sv_pollFds s)"
    using s d by (simp add: poll_sync_def dropped_def erase_pollfd_filter)
  have fds: "pf_fd ` set (sv_pollFds s') = pf_fd ` set (sv_pollFds s) - {fd}" by (auto simp: p)
  have "distinct (map pf_fd (sv_pollFds s'))"
    using s by (simp add: p poll_sync_def distinct_map_filter)
  moreover have "fd \<noteq> sv_listenFd s" using s c by (auto simp: poll_sync_def)
  then have "pf_fd ` set (sv_pollFds s') = insert (sv_listenFd s') (dom (sv_clients s'))"
    and "sv_listenFd s' \<notin> dom (sv_clients s')"
    using s d unfolding fds by (auto simp: poll_sync_def dropped_def)
  moreover have "\<forall>q \<in> set (sv_pollFds s'). \<forall>b. outputs s' (pf_fd q) = Some b \<longrightarrow> pf_events q = interest b"
    using s by (auto simp: p poll_sync_def outputs_dropped [OF d] split: if_splits)
  ultimately show ?thesis by (simp add: poll_sync_def)
qed

lemma poll_sync_poll_write:
  assumes s: "poll_sync s"
  shows "poll_sync (poll_write r s)"
proof -
  let ?m = "\<lambda>(i, p). p\<lparr>pf_revents := r i\<rparr>"
  have f: "map pf_fd (sv_pollFds (poll_write r s)) = map pf_fd (sv_pollFds s)"
    by (rule nth_equalityI) (simp_all add: poll_write_def nth_enumerate_eq)
  have "\<exists>p \<in> set (sv_pollFds s). pf_fd q = pf_fd p \<and> pf_events q = pf_events p"
    if "q \<in> set (sv_pollFds (poll_write r s))" for q
    using that by (auto simp: poll_write_def in_set_enumerate_eq)
  moreover have "outputs (poll_write r s) = outputs s" by (simp add: poll_write_def outputs_def fun_eq_iff)
  moreover have "sv_clients (poll_write r s) = sv_clients s" "sv_listenFd (poll_write r s) = sv_listenFd s"
    by (simp_all add: poll_write_def)
  ultimately show ?thesis
    using s f unfolding poll_sync_def by (metis set_map)
qed

interpretation sync: wire_contract poll_sync
proof
  show "poll_sync s'" if "same_wire s s'" and "poll_sync s" for s s'
    by (rule poll_sync_cong [OF that(2)]) (use that(1) in \<open>simp_all add: same_wire_def\<close>)
next
  fix s assume "kept poll_sync s"
  then have s: "poll_sync s" by (simp add: kept_def)
  show "poll_sync (s\<lparr>sv_opened := sv_opened s @ [fd], sv_closed := sv_closed s @ [fd]\<rparr>)" for fd
    by (rule poll_sync_cong [OF s]) (simp_all add: outputs_def fun_eq_iff)
qed (auto simp: kept_def poll_sync_queue poll_sync_connected poll_sync_buffer poll_sync_poll_write
    intro: poll_sync_dropped)

lemma poll_sync_listening: "poll_sync (listening fd port pw start)"
  by (simp add: poll_sync_def listening_def new_server_def outputs_def)

lemma serving_poll_sync: "serving s \<Longrightarrow> poll_sync s"
  using sync.K_serving [OF poll_sync_listening, of s] by (simp add: kept_def)

end
