(* ===== verification/Irc_Input.thy ===== *)
theory Irc_Input
  imports Irc_Wire
begin

section \<open>Invariants of the input side\<close>

text \<open>
  Between two rounds of the event loop no client's receive buffer holds a complete line or
  512 bytes of an unfinished one: the receive loop either empties the buffer down to such a
  rest or schedules the client, and every client scheduled in a round is gone at its end.
\<close>

definition incomplete :: "string \<Rightarrow> bool" where
  "incomplete b \<longleftrightarrow> \<not> hasCompleteLine b \<and> length b < IRC_MAX_LINE"

lemma findLine_incomplete: "findLine b out = (LINE_INCOMPLETE, l, n) \<Longrightarrow> incomplete b"
  by (auto simp: findLine_def incomplete_def hasCompleteLine_def Let_def split: option.splits if_splits)

lemma incomplete_Nil [simp]: "incomplete []"
  by (simp add: incomplete_def hasCompleteLine_def IRC_MAX_LINE_def)

definition input_ok :: "server \<Rightarrow> bool" where
  "input_ok s \<longleftrightarrow>
     (\<forall>fd b. inputs s fd = Some b \<longrightarrow> fd |\<in>| sv_pendingDisconnects s \<or> incomplete b)"

definition settled :: "server \<Rightarrow> bool" where
  "settled s \<longleftrightarrow> (\<forall>fd b. inputs s fd = Some b \<longrightarrow> incomplete b)"

text \<open>Changes of one client's input, while pending disconnections only accumulate.\<close>

definition input_step :: "int \<Rightarrow> server \<Rightarrow> server \<Rightarrow> bool" where
  "input_step fd s s' \<longleftrightarrow>
     (\<forall>g. g \<noteq> fd \<longrightarrow> inputs s' g = inputs s g)
     \<and> sv_pendingDisconnects s |\<subseteq>| sv_pendingDisconnects s'"

lemma input_step_refl [simp]: "input_step fd s s"
  by (simp add: input_step_def)

lemma input_step_trans: "input_step fd s t \<Longrightarrow> input_step fd t u \<Longrightarrow> input_step fd s u"
  by (auto simp: input_step_def)

lemma input_step_steady: "steady s t \<Longrightarrow> input_step fd s t"
  by (simp add: input_step_def steady_def)

lemma input_step_updClient: "input_step fd s (updClient fd f s)"
  by (simp add: input_step_def inputs_def updClient_clients)

lemma input_step_receiveLoop: "input_step fd s (receiveLoop fd out s)"
  by (rule receiveLoop_keeps [of "input_step fd s"])
    (blast intro: input_step_trans input_step_refl input_step_updClient input_step_steady
      steady_processLine steady_output steady_refl)+

lemma input_step_clientEvent: "input_step fd s (handleClientEvent tk fd revents s)"
proof (rule handleClientEvent_keeps [of "input_step fd s"])
  fix n t assume "input_step fd s t"
  then show "input_step fd s (updatePollEvents fd (updClient fd (eraseSendPrefix n) t))"
    using input_step_updClient input_step_steady [OF steady_output(9) [OF steady_refl]]
    by (blast intro: input_step_trans)
qed (blast intro: input_step_trans input_step_refl input_step_updClient input_step_steady
      steady_processLine steady_output steady_refl)+

text \<open>What the receive loop leaves: nothing complete, or a scheduled client.\<close>

definition done_with :: "int \<Rightarrow> server \<Rightarrow> bool" where
  "done_with fd s \<longleftrightarrow>
     fd |\<in>| sv_pendingDisconnects s \<or> (\<forall>b. inputs s fd = Some b \<longrightarrow> incomplete b)"

lemma receiveLoop_done: "done_with fd (receiveLoop fd out s)"
proof (induction "input_length fd s" arbitrary: s out rule: less_induct)
  case less
  show ?case
  proof (cases "findClientByFd fd s")
    case None
    then show ?thesis by (simp add: receiveLoop.simps done_with_def inputs_def findClientByFd_def)
  next
    case (Some c)
    obtain st l n where f: "findLine (cl_receiveBuffer c) out = (st, l, n)"
      using prod_cases3 by blast
    show ?thesis
    proof (cases st)
      case LINE_INCOMPLETE
      with f Some findLine_incomplete [of "cl_receiveBuffer c" out] show ?thesis
        by (simp add: receiveLoop.simps [of fd out s] done_with_def inputs_def findClientByFd_def)
    next
      case LINE_TOO_LONG
      with f Some show ?thesis
        by (simp add: receiveLoop.simps [of fd out s] done_with_def scheduleDisconnect_def)
    next
      case LINE_EXTRACTED
      with f Some less [OF input_length_line [OF Some]] show ?thesis
        by (simp add: receiveLoop.simps [of fd out s] Let_def) (simp add: done_with_def)
    qed
  qed
qed

lemma receiveFromClient_done: "done_with fd (receiveFromClient fd r s)"
  by (simp add: receiveFromClient_def Let_def receiveLoop_done split: option.split recv_result.split)
    (auto simp: done_with_def inputs_def findClientByFd_def scheduleDisconnect_def)

lemma done_with_keeps:
  assumes "done_with fd s" and "steady s t"
  shows "done_with fd t"
  using assms by (auto simp: done_with_def steady_def)

lemma done_with_flush: "done_with fd s \<Longrightarrow> done_with fd (flushSendBuffer fd sent s)"
proof -
  assume d: "done_with fd s"
  have "steady s (flushSendBuffer fd sent s)"
    by (simp add: flushSendBuffer_def frame_simps split: option.split)
  with d show ?thesis by (rule done_with_keeps)
qed

lemma clientEvent_input_ok:
  assumes "input_ok s"
  shows "input_ok (handleClientEvent tk fd revents s)"
proof -
  have "done_with fd (handleClientEvent tk fd revents s)"
  proof -
    have "done_with fd s" using assms by (auto simp: input_ok_def done_with_def)
    moreover have "steady t (scheduleDisconnect fd t)" for t by (simp add: frame_simps)
    ultimately show ?thesis
      using receiveFromClient_done [of fd "tk_recv tk fd" s]
      by (auto simp: handleClientEvent_def Let_def intro: done_with_flush done_with_keeps)
  qed
  moreover note input_step_clientEvent [of fd s tk revents]
  ultimately show ?thesis
    using assms unfolding input_ok_def done_with_def input_step_def by (metis fsubsetD)
qed

subsection \<open>A round\<close>

lemma input_ok_cong:
  "inputs s' = inputs s \<Longrightarrow> sv_pendingDisconnects s' = sv_pendingDisconnects s \<Longrightarrow>
     input_ok s \<Longrightarrow> input_ok s'"
  by (simp add: input_ok_def)

lemma acceptClient_input_ok:
  assumes "input_ok s"
  shows "input_ok (acceptClient r s)"
proof (cases "ac_fd r < 0 \<or> ac_fcntl r < 0 \<or> sv_clients s (ac_fd r) \<noteq> None")
  case True
  then have "inputs (acceptClient r s) = inputs s
    \<and> sv_pendingDisconnects (acceptClient r s) = sv_pendingDisconnects s"
    by (auto simp: acceptClient_def addClient_def Let_def inputs_def fun_eq_iff)
  with assms show ?thesis by (blast intro: input_ok_cong)
next
  case False
  then have "inputs (acceptClient r s) = (inputs s)(ac_fd r \<mapsto> [])
    \<and> sv_pendingDisconnects (acceptClient r s) = sv_pendingDisconnects s"
    by (auto simp: acceptClient_def addClient_def addClientPollFd_def new_client_def Let_def
        inputs_def fun_eq_iff)
  with assms show ?thesis by (simp add: input_ok_def)
qed

lemma event_round_input_ok: "input_ok s \<Longrightarrow> input_ok (outcome_state (event_round tk is s))"
proof (induction "is" arbitrary: s)
  case (Cons i "is")
  let ?p = "sv_pollFds s ! i"
  let ?r = "handleListenEvent (tk_accept tk) (pf_revents ?p) s"
  have "input_ok (outcome_state ?r)"
    using Cons.prems by (simp add: handleListenEvent_state acceptClient_input_ok)
  moreover have "input_ok (handleClientEvent tk (pf_fd ?p) (pf_revents ?p) s)"
    using Cons.prems by (rule clientEvent_input_ok)
  ultimately show ?case
    using Cons.IH [OF Cons.prems] Cons.IH [of "handleClientEvent tk (pf_fd ?p) (pf_revents ?p) s"]
      Cons.IH [of "outcome_state ?r"]
    by (auto simp: Let_def split: sum.split)
qed simp

lemma inputs_pending [simp]: "inputs (s\<lparr>sv_pendingDisconnects := ps\<rparr>) = inputs s"
  by (simp add: inputs_def fun_eq_iff)

text \<open>The disconnections at the end remove exactly the scheduled clients.\<close>

lemma inputs_disconnect:
  assumes wf: "wf_server s"
  shows "inputs (disconnectClient fd reason s) = (inputs s)(fd := None)"
proof (cases "sv_clients s fd")
  case None
  then show ?thesis by (simp add: disconnectClient_absent inputs_def fun_eq_iff)
next
  case (Some c)
  have "cl_receiveBuffer (push_line msg c) = cl_receiveBuffer c" for msg c
    by (simp add: push_line_def)
  then show ?thesis
    by (auto simp: inputs_def disconnectClient_facts(2) [OF wf Some] fun_eq_iff option.map_comp o_def)
qed

lemma inputs_processPending:
  assumes "wf_server s"
  shows "inputs (processPendingDisconnects s) =
    (\<lambda>fd. if fd |\<in>| sv_pendingDisconnects s then None else inputs s fd)"
proof -
  have "wf_server t \<Longrightarrow>
    inputs (fold (\<lambda>fd s. disconnectClient fd (disconnect_reason fd s) s) fds t) =
      (\<lambda>fd. if fd \<in> set fds then None else inputs t fd)" for fds t
    by (induction fds arbitrary: t) (auto simp: inputs_disconnect wf_disconnect fun_eq_iff)
  from this [of "s\<lparr>sv_pendingDisconnects := {||}\<rparr>" "sorted_list_of_fset (sv_pendingDisconnects s)"]
  show ?thesis
    using assms
    by (simp add: processPendingDisconnects_def cong: if_cong add: wf_server_cong [of "s\<lparr>sv_pendingDisconnects := {||}\<rparr>" s])
qed

lemma poll_round_settled:
  assumes "wf_server s" and "accept_ok (sv_listenFd s) tk" and "settled s"
    and r: "poll_round tk s = Inr s'"
  shows "settled s'"
proof -
  let ?s1 = "poll_write (tk_revents tk) s"
  have wf1: "wf_server ?s1" using assms(1) by (rule wf_poll_write)
  have ok1: "input_ok ?s1"
    using assms(3) by (auto simp: settled_def input_ok_def poll_write_def inputs_def)
  from r obtain s2 where s2: "event_round tk [0..<length (sv_pollFds ?s1)] ?s1 = Inr s2"
    and s': "s' = processPendingDisconnects s2"
    by (auto simp: poll_round_def Let_def split: sum.splits)
  have "accept_ok (sv_listenFd ?s1) tk" using assms(2) by (simp add: poll_write_def)
  with net.K_event_round [of ?s1 tk "[0..<length (sv_pollFds ?s1)]"] s2 wf1
  have "wf_server s2" by (simp add: kept_def)
  moreover have "input_ok s2" using event_round_input_ok [OF ok1, of tk] s2 by (metis outcome_state_simps(2))
  ultimately show ?thesis by (auto simp: settled_def input_ok_def s' inputs_processPending split: if_splits)
qed

lemma serving_settled: "serving s \<Longrightarrow> settled s"
proof (induction rule: serving.induct)
  case (serving_start e port pw st s)
  then have "s = listening (se_socket e) port pw st" by (simp add: setup_listening)
  then show ?case by (simp add: settled_def inputs_def listening_def new_server_def)
next
  case (serving_round s tk s')
  then show ?case using wf_serving poll_round_settled by blast
qed

end
