(* ===== verification/Irc_Effects.thy ===== *)
theory Irc_Effects
  imports Irc_Disconnect Irc_Contract
begin

section \<open>What the commands do\<close>

text \<open>
  The functional behaviour of the commands on well-formed states: the channel map after
  JOIN, PART and KICK, and for every client the line that JOIN, PART, KICK, PRIVMSG and NICK
  add to its send buffer.
\<close>

subsection \<open>JOIN\<close>

text \<open>The channel map after one JOIN.\<close>

definition joined_channel :: "int \<Rightarrow> string \<Rightarrow> string \<Rightarrow> server \<Rightarrow> channel option" where
  "joined_channel fd name key s =
     (case findChannel name s of
        None \<Rightarrow> Some (entered_channel fd name True (new_channel name (normalizeChannelName name)))
      | Some ch \<Rightarrow> Some (if admits fd key ch then entered_channel fd name False ch else ch))"

lemma entered_channel_new: "entered_channel fd name True ch = entered_channel fd name True ch'"
  by (simp add: entered_channel_def)

lemma joinOne_accepted:
  assumes wf: "wf_server s" and c: "sv_clients s fd = Some c"
    and v: "isValidChannelName name" "normalizeChannelName name |\<notin>| cl_joinedChannels c"
    and a: "case findChannel name s of None \<Rightarrow> True | Some ch \<Rightarrow> admits fd key ch"
  shows "joinOne fd name key s = announceJoin fd (normalizeChannelName name)
     (snd (enterChannel fd name (findChannel name s = None) s))"
proof -
  have ok: "fst (enterChannel fd name (findChannel name s = None) s)"
    using enterChannel_eq [OF wf c, of "findChannel name s = None" name] by simp
  have n: "findChannel (normalizeChannelName name) s = findChannel name s"
    by (simp add: findChannel_def)
  show ?thesis
    using c v a ok
    by (auto simp: joinOne_def findClientByFd_def hasJoinedChannel_def n admits_def
        case_prod_beta Let_def split: option.split)
qed

lemma joinOne_refused:
  assumes c: "sv_clients s fd = Some c"
    and v: "isValidChannelName name" "normalizeChannelName name |\<notin>| cl_joinedChannels c"
    and ch: "findChannel name s = Some ch" and a: "\<not> admits fd key ch"
  shows "joinOne fd name key s =
     (if ch_inviteOnly ch \<and> \<not> isInvited fd ch
      then queueNumeric fd ERR_INVITEONLYCHAN (ch_name ch @ '' :Cannot join channel (+i)'') s
      else if \<not> matchesKey key ch
      then queueNumeric fd ERR_BADCHANNELKEY (ch_name ch @ '' :Cannot join channel (+k)'') s
      else queueNumeric fd ERR_CHANNELISFULL (ch_name ch @ '' :Cannot join channel (+l)'') s)"
proof -
  have n: "findChannel (normalizeChannelName name) s = Some ch"
    using ch by (simp add: findChannel_def)
  show ?thesis
    using c v a by (auto simp: joinOne_def findClientByFd_def hasJoinedChannel_def n admits_def Let_def)
qed

lemma joinOne_channels:
  assumes wf: "wf_server s" and c: "sv_clients s fd = Some c"
    and v: "isValidChannelName name" "normalizeChannelName name |\<notin>| cl_joinedChannels c"
  shows "sv_channels (joinOne fd name key s) =
    (sv_channels s)(normalizeChannelName name := joined_channel fd name key s)"
proof (cases "case findChannel name s of None \<Rightarrow> True | Some ch \<Rightarrow> admits fd key ch")
  case True
  have "sv_channels (joinOne fd name key s) = sv_channels (snd (enterChannel fd name (findChannel name s = None) s))"
    unfolding joinOne_accepted [OF wf c v True] by (rule same_frame_fields(1) [OF same_frame_announceJoin])
  also have "\<dots> = (sv_channels s)(normalizeChannelName name := joined_channel fd name key s)"
    using True entered_channel_new
    by (auto simp: enterChannel_eq [OF wf c] joined_channel_def split: option.split)
  finally show ?thesis .
next
  case False
  then obtain ch where ch: "findChannel name s = Some ch" "\<not> admits fd key ch"
    by (auto split: option.splits)
  then have "joined_channel fd name key s = sv_channels s (normalizeChannelName name)"
    by (simp add: joined_channel_def findChannel_def)
  moreover have "sv_channels (joinOne fd name key s) = sv_channels s"
    by (simp add: joinOne_refused [OF c v ch])
  ultimately show ?thesis by simp
qed

subsection \<open>PART and KICK\<close>

definition part_notice :: "client \<Rightarrow> channel \<Rightarrow> string \<Rightarrow> string" where
  "part_notice c ch reason = reply_command (clientPrefix c) ''PART'' (ch_name ch @ '' :'' @ reason)"

definition kick_notice :: "client \<Rightarrow> channel \<Rightarrow> client \<Rightarrow> string \<Rightarrow> string" where
  "kick_notice c ch target reason =
     reply_command (clientPrefix c) ''KICK'' (ch_name ch @ '' '' @ cl_nickname target @ '' :'' @ reason)"

text \<open>Both: a line to every member, then one membership removed on both sides.\<close>

definition drop_member :: "int \<Rightarrow> channel \<Rightarrow> string \<Rightarrow> server \<Rightarrow> int \<Rightarrow> client option" where
  "drop_member fd ch notice s g =
     (let told = (if g |\<in>| ch_members ch then map_option (push_line notice) (sv_clients s g)
                  else sv_clients s g)
      in if g = fd
         then map_option (\<lambda>c. c\<lparr>cl_joinedChannels := cl_joinedChannels c |-| {|ch_keyName ch|}\<rparr>) told
         else told)"

lemma broadcast_all:
  assumes wf: "wf_server s" and ch: "findChannel name s = Some ch"
  shows "sv_clients (broadcastToChannel ch notice (- 1) s) =
    (\<lambda>g. if g |\<in>| ch_members ch then map_option (push_line notice) (sv_clients s g) else sv_clients s g)"
proof -
  have "g \<noteq> - 1" if "g |\<in>| ch_members ch" for g
    using that wf_member [OF wf wf_findChannel(2) [OF wf ch], of g] wf_client_at [OF wf, of g] by force
  then show ?thesis by (auto simp: broadcastToChannel_clients fun_eq_iff)
qed

lemma broadcast_leave:
  assumes wf: "wf_server s" and c: "sv_clients s fd = Some c"
    and ch: "findChannel name s = Some ch" and m: "fd |\<in>| ch_members ch"
    and n: "normalizeChannelName key = normalizeChannelName name"
  shows "sv_channels (snd (leaveChannel fd key r False (broadcastToChannel ch notice (- 1) s)))
      = (sv_channels s)(ch_keyName ch := left_channel fd (drop_invite fd ch))"
    and "sv_clients (snd (leaveChannel fd key r False (broadcastToChannel ch notice (- 1) s)))
      = drop_member fd ch notice s"
proof -
  let ?t = "broadcastToChannel ch notice (- 1) s"
  have wft: "wf_server ?t" by (rule wf_same_frame [OF wf]) simp
  have t: "sv_clients ?t = (\<lambda>g. if g |\<in>| ch_members ch then map_option (push_line notice) (sv_clients s g)
      else sv_clients s g)" by (rule broadcast_all [OF wf ch])
  have c': "sv_clients ?t fd = Some (push_line notice c)" by (simp add: t c m)
  have ch': "findChannel key ?t = Some ch" using ch n by (simp add: findChannel_def)
  show "sv_channels (snd (leaveChannel fd key r False ?t))
      = (sv_channels s)(ch_keyName ch := left_channel fd (drop_invite fd ch))"
    by (simp add: leaveChannel_silent [OF wft c' ch' m])
  show "sv_clients (snd (leaveChannel fd key r False ?t)) = drop_member fd ch notice s"
    by (auto simp: leaveChannel_silent [OF wft c' ch' m] drop_member_def fun_eq_iff t c m)
qed

lemma partOne_effect:
  assumes wf: "wf_server s" and c: "sv_clients s fd = Some c"
    and ch: "findChannel name s = Some ch" and m: "fd |\<in>| ch_members ch"
  shows "sv_channels (partOne fd reason name s)
      = (sv_channels s)(ch_keyName ch := left_channel fd (drop_invite fd ch))"
    and "sv_clients (partOne fd reason name s) = drop_member fd ch (part_notice c ch reason) s"
proof -
  have n: "findChannel (normalizeChannelName name) s = Some ch" using ch by (simp add: findChannel_def)
  have "partOne fd reason name s = snd (leaveChannel fd (normalizeChannelName name) reason False
      (broadcastToChannel ch (part_notice c ch reason) (- 1) s))"
    using leaveChannel_notice [OF c n m, of reason] n m
    by (simp add: partOne_def requireChannelMember_def hasMember_def part_notice_def Let_def)
  with broadcast_leave [OF wf c ch m, of "normalizeChannelName name"]
  show "sv_channels (partOne fd reason name s)
      = (sv_channels s)(ch_keyName ch := left_channel fd (drop_invite fd ch))"
    and "sv_clients (partOne fd reason name s) = drop_member fd ch (part_notice c ch reason) s"
    by simp_all
qed

lemma handleKick_effect:
  assumes wf: "wf_server s" and c: "sv_clients s fd = Some c"
    and ps: "msg_params msg = name # nick # rest" and ch: "findChannel name s = Some ch"
    and op: "isOperator fd ch" and t: "findClientByNickname nick s = Some t"
    and m: "cl_fd t |\<in>| ch_members ch"
  defines "reason \<equiv> (case rest of [] \<Rightarrow> cl_nickname c | r # _ \<Rightarrow> r)"
  shows "sv_channels (handleKick fd msg s)
      = (sv_channels s)(ch_keyName ch := left_channel (cl_fd t) (drop_invite (cl_fd t) ch))"
    and "sv_clients (handleKick fd msg s) = drop_member (cl_fd t) ch (kick_notice c ch t reason) s"
proof -
  have mem: "fd |\<in>| ch_members ch"
    using op wf_findChannel(3) [OF wf ch] by (auto simp: isOperator_def wf_channel_def)
  have k: "normalizeChannelName (ch_keyName ch) = normalizeChannelName name"
    using wf_findChannel(1) [OF wf ch] by simp
  have "reason = (if 3 \<le> length (msg_params msg) then msg_params msg ! 2 else cl_nickname c)"
    by (cases rest) (simp_all add: reason_def ps)
  then have "handleKick fd msg s = snd (leaveChannel (cl_fd t) (ch_keyName ch) reason False
      (broadcastToChannel ch (kick_notice c ch t reason) (- 1) s))"
    using c ps ch op t m mem
    by (simp add: handleKick_def findClientByFd_def requireParams_def requireChannelMember_def
        requireChannelOperator_def hasMember_def kick_notice_def Let_def)
  with broadcast_leave [OF wf wf_findByNick(1) [OF wf t] ch m k]
  show "sv_channels (handleKick fd msg s)
      = (sv_channels s)(ch_keyName ch := left_channel (cl_fd t) (drop_invite (cl_fd t) ch))"
    and "sv_clients (handleKick fd msg s) = drop_member (cl_fd t) ch (kick_notice c ch t reason) s"
    by simp_all
qed

subsection \<open>PRIVMSG\<close>

definition privmsg_line :: "client \<Rightarrow> string \<Rightarrow> string \<Rightarrow> string" where
  "privmsg_line c target txt = reply_command (clientPrefix c) ''PRIVMSG'' (target @ '' :'' @ txt)"

lemma privmsg_line_eq:
  assumes "isSafeToken (clientPrefix c)" and "clean_text target" and "clean_text body"
  shows "privmsg_line c target body =
    '':'' @ clientPrefix c @ '' '' @ ''PRIVMSG'' @ '' '' @ target @ '' :'' @ body"
proof -
  have "clean_text (target @ '' :'' @ body)" using assms(2,3) by simp
  moreover have "isSafeToken ''PRIVMSG''" by code_simp
  ultimately show ?thesis
    using assms(1) by (auto simp: privmsg_line_def reply_command_def Let_def isSafeToken_def)
qed

text \<open>One target: every member but the sender, or the one client of that nickname.\<close>

definition recipients :: "int \<Rightarrow> string \<Rightarrow> server \<Rightarrow> int set" where
  "recipients fd target s =
     (if target \<noteq> [] \<and> target ! 0 = CHR ''#''
      then (case findChannel target s of
              None \<Rightarrow> {}
            | Some ch \<Rightarrow> if fd |\<in>| ch_members ch then fset (ch_members ch) - {fd} else {})
      else (case findClientByNickname target s of None \<Rightarrow> {} | Some t \<Rightarrow> {cl_fd t}))"

definition display_name :: "string \<Rightarrow> server \<Rightarrow> string" where
  "display_name target s =
     (if target \<noteq> [] \<and> target ! 0 = CHR ''#''
      then (case findChannel target s of None \<Rightarrow> target | Some ch \<Rightarrow> ch_name ch)
      else (case findClientByNickname target s of None \<Rightarrow> target | Some t \<Rightarrow> cl_nickname t))"

lemma privmsgOne_delivered:
  assumes c: "sv_clients s fd = Some c" and r: "recipients fd target s \<noteq> {} "
  shows "sv_clients (privmsgOne fd txt target s) =
    (\<lambda>g. if g \<in> recipients fd target s
         then map_option (push_line (privmsg_line c (display_name target s) txt)) (sv_clients s g)
         else sv_clients s g)"
  using c r
  by (auto simp: privmsgOne_def recipients_def display_name_def privmsg_line_def findClientByFd_def
      hasMember_def broadcastToChannel_clients queueToClient_clients fun_eq_iff
      split: option.splits if_splits)

lemma privmsgOne_others:
  assumes "g \<noteq> fd" and "g \<notin> recipients fd target s"
  shows "sv_clients (privmsgOne fd txt target s) g = sv_clients s g"
proof -
  have q: "sv_clients (queueNumeric fd code ps s) g = sv_clients s g" for code ps
    using assms(1) by (simp add: queueNumeric_def queueToClient_clients split: option.split)
  show ?thesis
    using assms q
    by (auto simp: privmsgOne_def recipients_def findClientByFd_def hasMember_def sendNoSuchChannel_def
        broadcastToChannel_clients queueToClient_clients split: option.splits if_splits)
qed

subsection \<open>NICK\<close>

lemma renameClient_fields:
  assumes "sv_clients s fd = Some c"
  shows "sv_clients (renameClient fd n s) = (sv_clients s)(fd \<mapsto> setNickname n c)"
    and "sv_channels (renameClient fd n s) = sv_channels s"
    and "sv_nickToFd (renameClient fd n s) =
      (if cl_nickname c \<noteq> [] then (sv_nickToFd s)(ircCaseFold (cl_nickname c) := None) else sv_nickToFd s)
        (ircCaseFold n \<mapsto> fd)"
  using assms
  by (auto simp: renameClient_def findClientByFd_def updClient_clients registerNickname_def
      unregisterNickname_def Let_def)

lemma shared_targets_cong:
  assumes "cl_fd c' = cl_fd c" and "cl_joinedChannels c' = cl_joinedChannels c"
    and "sv_channels s' = sv_channels s"
  shows "shared_targets c' s' = shared_targets c s"
  using assms by (simp add: shared_targets_def findChannel_def)

definition nick_notice :: "client \<Rightarrow> string \<Rightarrow> string" where
  "nick_notice c n = reply_command (clientPrefix c) ''NICK'' ('':'' @ n)"

lemma handleNick_effect:
  assumes wf: "wf_server s" and c: "sv_clients s fd = Some c" and reg: "cl_registered c"
    and ps: "msg_params msg = n # rest" and v: "isValidNickname n" and av: "isNicknameAvailable n fd s"
  shows "sv_clients (handleNick fd msg s) =
      (\<lambda>g. if g = fd then Some (push_line (nick_notice c n) (setNickname n c))
           else if g |\<in>| shared_targets c s then map_option (push_line (nick_notice c n)) (sv_clients s g)
           else sv_clients s g)"
    and "sv_channels (handleNick fd msg s) = sv_channels s"
    and "sv_nickToFd (handleNick fd msg s) =
      ((sv_nickToFd s)(ircCaseFold (cl_nickname c) := None))(ircCaseFold n \<mapsto> fd)"
proof -
  define s1 where "s1 = renameClient fd n s"
  define s2 where "s2 = queueToClient fd (nick_notice c n) s1"
  define d where "d = push_line (nick_notice c n) (setNickname n c)"
  note r = renameClient_fields [OF c, of n, folded s1_def]
  have d2: "sv_clients s2 fd = Some d" by (simp add: s2_def queueToClient_clients r(1) d_def)
  have nn: "cl_nickname c \<noteq> []" using wf_client_at [OF wf c] reg by (auto simp: wf_client_def)
  have eq: "handleNick fd msg s = broadcastToSharedChannels d (nick_notice c n) s2"
    using c reg ps v av d2
    by (simp add: handleNick_def findClientByFd_def Let_def s1_def s2_def nick_notice_def)
  have sh: "shared_targets d s2 = shared_targets c s"
    by (rule shared_targets_cong) (simp_all add: d_def push_line_def setNickname_def s2_def r(2))
  have nf: "fd |\<notin>| shared_targets c s" using wf_client_at [OF wf c] by (simp add: shared_targets_iff)
  show "sv_clients (handleNick fd msg s) =
      (\<lambda>g. if g = fd then Some d
           else if g |\<in>| shared_targets c s then map_option (push_line (nick_notice c n)) (sv_clients s g)
           else sv_clients s g)"
    unfolding eq broadcastToSharedChannels_clients sh
    using nf by (auto simp: fun_eq_iff d2) (auto simp: s2_def queueToClient_clients r(1))
  show "sv_channels (handleNick fd msg s) = sv_channels s" by (simp add: eq s2_def r(2))
  show "sv_nickToFd (handleNick fd msg s) =
      ((sv_nickToFd s)(ircCaseFold (cl_nickname c) := None))(ircCaseFold n \<mapsto> fd)"
    using nn by (simp add: eq s2_def r(3))
qed

lemma handleNick_in_use:
  assumes "sv_clients s fd = Some c" and "msg_params msg = n # rest" and "isValidNickname n"
    and "\<not> isNicknameAvailable n fd s"
  shows "handleNick fd msg s =
    queueNumeric fd ERR_NICKNAMEINUSE (n @ '' :Nickname is already in use'') s"
  using assms by (simp add: handleNick_def findClientByFd_def Let_def)

text \<open>
  What NICK does to the nicknames and their index, registered or not: the checks, the renaming,
  and then only output or the registration, which leave both alone.
\<close>

definition nicknames :: "server \<Rightarrow> int \<Rightarrow> string option" where
  "nicknames s g = map_option cl_nickname (sv_clients s g)"

definition same_names :: "server \<Rightarrow> server \<Rightarrow> bool" where
  "same_names s t \<longleftrightarrow> nicknames t = nicknames s \<and> sv_nickToFd t = sv_nickToFd s"

lemma same_names_frame:
  assumes "same_frame s t"
  shows "same_names s t"
proof -
  have "map_option cl_nickname (map_option (cl_sendBuffer_update (\<lambda>_. [])) (sv_clients t g))
      = map_option cl_nickname (map_option (cl_sendBuffer_update (\<lambda>_. [])) (sv_clients s g))" for g
    using assms by (simp add: same_frame_def)
  then show ?thesis
    using assms by (simp add: same_names_def nicknames_def fun_eq_iff option.map_comp o_def same_frame_def)
qed

lemma same_names_trans: "same_names s t \<Longrightarrow> same_names t u \<Longrightarrow> same_names s u"
  by (simp add: same_names_def)

lemma same_names_tryRegister: "same_names s (tryRegisterClient fd s)"
proof -
  let ?t = "updClient fd (\<lambda>c. snd (tryCompleteRegistration c)) s"
  have "same_names s ?t"
    by (auto simp: same_names_def nicknames_def fun_eq_iff updClient_clients tryCompleteRegistration_def option.map_comp
        option.map_id0 o_def intro!: option.map_cong)
  moreover have "same_names ?t (sendWelcomeSequence fd ?t)"
    by (rule same_names_frame) (simp add: sendWelcomeSequence_def Let_def same_frame_then split: option.split)
  ultimately show ?thesis
    by (auto simp: tryRegisterClient_def Let_def intro: same_names_trans split: option.split) (simp add: same_names_def)
qed

lemma handleNick_names:
  assumes c: "sv_clients s fd = Some c" and "msg_params msg = n # rest" and "isValidNickname n"
    and "isNicknameAvailable n fd s"
  shows "nicknames (handleNick fd msg s) = (nicknames s)(fd \<mapsto> n)"
    and "sv_nickToFd (handleNick fd msg s) =
      (if cl_nickname c \<noteq> [] then (sv_nickToFd s)(ircCaseFold (cl_nickname c) := None) else sv_nickToFd s)
        (ircCaseFold n \<mapsto> fd)"
proof -
  let ?r = "renameClient fd n s"
  have "same_names ?r (handleNick fd msg s)"
    using assms same_names_tryRegister
    by (auto simp: handleNick_def findClientByFd_def Let_def split: option.split
        intro!: same_names_frame intro: same_frame_trans [OF same_frame_queue same_frame_broadcast(2)])
  then show "nicknames (handleNick fd msg s) = (nicknames s)(fd \<mapsto> n)"
    and "sv_nickToFd (handleNick fd msg s) =
      (if cl_nickname c \<noteq> [] then (sv_nickToFd s)(ircCaseFold (cl_nickname c) := None) else sv_nickToFd s)
        (ircCaseFold n \<mapsto> fd)"
    using renameClient_fields [OF c, of n] by (simp_all add: same_names_def nicknames_def fun_eq_iff setNickname_def)
qed

text \<open>In a consistent state the check of NICK decides whether somebody else has the nickname.\<close>

lemma isNicknameAvailable_iff:
  assumes "wf_server s" and "n \<noteq> []"
  shows "isNicknameAvailable n fd s \<longleftrightarrow>
    \<not> (\<exists>g d. g \<noteq> fd \<and> sv_clients s g = Some d \<and> ircCaseFold (cl_nickname d) = ircCaseFold n)"
proof -
  have "sv_nickToFd s (ircCaseFold n) = Some g \<longleftrightarrow>
      (\<exists>d. sv_clients s g = Some d \<and> ircCaseFold (cl_nickname d) = ircCaseFold n)" for g
    unfolding wf_nick [OF assms(1)] nick_of_def using assms(2) ircCaseFold_Nil_iff by metis
  moreover have "isNicknameAvailable n fd s \<longleftrightarrow> (\<forall>g. sv_nickToFd s (ircCaseFold n) = Some g \<longrightarrow> g = fd)"
    by (simp add: isNicknameAvailable_def split: option.split)
  ultimately show ?thesis by blast
qed

subsection \<open>TOPIC and INVITE\<close>

lemma handleTopic_effect:
  assumes c: "sv_clients s fd = Some c" and ps: "msg_params msg = name # topic # rest"
    and ch: "findChannel name s = Some ch" and m: "hasMember fd ch"
    and op: "ch_topicRestricted ch \<longrightarrow> isOperator fd ch"
  shows "handleTopic fd msg s =
    broadcastToChannel ch (reply_command (clientPrefix c) ''TOPIC'' (ch_name ch @ '' :'' @ topic)) (- 1)
      (updChannel (normalizeChannelName name) (setTopic topic) s)"
  using assms
  by (auto simp: handleTopic_def findClientByFd_def requireParams_def requireChannelMember_def
      requireChannelOperator_def Let_def)

lemma handleInvite_effect:
  assumes wf: "wf_server s" and c: "sv_clients s fd = Some c" and ps: "msg_params msg = nick # name # rest"
    and t: "findClientByNickname nick s = Some t" and ch: "findChannel name s = Some ch"
    and op: "isOperator fd ch" and nm: "\<not> hasMember (cl_fd t) ch"
  shows "sv_channels (handleInvite fd msg s) =
    (sv_channels s)(ch_keyName ch \<mapsto> ch\<lparr>ch_invited := finsert (cl_fd t) (ch_invited ch)\<rparr>)"
proof -
  have m: "hasMember fd ch"
    using op wf_findChannel(3) [OF wf ch] by (auto simp: isOperator_def hasMember_def wf_channel_def)
  note f = wf_findChannel(1,2) [OF wf ch]
  from assms m f show ?thesis
    by (simp add: handleInvite_def findClientByFd_def requireParams_def requireChannelMember_def
        requireChannelOperator_def updChannel_channels addInvite_def Let_def)
qed

subsection \<open>From the dispatcher to the handlers\<close>

lemma dispatch_registered:
  assumes "sv_clients s fd = Some c" and "cl_registered c"
  shows "msg_command msg = ''JOIN'' \<Longrightarrow> dispatchCommand fd msg s = handleJoin fd msg s"
    and "msg_command msg = ''PART'' \<Longrightarrow> dispatchCommand fd msg s = handlePart fd msg s"
    and "msg_command msg = ''KICK'' \<Longrightarrow> dispatchCommand fd msg s = handleKick fd msg s"
    and "msg_command msg = ''PRIVMSG'' \<Longrightarrow> dispatchCommand fd msg s = handlePrivmsg fd msg s"
    and "msg_command msg = ''NICK'' \<Longrightarrow> dispatchCommand fd msg s = handleNick fd msg s"
    and "msg_command msg = ''INVITE'' \<Longrightarrow> dispatchCommand fd msg s = handleInvite fd msg s"
    and "msg_command msg = ''TOPIC'' \<Longrightarrow> dispatchCommand fd msg s = handleTopic fd msg s"
    and "msg_command msg = ''MODE'' \<Longrightarrow> dispatchCommand fd msg s = handleMode fd msg s"
    and "msg_command msg = ''QUIT'' \<Longrightarrow> dispatchCommand fd msg s = handleQuit fd msg s"
  using assms by (simp_all add: dispatchCommand_def findClientByFd_def find_entry_def command_table_def)

lemma dispatch_NICK:
  "sv_clients s fd = Some c \<Longrightarrow> msg_command msg = ''NICK'' \<Longrightarrow> dispatchCommand fd msg s = handleNick fd msg s"
  by (simp add: dispatchCommand_def findClientByFd_def find_entry_def command_table_def)

lemma splitCommaList_single:
  "CHR '','' \<notin> set v \<Longrightarrow> splitCommaList v = (if v = [] then [] else [v])"
  by (simp add: splitCommaList_def splitCommaFrom_no_comma)

lemma handleJoin_single:
  assumes "sv_clients s fd = Some c" and "msg_params msg = [name, key]" and "isValidChannelName name"
    and "CHR '','' \<notin> set key"
  shows "handleJoin fd msg s = joinOne fd name key s"
proof -
  have n: "CHR '','' \<notin> set name" "name \<noteq> []" "name \<noteq> ''0''"
    using assms(3) by (cases name; auto simp: isValidChannelName_def list_all_iff)+
  with assms show ?thesis
    by (simp add: handleJoin_def findClientByFd_def requireParams_def splitCommaList_single Let_def)
qed

lemma handlePart_single:
  assumes "sv_clients s fd = Some c" and "msg_params msg = [name, reason]" and "CHR '','' \<notin> set name"
    and "name \<noteq> []"
  shows "handlePart fd msg s = partOne fd reason name s"
  using assms
  by (simp add: handlePart_def findClientByFd_def requireParams_def splitCommaList_single Let_def)

lemma handlePrivmsg_single:
  assumes "sv_clients s fd = Some c" and "msg_params msg = [target, txt]" and "CHR '','' \<notin> set target"
    and "target \<noteq> []" and "txt \<noteq> []"
  shows "handlePrivmsg fd msg s = privmsgOne fd txt target s"
  using assms
  by (simp add: handlePrivmsg_def findClientByFd_def splitCommaList_single Let_def)

end
