(* ===== verification/Irc_Pending.thy ===== *)
theory Irc_Pending
  imports Irc_Input Irc_Effects
begin

section \<open>Scheduled disconnections\<close>

text \<open>
  The set of pending disconnections during \<open>processPendingDisconnects\<close> and during a round:
  which descriptors a call removes, what it can leave behind, and what a client that is
  already scheduled may still do.
\<close>

subsection \<open>What processing the set does\<close>

lemma clients_processPending:
  assumes "wf_server s"
  shows "dom (sv_clients (processPendingDisconnects s)) = dom (sv_clients s) - fset (sv_pendingDisconnects s)"
proof -
  have "dom (sv_clients t) = {fd. inputs t fd \<noteq> None}" for t by (auto simp: inputs_def dom_def)
  then show ?thesis using inputs_processPending [OF assms] by auto
qed

lemma member_disconnect:
  "wf_server s \<Longrightarrow> g \<noteq> fd \<Longrightarrow> member_of (disconnectClient fd reason s) g k = member_of s g k"
  by (cases "sv_clients s fd") (simp_all add: disconnectClient_absent disconnectClient_facts)

lemma member_processPending:
  assumes "wf_server s"
  shows "member_of (processPendingDisconnects s) g k
    \<longleftrightarrow> g |\<notin>| sv_pendingDisconnects s \<and> member_of s g k"
proof (cases "g |\<in>| sv_pendingDisconnects s")
  case True
  have wf: "wf_server (processPendingDisconnects s)" using assms by (rule wf_processPending)
  have "sv_clients (processPendingDisconnects s) g = None"
    using clients_processPending [OF assms] True by auto
  with wf True show ?thesis
    by (auto simp: wf_server_def membership_ok_def joined_of_def)
next
  case False
  have "wf_server t \<Longrightarrow> g \<notin> set fds \<Longrightarrow>
    member_of (fold (\<lambda>fd s. disconnectClient fd (disconnect_reason fd s) s) fds t) g k = member_of t g k"
    for fds t
    by (induction fds arbitrary: t) (auto simp: wf_disconnect member_disconnect)
  from this [of "s\<lparr>sv_pendingDisconnects := {||}\<rparr>" "sorted_list_of_fset (sv_pendingDisconnects s)"] False
  show ?thesis
    using assms
    by (simp add: processPendingDisconnects_def member_of_def
        wf_server_cong [of "s\<lparr>sv_pendingDisconnects := {||}\<rparr>" s])
qed

subsection \<open>Rescheduling while disconnecting\<close>

text \<open>A message that does not fit schedules its receiver, whatever else is sent.\<close>

lemma pending_queue:
  assumes "sv_clients s fd = Some c" and "MAX_SEND_BUFFER < length (cl_sendBuffer c) + length (normalize_line msg)"
  shows "fd |\<in>| sv_pendingDisconnects (queueToClient fd msg s)"
  using assms by (simp add: queueToClient_def findClientByFd_def Let_def scheduleDisconnect_def)

lemma pending_broadcast:
  assumes "fd |\<in>| shared_targets c s" and "sv_clients s fd = Some d"
    and "MAX_SEND_BUFFER < length (cl_sendBuffer d) + length (normalize_line msg)"
  shows "fd |\<in>| sv_pendingDisconnects (broadcastToSharedChannels c msg s)"
proof -
  have grow: "fd |\<in>| sv_pendingDisconnects t \<Longrightarrow>
    fd |\<in>| sv_pendingDisconnects (fold (\<lambda>fd. queueToClient fd msg) fds t)" for fds t
    by (rule fold_keeps [where P = "\<lambda>t. fd |\<in>| sv_pendingDisconnects t"])
      (auto intro: fsubsetD [OF same_frame_fields(10) [OF same_frame_queue]])
  have "fd \<in> set fds \<Longrightarrow> sv_clients t fd = Some d \<Longrightarrow>
    fd |\<in>| sv_pendingDisconnects (fold (\<lambda>fd. queueToClient fd msg) fds t)" for fds t
  proof (induction fds arbitrary: t)
    case (Cons g fds)
    show ?case
    proof (cases "g = fd")
      case True
      with pending_queue [OF Cons.prems(2) assms(3)] grow show ?thesis by simp
    next
      case False
      with Cons show ?thesis by (simp add: queueToClient_clients)
    qed
  qed simp
  with assms(1,2) show ?thesis by (simp add: broadcastToSharedChannels_def)
qed

lemma pending_disconnect:
  assumes wf: "wf_server s" and c: "sv_clients s fd = Some c"
  shows "sv_pendingDisconnects (disconnectClient fd reason s) =
    sv_pendingDisconnects (broadcastToSharedChannels c
      (reply_command (clientPrefix c) ''QUIT'' ('':'' @ reason)) s)"
  using disconnectClient_facts(9) [OF wf c, of reason] by (simp add: dropped_def)

text \<open>
  Two members of one channel are scheduled, and the QUIT of the first does not fit into the
  buffer of the second: the second is disconnected and its descriptor stays scheduled.
\<close>

lemma stale_pending:
  assumes wf: "wf_server s" and p: "sv_pendingDisconnects s = {|a, b|}" and "a < b"
    and ca: "sv_clients s a = Some ca" and cb: "sv_clients s b = Some cb"
    and sh: "b |\<in>| shared_targets ca s"
    and full: "MAX_SEND_BUFFER < length (cl_sendBuffer cb)
      + length (normalize_line (reply_command (clientPrefix ca) ''QUIT'' ('':'' @ disconnect_reason a s)))"
  shows "sv_clients (processPendingDisconnects s) b = None"
    and "b |\<in>| sv_pendingDisconnects (processPendingDisconnects s)"
proof -
  let ?s = "s\<lparr>sv_pendingDisconnects := {||}\<rparr>"
  let ?t = "disconnectClient a (disconnect_reason a ?s) ?s"
  have wf': "wf_server ?s" using wf wf_server_cong [of ?s s] by simp
  have r: "disconnect_reason a ?s = disconnect_reason a s" by (simp add: disconnect_reason_def)
  have "sorted_list_of_fset {|a, b|} = [a, b]" using \<open>a < b\<close> by (simp add: sorted_list_of_fset.rep_eq)
  then have eq: "processPendingDisconnects s = disconnectClient b (disconnect_reason b ?t) ?t"
    by (simp add: processPendingDisconnects_def p)
  show "sv_clients (processPendingDisconnects s) b = None"
    using clients_processPending [OF wf] p by auto
  have "shared_targets ca ?s = shared_targets ca s" by (rule shared_targets_cong) simp_all
  then have "b |\<in>| sv_pendingDisconnects ?t"
    using pending_broadcast [of b ca ?s cb] ca cb sh full
    by (simp add: pending_disconnect [OF wf', of a ca] r)
  moreover have "wf_server ?t" using wf' by (rule wf_disconnect)
  ultimately show "b |\<in>| sv_pendingDisconnects (processPendingDisconnects s)"
    unfolding eq using disconnectClient_facts(8) [of ?t b] disconnectClient_absent [of ?t b]
    by (cases "sv_clients ?t b") auto
qed

subsection \<open>A scheduled client's input\<close>

text \<open>Being scheduled does not stop a client's next event from being handled.\<close>

lemma scheduled_client_served:
  assumes p: "fd |\<in>| sv_pendingDisconnects s" and c: "sv_clients s fd = Some c"
    and b: "cl_receiveBuffer c = []" and l: "LF \<notin> set l" "length l \<le> 510"
    and r: "tk_recv tk fd = Received (l @ crlf)"
  shows "handleClientEvent tk fd {POLLIN} s = processLine fd l s"
proof -
  let ?s1 = "updClient fd (appendReceiveBuffer (l @ crlf)) s"
  let ?c1 = "c\<lparr>cl_receiveBuffer := l @ crlf\<rparr>"
  have c1: "sv_clients ?s1 fd = Some ?c1"
    using c b by (simp add: updClient_clients appendReceiveBuffer_eq)
  have f: "findLine (l @ crlf) [] = (LINE_EXTRACTED, l, length l + 2)"
    using findLine_LF [of "l @ [CR]" "[]" "[]"] l by (simp add: crlf_def)
  have e: "updClient fd (eraseReceivePrefix (length l + 2)) ?s1 = s"
    using c b by (simp add: updClient_def appendReceiveBuffer_eq eraseReceivePrefix_eq crlf_def fun_upd_idem)
  have pl: "fd |\<in>| sv_pendingDisconnects (processLine fd l s)"
    using p steady_processLine [of s fd l] by (auto simp: steady_def)
  have "receiveLoop fd [] ?s1 = processLine fd l s"
    using c1 f e pl by (simp add: receiveLoop.simps [of fd "[]"] findClientByFd_def Let_def)
  moreover have "\<not> MAX_RECEIVE_BUFFER < length (cl_receiveBuffer (appendReceiveBuffer (l @ crlf) c))"
    using b l by (simp add: appendReceiveBuffer_eq MAX_RECEIVE_BUFFER_def)
  ultimately have "receiveFromClient fd (Received (l @ crlf)) s = processLine fd l s"
    using c by (simp add: receiveFromClient_def findClientByFd_def Let_def)
  then show ?thesis
    using c r pl by (simp add: handleClientEvent_def findClientByFd_def)
qed

end
