(* ===== verification/Irc_Main.thy ===== *)
theory Irc_Main
  imports Irc_Wire
begin

section \<open>The entry point\<close>

text \<open>
  Models \<open>services/irc/prd/main.cpp\<close>: the arguments after the program name, the password
  from the second argument or the environment, and the exit status with the final state of
  the server after its destructor. \<open>long\<close> has 64 bits; \<open>strtol\<close> saturates.
\<close>

definition isAllDigits :: "string \<Rightarrow> bool" where
  "isAllDigits v \<longleftrightarrow> v \<noteq> [] \<and> list_all (\<lambda>c. \<not> (c < CHR ''0'' \<or> CHR ''9'' < c)) v"

definition LONG_MAX :: int where "LONG_MAX = 9223372036854775807"

text \<open>\<open>std::strtol\<close> on text that starts with a digit: the value and the unread rest.\<close>

definition strtol10 :: "string \<Rightarrow> int \<times> string" where
  "strtol10 v = (min LONG_MAX (int (dec_value (takeWhile is_digit v))), dropWhile is_digit v)"

definition parsePort :: "string \<Rightarrow> int option" where
  "parsePort v =
     (if \<not> isAllDigits v then None
      else (case strtol10 v of (parsed, rest) \<Rightarrow>
              if rest \<noteq> [] then None
              else if parsed < 1 \<or> 65535 < parsed then None
              else Some parsed))"

definition parse_arguments :: "string list \<Rightarrow> string option \<Rightarrow> (int \<times> string) option" where
  "parse_arguments args env =
     (if length args \<noteq> 1 \<and> length args \<noteq> 2 then None
      else (case parsePort (args ! 0) of
              None \<Rightarrow> None
            | Some port \<Rightarrow>
                let password = (if length args = 2 then args ! 1
                                else (case env of Some p \<Rightarrow> p | None \<Rightarrow> []))
                in if password = [] then None else Some (port, password)))"

definition server_main ::
    "string list \<Rightarrow> string option \<Rightarrow> string option \<Rightarrow> setup_env \<Rightarrow> tick list \<Rightarrow> int \<times> server option" where
  "server_main args env start e tks =
     (case parse_arguments args env of
        None \<Rightarrow> (1, None)
      | Some (port, password) \<Rightarrow>
          (case run e tks (new_server port password start) of
             Inl (msg, s) \<Rightarrow> (1, Some (destroy s))
           | Inr s \<Rightarrow> (0, Some (destroy s))))"

lemma isAllDigits_iff: "isAllDigits v \<longleftrightarrow> v \<noteq> [] \<and> (\<forall>c \<in> set v. is_digit c)"
  by (auto simp: isAllDigits_def list_all_iff is_digit_def not_less)

lemma parsePort_iff:
  "parsePort v = Some p \<longleftrightarrow>
     v \<noteq> [] \<and> (\<forall>c \<in> set v. is_digit c) \<and> 1 \<le> dec_value v \<and> dec_value v \<le> 65535 \<and> p = int (dec_value v)"
proof (cases "v \<noteq> [] \<and> (\<forall>c \<in> set v. is_digit c)")
  case True
  then have t: "takeWhile is_digit v = v" and d: "dropWhile is_digit v = []"
    by (simp_all add: takeWhile_eq_all_conv dropWhile_eq_Nil_conv)
  have "strtol10 v = (min LONG_MAX (int (dec_value v)), [])" unfolding strtol10_def t d ..
  with True show ?thesis
    by (auto simp: parsePort_def isAllDigits_iff LONG_MAX_def min_def)
qed (auto simp: parsePort_def isAllDigits_iff)

lemma parsePort_show: "1 \<le> n \<Longrightarrow> n \<le> 65535 \<Longrightarrow> parsePort (show_nat n) = Some (int n)"
  by (simp add: parsePort_iff show_nat_digits)

lemma parse_arguments_password: "parse_arguments args env = Some (port, pw) \<Longrightarrow> pw \<noteq> []"
  by (auto simp: parse_arguments_def Let_def split: if_splits option.splits)

lemma server_main_account:
  assumes "\<And>tk. tk \<in> set tks \<Longrightarrow> accept_ok (se_socket e) tk"
    and "server_main args env start e tks = (code, Some s)"
  shows "count_list (sv_opened s) fd = count_list (sv_closed s) fd"
proof -
  obtain port pw where "s = destroy (outcome_state (run e tks (new_server port pw start)))"
  proof (cases "parse_arguments args env")
    case (Some a)
    then show thesis
      using assms(2) that [of "fst a" "snd a"]
      by (cases a; cases "run e tks (new_server (fst a) (snd a) start)") (auto simp: server_main_def)
  qed (use assms(2) in \<open>simp add: server_main_def\<close>)
  with run_account [OF assms(1)] show ?thesis by (simp add: destroy_account)
qed

end
