(* ===== verification/Irc_Scenario.thy ===== *)
theory Irc_Scenario
  imports Irc_Access Irc_Pending Irc_Main
begin

section \<open>Example states\<close>

text \<open>
  Two small states on which the hypotheses of the properties are met: \<open>demo\<close>, with a channel
  of two members, one registered client outside it and one connection that has sent
  nothing, and \<open>just_connected\<close>, which a running server reaches by accepting a client.
\<close>

definition alice :: client where
  "alice = (new_client 4 ''10.0.0.4'')\<lparr>cl_nickname := ''alice'', cl_username := ''a'', cl_realname := ''A'',
     cl_passwordAccepted := True, cl_userReceived := True, cl_registered := True,
     cl_joinedChannels := {|''#a''|}\<rparr>"

definition bob :: client where
  "bob = (new_client 5 ''10.0.0.5'')\<lparr>cl_nickname := ''bob'', cl_username := ''b'', cl_realname := ''B'',
     cl_passwordAccepted := True, cl_userReceived := True, cl_registered := True,
     cl_joinedChannels := {|''#a''|}\<rparr>"

definition carol :: client where
  "carol = (new_client 6 ''10.0.0.6'')\<lparr>cl_nickname := ''carol'', cl_username := ''c'', cl_realname := ''C'',
     cl_passwordAccepted := True, cl_userReceived := True, cl_registered := True\<rparr>"

definition dave :: client where
  "dave = new_client 7 ''10.0.0.7''"

definition chan_a :: channel where
  "chan_a = (new_channel ''#a'' ''#a'')\<lparr>ch_members := {|4, 5|}, ch_operators := {|4|}\<rparr>"

definition demo :: server where
  "demo = (new_server 6667 ''pw'' None)\<lparr>
     sv_clients := [4 \<mapsto> alice, 5 \<mapsto> bob, 6 \<mapsto> carol, 7 \<mapsto> dave],
     sv_channels := [''#a'' \<mapsto> chan_a],
     sv_nickToFd := [''alice'' \<mapsto> 4, ''bob'' \<mapsto> 5, ''carol'' \<mapsto> 6]\<rparr>"

lemmas people = alice_def bob_def carol_def dave_def new_client_def

lemma demo_names [simp]:
  "ircCaseFold ''alice'' = ''alice''" "ircCaseFold ''bob'' = ''bob''"
  "ircCaseFold ''carol'' = ''carol''" "ircCaseFold ''robert'' = ''robert''"
  "normalizeChannelName ''#a'' = ''#a''" "normalizeChannelName ''#b'' = ''#b''"
  "isValidNickname ''alice''" "isValidNickname ''bob''" "isValidNickname ''carol''"
  "isValidNickname ''robert''" "isValidChannelName ''#a''" "isValidChannelName ''#b''"
  by code_simp+

lemma demo_clients [simp]:
  "sv_clients demo 4 = Some alice" "sv_clients demo 5 = Some bob" "sv_clients demo 6 = Some carol"
  "sv_clients demo 7 = Some dave" "sv_nickToFd demo ''bob'' = Some 5"
  "findChannel ''#a'' demo = Some chan_a" "findChannel ''#b'' demo = None"
  "sv_channels demo ''#a'' = Some chan_a" "sv_password demo = ''pw''"
  "sv_disconnectReasons demo = Map.empty"
  by (simp_all add: demo_def findChannel_def new_server_def)

lemma demo_fields [simp]:
  "cl_registered alice" "cl_registered bob" "cl_registered carol" "\<not> cl_registered dave"
  "cl_joinedChannels alice = {|''#a''|}" "cl_joinedChannels bob = {|''#a''|}"
  "cl_joinedChannels carol = {||}" "cl_joinedChannels dave = {||}"
  "cl_fd alice = 4" "cl_fd bob = 5" "cl_nickname alice = ''alice''" "cl_nickname bob = ''bob''"
  "ch_members chan_a = {|4, 5|}" "ch_operators chan_a = {|4|}" "ch_topicRestricted chan_a"
  "ch_name chan_a = ''#a''" "ch_keyName chan_a = ''#a''" "\<not> ch_inviteOnly chan_a"
  "\<not> ch_keyEnabled chan_a" "\<not> ch_limitEnabled chan_a" "cl_sendBuffer bob = []"
  by (simp_all add: people chan_a_def new_channel_def)

lemma wf_people: "wf_client alice" "wf_client bob" "wf_client carol" "wf_client dave"
  by (simp_all add: wf_client_def valid_username_def people)

lemma wf_chan_a: "wf_channel chan_a"
  by (simp add: wf_channel_def chan_a_def new_channel_def)

lemma wf_demo [simp]: "wf_server demo"
proof -
  have cl: "sv_clients demo = [4 \<mapsto> alice, 5 \<mapsto> bob, 6 \<mapsto> carol, 7 \<mapsto> dave]"
    and ch: "sv_channels demo = [''#a'' \<mapsto> chan_a]"
    and ix: "sv_nickToFd demo = [''alice'' \<mapsto> 4, ''bob'' \<mapsto> 5, ''carol'' \<mapsto> 6]"
    by (simp_all add: demo_def new_server_def)
  have "clients_ok demo"
    using wf_people by (auto simp: clients_ok_def cl people split: if_splits)
  moreover have "channels_ok demo"
    using wf_chan_a by (simp add: channels_ok_def ch cl chan_a_def new_channel_def)
  moreover have "membership_ok demo"
    by (auto simp: membership_ok_def member_of_def joined_of_def cl ch)
  moreover have "nicks_ok demo"
    by (auto simp: nicks_ok_def nick_of_def cl ix people split: if_splits)
  ultimately show ?thesis by (simp add: wf_server_def demo_def new_server_def)
qed

lemma demo_byNick [simp]: "findClientByNickname ''bob'' demo = Some bob"
  by (simp add: findClientByNickname_def findClientByFd_def)

text \<open>A server that has accepted one client.\<close>

definition accept_tick :: tick where
  "accept_tick = \<lparr>tk_stopBefore = False, tk_ready = 1, tk_stopAfter = False,
     tk_revents = (\<lambda>_. {POLLIN}), tk_recv = (\<lambda>_. RecvError), tk_send = (\<lambda>_. 0),
     tk_accept = \<lparr>ac_fd = 4, ac_fcntl = 0, ac_ip = Some ''10.0.0.4''\<rparr>\<rparr>"

definition just_connected :: server where
  "just_connected = (listening 3 6667 ''pw'' None)\<lparr>
     sv_clients := [4 \<mapsto> new_client 4 ''10.0.0.4''], sv_opened := [3, 4],
     sv_pollFds := [\<lparr>pf_fd = 3, pf_events = {POLLIN}, pf_revents = {POLLIN}\<rparr>,
       \<lparr>pf_fd = 4, pf_events = {POLLIN}, pf_revents = {}\<rparr>]\<rparr>"

lemma round_just_connected: "poll_round accept_tick (listening 3 6667 ''pw'' None) = Inr just_connected"
  by (simp add: poll_round_def poll_write_def accept_tick_def listening_def new_server_def
      handleListenEvent_def acceptClient_def addClient_def addClientPollFd_def just_connected_def
      processPendingDisconnects_def sorted_list_of_fset.rep_eq Let_def)

lemma serving_just_connected [simp]: "serving just_connected"
proof (rule serving_round)
  have "setupListeningSocket \<lparr>se_socket = 3, se_fcntl = 0, se_bind = 0, se_listen = 0\<rparr>
      (new_server 6667 ''pw'' None) = Inr (listening 3 6667 ''pw'' None)"
    by (simp add: setup_listening)
  then show "serving (listening 3 6667 ''pw'' None)" by (rule serving_start)
  show "sv_running (listening 3 6667 ''pw'' None)" by (simp add: listening_def new_server_def)
  show "accept_ok (sv_listenFd (listening 3 6667 ''pw'' None)) accept_tick"
    by (simp add: accept_ok_def accept_tick_def listening_def)
qed (rule round_just_connected)

lemma just_connected_client [simp]: "sv_clients just_connected 4 = Some (new_client 4 ''10.0.0.4'')"
  by (simp add: just_connected_def)

end
