(* ===== verification/Irc_ModeReplay.thy ===== *)
theory Irc_ModeReplay
  imports Irc_Effects
begin

section \<open>The MODE notification describes the change\<close>

text \<open>
  A specification of MODE that is independent of the scan: \<open>replay\<close> reads the mode string
  and the parameters of a MODE notification from left to right and applies them to a
  channel, as a client that receives the notification would. The lemmas show that replaying
  what \<open>handleMode\<close> announces on the channel before the command gives the channel after it.
\<close>

definition replay_char :: "(string \<Rightarrow> int option) \<Rightarrow> char \<Rightarrow> bool \<times> string list \<times> channel
    \<Rightarrow> bool \<times> string list \<times> channel" where
  "replay_char look c st =
     (case st of (adding, ps, ch) \<Rightarrow>
        if c = CHR ''+'' then (True, ps, ch)
        else if c = CHR ''-'' then (False, ps, ch)
        else if c = CHR ''i'' then (adding, ps, setInviteOnly adding ch)
        else if c = CHR ''t'' then (adding, ps, setTopicRestricted adding ch)
        else if c = CHR ''k''
        then (if adding then (adding, tl ps, setChannelKey (hd ps) ch)
              else (adding, ps, clearChannelKey ch))
        else if c = CHR ''l''
        then (if adding
              then (adding, tl ps, (case parsePositiveSize (hd ps) of
                                      Some n \<Rightarrow> setUserLimit n ch | None \<Rightarrow> ch))
              else (adding, ps, clearUserLimit ch))
        else if c = CHR ''o''
        then (adding, tl ps, (case look (hd ps) of
                                None \<Rightarrow> ch
                              | Some g \<Rightarrow> snd (if adding then addOperator g ch else removeOperator g ch)))
        else (adding, ps, ch))"

definition replay :: "(string \<Rightarrow> int option) \<Rightarrow> string \<Rightarrow> string list \<Rightarrow> channel \<Rightarrow> channel" where
  "replay look modes ps ch = snd (snd (fold (replay_char look) modes (True, ps, ch)))"

text \<open>What has been announced so far takes the channel at the start to the current one.\<close>

definition announced :: "(string \<Rightarrow> int option) \<Rightarrow> channel \<Rightarrow> mode_scan \<Rightarrow> channel \<Rightarrow> bool" where
  "announced look ch0 sc ch \<longleftrightarrow>
     (\<exists>sgn_now. (\<forall>rest. fold (replay_char look) (ms_changedModes sc) (True, ms_changedParams sc @ rest, ch0)
                 = (sgn_now, rest, ch))
       \<and> (ms_lastSign sc = CHR ''+'' \<longrightarrow> sgn_now) \<and> (ms_lastSign sc = CHR ''-'' \<longrightarrow> \<not> sgn_now))"

lemma announced_initial: "announced look ch initial_scan ch"
  unfolding announced_def initial_scan_def by (intro exI [of _ True]) simp

lemma announced_replay:
  "announced look ch0 sc ch \<Longrightarrow> replay look (ms_changedModes sc) (ms_changedParams sc) ch0 = ch"
  unfolding announced_def replay_def by (metis append_Nil2 snd_conv)

lemma announced_cong:
  "ms_changedModes sc' = ms_changedModes sc \<Longrightarrow> ms_changedParams sc' = ms_changedParams sc \<Longrightarrow>
     ms_lastSign sc' = ms_lastSign sc \<Longrightarrow> announced look ch0 sc' ch = announced look ch0 sc ch"
  by (simp add: announced_def)

text \<open>One announced mode character, with the parameters \<open>q\<close> pushed for it.\<close>

lemma announced_append:
  assumes a: "announced look ch0 sc ch"
    and step: "\<And>rest. replay_char look c (adding, q @ rest, ch) = (adding, rest, ch')"
    and sc': "ms_changedModes sc' = ms_changedModes (appendChangedMode adding c sc)"
      "ms_changedParams sc' = ms_changedParams sc @ q"
      "ms_lastSign sc' = ms_lastSign (appendChangedMode adding c sc)"
  shows "announced look ch0 sc' ch'"
proof -
  let ?sg = "if adding then CHR ''+'' else CHR ''-''"
  from a obtain sg where
    f: "\<And>rest. fold (replay_char look) (ms_changedModes sc) (True, ms_changedParams sc @ rest, ch0) = (sg, rest, ch)"
    and s: "ms_lastSign sc = CHR ''+'' \<longrightarrow> sg" "ms_lastSign sc = CHR ''-'' \<longrightarrow> \<not> sg"
    by (auto simp: announced_def)
  have sign: "replay_char look ?sg (sg, ps, ch) = (adding, ps, ch)" for ps
    by (simp add: replay_char_def)
  have same: "ms_lastSign sc = ?sg \<Longrightarrow> sg = adding" using s by (cases adding) auto
  have ls: "ms_lastSign sc' = ?sg" by (simp add: sc'(3) appendChangedMode_def Let_def)
  have "fold (replay_char look) (ms_changedModes sc') (True, ms_changedParams sc' @ rest, ch0)
      = (adding, rest, ch')" for rest
  proof (cases "ms_lastSign sc = ?sg")
    case True
    then have "ms_changedModes sc' = ms_changedModes sc @ [c]"
      by (simp add: sc'(1) appendChangedMode_def Let_def)
    with same [OF True] show ?thesis by (simp add: sc'(2) f step)
  next
    case False
    then have "ms_changedModes sc' = ms_changedModes sc @ [?sg, c]"
      by (simp add: sc'(1) appendChangedMode_def Let_def)
    then show ?thesis by (simp add: sc'(2) f sign step del: if_split_asm split del: if_split)
  qed
  then show ?thesis using ls unfolding announced_def by (intro exI [of _ adding]) auto
qed

subsection \<open>One character of the scan\<close>

text \<open>What the scan keeps besides: all other clients and channels, the index, the names.\<close>

definition scan_ok :: "int \<Rightarrow> string \<Rightarrow> client \<Rightarrow> channel \<Rightarrow> server \<Rightarrow> mode_scan \<times> server \<Rightarrow> bool" where
  "scan_ok fd key c0 ch0 s0 st \<longleftrightarrow>
     (case st of (sc, s) \<Rightarrow>
        wf_server s \<and> sv_nickToFd s = sv_nickToFd s0
        \<and> (\<forall>g. g \<noteq> fd \<longrightarrow> sv_clients s g = sv_clients s0 g)
        \<and> (\<exists>b. sv_clients s fd = Some (c0\<lparr>cl_sendBuffer := b\<rparr>))
        \<and> (\<exists>ch. sv_channels s = (sv_channels s0)(key \<mapsto> ch) \<and> ch_members ch = ch_members ch0
               \<and> ch_name ch = ch_name ch0
               \<and> announced (\<lambda>n. sv_nickToFd s0 (ircCaseFold n)) ch0 sc ch))"

text \<open>A reply to the operator does not matter.\<close>

lemma scan_ok_numeric:
  assumes "scan_ok fd key c0 ch0 s0 (sc, s)"
    and "ms_changedModes sc' = ms_changedModes sc" "ms_changedParams sc' = ms_changedParams sc"
      "ms_lastSign sc' = ms_lastSign sc"
    and "s' = s \<or> (\<exists>code ps. s' = queueNumeric fd code ps s)"
  shows "scan_ok fd key c0 ch0 s0 (sc', s')"
proof -
  have f: "same_frame s s'" using assms(5) by auto
  from assms(1) obtain b where b: "sv_clients s fd = Some (c0\<lparr>cl_sendBuffer := b\<rparr>)"
    by (auto simp: scan_ok_def)
  obtain b' where "sv_clients s' fd = Some (c0\<lparr>cl_sendBuffer := b'\<rparr>)"
    using same_frame_client' [OF f b] by auto
  moreover have "g \<noteq> fd \<Longrightarrow> sv_clients s' g = sv_clients s g" for g
    using assms(5) by (auto simp: queueNumeric_def queueToClient_clients split: option.split)
  moreover have "wf_server s'" using assms(1) f by (auto simp: scan_ok_def intro: wf_same_frame)
  ultimately show ?thesis
    using assms(1) same_frame_fields(1,2) [OF f] announced_cong [OF assms(2-4)]
    by (simp add: scan_ok_def) blast
qed

text \<open>An announced change of the channel.\<close>

lemma scan_ok_change:
  assumes ok: "scan_ok fd key c0 ch0 s0 (sc, s)" and ch: "sv_channels s key = Some ch"
    and f: "f \<in> mode_changes"
    and a: "announced (\<lambda>n. sv_nickToFd s0 (ircCaseFold n)) ch0 sc ch \<Longrightarrow>
      announced (\<lambda>n. sv_nickToFd s0 (ircCaseFold n)) ch0 sc' (f ch)"
  shows "scan_ok fd key c0 ch0 s0 (sc', updChannel key f s)"
proof -
  have "wf_server (updChannel key f s)" using ok f by (simp add: scan_ok_def wf_mode_change)
  then show ?thesis
    using ok ch a mode_change_facts(2,3) [OF f, of ch]
    by (auto simp: scan_ok_def updChannel_channels)
qed

lemma scan_fields [simp]:
  "ms_changedModes (nextArg sc) = ms_changedModes sc" "ms_changedParams (nextArg sc) = ms_changedParams sc"
  "ms_lastSign (nextArg sc) = ms_lastSign sc" "ms_adding (nextArg sc) = ms_adding sc"
  "ms_changedModes (pushChangedParam p sc) = ms_changedModes sc"
  "ms_changedParams (pushChangedParam p sc) = ms_changedParams sc @ [p]"
  "ms_lastSign (pushChangedParam p sc) = ms_lastSign sc"
  "ms_changedParams (appendChangedMode adding c sc) = ms_changedParams sc"
  by (simp_all add: nextArg_def pushChangedParam_def appendChangedMode_def Let_def)

lemma append_next [simp]:
  "ms_changedModes (appendChangedMode adding c (nextArg sc)) = ms_changedModes (appendChangedMode adding c sc)"
  "ms_lastSign (appendChangedMode adding c (nextArg sc)) = ms_lastSign (appendChangedMode adding c sc)"
  by (simp_all add: nextArg_def appendChangedMode_def Let_def)

lemma scan_ok_announce:
  assumes ok: "scan_ok fd key c0 ch0 s0 (sc, s)" and ch: "sv_channels s key = Some ch"
    and f: "f \<in> mode_changes"
    and step: "\<And>rest. replay_char (\<lambda>n. sv_nickToFd s0 (ircCaseFold n)) c (adding, q @ rest, ch)
      = (adding, rest, f ch)"
    and sc': "ms_changedModes sc' = ms_changedModes (appendChangedMode adding c sc)"
      "ms_changedParams sc' = ms_changedParams sc @ q"
      "ms_lastSign sc' = ms_lastSign (appendChangedMode adding c sc)"
  shows "scan_ok fd key c0 ch0 s0 (sc', updChannel key f s)"
  by (rule scan_ok_change [OF ok ch f]) (rule announced_append [OF _ step sc'])

lemma scan_ok_I_T:
  assumes ok: "scan_ok fd key c0 ch0 s0 (sc, s)" and ch: "sv_channels s key = Some ch"
  shows "scan_ok fd key c0 ch0 s0 (modeI key ch (sc, s))" and "scan_ok fd key c0 ch0 s0 (modeT key ch (sc, s))"
proof -
  have "scan_ok fd key c0 ch0 s0 (appendChangedMode a (CHR ''i'') sc, updChannel key (setInviteOnly a) s)"
    and "scan_ok fd key c0 ch0 s0 (appendChangedMode a (CHR ''t'') sc, updChannel key (setTopicRestricted a) s)"
    for a
    by (rule scan_ok_announce [OF ok ch, where q = "[]" and adding = a],
        auto simp: replay_char_def)+
  with ok show "scan_ok fd key c0 ch0 s0 (modeI key ch (sc, s))"
    and "scan_ok fd key c0 ch0 s0 (modeT key ch (sc, s))"
    by (simp_all add: modeI_def modeT_def)
qed

text \<open>A 461 or no reply, with the argument consumed or not.\<close>

lemma scan_ok_quiet:
  assumes ok: "scan_ok fd key c0 ch0 s0 (sc, s)"
  shows "scan_ok fd key c0 ch0 s0 (nextArg sc, s)" and "scan_ok fd key c0 ch0 s0 (sc, needMoreParams fd msg s)"
    and "scan_ok fd key c0 ch0 s0 (nextArg sc, queueNumeric fd code ps s)"
    and "scan_ok fd key c0 ch0 s0 (sc, unknownMode fd c ch s)"
    and "scan_ok fd key c0 ch0 s0 (sc\<lparr>ms_adding := a, ms_signSeen := b\<rparr>, s)"
  by (rule scan_ok_numeric [OF ok]; auto simp: needMoreParams_def unknownMode_def)+

lemma scan_ok_K:
  assumes ok: "scan_ok fd key c0 ch0 s0 (sc, s)" and ch: "sv_channels s key = Some ch"
  shows "scan_ok fd key c0 ch0 s0 (modeK fd msg key ch (sc, s))"
proof -
  have "scan_ok fd key c0 ch0 s0 (nextArg (pushChangedParam arg (appendChangedMode True (CHR ''k'') sc)),
      updChannel key (setChannelKey arg) s)" if "isValidChannelKey arg" for arg
    by (rule scan_ok_announce [OF ok ch, where q = "[arg]" and adding = True])
      (use that in \<open>auto simp: replay_char_def\<close>)
  moreover have "scan_ok fd key c0 ch0 s0 (appendChangedMode False (CHR ''k'') sc, updChannel key clearChannelKey s)"
    by (rule scan_ok_announce [OF ok ch, where q = "[]" and adding = False]) (auto simp: replay_char_def)
  ultimately show ?thesis
    using ok scan_ok_quiet [OF ok] by (simp add: modeK_def Let_def)
qed

lemma scan_ok_L:
  assumes ok: "scan_ok fd key c0 ch0 s0 (sc, s)" and ch: "sv_channels s key = Some ch"
  shows "scan_ok fd key c0 ch0 s0 (modeL fd msg key ch (sc, s))"
proof -
  have "scan_ok fd key c0 ch0 s0 (pushChangedParam arg (appendChangedMode True (CHR ''l'') (nextArg sc)),
      updChannel key (setUserLimit n) s)" if "parsePositiveSize arg = Some n" for arg n
    by (rule scan_ok_announce [OF ok ch, where q = "[arg]" and adding = True])
      (use that in \<open>auto simp: replay_char_def\<close>)
  moreover have "scan_ok fd key c0 ch0 s0 (appendChangedMode False (CHR ''l'') sc, updChannel key clearUserLimit s)"
    by (rule scan_ok_announce [OF ok ch, where q = "[]" and adding = False]) (auto simp: replay_char_def)
  ultimately show ?thesis
    using ok scan_ok_quiet [OF ok] by (auto simp: modeL_def Let_def split: option.split)
qed

lemma operator_unchanged:
  "hasMember g ch \<Longrightarrow> \<not> fst (addOperator g ch) \<Longrightarrow> snd (addOperator g ch) = ch"
  "\<not> fst (removeOperator g ch) \<Longrightarrow> snd (removeOperator g ch) = ch"
proof -
  have "ch_operators ch |-| {|g|} = ch_operators ch" if "g |\<notin>| ch_operators ch"
    using that by auto
  then show "\<not> fst (removeOperator g ch) \<Longrightarrow> snd (removeOperator g ch) = ch"
    by (simp add: removeOperator_def)
qed (auto simp: addOperator_def finsert_absorb)

lemma scan_ok_O:
  assumes ok: "scan_ok fd key c0 ch0 s0 (sc, s)" and ch: "sv_channels s key = Some ch"
  shows "scan_ok fd key c0 ch0 s0 (modeO fd msg key ch (sc, s))"
proof (cases "length (msg_params msg) \<le> ms_argIndex sc")
  case True
  with scan_ok_quiet(2) [OF ok] show ?thesis by (simp add: modeO_def)
next
  case False
  let ?nick = "msg_params msg ! ms_argIndex sc"
  show ?thesis
  proof (cases "findClientByNickname ?nick s")
    case None
    with False scan_ok_quiet(3) [OF ok] show ?thesis by (simp add: modeO_def Let_def)
  next
    case (Some t)
    show ?thesis
    proof (cases "hasMember (cl_fd t) ch")
      case False
      with Some \<open>\<not> length (msg_params msg) \<le> ms_argIndex sc\<close> scan_ok_quiet(3) [OF ok]
      show ?thesis by (simp add: modeO_def Let_def)
    next
      case True
      define op where "op = (if ms_adding sc then addOperator (cl_fd t) else removeOperator (cl_fd t))"
      have wf: "wf_server s" and ix: "sv_nickToFd s = sv_nickToFd s0" using ok by (simp_all add: scan_ok_def)
      have look: "sv_nickToFd s0 (ircCaseFold (cl_nickname t)) = Some (cl_fd t)"
        using wf_findByNick [OF wf Some] wf_nick [OF wf, of "ircCaseFold (cl_nickname t)" "cl_fd t"] ix
        by (auto simp: nick_of_def)
      have m: "(\<lambda>ch. snd (op ch)) \<in> mode_changes" by (auto simp: op_def)
      have eq: "modeO fd msg key ch (sc, s) =
        (if fst (op ch) then (pushChangedParam (cl_nickname t) (appendChangedMode (ms_adding sc) (CHR ''o'') (nextArg sc)))
         else nextArg sc, updChannel key (\<lambda>ch. snd (op ch)) s)"
        using False Some True by (simp add: modeO_def Let_def op_def)
      show ?thesis
      proof (cases "fst (op ch)")
        case True
        have "scan_ok fd key c0 ch0 s0
          (pushChangedParam (cl_nickname t) (appendChangedMode (ms_adding sc) (CHR ''o'') (nextArg sc)),
           updChannel key (\<lambda>ch. snd (op ch)) s)"
          by (rule scan_ok_announce [OF ok ch m, where q = "[cl_nickname t]" and adding = "ms_adding sc"])
            (auto simp: replay_char_def look op_def)
        with True show ?thesis by (simp add: eq)
      next
        case False
        then have "snd (op ch) = ch"
          using operator_unchanged [of "cl_fd t" ch] \<open>hasMember (cl_fd t) ch\<close>
          by (simp add: op_def split: if_splits)
        with scan_ok_change [OF ok ch m, of "nextArg sc"] False show ?thesis
          by (simp add: eq announced_def)
      qed
    qed
  qed
qed

lemma scan_ok_char:
  assumes "scan_ok fd key c0 ch0 s0 st"
  shows "scan_ok fd key c0 ch0 s0 (modeChar fd msg key c st)"
proof (cases st)
  case (Pair sc s)
  with assms obtain ch where ch: "sv_channels s key = Some ch" by (auto simp: scan_ok_def)
  have ok: "scan_ok fd key c0 ch0 s0 (sc, s)" using assms Pair by simp
  note rules = scan_ok_quiet [OF ok] scan_ok_I_T [OF ok ch] scan_ok_K [OF ok ch] scan_ok_O [OF ok ch]
    scan_ok_L [OF ok ch]
  show ?thesis using ok ch by (simp add: Pair modeChar_def rules)
qed

lemma scan_ok_scan:
  assumes "wf_server s" and "sv_clients s fd = Some c" and "sv_channels s key = Some ch"
  shows "scan_ok fd key c ch s (modeScan fd msg key s)"
  unfolding modeScan_def
proof (rule fold_keeps)
  have "sv_clients s fd = Some (c\<lparr>cl_sendBuffer := cl_sendBuffer c\<rparr>)" using assms(2) by simp
  moreover have "sv_channels s = (sv_channels s)(key \<mapsto> ch)" using assms(3) by (simp add: fun_upd_idem)
  ultimately show "scan_ok fd key c ch s (initial_scan, s)"
    using assms(1) announced_initial unfolding scan_ok_def by blast
qed (rule scan_ok_char)

subsection \<open>The whole command\<close>

definition mode_notice :: "client \<Rightarrow> channel \<Rightarrow> string \<Rightarrow> string list \<Rightarrow> string" where
  "mode_notice c ch modes ps =
     reply_command (clientPrefix c) ''MODE'' (ch_name ch @ '' '' @ modes @ concat (map (\<lambda>p. '' '' @ p) ps))"

lemma fold_params: "fold (\<lambda>p acc. acc @ SP # p) ps acc = acc @ concat (map ((#) SP) ps)"
  by (induction ps arbitrary: acc) auto

lemma foldChar_hash: "foldChar c = foldChar (CHR ''#'') \<longleftrightarrow> c = CHR ''#''"
proof -
  have "foldChar (CHR ''#'') = CHR ''#''" by code_simp
  moreover have "foldChar c = CHR ''#'' \<Longrightarrow> c = CHR ''#''"
    by (auto simp: foldChar_def char_simps char_of_eq_char split: if_splits)
  ultimately show ?thesis by auto
qed

lemma handleMode_effect:
  assumes wf: "wf_server s" and c: "sv_clients s fd = Some c"
    and ps: "msg_params msg = name # modestr # rest" and ch: "findChannel name s = Some ch"
    and op: "isOperator fd ch"
  shows "\<exists>modes ps.
     sv_channels (handleMode fd msg s)
       = (sv_channels s)(ch_keyName ch \<mapsto> replay (\<lambda>n. sv_nickToFd s (ircCaseFold n)) modes ps ch)
     \<and> (\<forall>g. g \<noteq> fd \<longrightarrow> sv_clients (handleMode fd msg s) g =
           (if modes \<noteq> [] \<and> g |\<in>| ch_members ch
            then map_option (push_line (mode_notice c ch modes ps)) (sv_clients s g)
            else sv_clients s g))"
proof -
  note f = wf_findChannel [OF wf ch]
  let ?k = "normalizeChannelName name"
  have m: "hasMember fd ch" using op f(3) by (auto simp: isOperator_def hasMember_def wf_channel_def)
  have "ch_name ch \<noteq> []" "hd (ch_name ch) = CHR ''#''" using f(3)
    by (cases "ch_name ch"; auto simp: wf_channel_def isValidChannelName_def)+
  moreover have "ircCaseFold (ch_name ch) = ircCaseFold name"
    using f(1,3) by (simp add: wf_channel_def normalizeChannelName_def)
  ultimately have tgt: "name \<noteq> [] \<and> name ! 0 = CHR ''#''"
    using foldChar_hash by (cases name; cases "ch_name ch") (auto simp: ircCaseFold_def)
  obtain sc s1 where scan: "modeScan fd msg ?k s = (sc, s1)" by fastforce
  have eq: "handleMode fd msg s = modeNotify fd ?k (sc, s1)"
    using c ps ch op m tgt scan
    by (simp add: handleMode_def findClientByFd_def requireParams_def requireChannelMember_def
        requireChannelOperator_def Let_def)
  have ok: "scan_ok fd ?k c ch s (sc, s1)" using scan_ok_scan [OF wf c f(2), of msg] scan by simp
  then obtain ch1 b where ch1: "sv_channels s1 = (sv_channels s)(?k \<mapsto> ch1)" "ch_members ch1 = ch_members ch"
      "ch_name ch1 = ch_name ch" "announced (\<lambda>n. sv_nickToFd s (ircCaseFold n)) ch sc ch1"
    and b: "sv_clients s1 fd = Some (c\<lparr>cl_sendBuffer := b\<rparr>)"
    and oth: "\<And>g. g \<noteq> fd \<Longrightarrow> sv_clients s1 g = sv_clients s g" and wf1: "wf_server s1"
    unfolding scan_ok_def by auto
  have r: "ch1 = replay (\<lambda>n. sv_nickToFd s (ircCaseFold n)) (ms_changedModes sc) (ms_changedParams sc) ch"
    using announced_replay [OF ch1(4)] by simp
  have pre: "clientPrefix (c\<lparr>cl_sendBuffer := b\<rparr>) = clientPrefix c" by (simp add: clientPrefix_def)
  have fc1: "findChannel ?k s1 = Some ch1" by (simp add: findChannel_def ch1(1))
  have not1: "handleMode fd msg s = (if ms_changedModes sc = [] then s1
      else broadcastToChannel ch1 (mode_notice c ch (ms_changedModes sc) (ms_changedParams sc)) (- 1) s1)"
    using b ch1 by (simp add: eq modeNotify_def findClientByFd_def Let_def fold_params mode_notice_def pre)
  show ?thesis
    by (rule exI [of _ "ms_changedModes sc"], rule exI [of _ "ms_changedParams sc"])
      (simp add: not1 ch1 oth broadcast_all [OF wf1 fc1] f(1) r [symmetric])
qed

end
