(* ===== verification/Irc_Identity.thy ===== *)
theory Irc_Identity
  imports Irc_Rounds
begin

section \<open>Who changes a client's identity\<close>

text \<open>
  Outside PASS, NICK and USER no command changes anything of a client but its send buffer
  and the channels it has joined. \<open>client_view\<close> states this for an arbitrary view of a
  client that ignores these two; its instance for the registration data gives that a session
  is registered as soon as it has presented password, nickname and user name.
\<close>

definition viewed :: "(client \<Rightarrow> 'a) \<Rightarrow> server \<Rightarrow> server \<Rightarrow> bool" where
  "viewed p s s' \<longleftrightarrow> (\<forall>fd. map_option p (sv_clients s' fd) = map_option p (sv_clients s fd))"

locale client_view =
  fixes p :: "client \<Rightarrow> 'a"
  assumes p_send: "p (c\<lparr>cl_sendBuffer := b\<rparr>) = p c"
    and p_joined: "p (c\<lparr>cl_joinedChannels := j\<rparr>) = p c"
begin

lemma V_refl [simp]: "viewed p s s"
  by (simp add: viewed_def)

lemma V_same_frame:
  assumes "viewed p s t" and f: "same_frame t u"
  shows "viewed p s u"
  unfolding viewed_def
proof
  fix fd
  have "map_option p (sv_clients u fd) = map_option p (sv_clients t fd)"
  proof (cases "sv_clients u fd")
    case None
    then have "fd \<notin> dom (sv_clients t)" using same_frame_fields(11) [OF f] by blast
    with None show ?thesis by (simp add: domIff)
  next
    case (Some c')
    then obtain c where "sv_clients t fd = Some c" and "c' = c\<lparr>cl_sendBuffer := cl_sendBuffer c'\<rparr>"
      by (rule same_frame_client [OF f])
    moreover from this(2) have "p c' = p c" using p_send by metis
    ultimately show ?thesis using Some by simp
  qed
  with assms(1) show "map_option p (sv_clients u fd) = map_option p (sv_clients s fd)"
    by (simp add: viewed_def)
qed

lemma V_output:
  assumes "viewed p s t"
  shows "viewed p s (queueToClient fd msg t)" and "viewed p s (queueNumeric fd code ps t)"
    and "viewed p s (broadcastToChannel ch msg excl t)" and "viewed p s (broadcastToSharedChannels c msg t)"
    and "viewed p s (sendNoSuchChannel fd name t)" and "viewed p s (scheduleDisconnect fd t)"
    and "viewed p s (snd (requireChannelMember fd ch t))" and "viewed p s (snd (requireChannelOperator fd ch t))"
    and "viewed p s (announceJoin fd key t)"
  by (rule V_same_frame [OF assms], simp)+

lemma V_writes:
  assumes "viewed p s t"
  shows "viewed p s (t\<lparr>sv_channels := chs\<rparr>)" and "viewed p s (t\<lparr>sv_disconnectReasons := rs\<rparr>)"
    and "viewed p s (updChannel key g t)" and "viewed p s (deleteChannelIfEmpty key t)"
    and "viewed p s (updClient fd (\<lambda>c. snd (addJoinedChannel key c)) t)"
    and "viewed p s (updClient fd (\<lambda>c. snd (removeJoinedChannel key c)) t)"
  using assms
  by (auto simp: viewed_def updClient_clients deleteChannelIfEmpty_def addJoinedChannel_def
      removeJoinedChannel_def p_joined option.map_comp o_def split: option.split)

lemma V_leave: "viewed p s t \<Longrightarrow> viewed p s (snd (leaveChannel fd name reason b t))"
  by (simp add: leaveChannel_def Let_def V_output V_writes split: option.split)

lemma V_enter: "viewed p s t \<Longrightarrow> viewed p s (snd (enterChannel fd name created t))"
proof -
  have "viewed p s (snd (joinChannel fd key u))" if "viewed p s u" for key u
    using that by (simp add: joinChannel_def Let_def V_writes split: option.split)
  then show "viewed p s t \<Longrightarrow> ?thesis"
    by (simp add: enterChannel_def Let_def case_prod_beta V_writes)
qed

lemma V_join: "viewed p s t \<Longrightarrow> viewed p s (joinOne fd name key t)"
  by (simp add: joinOne_def Let_def case_prod_beta V_output V_enter split: option.split)

lemma V_fold:
  assumes "viewed p s t" and "\<And>x u. viewed p s u \<Longrightarrow> viewed p s (f x u)"
  shows "viewed p s (fold f xs t)"
  by (rule fold_keeps [where P = "viewed p s"]) (simp_all add: assms)

lemma V_part: "viewed p s t \<Longrightarrow> viewed p s (partOne fd reason name t)"
  by (simp add: partOne_def check_defs Let_def V_output V_leave split: option.split)

lemma V_privmsg: "viewed p s t \<Longrightarrow> viewed p s (privmsgOne fd body target t)"
  by (simp add: privmsgOne_def V_output split: option.split)

lemma V_mode: "viewed p s (snd st) \<Longrightarrow> viewed p s (snd (modeChar fd msg key c st))"
  by (cases st)
    (simp add: modeChar_def modeI_def modeT_def modeK_def modeO_def modeL_def Let_def
      needMoreParams_def unknownMode_def V_output V_writes split: option.split)

lemma V_mode_scan: "viewed p s t \<Longrightarrow> viewed p s (snd (modeScan fd msg key t))"
  unfolding modeScan_def
  by (rule fold_keeps [where P = "\<lambda>st. viewed p s (snd st)"]) (simp_all add: V_mode)

lemma V_mode_notify: "viewed p s (snd st) \<Longrightarrow> viewed p s (modeNotify fd key st)"
  by (cases st) (simp add: modeNotify_def Let_def V_output split: option.split)

lemma V_handlers:
  "viewed p s (handleJoin fd msg s)" "viewed p s (handlePart fd msg s)" "viewed p s (handleKick fd msg s)"
  "viewed p s (handleInvite fd msg s)" "viewed p s (handleTopic fd msg s)" "viewed p s (handleQuit fd msg s)"
  "viewed p s (handlePrivmsg fd msg s)" "viewed p s (handleMode fd msg s)" "viewed p s (handleCap fd msg s)"
  "viewed p s (handlePing fd msg s)" "viewed p s (handlePong fd msg s)"
  by (simp_all add: handleJoin_def handlePart_def handleKick_def handleInvite_def handleTopic_def
      handleQuit_def handlePrivmsg_def handleMode_def modeQuery_def handleCap_def handlePing_def
      handlePong_def check_defs Let_def V_output V_writes V_leave V_join V_fold V_part V_privmsg
      V_mode_scan V_mode_notify split: option.split)

lemma V_dispatch:
  assumes "msg_command msg \<notin> {''PASS'', ''NICK'', ''USER''}"
  shows "viewed p s (dispatchCommand fd msg s)"
proof -
  have "viewed p s (ce_handler e fd msg s)" if "find_entry (msg_command msg) = Some e" for e
  proof -
    from that have "e \<in> set command_table" and "ce_name e = msg_command msg"
      by (auto simp: find_entry_def find_Some_iff)
    with assms V_handlers [of s fd msg] show ?thesis by (auto simp: command_table_def)
  qed
  then show ?thesis by (simp add: dispatchCommand_def V_output split: option.split)
qed

end

subsection \<open>Registration is prompt\<close>

definition complete :: "client \<Rightarrow> bool" where
  "complete c \<longleftrightarrow> cl_passwordAccepted c \<and> cl_nickname c \<noteq> [] \<and> cl_userReceived c"

definition prompt_at :: "int \<Rightarrow> server \<Rightarrow> bool" where
  "prompt_at fd s \<longleftrightarrow> (\<forall>c. sv_clients s fd = Some c \<longrightarrow> complete c \<longrightarrow> cl_registered c)"

definition prompt :: "server \<Rightarrow> bool" where
  "prompt s \<longleftrightarrow> (\<forall>fd. prompt_at fd s)"

interpretation regdata: client_view "\<lambda>c. (complete c, cl_registered c)"
  by unfold_locales (simp_all add: complete_def)

lemma prompt_viewed:
  assumes "viewed (\<lambda>c. (complete c, cl_registered c)) s s'" and "prompt_at fd s"
  shows "prompt_at fd s'"
proof -
  have "map_option (\<lambda>c. (complete c, cl_registered c)) (sv_clients s' fd)
    = map_option (\<lambda>c. (complete c, cl_registered c)) (sv_clients s fd)"
    using assms(1) by (simp add: viewed_def)
  with assms(2) show ?thesis
    by (cases "sv_clients s fd"; cases "sv_clients s' fd") (auto simp: prompt_at_def)
qed

lemma prompt_same_frame: "same_frame s s' \<Longrightarrow> prompt_at fd s \<Longrightarrow> prompt_at fd s'"
  by (rule prompt_viewed [OF regdata.V_same_frame [OF regdata.V_refl]])

lemma prompt_frame: "same_frame s s' \<Longrightarrow> prompt s \<Longrightarrow> prompt s'"
  using prompt_same_frame unfolding prompt_def by blast

lemma prompt_updClient: "g \<noteq> fd \<Longrightarrow> prompt_at g (updClient fd f s) = prompt_at g s"
  by (simp add: prompt_at_def updClient_clients)

lemma prompt_tryRegister:
  assumes "\<And>g. g \<noteq> fd \<Longrightarrow> prompt_at g s"
  shows "prompt (tryRegisterClient fd s)"
proof -
  let ?t = "updClient fd (\<lambda>c. snd (tryCompleteRegistration c)) s"
  have "complete (snd (tryCompleteRegistration c)) \<Longrightarrow> cl_registered (snd (tryCompleteRegistration c))" for c
    by (simp add: complete_def tryCompleteRegistration_def hasNickname_def split: if_splits)
  then have "prompt_at fd ?t" by (auto simp: prompt_at_def updClient_clients)
  then have "prompt_at g ?t" for g using assms [of g] by (cases "g = fd") (simp_all add: prompt_updClient)
  then have t: "prompt ?t" by (simp add: prompt_def)
  have "same_frame ?t (sendWelcomeSequence fd ?t)"
    by (simp add: sendWelcomeSequence_def Let_def same_frame_then split: option.split)
  then have w: "prompt (sendWelcomeSequence fd ?t)" using t by (rule prompt_frame)
  show ?thesis
  proof (cases "sv_clients s fd")
    case None
    then have "?t = s" by (simp add: updClient_def)
    with None t show ?thesis by (simp add: tryRegisterClient_def findClientByFd_def)
  next
    case (Some c)
    with t w show ?thesis by (simp add: tryRegisterClient_def findClientByFd_def Let_def)
  qed
qed

lemma prompt_numeric: "prompt s \<Longrightarrow> prompt (queueNumeric fd code ps s)"
  by (rule prompt_frame [OF same_frame_queueNumeric])

lemma prompt_register: "prompt s \<Longrightarrow> prompt (tryRegisterClient fd (updClient fd f s))"
  by (rule prompt_tryRegister) (simp add: prompt_updClient, simp add: prompt_def)

lemma prompt_pass: "prompt s \<Longrightarrow> prompt (handlePass fd msg s)"
  by (simp add: handlePass_def requireParams_def prompt_numeric prompt_register split: option.split)

lemma prompt_user: "prompt s \<Longrightarrow> prompt (handleUser fd msg s)"
  by (simp add: handleUser_def requireParams_def Let_def prompt_numeric prompt_register split: option.split)

lemma prompt_nick:
  assumes p: "prompt s"
  shows "prompt (handleNick fd msg s)"
proof (cases "sv_clients s fd")
  case None
  with p show ?thesis by (simp add: handleNick_def findClientByFd_def)
next
  case (Some c)
  let ?n = "msg_params msg ! 0"
  have cl: "sv_clients (renameClient fd ?n s) = (sv_clients s)(fd \<mapsto> setNickname ?n c)"
    using Some by (auto simp: renameClient_def findClientByFd_def updClient_clients registerNickname_def
        unregisterNickname_def Let_def)
  then have oth: "prompt_at g (renameClient fd ?n s)" if "g \<noteq> fd" for g
    using p that by (simp add: prompt_def prompt_at_def)
  moreover have "cl_registered c \<Longrightarrow> prompt_at fd (renameClient fd ?n s)"
    by (simp add: cl prompt_at_def setNickname_def)
  ultimately have reg: "cl_registered c \<Longrightarrow> prompt (renameClient fd ?n s)"
    unfolding prompt_def by metis
  have "prompt (broadcastToSharedChannels d m (queueToClient fd m t))" and "prompt (queueToClient fd m t)"
    if "prompt t" for d m t
    using that by (blast intro: prompt_frame same_frame_queue same_frame_broadcast(2))+
  with Some p reg prompt_tryRegister [OF oth] show ?thesis
    by (simp add: handleNick_def findClientByFd_def Let_def prompt_numeric split: option.split)
qed

lemma prompt_dispatch:
  assumes "prompt s"
  shows "prompt (dispatchCommand fd msg s)"
proof (cases "msg_command msg \<in> {''PASS'', ''NICK'', ''USER''}")
  case False
  then show ?thesis using assms regdata.V_dispatch prompt_viewed unfolding prompt_def by blast
next
  case True
  have "prompt (ce_handler e fd msg s)" if "find_entry (msg_command msg) = Some e" for e
    using that True prompt_pass [OF assms] prompt_user [OF assms] prompt_nick [OF assms]
    by (auto simp: find_entry_def command_table_def)
  then show ?thesis
    using assms by (simp add: dispatchCommand_def prompt_numeric split: option.split)
qed

text \<open>The network layer keeps it too: it only moves buffers, adds new clients and drops old ones.\<close>

lemma prompt_upd: "prompt s \<Longrightarrow> (\<And>c. complete (f c) = complete c \<and> cl_registered (f c) = cl_registered c) \<Longrightarrow>
    prompt (updClient fd f s)"
  by (auto simp: prompt_def prompt_at_def updClient_clients)

lemma prompt_clients: "sv_clients s' = sv_clients s \<Longrightarrow> prompt s' = prompt s"
  by (simp add: prompt_def prompt_at_def)

interpretation prompt: network_contract prompt
proof
  fix s assume "kept prompt s"
  then have p: "prompt s" by (simp add: kept_def)
  show "prompt (queueToClient fd msg s)" "prompt (scheduleDisconnect fd s)" for fd msg
    using p by (blast intro: prompt_frame same_frame_queue same_frame_schedule)+
  show "prompt (dispatchCommand fd msg s)" for fd msg by (rule prompt_dispatch [OF p])
  show "prompt (s\<lparr>sv_opened := sv_opened s @ [fd], sv_closed := sv_closed s @ [fd]\<rparr>)" for fd
    using p prompt_clients [of "s\<lparr>sv_opened := sv_opened s @ [fd], sv_closed := sv_closed s @ [fd]\<rparr>" s]
    by simp
  show "prompt (connected fd host s)" if "sv_clients s fd = None" for fd host
    using p that by (auto simp: prompt_def prompt_at_def connected_def addClient_def addClientPollFd_def
        complete_def new_client_def)
  show "prompt (updClient fd (appendReceiveBuffer d) s)" "prompt (updClient fd (eraseReceivePrefix n) s)" for fd d n
    by (rule prompt_upd [OF p], simp add: appendReceiveBuffer_eq eraseReceivePrefix_eq complete_def)+
  have "prompt (updClient fd (eraseSendPrefix n) s)" for fd n
    by (rule prompt_upd [OF p]) (simp add: eraseSendPrefix_eq complete_def)
  then show "prompt (updatePollEvents fd (updClient fd (eraseSendPrefix n) s))" for fd n
    by (rule prompt_frame [OF same_frame_updatePollEvents])
  show "prompt (poll_write r s)" for r using p prompt_clients [of "poll_write r s" s] by (simp add: poll_write_def)
  show "prompt (s\<lparr>sv_pendingDisconnects := {||}\<rparr>)"
    using p prompt_clients [of "s\<lparr>sv_pendingDisconnects := {||}\<rparr>" s] by simp
  show "prompt s'" if "dropped fd s s'" for fd s'
    using p that by (simp add: prompt_def prompt_at_def dropped_def)
qed

lemma serving_prompt: "serving s \<Longrightarrow> prompt s"
  using prompt.K_serving [of s]
  by (simp add: kept_def prompt_def prompt_at_def listening_def new_server_def)

end
