(* ===== verification/Web_Text.thy ===== *)
theory Web_Text
  imports Irc_Prelude
begin

section \<open>webserv: text, numbers and ordered maps\<close>

text \<open>
  The helpers of \<open>apps/webserv/src/Config.cpp\<close> that the whole web server uses (\<open>trim\<close>,
  \<open>lower\<close>, \<open>toString\<close>) and the parts of the C and C++ standard libraries its parsers rely
  on: searching a string, \<open>std::getline\<close> and \<open>operator>>\<close> on a string stream, \<open>strtoul\<close>, and
  \<open>std::map\<close> with its iteration in key order. A result that may be an exception is a sum
  with the message on the left.
\<close>

subsection \<open>Results\<close>

type_synonym 'a result = "string + 'a"

definition and_then :: "'a result \<Rightarrow> ('a \<Rightarrow> 'b result) \<Rightarrow> 'b result" where
  "and_then r f = (case r of Inl e \<Rightarrow> Inl e | Inr x \<Rightarrow> f x)"

lemma and_then_simps [simp]:
  "and_then (Inl e) f = Inl e"
  "and_then (Inr x) f = f x"
  "and_then r f = Inr y \<longleftrightarrow> (\<exists>x. r = Inr x \<and> f x = Inr y)"
  by (simp_all add: and_then_def split: sum.split)

lemma and_then_cong [fundef_cong]:
  "r = r' \<Longrightarrow> (\<And>x. r' = Inr x \<Longrightarrow> f x = f' x) \<Longrightarrow> and_then r f = and_then r' f'"
  by (simp add: and_then_def split: sum.split)

lemma if_error_simps [simp]:
  "(if b then Inl e else r) = Inr y \<longleftrightarrow> \<not> b \<and> r = Inr y"
  "(if b then r else Inl e) = Inr y \<longleftrightarrow> b \<and> r = Inr y"
  by simp_all

subsection \<open>Characters and searches\<close>

text \<open>\<open>std::isspace\<close> in the C locale.\<close>

definition is_space :: "char \<Rightarrow> bool" where
  "is_space c \<longleftrightarrow> c \<in> {SP, TAB, LF, CHR 0x0B, CHR 0x0C, CR}"

abbreviation in_range :: "char \<Rightarrow> char \<Rightarrow> char \<Rightarrow> bool" where
  "in_range lo hi c \<equiv> lo \<le> c \<and> c \<le> hi"

definition trim :: "string \<Rightarrow> string" where
  "trim v =
     (let blank = (\<lambda>c. c \<in> {SP, TAB, CR, LF})
      in rev (dropWhile blank (rev (dropWhile blank v))))"

definition lower_char :: "char \<Rightarrow> char" where
  "lower_char c = (if CHR ''A'' \<le> c \<and> c \<le> CHR ''Z'' then char_of (of_char c + (32::nat)) else c)"

definition lower :: "string \<Rightarrow> string" where
  "lower v = map lower_char v"

definition toString :: "nat \<Rightarrow> string" where
  "toString n = show_nat n"

text \<open>\<open>find(p)\<close> for a text \<open>p\<close> and \<open>find(p, pos)\<close>: the first position at which \<open>p\<close> starts.\<close>

definition starts_with :: "string \<Rightarrow> string \<Rightarrow> bool" where
  "starts_with p s \<longleftrightarrow> take (length p) s = p"

fun find_text :: "string \<Rightarrow> string \<Rightarrow> nat option" where
  "find_text p [] = (if p = [] then Some 0 else None)"
| "find_text p (c # s) =
     (if starts_with p (c # s) then Some 0 else map_option Suc (find_text p s))"

definition find_text_from :: "string \<Rightarrow> nat \<Rightarrow> string \<Rightarrow> nat option" where
  "find_text_from p pos s = map_option (\<lambda>i. pos + i) (find_text p (drop pos s))"

text \<open>\<open>rfind(c)\<close>: the text before and after the last occurrence.\<close>

definition split_last :: "char \<Rightarrow> string \<Rightarrow> (string \<times> string) option" where
  "split_last c s =
     (if c \<in> set s
      then Some (rev (tl (dropWhile (\<lambda>x. x \<noteq> c) (rev s))), rev (takeWhile (\<lambda>x. x \<noteq> c) (rev s)))
      else None)"

lemma starts_with_append [simp]: "starts_with p (p @ s)"
  by (simp add: starts_with_def)

lemma starts_withD: "starts_with p s \<Longrightarrow> s = p @ drop (length p) s"
  by (metis append_take_drop_id starts_with_def)

lemma find_text_SomeD:
  "find_text p s = Some i \<Longrightarrow> starts_with p (drop i s) \<and> i + length p \<le> length s"
proof (induction p s arbitrary: i rule: find_text.induct)
  case (2 p c s)
  show ?case
  proof (cases "starts_with p (c # s)")
    case True
    then have "length p \<le> length (c # s)" by (metis length_append le_add1 starts_withD)
    with True "2.prems" show ?thesis by simp
  next
    case False
    with "2.prems" obtain j where "i = Suc j" and "find_text p s = Some j" by auto
    with "2.IH" False show ?thesis by simp
  qed
qed (auto simp: starts_with_def split: if_splits)

lemma find_text_from_SomeD:
  assumes "find_text_from p pos s = Some i" and "p \<noteq> []"
  shows "pos \<le> i" and "starts_with p (drop i s)" and "i + length p \<le> length s"
proof -
  obtain j where j: "find_text p (drop pos s) = Some j" "i = pos + j"
    using assms(1) by (auto simp: find_text_from_def)
  note f = find_text_SomeD [OF j(1)]
  from f assms(2) have "pos < length s" by (cases "pos < length s") auto
  with f j(2) show "pos \<le> i" "starts_with p (drop i s)" "i + length p \<le> length s"
    by (auto simp: add.commute)
qed

lemma find_text_None_drop: "find_text p s = None \<Longrightarrow> \<not> starts_with p (drop k s)"
proof (induction p s arbitrary: k rule: find_text.induct)
  case (1 p)
  then show ?case by (auto simp: starts_with_def split: if_splits)
next
  case (2 p c s)
  then show ?case by (cases k) (auto split: if_splits)
qed

lemma find_text_first:
  "find_text p s = Some i \<Longrightarrow> k < i \<Longrightarrow> \<not> starts_with p (drop k s)"
proof (induction p s arbitrary: i k rule: find_text.induct)
  case (2 p c s)
  then show ?case by (cases k) (auto split: if_splits)
qed (simp split: if_splits)

lemma find_text_at:
  assumes "a \<notin> set v"
  shows "find_text (a # p) (v @ a # p @ s) = Some (length v)"
  using assms
proof (induction v)
  case Nil
  then show ?case using starts_with_append [of "a # p" s] by simp
next
  case (Cons x v)
  then show ?case by (auto simp: starts_with_def)
qed

lemma find_text_crlf: "CR \<notin> set v \<Longrightarrow> find_text crlf (v @ crlf @ s) = Some (length v)"
  using find_text_at [of CR v "[LF]" s] by (simp add: crlf_def)

lemma find_text_from_append [simp]:
  "find_text_from p (length pre) (pre @ s) = map_option (\<lambda>i. length pre + i) (find_text p s)"
  by (simp add: find_text_from_def)

subsection \<open>String streams\<close>

text \<open>\<open>std::getline\<close> until it fails.\<close>

function getlines :: "string \<Rightarrow> string list" where
  "getlines s =
     (if s = [] then []
      else takeWhile (\<lambda>c. c \<noteq> LF) s # getlines (drop 1 (dropWhile (\<lambda>c. c \<noteq> LF) s)))"
  by pat_completeness auto
termination
proof (relation "measure length")
  fix s :: string
  assume "s \<noteq> []"
  then have "0 < length s" by simp
  moreover have "length (dropWhile (\<lambda>c. c \<noteq> LF) s) \<le> length s" by (rule length_dropWhile_le)
  ultimately show "(drop 1 (dropWhile (\<lambda>c. c \<noteq> LF) s), s) \<in> measure length"
    by (simp del: length_greater_0_conv)
qed simp

declare getlines.simps [simp del]

lemma getlines_Nil [simp]: "getlines [] = []"
  by (simp add: getlines.simps)

lemma getlines_line: "LF \<notin> set l \<Longrightarrow> getlines (l @ LF # rest) = l # getlines rest"
proof -
  assume "LF \<notin> set l"
  then have "\<And>x. x \<in> set l \<Longrightarrow> x \<noteq> LF" by auto
  then have "takeWhile (\<lambda>c. c \<noteq> LF) (l @ LF # rest) = l"
    and "dropWhile (\<lambda>c. c \<noteq> LF) (l @ LF # rest) = LF # rest"
    by (simp_all add: takeWhile_append2 dropWhile_append2)
  then show ?thesis by (subst getlines.simps) simp
qed

lemma getlines_last: "LF \<notin> set l \<Longrightarrow> l \<noteq> [] \<Longrightarrow> getlines l = [l]"
proof -
  assume a: "LF \<notin> set l" "l \<noteq> []"
  then have t: "takeWhile (\<lambda>c. c \<noteq> LF) l = l" and d: "dropWhile (\<lambda>c. c \<noteq> LF) l = []"
    by (auto simp: takeWhile_eq_all_conv)
  show ?thesis by (subst getlines.simps) (use a(2) in \<open>simp add: t d\<close>)
qed

lemma getlines_no_LF: "l \<in> set (getlines s) \<Longrightarrow> LF \<notin> set l"
proof (induction s rule: getlines.induct)
  case (1 s)
  show ?case
  proof (cases "s = []")
    case False
    with "1.prems" have "l = takeWhile (\<lambda>c. c \<noteq> LF) s
        \<or> l \<in> set (getlines (drop 1 (dropWhile (\<lambda>c. c \<noteq> LF) s)))"
      by (subst (asm) getlines.simps) auto
    with "1.IH" [OF False] show ?thesis by (auto dest: set_takeWhileD)
  qed (use "1.prems" in simp)
qed

text \<open>Removing the \<open>CR\<close> that \<open>getline\<close> leaves at the end of a line.\<close>

definition chomp_cr :: "string \<Rightarrow> string" where
  "chomp_cr l = (if l \<noteq> [] \<and> last l = CR then butlast l else l)"

text \<open>\<open>stream >> s\<close> for a string: a word and the rest of the stream.\<close>

definition next_word :: "string \<Rightarrow> (string \<times> string) option" where
  "next_word s =
     (let t = dropWhile is_space s
      in if t = [] then None
         else Some (takeWhile (\<lambda>c. \<not> is_space c) t, dropWhile (\<lambda>c. \<not> is_space c) t))"

lemma next_word_chars:
  assumes "next_word s = Some (w, rest)"
  shows "w \<noteq> []" and "c \<in> set w \<Longrightarrow> \<not> is_space c \<and> c \<in> set s" and "set rest \<subseteq> set s"
proof -
  define t where "t = dropWhile is_space s"
  have t: "t \<noteq> []" "w = takeWhile (\<lambda>c. \<not> is_space c) t" "rest = dropWhile (\<lambda>c. \<not> is_space c) t"
    using assms by (auto simp: next_word_def t_def Let_def split: if_splits)
  from t(1) have "\<not> is_space (hd t)" unfolding t_def by (rule hd_dropWhile)
  with t show "w \<noteq> []" by (cases t) auto
  have "set t \<subseteq> set s" unfolding t_def using set_dropWhileD by fast
  with t show "c \<in> set w \<Longrightarrow> \<not> is_space c \<and> c \<in> set s" and "set rest \<subseteq> set s"
    by (auto dest: set_takeWhileD set_dropWhileD)
qed

subsection \<open>Numbers\<close>

text \<open>
  \<open>std::strtoul(v.c_str(), &end, 10)\<close> with a 64-bit \<open>unsigned long\<close>: whether \<open>errno\<close> is
  \<open>ERANGE\<close>, the value, and the text at \<open>end\<close>. A C string ends at its first NUL; a minus sign
  negates modulo \<open>2 ^ 64\<close>.
\<close>

definition strtoul10 :: "string \<Rightarrow> bool \<times> nat \<times> string" where
  "strtoul10 v =
     (let c = takeWhile (\<lambda>x. x \<noteq> NUL) v;
          t = dropWhile is_space c;
          neg = (t \<noteq> [] \<and> hd t = CHR ''-'');
          u = (if t \<noteq> [] \<and> (hd t = CHR ''-'' \<or> hd t = CHR ''+'') then tl t else t);
          ds = takeWhile is_digit u;
          n = dec_value ds
      in if ds = [] then (False, 0, c)
         else if 2 ^ 64 \<le> n then (True, 2 ^ 64 - 1, dropWhile is_digit u)
         else (False, if neg then (2 ^ 64 - n) mod 2 ^ 64 else n, dropWhile is_digit u))"

definition is_hex :: "char \<Rightarrow> bool" where
  "is_hex c \<longleftrightarrow> is_digit c \<or> CHR ''a'' \<le> c \<and> c \<le> CHR ''f'' \<or> CHR ''A'' \<le> c \<and> c \<le> CHR ''F''"

definition hex_digit :: "char \<Rightarrow> nat" where
  "hex_digit c =
     (if is_digit c then digit_value c
      else if CHR ''a'' \<le> c then of_char c - 87 else of_char c - 55)"

definition hex_value :: "string \<Rightarrow> nat" where
  "hex_value ds = foldl (\<lambda>n c. n * 16 + hex_digit c) 0 ds"

text \<open>
  \<open>stream >> std::hex >> n\<close> for an unsigned number of \<open>w\<close> bits: white space, an optional
  sign, an optional \<open>0x\<close>, hexadecimal digits; the value and the rest of the stream, \<open>None\<close>
  when the stream fails (no digit, or a value that does not fit). A minus sign negates
  modulo \<open>2 ^ w\<close>. \<open>stream >> extra\<close> then fails exactly when only white space is left.
\<close>

definition read_hex :: "nat \<Rightarrow> string \<Rightarrow> (nat \<times> string) option" where
  "read_hex w s =
     (let t = dropWhile is_space s;
          neg = (t \<noteq> [] \<and> hd t = CHR ''-'');
          u = (if t \<noteq> [] \<and> (hd t = CHR ''-'' \<or> hd t = CHR ''+'') then tl t else t);
          v = (if starts_with ''0x'' u \<or> starts_with ''0X'' u then drop 2 u else u);
          ds = takeWhile is_hex v;
          n = hex_value ds
      in if ds = [] \<or> 2 ^ w \<le> n then None
         else Some (if neg then (2 ^ w - n) mod 2 ^ w else n, dropWhile is_hex v))"

definition only_space :: "string \<Rightarrow> bool" where
  "only_space s \<longleftrightarrow> list_all is_space s"

lemma read_hex_bound: "read_hex w s = Some (n, rest) \<Longrightarrow> n < 2 ^ w"
  by (auto simp: read_hex_def Let_def split: if_splits)

lemma strtoul10_bound: "strtoul10 v = (e, n, rest) \<Longrightarrow> n < 2 ^ 64"
  by (auto simp: strtoul10_def Let_def split: if_splits)

subsection \<open>Maps iterated in key order\<close>

text \<open>
  A \<open>std::map\<close> that is iterated is a list of pairs in ascending key order; \<open>map_of\<close> looks a
  key up.
\<close>

fun map_set :: "'k::linorder \<Rightarrow> 'v \<Rightarrow> ('k \<times> 'v) list \<Rightarrow> ('k \<times> 'v) list" where
  "map_set k v [] = [(k, v)]"
| "map_set k v ((k', v') # m) =
     (if k < k' then (k, v) # (k', v') # m
      else if k = k' then (k, v) # m
      else (k', v') # map_set k v m)"

definition ordered_map :: "('k::linorder \<times> 'v) list \<Rightarrow> bool" where
  "ordered_map m \<longleftrightarrow> sorted (map fst m) \<and> distinct (map fst m)"

lemma ordered_map_simps [simp]:
  "ordered_map []"
  "ordered_map ((k, v) # m) \<longleftrightarrow> (\<forall>x \<in> set m. k < fst x) \<and> ordered_map m"
  by (auto simp: ordered_map_def less_le)

lemma set_map_set: "set (map_set k v m) \<subseteq> insert (k, v) (set m)"
  by (induction k v m rule: map_set.induct) auto

lemma keys_map_set [simp]: "fst ` set (map_set k v m) = insert k (fst ` set m)"
  by (induction k v m rule: map_set.induct) auto

lemma map_of_map_set [simp]: "ordered_map m \<Longrightarrow> map_of (map_set k v m) = (map_of m)(k \<mapsto> v)"
proof (induction k v m rule: map_set.induct)
  case (2 k v k' v' m)
  then show ?case by (auto simp: fun_eq_iff)
qed (auto simp: fun_eq_iff)

lemma ordered_map_set [simp]: "ordered_map m \<Longrightarrow> ordered_map (map_set k v m)"
proof (induction k v m rule: map_set.induct)
  case (2 k v k' v' m)
  show ?case
  proof (cases "k < k' \<or> k = k'")
    case True
    with "2.prems" show ?thesis by auto
  next
    case False
    moreover have "\<forall>x \<in> set (map_set k v m). k' < fst x"
    proof
      fix x assume "x \<in> set (map_set k v m)"
      then have "x = (k, v) \<or> x \<in> set m" using set_map_set by fast
      with False "2.prems" show "k' < fst x" by auto
    qed
    ultimately show ?thesis using 2 by simp
  qed
qed simp

end
