(* ===== verification/Web_Config.thy ===== *)
theory Web_Config
  imports Web_Text
begin

section \<open>webserv: the configuration file\<close>

text \<open>
  Models \<open>apps/webserv/src/Config.cpp\<close>: the tokenizer as a step per character, the class
  \<open>ConfigParser\<close> as functions from the remaining tokens (\<open>_position\<close> to the end) to a value
  and the tokens left, every \<open>std::runtime_error\<close> as its message. \<open>inet_pton\<close> is the
  argument \<open>pton\<close>, which says whether a text is an IPv4 address; the file's content is an
  argument of \<open>config_parse\<close>, \<open>None\<close> when the file cannot be opened.
\<close>

subsection \<open>Data\<close>

record location =
  lc_path :: string
  lc_root :: string
  lc_index :: string
  lc_redirect :: string
  lc_redirectStatus :: int
  lc_uploadDir :: string
  lc_cgiExtension :: string
  lc_cgiPath :: string
  lc_cgiHandlers :: "(string \<times> string) list"
  lc_cgiTimeout :: nat
  lc_autoindex :: bool
  lc_methods :: "string list"

record server_config =
  sc_host :: string
  sc_port :: nat
  sc_root :: string
  sc_index :: string
  sc_maxBody :: nat
  sc_autoindex :: bool
  sc_methods :: "string list"
  sc_errorPages :: "int \<rightharpoonup> string"
  sc_locations :: "location list"

definition new_location :: location where
  "new_location =
     \<lparr>lc_path = [], lc_root = [], lc_index = [], lc_redirect = [], lc_redirectStatus = 301,
      lc_uploadDir = [], lc_cgiExtension = [], lc_cgiPath = [], lc_cgiHandlers = [],
      lc_cgiTimeout = 30, lc_autoindex = False, lc_methods = []\<rparr>"

definition new_config :: server_config where
  "new_config =
     \<lparr>sc_host = ''0.0.0.0'', sc_port = 8080, sc_root = ''www'', sc_index = ''index.html'',
      sc_maxBody = 1048576, sc_autoindex = False, sc_methods = [''GET''],
      sc_errorPages = Map.empty, sc_locations = []\<rparr>"

record config_token =
  ct_value :: string
  ct_line :: nat

definition configError :: "nat \<Rightarrow> string \<Rightarrow> string" where
  "configError line message = ''line '' @ toString line @ '': '' @ message"

subsection \<open>The tokenizer\<close>

record token_state =
  ts_tokens :: "config_token list"
  ts_current :: string
  ts_tokenLine :: nat
  ts_line :: nat
  ts_quote :: char
  ts_comment :: bool

definition pushToken :: "string \<Rightarrow> nat \<Rightarrow> token_state \<Rightarrow> token_state" where
  "pushToken v line st = st\<lparr>ts_tokens := ts_tokens st @ [\<lparr>ct_value = v, ct_line = line\<rparr>]\<rparr>"

definition flushCurrent :: "token_state \<Rightarrow> token_state" where
  "flushCurrent st =
     (if ts_current st \<noteq> []
      then (pushToken (ts_current st) (ts_tokenLine st) st)\<lparr>ts_current := []\<rparr> else st)"

definition tokenize_char :: "char \<Rightarrow> token_state \<Rightarrow> token_state result" where
  "tokenize_char c st =
     (if ts_comment st
      then Inr (if c = LF then st\<lparr>ts_comment := False, ts_line := ts_line st + 1\<rparr> else st)
      else if ts_quote st \<noteq> NUL
      then (if c = ts_quote st
            then Inr ((pushToken (ts_current st) (ts_tokenLine st) st)
                        \<lparr>ts_current := [], ts_quote := NUL\<rparr>)
            else if c = LF then Inl (configError (ts_line st) ''unterminated quoted value'')
            else Inr (st\<lparr>ts_current := ts_current st @ [c]\<rparr>))
      else if c = CHR ''#'' then Inr ((flushCurrent st)\<lparr>ts_comment := True\<rparr>)
      else if c = CHR 0x22 \<or> c = CHR 0x27
      then (if ts_current st \<noteq> [] then Inl (configError (ts_line st) ''quote must start a value'')
            else Inr (st\<lparr>ts_quote := c, ts_tokenLine := ts_line st\<rparr>))
      else if c = CHR ''{'' \<or> c = CHR ''}'' \<or> c = CHR '';''
      then Inr (pushToken [c] (ts_line st) (flushCurrent st))
      else if c = SP \<or> c = TAB \<or> c = CR \<or> c = LF
      then (let st1 = flushCurrent st
            in Inr (if c = LF then st1\<lparr>ts_line := ts_line st1 + 1\<rparr> else st1))
      else (let st1 = (if ts_current st = [] then st\<lparr>ts_tokenLine := ts_line st\<rparr> else st)
            in Inr (st1\<lparr>ts_current := ts_current st1 @ [c]\<rparr>)))"

fun tokenize_chars :: "string \<Rightarrow> token_state \<Rightarrow> token_state result" where
  "tokenize_chars [] st = Inr st"
| "tokenize_chars (c # cs) st = and_then (tokenize_char c st) (tokenize_chars cs)"

definition tokenize :: "string \<Rightarrow> config_token list result" where
  "tokenize input =
     and_then
       (tokenize_chars input
          \<lparr>ts_tokens = [], ts_current = [], ts_tokenLine = 1, ts_line = 1, ts_quote = NUL,
           ts_comment = False\<rparr>)
       (\<lambda>st. if ts_quote st \<noteq> NUL then Inl (configError (ts_line st) ''unterminated quoted value'')
             else Inr (ts_tokens (flushCurrent st)))"

subsection \<open>Values\<close>

definition parseNumber :: "config_token \<Rightarrow> nat result" where
  "parseNumber t =
     (if ct_value t = [] \<or> hd (ct_value t) = CHR ''-'' \<or> hd (ct_value t) = CHR ''+''
      then Inl (configError (ct_line t) ''invalid number'')
      else (case strtoul10 (ct_value t) of (erange, n, rest) \<Rightarrow>
              if erange \<or> rest \<noteq> [] then Inl (configError (ct_line t) ''invalid number'')
              else Inr n))"

definition parseOnOff :: "config_token \<Rightarrow> bool result" where
  "parseOnOff t =
     (if ct_value t = ''on'' then Inr True
      else if ct_value t = ''off'' then Inr False
      else Inl (configError (ct_line t) ''expected on or off''))"

subsection \<open>Reading tokens\<close>

definition peek :: "config_token list \<Rightarrow> config_token result" where
  "peek ts = (case ts of [] \<Rightarrow> Inl ''unexpected end of configuration'' | t # _ \<Rightarrow> Inr t)"

definition take_token :: "config_token list \<Rightarrow> (config_token \<times> config_token list) result" where
  "take_token ts = and_then (peek ts) (\<lambda>t. Inr (t, tl ts))"

definition expect_token :: "string \<Rightarrow> config_token list \<Rightarrow> config_token list result" where
  "expect_token v ts =
     and_then (take_token ts) (\<lambda>(t, rest).
       if ct_value t \<noteq> v then Inl (configError (ct_line t) (''expected '' @ [CHR 0x27] @ v @ [CHR 0x27]))
       else Inr rest)"

definition markUnique :: "string set \<Rightarrow> config_token \<Rightarrow> string set result" where
  "markUnique seen directive =
     (if ct_value directive \<in> seen
      then Inl (configError (ct_line directive)
                  (''duplicate directive '' @ [CHR 0x27] @ ct_value directive @ [CHR 0x27]))
      else Inr (insert (ct_value directive) seen))"

fun arguments :: "config_token list \<Rightarrow> (config_token list \<times> config_token list) result" where
  "arguments [] = Inl ''unexpected end of configuration''"
| "arguments (t # ts) =
     (if ct_value t = '';'' then Inr ([], ts)
      else if ct_value t = ''{'' \<or> ct_value t = ''}'' then Inl (configError (ct_line t) (''expected '' @ [CHR 0x27] @ '';'' @ [CHR 0x27]))
      else and_then (arguments ts) (\<lambda>(args, rest). Inr (t # args, rest)))"

fun add_methods :: "string list \<Rightarrow> config_token list \<Rightarrow> string list result" where
  "add_methods methods [] = Inr methods"
| "add_methods methods (a # as) =
     (if ct_value a \<noteq> ''GET'' \<and> ct_value a \<noteq> ''POST'' \<and> ct_value a \<noteq> ''DELETE''
      then Inl (configError (ct_line a) ''unsupported method'')
      else if ct_value a \<in> set methods then Inl (configError (ct_line a) ''duplicate method'')
      else add_methods (methods @ [ct_value a]) as)"

definition parseMethods :: "config_token list \<Rightarrow> nat \<Rightarrow> string list result" where
  "parseMethods args line =
     (if args = [] then Inl (configError line ''methods are missing'') else add_methods [] args)"

definition parseListen :: "(string \<Rightarrow> bool) \<Rightarrow> server_config \<Rightarrow> config_token \<Rightarrow> server_config result" where
  "parseListen pton server arg =
     (let host = (case split_last (CHR '':'') (ct_value arg) of
                    None \<Rightarrow> ''0.0.0.0'' | Some (h, p) \<Rightarrow> h);
          port = (case split_last (CHR '':'') (ct_value arg) of
                    None \<Rightarrow> ct_value arg | Some (h, p) \<Rightarrow> p)
      in if host = [] \<or> \<not> pton host
         then Inl (configError (ct_line arg) ''invalid IPv4 listen address'')
         else and_then (parseNumber \<lparr>ct_value = port, ct_line = ct_line arg\<rparr>) (\<lambda>number.
                if number = 0 \<or> 65535 < number then Inl (configError (ct_line arg) ''invalid port'')
                else Inr (server\<lparr>sc_host := host, sc_port := number\<rparr>)))"

subsection \<open>A location block\<close>

record location_state =
  ls_value :: location
  ls_hasRoot :: bool
  ls_hasIndex :: bool
  ls_hasAutoindex :: bool
  ls_hasMethods :: bool

definition new_location_state :: location_state where
  "new_location_state =
     \<lparr>ls_value = new_location, ls_hasRoot = False, ls_hasIndex = False, ls_hasAutoindex = False,
      ls_hasMethods = False\<rparr>"

definition updLocation :: "(location \<Rightarrow> location) \<Rightarrow> location_state \<Rightarrow> location_state" where
  "updLocation f st = st\<lparr>ls_value := f (ls_value st)\<rparr>"

definition uniqueName :: "string \<Rightarrow> string" where
  "uniqueName n =
     (if n = ''dir_listing'' then ''autoindex''
      else if n = ''allowed_methods'' then ''allow_methods''
      else n)"

definition uniqueLocationName :: "string \<Rightarrow> string" where
  "uniqueLocationName n = (if uniqueName n = ''redir'' then ''return'' else uniqueName n)"

definition redirectDirective :: "config_token list \<Rightarrow> location_state \<Rightarrow> location_state result" where
  "redirectDirective args st =
     (if length args = 2
      then and_then (parseNumber (args ! 0)) (\<lambda>status.
             if status < 300 \<or> 399 < status
             then Inl (configError (ct_line (args ! 0)) ''redirect status must be 300-399'')
             else Inr (updLocation (\<lambda>l. l\<lparr>lc_redirectStatus := int status,
                                          lc_redirect := ct_value (args ! 1)\<rparr>) st))
      else Inr (updLocation (\<lambda>l. l\<lparr>lc_redirect := ct_value (args ! 0)\<rparr>) st))"

definition cgiHandlerDirective :: "config_token list \<Rightarrow> location_state \<Rightarrow> location_state result" where
  "cgiHandlerDirective args st =
     (let ext = ct_value (args ! 0)
      in if ext = [] \<or> hd ext \<noteq> CHR ''.''
         then Inl (configError (ct_line (args ! 0)) (''CGI extension must start with '' @ [CHR 0x27] @ ''.'' @ [CHR 0x27]))
         else if map_of (lc_cgiHandlers (ls_value st)) ext \<noteq> None
         then Inl (configError (ct_line (args ! 0)) ''duplicate CGI extension'')
         else Inr (updLocation (\<lambda>l. l\<lparr>lc_cgiHandlers :=
                     map_set ext (ct_value (args ! 1)) (lc_cgiHandlers l)\<rparr>) st))"

definition locationDirective ::
    "string \<Rightarrow> nat \<Rightarrow> config_token list \<Rightarrow> location_state \<Rightarrow> location_state result" where
  "locationDirective name line args st =
     (if name = ''root'' \<and> length args = 1
      then Inr ((updLocation (\<lambda>l. l\<lparr>lc_root := ct_value (args ! 0)\<rparr>) st)\<lparr>ls_hasRoot := True\<rparr>)
      else if name = ''index'' \<and> length args = 1
      then Inr ((updLocation (\<lambda>l. l\<lparr>lc_index := ct_value (args ! 0)\<rparr>) st)\<lparr>ls_hasIndex := True\<rparr>)
      else if name = ''autoindex'' \<and> length args = 1
      then and_then (parseOnOff (args ! 0)) (\<lambda>b.
             Inr ((updLocation (\<lambda>l. l\<lparr>lc_autoindex := b\<rparr>) st)\<lparr>ls_hasAutoindex := True\<rparr>))
      else if name = ''allow_methods''
      then and_then (parseMethods args line) (\<lambda>ms.
             Inr ((updLocation (\<lambda>l. l\<lparr>lc_methods := ms\<rparr>) st)\<lparr>ls_hasMethods := True\<rparr>))
      else if name = ''return'' \<and> (length args = 1 \<or> length args = 2)
      then redirectDirective args st
      else if name = ''upload_dir'' \<and> length args = 1
      then Inr (updLocation (\<lambda>l. l\<lparr>lc_uploadDir := ct_value (args ! 0)\<rparr>) st)
      else if name = ''cgi_extension'' \<and> length args = 1
      then (if ct_value (args ! 0) = [] \<or> hd (ct_value (args ! 0)) \<noteq> CHR ''.''
            then Inl (configError (ct_line (args ! 0)) (''CGI extension must start with '' @ [CHR 0x27] @ ''.'' @ [CHR 0x27]))
            else Inr (updLocation (\<lambda>l. l\<lparr>lc_cgiExtension := ct_value (args ! 0)\<rparr>) st))
      else if name = ''cgi_path'' \<and> length args = 1
      then Inr (updLocation (\<lambda>l. l\<lparr>lc_cgiPath := ct_value (args ! 0)\<rparr>) st)
      else if name = ''cgi_handler'' \<and> length args = 2
      then cgiHandlerDirective args st
      else if name = ''cgi_timeout'' \<and> length args = 1
      then and_then (parseNumber (args ! 0)) (\<lambda>timeout.
             if timeout = 0 \<or> 300 < timeout
             then Inl (configError (ct_line (args ! 0)) ''CGI timeout must be 1-300 seconds'')
             else Inr (updLocation (\<lambda>l. l\<lparr>lc_cgiTimeout := timeout\<rparr>) st))
      else Inl (configError line ''invalid location directive or arguments''))"

text \<open>One directive of the block: the checks for duplicates, then its effect.\<close>

definition locationStep ::
    "config_token \<Rightarrow> config_token list \<Rightarrow> string set \<Rightarrow> location_state
       \<Rightarrow> (string set \<times> location_state) result" where
  "locationStep directive args seen st =
     (let name = uniqueLocationName (ct_value directive)
      in and_then (if name \<noteq> ''cgi_handler''
                   then markUnique seen (directive\<lparr>ct_value := name\<rparr>) else Inr seen) (\<lambda>seen1.
         and_then (locationDirective name (ct_line directive) args st) (\<lambda>st1.
         Inr (seen1, st1))))"

lemma arguments_shrinks: "arguments ts = Inr (args, rest) \<Longrightarrow> length rest < length ts"
  by (induction ts arbitrary: args rest) (fastforce split: if_splits)+

function locationLoop ::
    "string set \<Rightarrow> location_state \<Rightarrow> config_token list \<Rightarrow> (location_state \<times> config_token list) result" where
  "locationLoop seen st [] = Inl ''unexpected end of configuration''"
| "locationLoop seen st (directive # ts) =
     (if ct_value directive = ''}'' then Inr (st, ts)
      else and_then (arguments ts) (\<lambda>(args, rest).
           and_then (locationStep directive args seen st) (\<lambda>(seen1, st1).
           locationLoop seen1 st1 rest)))"
  by pat_completeness auto
termination
  by (relation "measure (\<lambda>(seen, st, ts). length ts)") (auto dest: arguments_shrinks)

definition finishLocation :: "nat \<Rightarrow> location_state \<Rightarrow> location_state result" where
  "finishLocation line st =
     (let l = ls_value st
      in if (lc_cgiExtension l = []) \<noteq> (lc_cgiPath l = [])
         then Inl (configError line ''cgi_extension and cgi_path must be configured together'')
         else if lc_cgiExtension l \<noteq> []
         then (if map_of (lc_cgiHandlers l) (lc_cgiExtension l) \<noteq> None
               then Inl (configError line ''duplicate CGI extension'')
               else Inr (updLocation (\<lambda>l. l\<lparr>lc_cgiHandlers :=
                           map_set (lc_cgiExtension l) (lc_cgiPath l) (lc_cgiHandlers l)\<rparr>) st))
         else Inr st)"

definition parseLocation :: "config_token list \<Rightarrow> (location_state \<times> config_token list) result" where
  "parseLocation ts =
     and_then (take_token ts) (\<lambda>(path, ts1).
       if ct_value path = [] \<or> hd (ct_value path) \<noteq> CHR ''/''
       then Inl (configError (ct_line path) (''location path must start with '' @ [CHR 0x27] @ ''/'' @ [CHR 0x27]))
       else and_then (expect_token ''{'' ts1) (\<lambda>ts2.
            and_then (locationLoop {} (updLocation (\<lambda>l. l\<lparr>lc_path := ct_value path\<rparr>)
                                         new_location_state) ts2) (\<lambda>(st, rest).
            and_then (finishLocation (ct_line path) st) (\<lambda>st1.
            Inr (st1, rest)))))"

subsection \<open>A server block\<close>

definition errorPageDirective :: "config_token list \<Rightarrow> server_config \<Rightarrow> server_config result" where
  "errorPageDirective args server =
     and_then (parseNumber (args ! 0)) (\<lambda>status.
       if status < 300 \<or> 599 < status
       then Inl (configError (ct_line (args ! 0)) ''error status must be 300-599'')
       else if sc_errorPages server (int status) \<noteq> None
       then Inl (configError (ct_line (args ! 0)) ''duplicate error_page status'')
       else Inr (server\<lparr>sc_errorPages := (sc_errorPages server)(int status \<mapsto> ct_value (args ! 1))\<rparr>))"

definition serverDirective ::
    "(string \<Rightarrow> bool) \<Rightarrow> string \<Rightarrow> nat \<Rightarrow> config_token list \<Rightarrow> server_config \<Rightarrow> server_config result" where
  "serverDirective pton name line args server =
     (if name = ''listen'' \<and> length args = 1 then parseListen pton server (args ! 0)
      else if name = ''root'' \<and> length args = 1
      then Inr (server\<lparr>sc_root := ct_value (args ! 0)\<rparr>)
      else if name = ''index'' \<and> length args = 1
      then Inr (server\<lparr>sc_index := ct_value (args ! 0)\<rparr>)
      else if name = ''client_max_body_size'' \<and> length args = 1
      then and_then (parseNumber (args ! 0)) (\<lambda>n.
             if 16 * 1024 * 1024 < n
             then Inl (configError (ct_line (args ! 0)) ''client body limit exceeds 16 MiB'')
             else Inr (server\<lparr>sc_maxBody := n\<rparr>))
      else if name = ''autoindex'' \<and> length args = 1
      then and_then (parseOnOff (args ! 0)) (\<lambda>b. Inr (server\<lparr>sc_autoindex := b\<rparr>))
      else if name = ''allow_methods''
      then and_then (parseMethods args line) (\<lambda>ms. Inr (server\<lparr>sc_methods := ms\<rparr>))
      else if name = ''error_page'' \<and> length args = 2 then errorPageDirective args server
      else Inl (configError line ''invalid server directive or arguments''))"

definition serverStep ::
    "(string \<Rightarrow> bool) \<Rightarrow> config_token \<Rightarrow> config_token list \<Rightarrow> string set \<Rightarrow> server_config
       \<Rightarrow> (string set \<times> server_config) result" where
  "serverStep pton directive args seen server =
     (let name = uniqueName (ct_value directive)
      in and_then (if name \<noteq> ''error_page''
                   then markUnique seen (directive\<lparr>ct_value := name\<rparr>) else Inr seen) (\<lambda>seen1.
         and_then (serverDirective pton name (ct_line directive) args server) (\<lambda>server1.
         Inr (seen1, server1))))"

lemma take_token_shrinks: "take_token ts = Inr (t, rest) \<Longrightarrow> ts = t # rest"
  by (cases ts) (auto simp: take_token_def peek_def)

lemma expect_token_shrinks: "expect_token v ts = Inr rest \<Longrightarrow> length rest < length ts"
  by (auto simp: expect_token_def dest: take_token_shrinks split: if_splits)

lemma locationLoop_shrinks: "locationLoop seen st ts = Inr (st', rest) \<Longrightarrow> length rest < length ts"
proof (induction seen st ts rule: locationLoop.induct)
  case (2 seen st directive ts)
  then show ?case by (fastforce split: if_splits dest: arguments_shrinks)
qed simp

lemma parseLocation_shrinks: "parseLocation ts = Inr (st, rest) \<Longrightarrow> length rest < length ts"
  by (fastforce simp: parseLocation_def split: if_splits
      dest: take_token_shrinks expect_token_shrinks locationLoop_shrinks)

function serverLoop ::
    "(string \<Rightarrow> bool) \<Rightarrow> string set \<Rightarrow> server_config \<Rightarrow> location_state list \<Rightarrow> config_token list
       \<Rightarrow> (string set \<times> server_config \<times> location_state list \<times> config_token list) result" where
  "serverLoop pton seen server locs [] = Inl ''unexpected end of configuration''"
| "serverLoop pton seen server locs (directive # ts) =
     (if ct_value directive = ''}'' then Inr (seen, server, locs, ts)
      else if ct_value directive = ''location''
      then and_then (parseLocation ts) (\<lambda>(st, rest).
           serverLoop pton seen server (locs @ [st]) rest)
      else and_then (arguments ts) (\<lambda>(args, rest).
           and_then (serverStep pton directive args seen server) (\<lambda>(seen1, server1).
           serverLoop pton seen1 server1 locs rest)))"
  by pat_completeness auto
termination
  by (relation "measure (\<lambda>(pton, seen, server, locs, ts). length ts)")
    (auto dest: arguments_shrinks parseLocation_shrinks)

text \<open>What a location does not set itself it inherits from its server.\<close>

definition inherit :: "server_config \<Rightarrow> location_state \<Rightarrow> location" where
  "inherit server st =
     (let l0 = ls_value st;
          l1 = (if ls_hasRoot st then l0 else l0\<lparr>lc_root := sc_root server\<rparr>);
          l2 = (if ls_hasIndex st then l1 else l1\<lparr>lc_index := sc_index server\<rparr>);
          l3 = (if ls_hasAutoindex st then l2 else l2\<lparr>lc_autoindex := sc_autoindex server\<rparr>)
      in if ls_hasMethods st then l3 else l3\<lparr>lc_methods := sc_methods server\<rparr>)"

definition parseServer ::
    "(string \<Rightarrow> bool) \<Rightarrow> config_token list \<Rightarrow> (server_config \<times> config_token list) result" where
  "parseServer pton ts =
     and_then (expect_token ''{'' ts) (\<lambda>ts1.
     and_then (serverLoop pton {} new_config [] ts1) (\<lambda>(seen, server, locs, rest).
       if ''listen'' \<notin> seen then Inl ''server block is missing listen directive''
       else Inr (server\<lparr>sc_locations := sc_locations server @ map (inherit server) locs\<rparr>, rest)))"

lemma serverLoop_shrinks:
  "serverLoop pton seen server locs ts = Inr (seen', server', locs', rest) \<Longrightarrow> length rest < length ts"
proof (induction pton seen server locs ts rule: serverLoop.induct)
  case (2 pton seen server locs directive ts)
  then show ?case
    by (fastforce split: if_splits dest: arguments_shrinks parseLocation_shrinks)
qed simp

lemma parseServer_shrinks: "parseServer pton ts = Inr (server, rest) \<Longrightarrow> length rest < length ts"
  by (fastforce simp: parseServer_def split: if_splits dest: expect_token_shrinks serverLoop_shrinks)

subsection \<open>The whole file\<close>

function parseServers ::
    "(string \<Rightarrow> bool) \<Rightarrow> server_config list \<Rightarrow> config_token list \<Rightarrow> server_config list result" where
  "parseServers pton servers [] = Inr servers"
| "parseServers pton servers (keyword # ts) =
     (if ct_value keyword \<noteq> ''server''
      then Inl (configError (ct_line keyword) (''expected '' @ [CHR 0x27] @ ''server'' @ [CHR 0x27]))
      else and_then (parseServer pton ts) (\<lambda>(server, rest).
           parseServers pton (servers @ [server]) rest))"
  by pat_completeness auto
termination
  by (relation "measure (\<lambda>(pton, servers, ts). length ts)") (auto dest: parseServer_shrinks)

text \<open>The pairs \<open>i < j\<close> of servers are compared in order; any equal pair is an error.\<close>

definition same_listen :: "server_config \<Rightarrow> server_config \<Rightarrow> bool" where
  "same_listen a b \<longleftrightarrow> sc_host a = sc_host b \<and> sc_port a = sc_port b"

fun duplicate_listen :: "server_config list \<Rightarrow> bool" where
  "duplicate_listen [] = False"
| "duplicate_listen (s # ss) = (list_ex (same_listen s) ss \<or> duplicate_listen ss)"

definition parse_config :: "(string \<Rightarrow> bool) \<Rightarrow> config_token list \<Rightarrow> server_config list result" where
  "parse_config pton ts =
     and_then (parseServers pton [] ts) (\<lambda>servers.
       if servers = [] then Inl ''config contains no server''
       else if duplicate_listen servers then Inl ''duplicate listen address''
       else Inr servers)"

definition config_parse ::
    "(string \<Rightarrow> bool) \<Rightarrow> string \<Rightarrow> string option \<Rightarrow> server_config list result" where
  "config_parse pton path file =
     (case file of
        None \<Rightarrow> Inl (''cannot open config: '' @ path)
      | Some content \<Rightarrow> and_then (tokenize content) (parse_config pton))"

end
