(* ===== verification/Web_Http.thy ===== *)
theory Web_Http
  imports Web_Text "HOL-Library.While_Combinator"
begin

section \<open>webserv: requests and responses\<close>

text \<open>
  Models \<open>apps/webserv/src/Http.cpp\<close>. \<open>parseRequest\<close> returns the \<open>ParseResult\<close>, with the
  request when it is \<open>REQUEST_OK\<close>, the only case in which the caller reads it;
  \<open>PARSE_THROWS\<close> stands for a \<open>std::out_of_range\<close> that leaves the function. The loop of
  \<open>parseChunked\<close> need not end, so it is a \<open>while_option\<close> and \<open>None\<close> means that the call never
  returns. Sums of \<open>size_t\<close> that can wrap are taken modulo \<open>2 ^ 64\<close>.
\<close>

record request =
  rq_method :: string
  rq_target :: string
  rq_path :: string
  rq_query :: string
  rq_version :: string
  rq_headers :: "(string \<times> string) list"
  rq_body :: string
  rq_remoteAddress :: string
  rq_remotePort :: nat

definition new_request :: request where
  "new_request =
     \<lparr>rq_method = [], rq_target = [], rq_path = [], rq_query = [], rq_version = [],
      rq_headers = [], rq_body = [], rq_remoteAddress = [], rq_remotePort = 0\<rparr>"

record response =
  rs_status :: int
  rs_headers :: "(string \<times> string) list"
  rs_body :: string

definition new_response :: "int \<Rightarrow> response" where
  "new_response code = \<lparr>rs_status = code, rs_headers = [], rs_body = []\<rparr>"

definition set_header :: "string \<Rightarrow> string \<Rightarrow> response \<Rightarrow> response" where
  "set_header k v r = r\<lparr>rs_headers := map_set k v (rs_headers r)\<rparr>"

subsection \<open>Writing a response\<close>

definition reasonPhrase :: "int \<Rightarrow> string" where
  "reasonPhrase status =
     (if status = 200 then ''OK'' else if status = 201 then ''Created''
      else if status = 204 then ''No Content'' else if status = 301 then ''Moved Permanently''
      else if status = 400 then ''Bad Request'' else if status = 403 then ''Forbidden''
      else if status = 404 then ''Not Found'' else if status = 405 then ''Method Not Allowed''
      else if status = 409 then ''Conflict'' else if status = 408 then ''Request Timeout''
      else if status = 411 then ''Length Required'' else if status = 413 then ''Payload Too Large''
      else if status = 500 then ''Internal Server Error''
      else if status = 503 then ''Service Unavailable'' else if status = 501 then ''Not Implemented''
      else if status = 504 then ''Gateway Timeout''
      else if status = 505 then ''HTTP Version Not Supported'' else ''Error'')"

definition hasHeader :: "(string \<times> string) list \<Rightarrow> string \<Rightarrow> bool" where
  "hasHeader headers name \<longleftrightarrow> list_ex (\<lambda>(k, v). lower k = name) headers"

definition apostrophe :: string where "apostrophe = [CHR 0x27]"

definition quoted :: "string \<Rightarrow> string" where
  "quoted v = apostrophe @ v @ apostrophe"

definition SECURITY_HEADERS :: "(string \<times> string) list" where
  "SECURITY_HEADERS =
     [(''x-content-type-options'', ''nosniff''),
      (''x-frame-options'', ''DENY''),
      (''referrer-policy'', ''no-referrer''),
      (''content-security-policy'',
       ''default-src '' @ quoted ''self'' @ ''; script-src '' @ quoted ''self''
       @ ''; style-src '' @ quoted ''self'' @ '' '' @ quoted ''unsafe-inline''
       @ ''; img-src '' @ quoted ''self'' @ '' data:; connect-src '' @ quoted ''self''
       @ '' ws: wss:; object-src '' @ quoted ''none'' @ ''; base-uri '' @ quoted ''none''
       @ ''; frame-ancestors '' @ quoted ''none'')]"

definition show_int :: "int \<Rightarrow> string" where
  "show_int i = (if i < 0 then ''-'' @ show_nat (nat (- i)) else show_nat (nat i))"

definition header_line :: "string \<times> string \<Rightarrow> string" where
  "header_line h = fst h @ '': '' @ snd h @ crlf"

definition serialize :: "response \<Rightarrow> string" where
  "serialize r =
     ''HTTP/1.1 '' @ show_int (rs_status r) @ '' '' @ reasonPhrase (rs_status r) @ crlf
     @ concat (map header_line (filter (\<lambda>h. \<not> hasHeader (rs_headers r) (fst h)) SECURITY_HEADERS))
     @ concat (map header_line (rs_headers r))
     @ ''Content-Length: '' @ show_nat (length (rs_body r)) @ crlf
     @ ''Connection: close'' @ crlf @ crlf
     @ rs_body r"

subsection \<open>The path of a request\<close>

text \<open>Decoding the escapes; \<open>None\<close> is the return value \<open>false\<close>.\<close>

fun decodeEscapes :: "string \<Rightarrow> string option" where
  "decodeEscapes [] = Some []"
| "decodeEscapes (c # s) =
     (if c = CHR ''%''
      then (case s of
              h # l # rest \<Rightarrow>
                (case read_hex 32 [h, l] of
                   None \<Rightarrow> None
                 | Some (v, extra) \<Rightarrow>
                     if \<not> only_space extra \<or> v = 0 \<or> v < 0x20 \<or> v = 0x7F then None
                     else map_option (\<lambda>d. char_of v # d) (decodeEscapes rest))
            | _ \<Rightarrow> None)
      else if (of_char c :: nat) < 0x20 \<or> (of_char c :: nat) = 0x7F \<or> c = CHR 0x5C then None
      else map_option (\<lambda>d. c # d) (decodeEscapes s))"

fun split_at :: "char \<Rightarrow> string \<Rightarrow> string list" where
  "split_at c [] = [[]]"
| "split_at c (x # s) =
     (if x = c then [] # split_at c s
      else (case split_at c s of [] \<Rightarrow> [[x]] | seg # segs \<Rightarrow> (x # seg) # segs))"

fun joinSegments :: "string \<Rightarrow> string list \<Rightarrow> string option" where
  "joinSegments output [] = Some output"
| "joinSegments output (segment # segments) =
     (if segment = ''..'' then None
      else if segment \<noteq> [] \<and> segment \<noteq> ''.''
      then joinSegments ((if 1 < length output then output @ ''/'' else output) @ segment) segments
      else joinSegments output segments)"

definition decodePath :: "string \<Rightarrow> string option" where
  "decodePath input =
     (case decodeEscapes input of
        None \<Rightarrow> None
      | Some decoded \<Rightarrow>
          (case joinSegments ''/'' (split_at (CHR ''/'') (drop 1 decoded)) of
             None \<Rightarrow> None
           | Some output \<Rightarrow>
               Some (if 1 < length decoded \<and> last decoded = CHR ''/'' \<and> last output \<noteq> CHR ''/''
                     then output @ ''/'' else output)))"

subsection \<open>The chunked body\<close>

datatype chunk_outcome = ChunkReturn bool string bool | ChunkThrow

text \<open>The walk over the trailer lines; it is called with \<open>trailersEnd\<close> at an empty line.\<close>

function trailersValid :: "string \<Rightarrow> nat \<Rightarrow> nat \<Rightarrow> bool" where
  "trailersValid input trailersEnd trailer =
     (if trailersEnd \<le> trailer then True
      else (case find_text_from crlf trailer input of
              None \<Rightarrow> False
            | Some trailerEnd \<Rightarrow>
                (case find_text_from '':'' trailer input of
                   None \<Rightarrow> False
                 | Some colon \<Rightarrow>
                     colon < trailerEnd \<and> trailersValid input trailersEnd (trailerEnd + 2))))"
  by pat_completeness auto
termination
  by (relation "measure (\<lambda>(input, trailersEnd, trailer). trailersEnd - trailer)")
    (auto dest: find_text_from_SomeD(1))

declare trailersValid.simps [simp del]

definition chunkTrailers :: "string \<Rightarrow> nat \<Rightarrow> string \<Rightarrow> chunk_outcome" where
  "chunkTrailers input pos body =
     (if take 2 (drop pos input) = crlf then ChunkReturn True body True
      else (case find_text_from (crlf @ crlf) pos input of
              None \<Rightarrow> ChunkReturn True body False
            | Some trailersEnd \<Rightarrow>
                if trailersValid input trailersEnd pos then ChunkReturn True body True
                else ChunkReturn False body False))"

text \<open>One round of the loop: the position and body of the next round, or the outcome.\<close>

definition chunkStep :: "string \<Rightarrow> nat \<times> string \<Rightarrow> (nat \<times> string) + chunk_outcome" where
  "chunkStep input st =
     (case st of (pos, body) \<Rightarrow>
        (case find_text_from crlf pos input of
           None \<Rightarrow> Inr (ChunkReturn True body False)
         | Some end \<Rightarrow>
             let sizeText = trim (takeWhile (\<lambda>c. c \<noteq> CHR '';'') (take (end - pos) (drop pos input)))
             in if sizeText = [] then Inr (ChunkReturn False body False)
                else
                  (case read_hex 64 sizeText of
                     None \<Rightarrow> Inr (ChunkReturn False body False)
                   | Some (chunkSize, extra) \<Rightarrow>
                       if \<not> only_space extra then Inr (ChunkReturn False body False)
                       else if chunkSize = 0 then Inr (chunkTrailers input (end + 2) body)
                       else if length input < (end + 2 + chunkSize + 2) mod 2 ^ 64
                       then Inr (ChunkReturn True body False)
                       else
                         let body1 = body @ take chunkSize (drop (end + 2) input);
                             pos1 = (end + 2 + chunkSize) mod 2 ^ 64
                         in if length input < pos1 then Inr ChunkThrow
                            else if take 2 (drop pos1 input) \<noteq> crlf
                            then Inr (ChunkReturn False body1 False)
                            else Inl (pos1 + 2, body1))))"

definition chunkLoop :: "string \<Rightarrow> (nat \<times> string) + chunk_outcome \<Rightarrow> chunk_outcome option" where
  "chunkLoop input st = map_option projr (while_option isl (\<lambda>st. chunkStep input (projl st)) st)"

definition parseChunked :: "string \<Rightarrow> chunk_outcome option" where
  "parseChunked input = chunkLoop input (Inl (0, []))"

lemma chunkLoop_simps:
  "chunkLoop input (Inl st) = chunkLoop input (chunkStep input st)"
  "chunkLoop input (Inr r) = Some r"
  by (simp_all add: chunkLoop_def while_option_unfold [of isl _ "Inl st"] while_option_unfold [of isl _ "Inr r"])

subsection \<open>The request\<close>

definition tokenCharacter :: "char \<Rightarrow> bool" where
  "tokenCharacter c \<longleftrightarrow>
     in_range (CHR ''a'') (CHR ''z'') c \<or> in_range (CHR ''A'') (CHR ''Z'') c \<or> in_range (CHR ''0'') (CHR ''9'') c
     \<or> c \<in> set (''!#$%&'' @ apostrophe @ ''*+-.^_'' @ [CHR 0x60] @ ''|~'')"

definition validToken :: "string \<Rightarrow> bool" where
  "validToken v \<longleftrightarrow> v \<noteq> [] \<and> list_all tokenCharacter v"

datatype parse_outcome =
    REQUEST_INCOMPLETE
  | REQUEST_OK request
  | REQUEST_BAD
  | REQUEST_TOO_LARGE
  | REQUEST_VERSION_NOT_SUPPORTED
  | PARSE_THROWS

definition parseRequestLine :: "string \<Rightarrow> (string \<times> string \<times> string) option" where
  "parseRequestLine line =
     (case next_word line of
        None \<Rightarrow> None
      | Some (method, r1) \<Rightarrow>
          (case next_word r1 of
             None \<Rightarrow> None
           | Some (target, r2) \<Rightarrow>
               (case next_word r2 of
                  None \<Rightarrow> None
                | Some (version, r3) \<Rightarrow>
                    if next_word r3 = None then Some (method, target, version) else None)))"

fun parseHeaders :: "string list \<Rightarrow> (string \<times> string) list \<Rightarrow> (string \<times> string) list option" where
  "parseHeaders [] headers = Some headers"
| "parseHeaders (line0 # lines) headers =
     (let line = chomp_cr line0
      in case find_char (CHR '':'') line of
           None \<Rightarrow> None
         | Some colon \<Rightarrow>
             let key = lower (trim (take colon line))
             in if \<not> validToken key \<or> map_of headers key \<noteq> None then None
                else parseHeaders lines (map_set key (trim (drop (colon + 1) line)) headers))"

text \<open>The body: \<open>request\<close> has its headers; \<open>payload\<close> is what follows the empty line.\<close>

definition parseBody :: "string \<Rightarrow> nat \<Rightarrow> request \<Rightarrow> parse_outcome option" where
  "parseBody payload maxBody request =
     (let te = map_of (rq_headers request) ''transfer-encoding'';
          cl = map_of (rq_headers request) ''content-length''
      in if te \<noteq> None \<and> cl \<noteq> None then Some REQUEST_BAD
         else
           (case te of
              Some coding \<Rightarrow>
                if lower (trim coding) \<noteq> ''chunked'' then Some REQUEST_BAD
                else map_option (\<lambda>r. case r of
                         ChunkThrow \<Rightarrow> PARSE_THROWS
                       | ChunkReturn ok body complete \<Rightarrow>
                           if \<not> ok then REQUEST_BAD
                           else if maxBody < length body then REQUEST_TOO_LARGE
                           else if complete then REQUEST_OK (request\<lparr>rq_body := body\<rparr>)
                           else REQUEST_INCOMPLETE) (parseChunked payload)
            | None \<Rightarrow>
                (case cl of
                   Some txt \<Rightarrow>
                     if txt = [] \<or> hd txt = CHR ''-'' \<or> hd txt = CHR ''+'' then Some REQUEST_BAD
                     else
                       (case strtoul10 txt of (erange, n, rest) \<Rightarrow>
                          if erange \<or> rest \<noteq> [] then Some REQUEST_BAD
                          else if maxBody < n then Some REQUEST_TOO_LARGE
                          else if length payload < n then Some REQUEST_INCOMPLETE
                          else Some (REQUEST_OK (request\<lparr>rq_body := take n payload\<rparr>)))
                 | None \<Rightarrow>
                     if rq_method request = ''POST'' then Some REQUEST_BAD
                     else Some (REQUEST_OK (request\<lparr>rq_body := []\<rparr>)))))"

definition parseRequest :: "string \<Rightarrow> nat \<Rightarrow> parse_outcome option" where
  "parseRequest raw maxBody =
     (case find_text (crlf @ crlf) raw of
        None \<Rightarrow> Some (if 65536 < length raw then REQUEST_BAD else REQUEST_INCOMPLETE)
      | Some headerEnd \<Rightarrow>
          (case getlines (take headerEnd raw) of
             [] \<Rightarrow> Some REQUEST_BAD
           | line # lines \<Rightarrow>
               (case parseRequestLine (chomp_cr line) of
                  None \<Rightarrow> Some REQUEST_BAD
                | Some (method, target, version) \<Rightarrow>
                    if \<not> validToken method then Some REQUEST_BAD
                    else if version \<noteq> ''HTTP/1.1'' then Some REQUEST_VERSION_NOT_SUPPORTED
                    else if target = [] \<or> hd target \<noteq> CHR ''/'' then Some REQUEST_BAD
                    else
                      (case parseHeaders lines [] of
                         None \<Rightarrow> Some REQUEST_BAD
                       | Some headers \<Rightarrow>
                           if map_of headers ''host'' = None then Some REQUEST_BAD
                           else
                             (case decodePath (takeWhile (\<lambda>c. c \<noteq> CHR ''?'') target) of
                                None \<Rightarrow> Some REQUEST_BAD
                              | Some path \<Rightarrow>
                                  parseBody (drop (headerEnd + 4) raw) maxBody
                                    (new_request\<lparr>rq_method := method, rq_target := target,
                                       rq_path := path,
                                       rq_query := drop 1 (dropWhile (\<lambda>c. c \<noteq> CHR ''?'') target),
                                       rq_version := version, rq_headers := headers\<rparr>))))))"

end
