(* ===== verification/Web_Router.thy ===== *)
theory Web_Router
  imports Web_Config Web_Http
begin

section \<open>webserv: routing\<close>

text \<open>
  Models \<open>apps/webserv/src/Router.cpp\<close>. The pointers of \<open>RouteResult\<close> to the matching
  location and to the allowed methods are the values they point to, \<open>None\<close> for \<open>NULL\<close>.
\<close>

datatype route_status = ROUTE_READY | ROUTE_METHOD_NOT_ALLOWED | ROUTE_REDIRECT

record route_result =
  rt_status :: route_status
  rt_location :: "location option"
  rt_methods :: "string list"
  rt_diskPath :: string
  rt_redirect :: string

definition methodAllowed :: "string list \<Rightarrow> string \<Rightarrow> bool" where
  "methodAllowed methods method \<longleftrightarrow> list_ex (\<lambda>m. m = method) methods"

definition prefix_matches :: "string \<Rightarrow> string \<Rightarrow> bool" where
  "prefix_matches prefix path \<longleftrightarrow>
     starts_with prefix path
     \<and> (prefix = ''/'' \<or> prefix \<noteq> [] \<and> last prefix = CHR ''/''
        \<or> length path = length prefix
        \<or> length prefix < length path \<and> path ! length prefix = CHR ''/'')"

definition matchLocation :: "server_config \<Rightarrow> string \<Rightarrow> location option" where
  "matchLocation config path =
     fold (\<lambda>l best.
             if prefix_matches (lc_path l) path
                \<and> (case best of None \<Rightarrow> True | Some b \<Rightarrow> length (lc_path b) < length (lc_path l))
             then Some l else best)
       (sc_locations config) None"

definition resolve :: "request \<Rightarrow> server_config \<Rightarrow> route_result" where
  "resolve request config =
     (let loc = matchLocation config (rq_path request);
          methods = (case loc of Some l \<Rightarrow> lc_methods l | None \<Rightarrow> sc_methods config);
          result = \<lparr>rt_status = ROUTE_READY, rt_location = loc, rt_methods = methods,
                    rt_diskPath = [], rt_redirect = []\<rparr>
      in if \<not> methodAllowed methods (rq_method request)
         then result\<lparr>rt_status := ROUTE_METHOD_NOT_ALLOWED\<rparr>
         else
           (case loc of
              Some l \<Rightarrow>
                if lc_redirect l \<noteq> []
                then result\<lparr>rt_status := ROUTE_REDIRECT, rt_redirect := lc_redirect l\<rparr>
                else
                  let rel0 = (if starts_with (lc_path l) (rq_path request)
                              then drop (length (lc_path l)) (rq_path request) else rq_path request);
                      rel = (if rel0 = [] \<or> hd rel0 \<noteq> CHR ''/'' then ''/'' @ rel0 else rel0)
                  in result\<lparr>rt_diskPath := lc_root l @ rel\<rparr>
            | None \<Rightarrow>
                let rel0 = rq_path request;
                    rel = (if rel0 = [] \<or> hd rel0 \<noteq> CHR ''/'' then ''/'' @ rel0 else rel0)
                in result\<lparr>rt_diskPath := sc_root config @ rel\<rparr>))"

subsection \<open>The longest matching location wins\<close>

definition better :: "string \<Rightarrow> location option \<Rightarrow> location list \<Rightarrow> location option \<Rightarrow> bool" where
  "better path best ls result \<longleftrightarrow>
     (\<forall>l \<in> set ls. prefix_matches (lc_path l) path \<longrightarrow>
        (\<exists>r. result = Some r \<and> length (lc_path l) \<le> length (lc_path r)))
     \<and> (\<forall>b. best = Some b \<longrightarrow> (\<exists>r. result = Some r \<and> length (lc_path b) \<le> length (lc_path r)))
     \<and> (result = best \<or> (\<exists>r \<in> set ls. result = Some r \<and> prefix_matches (lc_path r) path))"

lemma matchLocation_better:
  "better path best ls
     (fold (\<lambda>l best.
              if prefix_matches (lc_path l) path
                 \<and> (case best of None \<Rightarrow> True | Some b \<Rightarrow> length (lc_path b) < length (lc_path l))
              then Some l else best) ls best)"
proof (induction ls arbitrary: best)
  case (Cons l ls)
  let ?best = "if prefix_matches (lc_path l) path
      \<and> (case best of None \<Rightarrow> True | Some b \<Rightarrow> length (lc_path b) < length (lc_path l)) then Some l else best"
  from Cons.IH [of ?best] show ?case
    unfolding better_def fold_simps
    by (cases best) (force split: if_splits)+
qed (simp add: better_def)

lemma matchLocation_longest:
  assumes "matchLocation config path = Some l"
  shows "l \<in> set (sc_locations config)" and "prefix_matches (lc_path l) path"
    and "k \<in> set (sc_locations config) \<Longrightarrow> prefix_matches (lc_path k) path \<Longrightarrow> length (lc_path k) \<le> length (lc_path l)"
  using matchLocation_better [of path None "sc_locations config"] assms
  by (auto simp: better_def matchLocation_def)

lemma matchLocation_None:
  "matchLocation config path = None \<longleftrightarrow> (\<forall>l \<in> set (sc_locations config). \<not> prefix_matches (lc_path l) path)"
  using matchLocation_better [of path None "sc_locations config"]
  by (auto simp: better_def matchLocation_def)

end
