(* ===== verification/Web_Files.thy ===== *)
theory Web_Files
  imports Web_Text
begin

section \<open>webserv: the file system\<close>

text \<open>
  Models \<open>apps/webserv/src/FileSystem.cpp\<close>. The operating system is the argument \<open>os\<close>: what
  each call answers for a path while one request is handled. \<open>os_read\<close> lists the answers of
  \<open>read\<close> before the one that returns 0, \<open>os_write\<close> those of \<open>write\<close>; when they are used up a
  \<open>write\<close> takes all that is left. What a request does to the file system is the list of
  \<open>file_effect\<close>s it returns. Descriptors are opened and closed within one operation and do
  not appear.
\<close>

datatype errno = ENOENT | ENOTDIR | EEXIST | EOTHER

datatype file_kind = KRegular | KDirectory | KSymlink | KOther

datatype read_answer = ReadData string | ReadInterrupted | ReadFailed

datatype write_answer = Wrote nat | WriteInterrupted | WriteFailed

record os =
  os_realpath :: "string \<Rightarrow> errno + string"
  os_lstat :: "string \<Rightarrow> errno + file_kind"
  os_stat :: "string \<Rightarrow> file_kind option"
  os_open :: "string \<Rightarrow> errno option"
  os_fstat :: "string \<Rightarrow> (file_kind \<times> int) option"
  os_read :: "string \<Rightarrow> read_answer list"
  os_openDirectory :: "string \<Rightarrow> bool"
  os_openat :: "string \<Rightarrow> string \<Rightarrow> errno option"
  os_write :: "string \<Rightarrow> string \<Rightarrow> write_answer list"
  os_unlink :: "string \<Rightarrow> bool"
  os_readdir :: "string \<Rightarrow> string list option"
  os_wholeFile :: "string \<Rightarrow> string option"
  os_getcwd :: "string option"
  os_time :: nat

datatype file_effect =
    FileCreated string string
  | FileWritten string string string
  | FileUnlinkedAt string string
  | FileUnlinked string

datatype file_result =
  FILE_OK | FILE_NOT_FOUND | FILE_FORBIDDEN | FILE_CONFLICT | FILE_TOO_LARGE | FILE_ERROR

definition pathInside :: "string \<Rightarrow> string \<Rightarrow> bool" where
  "pathInside root path \<longleftrightarrow>
     (if root = ''/'' then path \<noteq> [] \<and> hd path = CHR ''/''
      else path = root
           \<or> length root < length path \<and> starts_with root path \<and> path ! length root = CHR ''/'')"

definition canonicalPath :: "os \<Rightarrow> string \<Rightarrow> file_result + string" where
  "canonicalPath os path =
     (case os_realpath os path of
        Inl e \<Rightarrow> Inl (if e = ENOENT \<or> e = ENOTDIR then FILE_NOT_FOUND else FILE_FORBIDDEN)
      | Inr p \<Rightarrow> Inr p)"

definition resolveExisting :: "os \<Rightarrow> string \<Rightarrow> string \<Rightarrow> file_result + string" where
  "resolveExisting os root path =
     (case canonicalPath os root of
        Inl _ \<Rightarrow> Inl FILE_ERROR
      | Inr canonicalRoot \<Rightarrow>
          (case os_lstat os path of
             Inl e \<Rightarrow> Inl (if e = ENOENT \<or> e = ENOTDIR then FILE_NOT_FOUND else FILE_FORBIDDEN)
           | Inr kind \<Rightarrow>
               if kind = KSymlink then Inl FILE_FORBIDDEN
               else
                 (case canonicalPath os path of
                    Inl result \<Rightarrow> Inl result
                  | Inr resolved \<Rightarrow>
                      if \<not> pathInside canonicalRoot resolved then Inl FILE_FORBIDDEN
                      else Inr resolved)))"

fun read_all :: "read_answer list \<Rightarrow> string \<Rightarrow> string option" where
  "read_all [] body = Some body"
| "read_all (ReadData d # as) body = (if d = [] then Some body else read_all as (body @ d))"
| "read_all (ReadInterrupted # as) body = read_all as body"
| "read_all (ReadFailed # as) body = None"

definition readRegular :: "os \<Rightarrow> string \<Rightarrow> file_result + string" where
  "readRegular os path =
     (case os_open os path of
        Some e \<Rightarrow> Inl (if e = ENOENT then FILE_NOT_FOUND else FILE_FORBIDDEN)
      | None \<Rightarrow>
          (case os_fstat os path of
             None \<Rightarrow> Inl FILE_FORBIDDEN
           | Some (kind, sz) \<Rightarrow>
               if kind \<noteq> KRegular then Inl FILE_FORBIDDEN
               else if sz < 0 \<or> 16 * 1024 * 1024 < sz then Inl FILE_TOO_LARGE
               else (case read_all (os_read os path) [] of
                       None \<Rightarrow> Inl FILE_ERROR | Some body \<Rightarrow> Inr body)))"

text \<open>The loop of \<open>createExclusive\<close> from the bytes not yet written: success and effects.\<close>

fun write_all :: "string \<Rightarrow> string \<Rightarrow> write_answer list \<Rightarrow> string \<Rightarrow> bool \<times> file_effect list" where
  "write_all dir name as [] = (True, [])"
| "write_all dir name [] body = (True, [FileWritten dir name body])"
| "write_all dir name (Wrote n # as) body =
     (if n = 0 then (False, [FileUnlinkedAt dir name])
      else (case write_all dir name as (drop n body) of (ok, es) \<Rightarrow>
              (ok, FileWritten dir name (take n body) # es)))"
| "write_all dir name (WriteInterrupted # as) body = write_all dir name as body"
| "write_all dir name (WriteFailed # as) body = (False, [FileUnlinkedAt dir name])"

definition createExclusive :: "os \<Rightarrow> string \<Rightarrow> string \<Rightarrow> string \<Rightarrow> file_result \<times> file_effect list" where
  "createExclusive os directory name body =
     (case canonicalPath os directory of
        Inl _ \<Rightarrow> (FILE_ERROR, [])
      | Inr dir \<Rightarrow>
          if \<not> os_openDirectory os dir then (FILE_FORBIDDEN, [])
          else
            (case os_openat os dir name of
               Some e \<Rightarrow> (if e = EEXIST then FILE_CONFLICT else FILE_FORBIDDEN, [])
             | None \<Rightarrow>
                 (case write_all dir name (os_write os dir name) body of (ok, es) \<Rightarrow>
                    (if ok then FILE_OK else FILE_ERROR, FileCreated dir name # es))))"

definition removeRegular :: "os \<Rightarrow> string \<Rightarrow> string \<Rightarrow> file_result \<times> file_effect list" where
  "removeRegular os root path =
     (case resolveExisting os root path of
        Inl result \<Rightarrow> (result, [])
      | Inr resolved \<Rightarrow>
          if os_open os resolved \<noteq> None then (FILE_FORBIDDEN, [])
          else if map_option fst (os_fstat os resolved) \<noteq> Some KRegular then (FILE_FORBIDDEN, [])
          else if \<not> os_unlink os path then (FILE_FORBIDDEN, [])
          else (FILE_OK, [FileUnlinked path]))"

subsection \<open>Confinement\<close>

lemma resolveExisting_inside:
  assumes "resolveExisting os root path = Inr resolved"
  obtains r where "os_realpath os root = Inr r" and "os_realpath os path = Inr resolved"
    and "pathInside r resolved" and "os_lstat os path \<noteq> Inr KSymlink"
  using assms by (auto simp: resolveExisting_def canonicalPath_def split: sum.splits if_splits)

lemma write_all_effects:
  "write_all dir name as body = (ok, es) \<Longrightarrow> e \<in> set es \<Longrightarrow>
     e = FileUnlinkedAt dir name \<or> (\<exists>d. e = FileWritten dir name d)"
  by (induction dir name as body arbitrary: ok es rule: write_all.induct)
    (auto split: prod.splits if_splits)

definition written :: "file_effect list \<Rightarrow> string" where
  "written es = concat (map (\<lambda>e. case e of FileWritten d n b \<Rightarrow> b | _ \<Rightarrow> []) es)"

lemma write_all_content:
  "write_all dir name as body = (True, es) \<Longrightarrow>
     written es = body \<and> (\<forall>e \<in> set es. \<exists>d. e = FileWritten dir name d)"
proof (induction dir name as body arbitrary: es rule: write_all.induct)
  case (3 dir name n as v va)
  then show ?case by (fastforce simp: written_def split: prod.splits if_splits)
qed (auto simp: written_def)

lemma createExclusive_effects:
  assumes "createExclusive os directory name body = (result, es)" and "es \<noteq> []"
  obtains dir es' where "os_realpath os directory = Inr dir" and "os_openat os dir name = None"
    and "es = FileCreated dir name # es'"
    and "result = FILE_OK \<Longrightarrow> written es' = body"
    and "\<And>e. e \<in> set es' \<Longrightarrow> e = FileUnlinkedAt dir name \<or> (\<exists>d. e = FileWritten dir name d)"
  using assms write_all_content write_all_effects
  by (fastforce simp: createExclusive_def canonicalPath_def split: sum.splits if_splits option.splits prod.splits)

lemma removeRegular_effects:
  assumes "removeRegular os root path = (result, es)" and "es \<noteq> []"
  obtains r p where "es = [FileUnlinked path]" and "result = FILE_OK" and "os_realpath os root = Inr r"
    and "os_realpath os path = Inr p" and "pathInside r p" and "map_option fst (os_fstat os p) = Some KRegular"
  using assms by (auto simp: removeRegular_def split: sum.splits if_splits elim!: resolveExisting_inside)

end
