(* ===== verification/Web_Handlers.thy ===== *)
theory Web_Handlers
  imports Web_Router Web_Files
begin

section \<open>webserv: the handlers and the dispatcher\<close>

text \<open>
  Models \<open>ResponseFactory.cpp\<close>, \<open>StaticHandler.cpp\<close>, \<open>UploadHandler.cpp\<close>,
  \<open>DeleteHandler.cpp\<close> and \<open>Dispatcher.cpp\<close> of \<open>apps/webserv/src\<close>. The handlers that write
  return the effects on the file system with the response.
\<close>

subsection \<open>ResponseFactory\<close>

definition readErrorPage :: "os \<Rightarrow> string \<Rightarrow> string option" where
  "readErrorPage os path = os_wholeFile os path"

definition error_response :: "os \<Rightarrow> int \<Rightarrow> server_config \<Rightarrow> response" where
  "error_response os status config =
     (let r0 = new_response status;
          page = (case sc_errorPages config status of
                    None \<Rightarrow> []
                  | Some path \<Rightarrow> (case readErrorPage os path of None \<Rightarrow> [] | Some body \<Rightarrow> body));
          body = (if page = []
                  then ''<!doctype html><html><body><h1>'' @ toString (nat (status mod 2 ^ 64)) @ '' ''
                       @ reasonPhrase status @ ''</h1></body></html>''
                  else page)
      in set_header ''Content-Type'' ''text/html; charset=utf-8'' (r0\<lparr>rs_body := body\<rparr>))"

subsection \<open>StaticHandler\<close>

definition mimeType :: "string \<Rightarrow> string" where
  "mimeType path =
     (let ext = (case split_last (CHR ''.'') path of
                   None \<Rightarrow> [] | Some (_, e) \<Rightarrow> lower (''.'' @ e))
      in if ext = ''.html'' \<or> ext = ''.htm'' then ''text/html; charset=utf-8''
         else if ext = ''.css'' then ''text/css; charset=utf-8''
         else if ext = ''.js'' then ''application/javascript''
         else if ext = ''.json'' then ''application/json''
         else if ext = ''.png'' then ''image/png''
         else if ext = ''.jpg'' \<or> ext = ''.jpeg'' then ''image/jpeg''
         else if ext = ''.gif'' then ''image/gif''
         else if ext = ''.svg'' then ''image/svg+xml''
         else if ext = ''.txt'' then ''text/plain; charset=utf-8''
         else ''application/octet-stream'')"

definition escapeHtml :: "string \<Rightarrow> string" where
  "escapeHtml txt =
     concat (map (\<lambda>c. if c = CHR ''&'' then ''&amp;''
                      else if c = CHR ''<'' then ''&lt;''
                      else if c = CHR ''>'' then ''&gt;''
                      else if c = CHR 0x22 then ''&quot;'' else [c]) txt)"

fun listingLoop :: "string list \<Rightarrow> string \<Rightarrow> string option" where
  "listingLoop [] body = Some body"
| "listingLoop (name # names) body =
     (if name = ''.'' then listingLoop names body
      else
        let body1 = body @ ''<li><a href='' @ [CHR 0x22] @ escapeHtml name @ [CHR 0x22] @ ''>''
                      @ escapeHtml name @ ''</a></li>''
        in if 1024 * 1024 < length body1 then None else listingLoop names body1)"

definition directoryListing :: "os \<Rightarrow> string \<Rightarrow> string \<Rightarrow> string option" where
  "directoryListing os disk uri =
     (case os_readdir os disk of
        None \<Rightarrow> None
      | Some names \<Rightarrow>
          (case listingLoop names
                  (''<!doctype html><html><body><h1>Index of '' @ escapeHtml uri @ ''</h1><ul>'') of
             None \<Rightarrow> None
           | Some body \<Rightarrow> Some (body @ ''</ul></body></html>'')))"

definition route_root :: "route_result \<Rightarrow> server_config \<Rightarrow> string" where
  "route_root route config = (case rt_location route of Some l \<Rightarrow> lc_root l | None \<Rightarrow> sc_root config)"

text \<open>The end of \<open>StaticHandler::handle\<close>: the file at \<open>resolved\<close>, named \<open>filePath\<close>.\<close>

definition serveFile ::
    "os \<Rightarrow> route_result \<Rightarrow> server_config \<Rightarrow> string \<Rightarrow> string \<Rightarrow> file_kind \<Rightarrow> response" where
  "serveFile os route config filePath resolved kind =
     (if kind \<noteq> KRegular then error_response os 403 config
      else
        (case readRegular os resolved of
           Inl result \<Rightarrow>
             if result = FILE_TOO_LARGE then error_response os 413 config
             else error_response os 403 config
         | Inr body \<Rightarrow>
             let r = (new_response 200)\<lparr>rs_body := body\<rparr>
             in if (case rt_location route of Some l \<Rightarrow> lc_uploadDir l \<noteq> [] | None \<Rightarrow> False)
                then set_header ''Content-Disposition'' ''attachment''
                       (set_header ''Content-Type'' ''application/octet-stream'' r)
                else set_header ''Content-Type'' (mimeType filePath) r))"

text \<open>The directory branch of \<open>StaticHandler::handle\<close>.\<close>

definition serveDirectory ::
    "os \<Rightarrow> request \<Rightarrow> route_result \<Rightarrow> server_config \<Rightarrow> string \<Rightarrow> response" where
  "serveDirectory os request route config resolved =
     (if rq_path request = [] \<or> last (rq_path request) \<noteq> CHR ''/''
      then set_header ''Location''
             (rq_path request @ ''/'' @ (if rq_query request = [] then [] else ''?'' @ rq_query request))
             (new_response 301)
      else
        let index = (case rt_location route of Some l \<Rightarrow> lc_index l | None \<Rightarrow> sc_index config);
            diskPath = rt_diskPath route;
            filePath = (if index \<noteq> [] \<and> last diskPath \<noteq> CHR ''/'' then diskPath @ ''/'' else diskPath)
                         @ index;
            indexResult = (if index = [] then Inl FILE_NOT_FOUND
                           else resolveExisting os (route_root route config) filePath)
        in case indexResult of
             Inl result \<Rightarrow>
               if result = FILE_FORBIDDEN then error_response os 403 config
               else if \<not> (case rt_location route of
                             Some l \<Rightarrow> lc_autoindex l | None \<Rightarrow> sc_autoindex config)
               then error_response os 403 config
               else
                 (case directoryListing os resolved (rq_path request) of
                    None \<Rightarrow> error_response os 403 config
                  | Some body \<Rightarrow>
                      set_header ''Content-Type'' ''text/html; charset=utf-8''
                        ((new_response 200)\<lparr>rs_body := body\<rparr>))
           | Inr resolvedIndex \<Rightarrow>
               (case os_stat os resolvedIndex of
                  None \<Rightarrow> error_response os 403 config
                | Some kind \<Rightarrow> serveFile os route config filePath resolvedIndex kind))"

definition static_handle :: "os \<Rightarrow> request \<Rightarrow> route_result \<Rightarrow> server_config \<Rightarrow> response" where
  "static_handle os request route config =
     (case resolveExisting os (route_root route config) (rt_diskPath route) of
        Inl result \<Rightarrow>
          if result = FILE_NOT_FOUND then error_response os 404 config else error_response os 403 config
      | Inr resolved \<Rightarrow>
          (case os_stat os resolved of
             None \<Rightarrow> error_response os 403 config
           | Some kind \<Rightarrow>
               if kind = KDirectory then serveDirectory os request route config resolved
               else serveFile os route config (rt_diskPath route) resolved kind))"

subsection \<open>UploadHandler and DeleteHandler\<close>

definition validFileName :: "string \<Rightarrow> bool" where
  "validFileName name \<longleftrightarrow>
     name \<noteq> [] \<and> length name \<le> 128 \<and> hd name \<noteq> CHR ''.''
     \<and> list_all (\<lambda>c. in_range (CHR ''a'') (CHR ''z'') c \<or> in_range (CHR ''A'') (CHR ''Z'') c \<or> in_range (CHR ''0'') (CHR ''9'') c \<or> c = CHR ''.'' \<or> c = CHR ''-'' \<or> c = CHR ''_'') name"

definition upload_handle ::
    "os \<Rightarrow> request \<Rightarrow> route_result \<Rightarrow> server_config \<Rightarrow> response \<times> file_effect list" where
  "upload_handle os request route config =
     (case rt_location route of
        None \<Rightarrow> (error_response os 403 config, [])
      | Some l \<Rightarrow>
          if lc_uploadDir l = [] then (error_response os 403 config, [])
          else
            let name = (case map_of (rq_headers request) ''x-filename'' of
                          Some n \<Rightarrow> n | None \<Rightarrow> ''upload-'' @ toString (os_time os) @ ''.bin'')
            in if \<not> validFileName name then (error_response os 400 config, [])
               else
                 (case createExclusive os (lc_uploadDir l) name (rq_body request) of (result, es) \<Rightarrow>
                    (if result = FILE_CONFLICT then error_response os 409 config
                     else if result = FILE_FORBIDDEN then error_response os 403 config
                     else if result \<noteq> FILE_OK then error_response os 500 config
                     else set_header ''Content-Type'' ''text/plain; charset=utf-8''
                            (set_header ''Location'' (rq_path request @ ''/'' @ name)
                              ((new_response 201)\<lparr>rs_body := ''created'' @ [LF]\<rparr>)), es)))"

definition delete_handle :: "os \<Rightarrow> route_result \<Rightarrow> server_config \<Rightarrow> response \<times> file_effect list" where
  "delete_handle os route config =
     (case removeRegular os (route_root route config) (rt_diskPath route) of (result, es) \<Rightarrow>
        (if result = FILE_NOT_FOUND then error_response os 404 config
         else if result \<noteq> FILE_OK then error_response os 403 config
         else new_response 204, es))"

subsection \<open>Dispatcher\<close>

fun join_methods :: "string list \<Rightarrow> string" where
  "join_methods [] = []"
| "join_methods [m] = m"
| "join_methods (m # ms) = m @ '', '' @ join_methods ms"

definition dispatch :: "os \<Rightarrow> request \<Rightarrow> server_config \<Rightarrow> response \<times> file_effect list" where
  "dispatch os request config =
     (let route = resolve request config
      in if rt_status route = ROUTE_METHOD_NOT_ALLOWED
         then (set_header ''Allow'' (join_methods (rt_methods route)) (error_response os 405 config), [])
         else if rt_status route = ROUTE_REDIRECT
         then (set_header ''Location'' (rt_redirect route)
                 (new_response (case rt_location route of Some l \<Rightarrow> lc_redirectStatus l | None \<Rightarrow> 0)), [])
         else if rq_method request = ''DELETE'' then delete_handle os route config
         else if rq_method request = ''POST'' then upload_handle os request route config
         else (static_handle os request route config, []))"

end
