(* ===== verification/Web_Cgi.thy ===== *)
theory Web_Cgi
  imports Web_Handlers
begin

section \<open>webserv: CGI\<close>

text \<open>
  Models \<open>apps/webserv/src/CgiHandler.cpp\<close>. \<open>cgi_answers\<close> holds what \<open>pipe\<close>, \<open>fork\<close> and
  \<open>fcntl\<close> return; \<open>cgi_start\<close> is the result of \<open>CgiHandler::start\<close> in the parent, with the
  descriptors it opened and closed and the program the child executes. The limits the child
  sets for itself before \<open>execve\<close> are not modelled.
\<close>

subsection \<open>Paths and the environment\<close>

definition directoryName :: "string \<Rightarrow> string" where
  "directoryName path = (case split_last (CHR ''/'') path of None \<Rightarrow> ''.'' | Some (d, b) \<Rightarrow> d)"

definition baseName :: "string \<Rightarrow> string" where
  "baseName path = (case split_last (CHR ''/'') path of None \<Rightarrow> path | Some (d, b) \<Rightarrow> b)"

definition environment_char :: "char \<Rightarrow> char" where
  "environment_char c =
     (if c = CHR ''-'' then CHR ''_''
      else if CHR ''a'' \<le> c \<and> c \<le> CHR ''z'' then char_of (of_char c - (32::nat)) else c)"

definition headerEnvironmentName :: "string \<Rightarrow> string" where
  "headerEnvironmentName header = ''HTTP_'' @ map environment_char header"

definition absolutePath :: "os \<Rightarrow> string \<Rightarrow> string" where
  "absolutePath os path =
     (if path \<noteq> [] \<and> hd path = CHR ''/'' then path
      else (case os_getcwd os of None \<Rightarrow> path | Some current \<Rightarrow> current @ ''/'' @ path))"

definition serverName :: "request \<Rightarrow> server_config \<Rightarrow> string" where
  "serverName request config =
     (case map_of (rq_headers request) ''host'' of
        None \<Rightarrow> sc_host config
      | Some host \<Rightarrow> (case split_last (CHR '':'') host of None \<Rightarrow> host | Some (h, p) \<Rightarrow> h))"

text \<open>\<open>addEnvironment\<close> appends \<open>name=value\<close>; the environment is kept as the list of pairs.\<close>

definition cgi_environment ::
    "os \<Rightarrow> request \<Rightarrow> string \<Rightarrow> string \<Rightarrow> server_config \<Rightarrow> (string \<times> string) list" where
  "cgi_environment os request diskPath root config =
     [(''GATEWAY_INTERFACE'', ''CGI/1.1''),
      (''SERVER_PROTOCOL'', rq_version request),
      (''SERVER_SOFTWARE'', ''webserv/1.0''),
      (''REQUEST_METHOD'', rq_method request),
      (''REQUEST_URI'', rq_target request),
      (''QUERY_STRING'', rq_query request),
      (''CONTENT_LENGTH'', toString (length (rq_body request))),
      (''SCRIPT_NAME'', rq_path request),
      (''SCRIPT_FILENAME'', absolutePath os diskPath),
      (''PATH_INFO'', rq_path request),
      (''PATH_TRANSLATED'', absolutePath os diskPath),
      (''DOCUMENT_ROOT'', absolutePath os root),
      (''SERVER_NAME'', serverName request config),
      (''SERVER_PORT'', toString (sc_port config)),
      (''REMOTE_ADDR'', rq_remoteAddress request),
      (''REMOTE_PORT'', toString (rq_remotePort request)),
      (''REDIRECT_STATUS'', ''200'')]
     @ (case map_of (rq_headers request) ''content-type'' of
          None \<Rightarrow> [] | Some v \<Rightarrow> [(''CONTENT_TYPE'', v)])
     @ map (\<lambda>(k, v). (headerEnvironmentName k, v))
         (filter (\<lambda>(k, v). k \<noteq> ''content-length'' \<and> k \<noteq> ''content-type'' \<and> k \<noteq> ''proxy'')
           (rq_headers request))"

subsection \<open>Choosing the interpreter\<close>

definition ends_with :: "string \<Rightarrow> string \<Rightarrow> bool" where
  "ends_with ext path \<longleftrightarrow> length ext \<le> length path \<and> drop (length path - length ext) path = ext"

definition selectInterpreter :: "route_result \<Rightarrow> string" where
  "selectInterpreter route =
     (case rt_location route of
        None \<Rightarrow> []
      | Some l \<Rightarrow>
          fst (fold (\<lambda>(ext, program) (selected, selectedLength).
                       if selectedLength < length ext \<and> ends_with ext (rt_diskPath route)
                       then (program, length ext) else (selected, selectedLength))
                 (lc_cgiHandlers l) ([], 0)))"

definition cgi_matches :: "route_result \<Rightarrow> bool" where
  "cgi_matches route \<longleftrightarrow> selectInterpreter route \<noteq> []"

subsection \<open>Starting the process\<close>

record cgi_answers =
  ca_inputPipe :: "(int \<times> int) option"
  ca_outputPipe :: "(int \<times> int) option"
  ca_fork :: int
  ca_nonBlocking :: bool

record cgi_process =
  cp_pid :: int
  cp_inputFd :: int
  cp_outputFd :: int

record cgi_launch =
  cl_executable :: string
  cl_script :: string
  cl_directory :: string
  cl_environment :: "(string \<times> string) list"

record cgi_start =
  cs_process :: "cgi_process option"
  cs_opened :: "int list"
  cs_closed :: "int list"
  cs_launch :: "cgi_launch option"

definition start_cgi ::
    "os \<Rightarrow> cgi_answers \<Rightarrow> request \<Rightarrow> route_result \<Rightarrow> server_config \<Rightarrow> cgi_start" where
  "start_cgi os a request route config =
     (let fail = (\<lambda>opened closed launch.
            \<lparr>cs_process = None, cs_opened = opened, cs_closed = closed, cs_launch = launch\<rparr>)
      in if os_stat os (rt_diskPath route) \<noteq> Some KRegular then fail [] [] None
         else
           (case ca_inputPipe a of
              None \<Rightarrow> fail [] [] None
            | Some (in0, in1) \<Rightarrow>
                (case ca_outputPipe a of
                   None \<Rightarrow> fail [in0, in1] [in0, in1] None
                 | Some (out0, out1) \<Rightarrow>
                     let opened = [in0, in1, out0, out1];
                         executable = selectInterpreter route;
                         launch = \<lparr>cl_executable = executable,
                                   cl_script = baseName (rt_diskPath route),
                                   cl_directory = directoryName (rt_diskPath route),
                                   cl_environment =
                                     cgi_environment os request (rt_diskPath route)
                                       (route_root route config) config\<rparr>
                     in if executable = [] then fail opened [in0, in1, out0, out1] None
                        else if ca_fork a < 0 then fail opened [in0, out1, in1, out0] None
                        else if \<not> ca_nonBlocking a
                        then fail opened [in0, out1, in1, out0] (Some launch)
                        else
                          \<lparr>cs_process = Some \<lparr>cp_pid = ca_fork a, cp_inputFd = in1, cp_outputFd = out0\<rparr>,
                           cs_opened = opened, cs_closed = [in0, out1], cs_launch = Some launch\<rparr>)))"

subsection \<open>The response of a script\<close>

text \<open>\<open>stream >> code\<close> for an \<open>int\<close>: \<open>None\<close> when there is no number or it does not fit.\<close>

definition read_int :: "string \<Rightarrow> int option" where
  "read_int s =
     (let t = dropWhile is_space s;
          neg = (t \<noteq> [] \<and> hd t = CHR ''-'');
          u = (if t \<noteq> [] \<and> (hd t = CHR ''-'' \<or> hd t = CHR ''+'') then tl t else t);
          ds = takeWhile is_digit u;
          n = (if neg then - int (dec_value ds) else int (dec_value ds))
      in if ds = [] \<or> n < - (2 ^ 31) \<or> 2 ^ 31 \<le> n then None else Some n)"

fun cgi_headers :: "string list \<Rightarrow> response \<Rightarrow> bool \<Rightarrow> (response \<times> bool) option" where
  "cgi_headers [] r hasContentType = Some (r, hasContentType)"
| "cgi_headers (line0 # lines) r hasContentType =
     (let line = chomp_cr line0
      in case find_char (CHR '':'') line of
           None \<Rightarrow> None
         | Some colon \<Rightarrow>
             let name = trim (take colon line);
                 val = trim (drop (colon + 1) line)
             in if lower name = ''status''
                then (case read_int val of
                        None \<Rightarrow> None
                      | Some code \<Rightarrow>
                          if code < 100 \<or> 599 < code then None
                          else cgi_headers lines (r\<lparr>rs_status := code\<rparr>) hasContentType)
                else if lower name \<noteq> ''content-length'' \<and> lower name \<noteq> ''connection''
                then cgi_headers lines (set_header name val r)
                       (hasContentType \<or> lower name = ''content-type'')
                else cgi_headers lines r hasContentType)"

text \<open>The position and the length of the separator between headers and body.\<close>

definition cgi_separator :: "string \<Rightarrow> (nat \<times> nat) option" where
  "cgi_separator output =
     (case find_text (crlf @ crlf) output of
        Some i \<Rightarrow> Some (i, 4)
      | None \<Rightarrow> map_option (\<lambda>i. (i, 2)) (find_text [LF, LF] output))"

definition makeResponse :: "os \<Rightarrow> string \<Rightarrow> server_config \<Rightarrow> response" where
  "makeResponse os output config =
     (case cgi_separator output of
        None \<Rightarrow> error_response os 500 config
      | Some (separator, separatorSize) \<Rightarrow>
          (case cgi_headers (getlines (take separator output)) (new_response 200) False of
             None \<Rightarrow> error_response os 500 config
           | Some (r, hasContentType) \<Rightarrow>
               let r1 = r\<lparr>rs_body := drop (separator + separatorSize) output\<rparr>
               in if hasContentType then r1
                  else set_header ''Content-Type'' ''text/plain; charset=utf-8'' r1))"

subsection \<open>The environment does not carry an outbound proxy\<close>

lemma environment_char_eq:
  "environment_char c = d \<Longrightarrow> CHR ''A'' \<le> d \<Longrightarrow> d \<le> CHR ''Z'' \<Longrightarrow>
     \<not> (CHR ''A'' \<le> c \<and> c \<le> CHR ''Z'') \<Longrightarrow> of_char c = of_char d + (32::nat)"
  by (auto simp: environment_char_def char_simps of_char_of split: if_splits)

end
