(* ===== verification/Web_Server.thy ===== *)
theory Web_Server
  imports Web_Cgi Poll_List
begin

section \<open>webserv: the server and its event loop\<close>

text \<open>
  Models \<open>apps/webserv/src/Server.cpp\<close>. What the kernel answers while one event is handled is
  a \<open>web_answers\<close>; a \<open>web_tick\<close> holds the answers of one round of the loop. A reference or an
  iterator into \<open>_clients\<close> is its key, so a read through it sees every earlier write. The trace
  of a state lists what the server asked of the kernel, the newest call first; the C++ class
  has no such field. \<open>NULL\<close> as the configuration of a client is \<open>None\<close>, and reading through it
  is the outcome \<open>NullConfig\<close>.
\<close>

datatype client_phase = CLIENT_READING | CLIENT_CGI_WRITING | CLIENT_CGI_READING | CLIENT_WRITING

record web_client =
  wc_fd :: int
  wc_config :: "server_config option"
  wc_input :: string
  wc_output :: string
  wc_sent :: nat
  wc_touched :: int
  wc_cgiPid :: int
  wc_cgiInputFd :: int
  wc_cgiOutputFd :: int
  wc_cgiInput :: string
  wc_cgiWritten :: nat
  wc_cgiOutput :: string
  wc_remoteAddress :: string
  wc_remotePort :: nat
  wc_timeoutSeconds :: nat
  wc_phase :: client_phase

definition new_web_client :: web_client where
  "new_web_client =
     \<lparr>wc_fd = - 1, wc_config = None, wc_input = [], wc_output = [], wc_sent = 0, wc_touched = 0,
      wc_cgiPid = - 1, wc_cgiInputFd = - 1, wc_cgiOutputFd = - 1, wc_cgiInput = [],
      wc_cgiWritten = 0, wc_cgiOutput = [], wc_remoteAddress = [], wc_remotePort = 0,
      wc_timeoutSeconds = 30, wc_phase = CLIENT_READING\<rparr>"

datatype web_effect =
    FdOpened int
  | FdClosed int
  | ChildStarted int cgi_launch
  | ChildKilled int
  | ChildReaped int
  | SentTo int string
  | PipedTo int string
  | OnDisk file_effect

record webserver =
  ws_configs :: "server_config list"
  ws_listeners :: "(int \<times> server_config) list"
  ws_clients :: "(int \<times> web_client) list"
  ws_inputOwners :: "int \<rightharpoonup> int"
  ws_outputOwners :: "int \<rightharpoonup> int"
  ws_pollFds :: "pollfd list"
  ws_trace :: "web_effect list"

text \<open>How an operation ends: it returns, it throws, it never returns, it reads through \<open>NULL\<close>.\<close>

datatype web_outcome = Done webserver | Raised string webserver | Stuck | NullConfig webserver

definition web_then :: "web_outcome \<Rightarrow> (webserver \<Rightarrow> web_outcome) \<Rightarrow> web_outcome" where
  "web_then r f = (case r of Done s \<Rightarrow> f s | Raised msg s \<Rightarrow> Raised msg s | Stuck \<Rightarrow> Stuck
     | NullConfig s \<Rightarrow> NullConfig s)"

definition with_config :: "web_client \<Rightarrow> webserver \<Rightarrow> (server_config \<Rightarrow> web_outcome) \<Rightarrow> web_outcome" where
  "with_config c s f = (case wc_config c of None \<Rightarrow> NullConfig s | Some config \<Rightarrow> f config)"

lemma web_then_simps [simp]:
  "web_then (Done s) f = f s"
  "web_then (Raised msg s) f = Raised msg s"
  "web_then Stuck f = Stuck"
  "web_then (NullConfig s) f = NullConfig s"
  by (simp_all add: web_then_def)

lemma web_then_Done: "web_then r f = Done t \<longleftrightarrow> (\<exists>s. r = Done s \<and> f s = Done t)"
  by (cases r) simp_all

lemma web_then_cong [fundef_cong]:
  "r = r' \<Longrightarrow> (\<And>s. r' = Done s \<Longrightarrow> f s = g s) \<Longrightarrow> web_then r f = web_then r' g"
  by (cases r') simp_all

subsection \<open>What the kernel answers\<close>

datatype input_answer = InputAgain | InputFailed | InputData string

datatype output_answer = OutputAgain | OutputFailed | OutputTook nat

record accept_answer =
  aa_fd :: int
  aa_nonBlocking :: bool
  aa_address :: "string option"
  aa_port :: nat

record listen_answer =
  la_socket :: int
  la_setsockopt :: bool
  la_nonBlocking :: bool
  la_bind :: bool
  la_listen :: bool

record web_answers =
  wa_os :: os
  wa_accept :: "accept_answer list"
  wa_input :: input_answer
  wa_output :: output_answer
  wa_cgi :: cgi_answers
  wa_waitNoHang :: "int \<Rightarrow> int option"
  wa_wait :: "int \<Rightarrow> int"

definition wa_now :: "web_answers \<Rightarrow> int" where
  "wa_now a = int (os_time (wa_os a))"

record web_tick =
  wt_running :: bool
  wt_ready :: int
  wt_interrupted :: bool
  wt_revents :: "int \<Rightarrow> poll_flag set"
  wt_answers :: "int \<Rightarrow> web_answers"
  wt_end :: web_answers

text \<open>\<open>WIFEXITED(status) && WEXITSTATUS(status) == 0\<close> of Linux.\<close>

definition exited_zero :: "int \<Rightarrow> bool" where
  "exited_zero status \<longleftrightarrow> status mod 128 = 0 \<and> status div 256 mod 256 = 0"

subsection \<open>Reading and writing the state\<close>

definition effects :: "web_effect list \<Rightarrow> webserver \<Rightarrow> webserver" where
  "effects es s = s\<lparr>ws_trace := rev es @ ws_trace s\<rparr>"

definition find_client :: "int \<Rightarrow> webserver \<Rightarrow> web_client option" where
  "find_client fd s = map_of (ws_clients s) fd"

definition put_client :: "int \<Rightarrow> web_client \<Rightarrow> webserver \<Rightarrow> webserver" where
  "put_client fd c s = s\<lparr>ws_clients := map_set fd c (ws_clients s)\<rparr>"

definition erase_client :: "int \<Rightarrow> webserver \<Rightarrow> webserver" where
  "erase_client fd s = s\<lparr>ws_clients := filter (\<lambda>(k, c). k \<noteq> fd) (ws_clients s)\<rparr>"

text \<open>\<open>_clients[fd]\<close> inserts a new client when there is none.\<close>

definition client_slot :: "int \<Rightarrow> webserver \<Rightarrow> web_client \<times> webserver" where
  "client_slot fd s =
     (case find_client fd s of
        Some c \<Rightarrow> (c, s)
      | None \<Rightarrow> (new_web_client, put_client fd new_web_client s))"

definition add_pollfd :: "int \<Rightarrow> poll_flag set \<Rightarrow> webserver \<Rightarrow> webserver" where
  "add_pollfd fd events s =
     s\<lparr>ws_pollFds := ws_pollFds s @ [\<lparr>pf_fd = fd, pf_events = events, pf_revents = {}\<rparr>]\<rparr>"

definition set_events_at :: "nat \<Rightarrow> poll_flag set \<Rightarrow> webserver \<Rightarrow> webserver" where
  "set_events_at i events s =
     s\<lparr>ws_pollFds := (ws_pollFds s)[i := (ws_pollFds s ! i)\<lparr>pf_events := events\<rparr>]\<rparr>"

definition removePollFd :: "int \<Rightarrow> webserver \<Rightarrow> webserver" where
  "removePollFd fd s = s\<lparr>ws_pollFds := erase_pollfd fd (ws_pollFds s)\<rparr>"

subsection \<open>Opening and closing\<close>

definition new_webserver :: "server_config list \<Rightarrow> webserver" where
  "new_webserver configs =
     \<lparr>ws_configs = configs, ws_listeners = [], ws_clients = [], ws_inputOwners = Map.empty,
      ws_outputOwners = Map.empty, ws_pollFds = [], ws_trace = []\<rparr>"

definition openListener ::
    "(string \<Rightarrow> bool) \<Rightarrow> listen_answer \<Rightarrow> server_config \<Rightarrow> webserver \<Rightarrow> web_outcome" where
  "openListener pton a config s =
     (let fd = la_socket a;
          s1 = effects [FdOpened fd] s;
          failed = (\<lambda>msg. Raised msg (effects [FdClosed fd] s1))
      in if fd < 0 then Raised ''socket failed'' s
         else if \<not> la_setsockopt a then failed ''setsockopt failed''
         else if \<not> la_nonBlocking a then Raised ''fcntl failed'' s1
         else if \<not> pton (sc_host config) then failed (''invalid listen address: '' @ sc_host config)
         else if \<not> la_bind a \<or> \<not> la_listen a
         then failed (''cannot listen on port '' @ toString (sc_port config))
         else Done (add_pollfd fd {POLLIN} (s1\<lparr>ws_listeners := ws_listeners s1 @ [(fd, config)]\<rparr>)))"

fun openListeners ::
    "(string \<Rightarrow> bool) \<Rightarrow> (listen_answer \<times> server_config) list \<Rightarrow> webserver \<Rightarrow> web_outcome" where
  "openListeners pton [] s = Done s"
| "openListeners pton ((a, config) # rest) s =
     web_then (openListener pton a config s) (openListeners pton rest)"

text \<open>The destructor, with the children it still waits for.\<close>

definition close_all :: "int \<times> web_client \<Rightarrow> web_effect list" where
  "close_all e =
     (case e of (fd, c) \<Rightarrow>
        (if 0 < wc_cgiPid c then [ChildKilled (wc_cgiPid c)] else [])
        @ (if 0 \<le> wc_cgiInputFd c then [FdClosed (wc_cgiInputFd c)] else [])
        @ (if 0 \<le> wc_cgiOutputFd c then [FdClosed (wc_cgiOutputFd c)] else [])
        @ [FdClosed fd])"

definition wait_all :: "int \<times> web_client \<Rightarrow> web_effect list" where
  "wait_all e = (case e of (fd, c) \<Rightarrow> if 0 < wc_cgiPid c then [ChildReaped (wc_cgiPid c)] else [])"

definition destroy_web :: "webserver \<Rightarrow> webserver" where
  "destroy_web s =
     effects (concat (map close_all (ws_clients s)) @ concat (map wait_all (ws_clients s))
              @ map (\<lambda>l. FdClosed (fst l)) (ws_listeners s)) s"

definition isListener :: "int \<Rightarrow> webserver \<Rightarrow> bool" where
  "isListener fd s \<longleftrightarrow> list_ex (\<lambda>l. fst l = fd) (ws_listeners s)"

subsection \<open>Accepting\<close>

definition MAX_CONNECTIONS :: nat where "MAX_CONNECTIONS = 128"
definition MAX_CGI_PROCESSES :: nat where "MAX_CGI_PROCESSES = 16"
definition MAX_HEADER_OVERHEAD :: nat where "MAX_HEADER_OVERHEAD = 65536"

fun accept_clients ::
    "server_config option \<Rightarrow> int \<Rightarrow> accept_answer list \<Rightarrow> webserver \<Rightarrow> webserver" where
  "accept_clients config now [] s = s"
| "accept_clients config now (a # as) s =
     (let fd = aa_fd a; s1 = effects [FdOpened fd] s
      in if fd < 0 then s
         else if MAX_CONNECTIONS \<le> length (ws_clients s)
         then accept_clients config now as (effects [FdClosed fd] s1)
         else if \<not> aa_nonBlocking a
         then accept_clients config now as (effects [FdClosed fd] s1)
         else
           let client = new_web_client
                 \<lparr>wc_fd := fd, wc_config := config, wc_touched := now,
                  wc_remoteAddress := (case aa_address a of Some t \<Rightarrow> t | None \<Rightarrow> []),
                  wc_remotePort := aa_port a\<rparr>
           in accept_clients config now as (add_pollfd fd {POLLIN} (put_client fd client s1)))"

definition web_acceptClient :: "web_answers \<Rightarrow> nat \<Rightarrow> webserver \<Rightarrow> webserver" where
  "web_acceptClient a i s =
     accept_clients (map_of (ws_listeners s) (pf_fd (ws_pollFds s ! i))) (wa_now a) (wa_accept a) s"

subsection \<open>Ending a client and its script\<close>

text \<open>The three lines that close a pipe to a script, forget its owner and its poll entry.\<close>

definition release_input :: "int \<Rightarrow> webserver \<Rightarrow> webserver" where
  "release_input fd s =
     removePollFd fd ((effects [FdClosed fd] s)\<lparr>ws_inputOwners := (ws_inputOwners s)(fd := None)\<rparr>)"

definition release_output :: "int \<Rightarrow> webserver \<Rightarrow> webserver" where
  "release_output fd s =
     removePollFd fd ((effects [FdClosed fd] s)\<lparr>ws_outputOwners := (ws_outputOwners s)(fd := None)\<rparr>)"

definition release_pipes :: "web_client \<Rightarrow> webserver \<Rightarrow> webserver" where
  "release_pipes c s =
     (let s1 = (if 0 \<le> wc_cgiInputFd c then release_input (wc_cgiInputFd c) s else s)
      in if 0 \<le> wc_cgiOutputFd c then release_output (wc_cgiOutputFd c) s1 else s1)"

definition closeClient :: "int \<Rightarrow> webserver \<Rightarrow> webserver" where
  "closeClient fd s =
     (case find_client fd s of
        None \<Rightarrow> s
      | Some c \<Rightarrow>
          let s1 = (if 0 < wc_cgiPid c
                    then effects [ChildKilled (wc_cgiPid c), ChildReaped (wc_cgiPid c)] s else s)
          in erase_client fd (removePollFd fd (effects [FdClosed fd] (release_pipes c s1))))"

definition web_error :: "os \<Rightarrow> int \<Rightarrow> server_config \<Rightarrow> string" where
  "web_error os status config = serialize (error_response os status config)"

definition finishCgi :: "os \<Rightarrow> int \<Rightarrow> int \<Rightarrow> webserver \<Rightarrow> web_outcome" where
  "finishCgi os fd status s =
     (case find_client fd s of
        None \<Rightarrow> Done s
      | Some c \<Rightarrow>
          with_config c s (\<lambda>config.
            let s1 = release_pipes c s;
                r = (if exited_zero status then makeResponse os (wc_cgiOutput c) config
                     else error_response os 500 config);
                c1 = c\<lparr>wc_cgiInputFd := (if 0 \<le> wc_cgiInputFd c then - 1 else wc_cgiInputFd c),
                       wc_cgiOutputFd := (if 0 \<le> wc_cgiOutputFd c then - 1 else wc_cgiOutputFd c),
                       wc_cgiPid := - 1, wc_output := serialize r, wc_sent := 0,
                       wc_touched := int (os_time os), wc_phase := CLIENT_WRITING\<rparr>;
                s2 = put_client fd c1 s1
            in Done (s2\<lparr>ws_pollFds := set_events fd {POLLOUT} (ws_pollFds s2)\<rparr>)))"

subsection \<open>Reading a request\<close>

text \<open>Storing an answer for a client and waiting until it can be sent.\<close>

definition answer_at :: "nat \<Rightarrow> int \<Rightarrow> string \<Rightarrow> webserver \<Rightarrow> webserver" where
  "answer_at i fd out s =
     (case client_slot fd s of (c, s1) \<Rightarrow>
        set_events_at i {POLLOUT}
          (put_client fd (c\<lparr>wc_output := out, wc_phase := CLIENT_WRITING\<rparr>) s1))"

text \<open>What \<open>CgiHandler::start\<close> asked of the kernel.\<close>

definition start_effects :: "cgi_answers \<Rightarrow> cgi_start \<Rightarrow> web_effect list" where
  "start_effects a st =
     map FdOpened (cs_opened st)
     @ (case cs_launch st of None \<Rightarrow> [] | Some l \<Rightarrow> [ChildStarted (ca_fork a) l])
     @ map FdClosed (cs_closed st)
     @ (if cs_launch st \<noteq> None \<and> cs_process st = None
        then [ChildKilled (ca_fork a), ChildReaped (ca_fork a)] else [])"

definition runningCgi :: "webserver \<Rightarrow> nat" where
  "runningCgi s = length (filter (\<lambda>(fd, c). 0 < wc_cgiPid c) (ws_clients s))"

text \<open>The end of \<open>startCgi\<close>: the process of the client is running.\<close>

definition attach_cgi ::
    "int \<Rightarrow> nat \<Rightarrow> int \<Rightarrow> string \<Rightarrow> nat \<Rightarrow> cgi_process \<Rightarrow> webserver \<Rightarrow> webserver" where
  "attach_cgi now i fd body timeout process s =
     (case client_slot fd s of (c, s1) \<Rightarrow>
        let c1 = c\<lparr>wc_cgiPid := cp_pid process, wc_cgiInputFd := cp_inputFd process,
                   wc_cgiOutputFd := cp_outputFd process, wc_cgiInput := body, wc_cgiWritten := 0,
                   wc_cgiOutput := [], wc_touched := now, wc_timeoutSeconds := timeout,
                   wc_phase := (if body = [] then CLIENT_CGI_READING else CLIENT_CGI_WRITING)\<rparr>;
            s2 = add_pollfd (cp_outputFd process) {POLLIN} (set_events_at i {} (put_client fd c1 s1));
            s3 = s2\<lparr>ws_outputOwners := (ws_outputOwners s2)(cp_outputFd process \<mapsto> fd)\<rparr>
        in if body = []
           then put_client fd (c1\<lparr>wc_cgiInputFd := - 1\<rparr>) (effects [FdClosed (cp_inputFd process)] s3)
           else
             let s4 = add_pollfd (cp_inputFd process) {POLLOUT} s3
             in s4\<lparr>ws_inputOwners := (ws_inputOwners s4)(cp_inputFd process \<mapsto> fd)\<rparr>)"

definition startCgi ::
    "web_answers \<Rightarrow> nat \<Rightarrow> request \<Rightarrow> server_config \<Rightarrow> webserver \<Rightarrow> bool \<times> webserver" where
  "startCgi a i request config s =
     (let fd = pf_fd (ws_pollFds s ! i); os = wa_os a; route = resolve request config
      in if rt_status route \<noteq> ROUTE_READY \<or> \<not> cgi_matches route then (False, s)
         else if MAX_CGI_PROCESSES \<le> runningCgi s
         then (True, answer_at i fd (web_error os 503 config) s)
         else
           (case resolveExisting os (route_root route config) (rt_diskPath route) of
              Inl result \<Rightarrow>
                (True, answer_at i fd
                   (web_error os (if result = FILE_NOT_FOUND then 404 else 403) config) s)
            | Inr path \<Rightarrow>
                let st = start_cgi os (wa_cgi a) request (route\<lparr>rt_diskPath := path\<rparr>) config;
                    s1 = effects (start_effects (wa_cgi a) st) s
                in (case cs_process st of
                      None \<Rightarrow>
                        (True,
                         case client_slot fd s1 of (c, s2) \<Rightarrow>
                           set_events_at i {POLLOUT}
                             (put_client fd (c\<lparr>wc_output := web_error os 500 config\<rparr>) s2))
                    | Some process \<Rightarrow>
                        (True,
                         attach_cgi (wa_now a) i fd (rq_body request)
                           (case rt_location route of Some l \<Rightarrow> lc_cgiTimeout l | None \<Rightarrow> 0)
                           process s1))))"

text \<open>\<open>a - b\<close> for \<open>size_t\<close>.\<close>

definition size_sub :: "nat \<Rightarrow> nat \<Rightarrow> nat" where
  "size_sub a b = (a + 2 ^ 64 - b) mod 2 ^ 64"

definition requestLimit :: "server_config \<Rightarrow> nat" where
  "requestLimit config =
     (if 2 ^ 64 - 1 - MAX_HEADER_OVERHEAD < sc_maxBody config then 2 ^ 64 - 1
      else sc_maxBody config + MAX_HEADER_OVERHEAD)"

text \<open>The end of \<open>readClient\<close>: what is done with the result of \<open>parseRequest\<close>.\<close>

definition answerRequest ::
    "web_answers \<Rightarrow> nat \<Rightarrow> int \<Rightarrow> web_client \<Rightarrow> server_config \<Rightarrow> parse_outcome \<Rightarrow> webserver \<Rightarrow> web_outcome" where
  "answerRequest a i fd client config result s =
     (case result of
        REQUEST_INCOMPLETE \<Rightarrow> Done s
      | PARSE_THROWS \<Rightarrow> Raised ''basic_string::compare'' s
      | REQUEST_TOO_LARGE \<Rightarrow> Done (answer_at i fd (web_error (wa_os a) 413 config) s)
      | REQUEST_VERSION_NOT_SUPPORTED \<Rightarrow> Done (answer_at i fd (web_error (wa_os a) 505 config) s)
      | REQUEST_BAD \<Rightarrow> Done (answer_at i fd (web_error (wa_os a) 400 config) s)
      | REQUEST_OK r \<Rightarrow>
          let request = r\<lparr>rq_remoteAddress := wc_remoteAddress client,
                          rq_remotePort := wc_remotePort client\<rparr>
          in (case startCgi a i request config s of (started, s1) \<Rightarrow>
                if started then Done s1
                else
                  (case dispatch (wa_os a) request config of (response, es) \<Rightarrow>
                     Done (answer_at i fd (serialize response) (effects (map OnDisk es) s1)))))"

definition readClient :: "web_answers \<Rightarrow> nat \<Rightarrow> webserver \<Rightarrow> web_outcome" where
  "readClient a i s0 =
     (let fd = pf_fd (ws_pollFds s0 ! i)
      in case client_slot fd s0 of (client, s) \<Rightarrow>
         (case wa_input a of
            InputAgain \<Rightarrow> Done s
          | InputFailed \<Rightarrow> Done (closeClient fd s)
          | InputData data \<Rightarrow>
              if data = [] then Done (closeClient fd s)
              else
                with_config client s (\<lambda>config.
                  if size_sub (requestLimit config) (length data) < length (wc_input client)
                  then Done (answer_at i fd (web_error (wa_os a) 413 config) s)
                  else
                    let client1 = client\<lparr>wc_input := wc_input client @ data, wc_touched := wa_now a\<rparr>;
                        s1 = put_client fd client1 s
                    in (case parseRequest (wc_input client1) (sc_maxBody config) of
                          None \<Rightarrow> Stuck
                        | Some result \<Rightarrow> answerRequest a i fd client1 config result s1))))"

subsection \<open>Sending, and the pipes of a script\<close>

definition writeClient :: "web_answers \<Rightarrow> nat \<Rightarrow> webserver \<Rightarrow> webserver" where
  "writeClient a i s0 =
     (let fd = pf_fd (ws_pollFds s0 ! i)
      in case client_slot fd s0 of (client, s) \<Rightarrow>
         (case wa_output a of
            OutputAgain \<Rightarrow> s
          | OutputFailed \<Rightarrow> closeClient fd s
          | OutputTook n \<Rightarrow>
              if n = 0 then closeClient fd s
              else
                let sent = wc_sent client + n;
                    s1 = put_client fd (client\<lparr>wc_sent := sent, wc_touched := wa_now a\<rparr>)
                           (effects [SentTo fd (take n (drop (wc_sent client) (wc_output client)))] s)
                in if sent = length (wc_output client) then closeClient fd s1 else s1))"

text \<open>\<open>_cgiInputOwners[fd]\<close> and \<open>_cgiOutputOwners[fd]\<close> insert 0 when there is no owner.\<close>

definition input_owner :: "int \<Rightarrow> webserver \<Rightarrow> int \<times> webserver" where
  "input_owner fd s =
     (case ws_inputOwners s fd of
        Some g \<Rightarrow> (g, s)
      | None \<Rightarrow> (0, s\<lparr>ws_inputOwners := (ws_inputOwners s)(fd \<mapsto> 0)\<rparr>))"

definition output_owner :: "int \<Rightarrow> webserver \<Rightarrow> int \<times> webserver" where
  "output_owner fd s =
     (case ws_outputOwners s fd of
        Some g \<Rightarrow> (g, s)
      | None \<Rightarrow> (0, s\<lparr>ws_outputOwners := (ws_outputOwners s)(fd \<mapsto> 0)\<rparr>))"

definition writeCgi :: "web_answers \<Rightarrow> nat \<Rightarrow> webserver \<Rightarrow> webserver" where
  "writeCgi a i s0 =
     (let pipeFd = pf_fd (ws_pollFds s0 ! i)
      in case input_owner pipeFd s0 of (clientFd, s1) \<Rightarrow>
         (case client_slot clientFd s1 of (client, s) \<Rightarrow>
            if wa_output a = OutputAgain then s
            else
              let n = (case wa_output a of OutputTook n \<Rightarrow> n | _ \<Rightarrow> 0);
                  written = wc_cgiWritten client + n;
                  client1 = (if 0 < n
                             then client\<lparr>wc_cgiWritten := written, wc_touched := wa_now a\<rparr> else client);
                  s2 = (if 0 < n
                        then put_client clientFd client1
                               (effects [PipedTo pipeFd (take n (drop (wc_cgiWritten client) (wc_cgiInput client)))] s)
                        else s)
              in if n = 0 \<or> written = length (wc_cgiInput client)
                 then put_client clientFd
                        (client1\<lparr>wc_cgiInputFd := - 1, wc_phase := CLIENT_CGI_READING\<rparr>)
                        (release_input pipeFd s2)
                 else s2))"

definition readCgi :: "web_answers \<Rightarrow> nat \<Rightarrow> webserver \<Rightarrow> web_outcome" where
  "readCgi a i s0 =
     (let pipeFd = pf_fd (ws_pollFds s0 ! i)
      in case output_owner pipeFd s0 of (clientFd, s1) \<Rightarrow>
         (case client_slot clientFd s1 of (client, s) \<Rightarrow>
            let data = (case wa_input a of InputData d \<Rightarrow> d | _ \<Rightarrow> [])
            in if wa_input a = InputAgain then Done s
               else if data \<noteq> []
               then
                 let out = wc_cgiOutput client @ data;
                     s2 = put_client clientFd (client\<lparr>wc_cgiOutput := out, wc_touched := wa_now a\<rparr>) s
                 in if 16 * 1024 * 1024 < length out
                    then finishCgi (wa_os a) clientFd (wa_wait a (wc_cgiPid client))
                           (effects [ChildKilled (wc_cgiPid client), ChildReaped (wc_cgiPid client)] s2)
                    else Done s2
               else
                 let s2 = put_client clientFd (client\<lparr>wc_cgiOutputFd := - 1\<rparr>) (release_output pipeFd s)
                 in (case wa_waitNoHang a (wc_cgiPid client) of
                       None \<Rightarrow> Done s2
                     | Some status \<Rightarrow>
                         finishCgi (wa_os a) clientFd status
                           (effects [ChildReaped (wc_cgiPid client)] s2))))"

subsection \<open>The end of a round\<close>

text \<open>The first loop of \<open>reapCgi\<close>: the clients whose script has ended, with its status.\<close>

definition ended_cgi :: "web_answers \<Rightarrow> webserver \<Rightarrow> (int \<times> int \<times> int) list" where
  "ended_cgi a s =
     concat (map (\<lambda>(fd, c).
       if wc_cgiPid c \<le> 0 \<or> 0 \<le> wc_cgiOutputFd c then []
       else (case wa_waitNoHang a (wc_cgiPid c) of
               None \<Rightarrow> [] | Some status \<Rightarrow> [(fd, wc_cgiPid c, status)])) (ws_clients s))"

fun finish_list :: "os \<Rightarrow> (int \<times> int \<times> int) list \<Rightarrow> webserver \<Rightarrow> web_outcome" where
  "finish_list os [] s = Done s"
| "finish_list os ((fd, pid, status) # es) s =
     web_then (finishCgi os fd status s) (finish_list os es)"

definition reapCgi :: "web_answers \<Rightarrow> webserver \<Rightarrow> web_outcome" where
  "reapCgi a s =
     finish_list (wa_os a) (ended_cgi a s)
       (effects (map (\<lambda>(fd, pid, status). ChildReaped pid) (ended_cgi a s)) s)"

definition timeout_answer :: "os \<Rightarrow> int \<Rightarrow> server_config \<Rightarrow> web_client \<Rightarrow> web_client" where
  "timeout_answer os status config c =
     c\<lparr>wc_output := web_error os status config, wc_sent := 0, wc_touched := int (os_time os),
       wc_phase := CLIENT_WRITING\<rparr>"

definition await_output :: "int \<Rightarrow> webserver \<Rightarrow> webserver" where
  "await_output fd s =
     s\<lparr>ws_pollFds := map (\<lambda>p. if pf_fd p = fd then p\<lparr>pf_events := {POLLOUT}\<rparr> else p) (ws_pollFds s)\<rparr>"

definition expireClient :: "os \<Rightarrow> int \<Rightarrow> webserver \<Rightarrow> web_outcome" where
  "expireClient os fd s =
     (case find_client fd s of
        None \<Rightarrow> Done s
      | Some c \<Rightarrow>
          if 0 < wc_cgiPid c
          then with_config c s (\<lambda>config.
                 let s1 = release_pipes c
                            (effects [ChildKilled (wc_cgiPid c), ChildReaped (wc_cgiPid c)] s);
                     c1 = c\<lparr>wc_cgiInputFd := (if 0 \<le> wc_cgiInputFd c then - 1 else wc_cgiInputFd c),
                            wc_cgiOutputFd := (if 0 \<le> wc_cgiOutputFd c then - 1 else wc_cgiOutputFd c),
                            wc_cgiPid := - 1\<rparr>
                 in Done (await_output (wc_fd c) (put_client fd (timeout_answer os 504 config c1) s1)))
          else if wc_output c = []
          then with_config c s (\<lambda>config.
                 Done (await_output (wc_fd c) (put_client fd (timeout_answer os 408 config c) s)))
          else Done (closeClient (wc_fd c) s))"

fun expire_list :: "os \<Rightarrow> int list \<Rightarrow> webserver \<Rightarrow> web_outcome" where
  "expire_list os [] s = Done s"
| "expire_list os (fd # fds) s = web_then (expireClient os fd s) (expire_list os fds)"

definition expired :: "os \<Rightarrow> web_client \<Rightarrow> bool" where
  "expired os c \<longleftrightarrow> int (wc_timeoutSeconds c) < int (os_time os) - wc_touched c"

definition expireClients :: "os \<Rightarrow> webserver \<Rightarrow> web_outcome" where
  "expireClients os s =
     expire_list os (map fst (filter (\<lambda>(fd, c). expired os c) (ws_clients s))) s"

subsection \<open>The event loop\<close>

datatype event_kind = EvListener | EvCgiOutput | EvCgiInput | EvHangup | EvReadable | EvWritable | EvOther

definition classify :: "int \<Rightarrow> poll_flag set \<Rightarrow> webserver \<Rightarrow> event_kind" where
  "classify fd events s =
     (if isListener fd s then EvListener
      else if ws_outputOwners s fd \<noteq> None then EvCgiOutput
      else if ws_inputOwners s fd \<noteq> None then EvCgiInput
      else if events \<inter> {POLLERR, POLLHUP, POLLNVAL} \<noteq> {} then EvHangup
      else if POLLIN \<in> events then EvReadable
      else if POLLOUT \<in> events then EvWritable
      else EvOther)"

definition handle_event ::
    "web_answers \<Rightarrow> event_kind \<Rightarrow> poll_flag set \<Rightarrow> nat \<Rightarrow> webserver \<Rightarrow> web_outcome" where
  "handle_event a kind events i s =
     (let fd = pf_fd (ws_pollFds s ! i)
      in case kind of
           EvListener \<Rightarrow> Done (if POLLIN \<in> events then web_acceptClient a i s else s)
         | EvCgiOutput \<Rightarrow>
             if events \<inter> {POLLIN, POLLHUP, POLLERR} \<noteq> {} then readCgi a i s
             else if POLLNVAL \<in> events
             then (case output_owner fd s of (clientFd, s1) \<Rightarrow> Done (closeClient clientFd s1))
             else Done s
         | EvCgiInput \<Rightarrow>
             if POLLOUT \<in> events then Done (writeCgi a i s)
             else (case input_owner fd s of (clientFd, s1) \<Rightarrow> Done (closeClient clientFd s1))
         | EvHangup \<Rightarrow> Done (closeClient fd s)
         | EvReadable \<Rightarrow> readClient a i s
         | EvWritable \<Rightarrow> Done (writeClient a i s)
         | EvOther \<Rightarrow> Done s)"

definition next_index :: "event_kind \<Rightarrow> int \<Rightarrow> nat \<Rightarrow> webserver \<Rightarrow> nat" where
  "next_index kind fd i s =
     (if kind = EvListener \<or> kind = EvOther then i + 1
      else if kind = EvHangup then i
      else if i < length (ws_pollFds s) \<and> pf_fd (ws_pollFds s ! i) = fd then i + 1 else i)"

function web_events ::
    "(int \<Rightarrow> web_answers) \<Rightarrow> nat \<Rightarrow> nat \<Rightarrow> webserver \<Rightarrow> web_outcome" where
  "web_events answers i ready s =
     (if length (ws_pollFds s) \<le> i \<or> ready = 0 then Done s
      else
        let p = ws_pollFds s ! i; fd = pf_fd p; events = pf_revents p
        in if events = {} then web_events answers (i + 1) ready s
           else
             let kind = classify fd events s
             in web_then (handle_event (answers fd) kind events i s)
                  (\<lambda>s1. web_events answers (next_index kind fd i s1) (ready - 1) s1))"
  by pat_completeness auto
termination
  by (relation "measures [\<lambda>(answers, i, ready, s). ready, \<lambda>(answers, i, ready, s). length (ws_pollFds s) - i]") auto

declare web_events.simps [simp del]

definition poll_results :: "(int \<Rightarrow> poll_flag set) \<Rightarrow> webserver \<Rightarrow> webserver" where
  "poll_results r s = s\<lparr>ws_pollFds := map (\<lambda>p. p\<lparr>pf_revents := r (pf_fd p)\<rparr>) (ws_pollFds s)\<rparr>"

definition web_round :: "web_tick \<Rightarrow> webserver \<Rightarrow> web_outcome" where
  "web_round tk s =
     web_then (web_events (wt_answers tk) 0 (nat (wt_ready tk)) (poll_results (wt_revents tk) s)) (\<lambda>s1.
     web_then (reapCgi (wt_end tk) s1) (\<lambda>s2.
     expireClients (wa_os (wt_end tk)) s2))"

fun web_run :: "web_tick list \<Rightarrow> webserver \<Rightarrow> web_outcome" where
  "web_run [] s = Done s"
| "web_run (tk # tks) s =
     (if \<not> wt_running tk then Done s
      else if wt_ready tk < 0
      then (if wt_interrupted tk then web_run tks s else Raised ''poll failed'' s)
      else web_then (web_round tk s) (web_run tks))"

text \<open>
  \<open>main\<close>: the exit status, and the trace of the server when there is one. \<open>None\<close> as the
  result: the program hangs or has crashed.
\<close>

definition web_main ::
    "string list \<Rightarrow> (string \<Rightarrow> bool) \<Rightarrow> (string \<Rightarrow> string option) \<Rightarrow> (nat \<Rightarrow> listen_answer)
     \<Rightarrow> web_tick list \<Rightarrow> (int \<times> webserver option) option" where
  "web_main args pton files answers ticks =
     (if 1 < length args then Some (1, None)
      else
        let path = (if length args = 1 then args ! 0 else ''config/default.conf'')
        in (case config_parse pton path (files path) of
              Inl msg \<Rightarrow> Some (1, None)
            | Inr configs \<Rightarrow>
                (case openListeners pton (zip (map answers [0..<length configs]) configs)
                         (new_webserver configs) of
                   Done s \<Rightarrow>
                     (case web_run ticks s of
                        Done t \<Rightarrow> Some (0, Some (destroy_web t))
                      | Raised msg t \<Rightarrow> Some (1, Some (destroy_web t))
                      | _ \<Rightarrow> None)
                 | Raised msg s \<Rightarrow> Some (1, Some s)
                 | _ \<Rightarrow> None)))"

end
