(* ===== verification/Web_Invariant.thy ===== *)
theory Web_Invariant
  imports Web_Server
begin

section \<open>webserv: the consistency of the server's tables\<close>

text \<open>
  The tables of the server (poll list, clients, owners of the pipes) seen as maps, the
  invariant that ties them together, and the two accounts kept in the trace: a descriptor is
  open exactly while it is in the poll list, and a child runs exactly while a client names it.
  \<open>shape\<close> is closed under the few elementary changes that the operations are made of.
  Nothing is assumed of the kernel but \<open>kernel_ok\<close>: a call that opens a descriptor returns one
  that is not open, and \<open>fork\<close> returns a positive number to the parent.
\<close>

subsection \<open>The tables as maps\<close>

definition listenFds :: "webserver \<Rightarrow> int set" where
  "listenFds s = fst ` set (ws_listeners s)"

abbreviation clientMap :: "webserver \<Rightarrow> int \<rightharpoonup> web_client" where
  "clientMap s \<equiv> map_of (ws_clients s)"

definition eventMap :: "pollfd list \<Rightarrow> int \<rightharpoonup> poll_flag set" where
  "eventMap ps = map_of (map (\<lambda>p. (pf_fd p, pf_events p)) ps)"

lemma dom_eventMap: "dom (eventMap ps) = pf_fd ` set ps"
  by (simp add: eventMap_def dom_map_of_conv_image_fst image_image)

lemma eventMap_Cons [simp]:
  "eventMap [] = Map.empty" "eventMap (p # ps) = (eventMap ps)(pf_fd p \<mapsto> pf_events p)"
  by (simp_all add: eventMap_def)

lemma eventMap_snoc:
  "fd \<notin> pf_fd ` set ps \<Longrightarrow> eventMap (ps @ [\<lparr>pf_fd = fd, pf_events = ev, pf_revents = r\<rparr>]) = (eventMap ps)(fd \<mapsto> ev)"
  by (induction ps) (auto simp: fun_upd_twist)

lemma eventMap_erase:
  "distinct (map pf_fd ps) \<Longrightarrow> eventMap (erase_pollfd fd ps) = (eventMap ps)(fd := None)"
proof (induction ps)
  case (Cons p ps)
  moreover from this have "eventMap ps (pf_fd p) = None"
    by (auto simp: eventMap_def map_of_eq_None_iff image_image)
  ultimately show ?case by (auto simp: fun_eq_iff)
qed simp

lemma eventMap_update:
  "distinct (map pf_fd ps) \<Longrightarrow> i < length ps \<Longrightarrow>
     eventMap (ps[i := (ps ! i)\<lparr>pf_events := ev\<rparr>]) = (eventMap ps)(pf_fd (ps ! i) \<mapsto> ev)"
proof (induction ps arbitrary: i)
  case (Cons p ps)
  show ?case
  proof (cases i)
    case (Suc j)
    with Cons.prems have "pf_fd p \<noteq> pf_fd (ps ! j)" by auto
    with Suc Cons show ?thesis by (auto simp: fun_eq_iff)
  qed (simp add: fun_eq_iff)
qed simp

lemma eventMap_set_events:
  "fd \<in> pf_fd ` set ps \<Longrightarrow> eventMap (set_events fd ev ps) = (eventMap ps)(fd \<mapsto> ev)"
  by (induction ps) (auto simp: fun_upd_twist)

lemma map_pf_fd_update [simp]: "map pf_fd (ps[i := (ps ! i)\<lparr>pf_events := ev\<rparr>]) = map pf_fd ps"
  by (induction ps arbitrary: i) (auto split: nat.split)

lemma set_pf_fd_update [simp]: "pf_fd ` set (ps[i := (ps ! i)\<lparr>pf_events := ev\<rparr>]) = pf_fd ` set ps"
  by (metis list.set_map map_pf_fd_update)

lemma eventMap_None: "eventMap ps f = None \<longleftrightarrow> f \<notin> pf_fd ` set ps"
  by (metis dom_eventMap domIff)

subsection \<open>The two accounts of the trace\<close>

fun fd_balance :: "web_effect list \<Rightarrow> int \<Rightarrow> int" where
  "fd_balance [] f = 0"
| "fd_balance (e # tr) f =
     (case e of
        FdOpened g \<Rightarrow> if g = f then fd_balance tr f + 1 else fd_balance tr f
      | FdClosed g \<Rightarrow> if g = f then fd_balance tr f - 1 else fd_balance tr f
      | _ \<Rightarrow> fd_balance tr f)"

fun child_balance :: "web_effect list \<Rightarrow> int \<Rightarrow> int" where
  "child_balance [] p = 0"
| "child_balance (e # tr) p =
     (case e of
        ChildStarted q l \<Rightarrow> if q = p then child_balance tr p + 1 else child_balance tr p
      | ChildReaped q \<Rightarrow> if q = p then child_balance tr p - 1 else child_balance tr p
      | _ \<Rightarrow> child_balance tr p)"

fun kernel_ok :: "web_effect list \<Rightarrow> bool" where
  "kernel_ok [] = True"
| "kernel_ok (e # tr) =
     (kernel_ok tr
      \<and> (case e of
           FdOpened f \<Rightarrow> 0 \<le> f \<and> fd_balance tr f = 0
         | ChildStarted p l \<Rightarrow> 0 < p
         | _ \<Rightarrow> True))"

lemma kernel_ok_append: "kernel_ok (es @ tr) \<Longrightarrow> kernel_ok tr"
  by (induction es) auto

subsection \<open>The invariant\<close>

definition asks_for :: "web_client \<Rightarrow> poll_flag set" where
  "asks_for c =
     (if 0 < wc_cgiPid c then {} else if wc_output c = [] then {POLLIN} else {POLLOUT})"

definition client_ok :: "int \<Rightarrow> web_client \<Rightarrow> bool" where
  "client_ok g c \<longleftrightarrow>
     0 \<le> g \<and> wc_fd c = g \<and> wc_config c \<noteq> None
     \<and> (0 \<le> wc_cgiInputFd c \<or> 0 \<le> wc_cgiOutputFd c \<longrightarrow> 0 < wc_cgiPid c)
     \<and> (0 < wc_cgiPid c \<longrightarrow> wc_output c = [])"

definition expected :: "int set \<Rightarrow> (int \<rightharpoonup> web_client) \<Rightarrow> (int \<rightharpoonup> int) \<Rightarrow> (int \<rightharpoonup> int) \<Rightarrow> int \<rightharpoonup> poll_flag set" where
  "expected L C I J f =
     (if f \<in> L then Some {POLLIN}
      else case C f of
             Some c \<Rightarrow> Some (asks_for c)
           | None \<Rightarrow> if I f \<noteq> None then Some {POLLOUT} else if J f \<noteq> None then Some {POLLIN} else None)"

definition owners :: "(web_client \<Rightarrow> int) \<Rightarrow> (int \<rightharpoonup> web_client) \<Rightarrow> (int \<rightharpoonup> int) \<Rightarrow> bool" where
  "owners pipe C M \<longleftrightarrow>
     (\<forall>f g. M f = Some g \<longleftrightarrow> 0 \<le> f \<and> map_option pipe (C g) = Some f)"

definition apart :: "int set \<Rightarrow> (int \<rightharpoonup> web_client) \<Rightarrow> (int \<rightharpoonup> int) \<Rightarrow> (int \<rightharpoonup> int) \<Rightarrow> bool" where
  "apart L C I J \<longleftrightarrow>
     L \<inter> dom C = {} \<and> L \<inter> dom I = {} \<and> L \<inter> dom J = {}
     \<and> dom C \<inter> dom I = {} \<and> dom C \<inter> dom J = {} \<and> dom I \<inter> dom J = {}"

definition shape ::
    "int set \<Rightarrow> (int \<rightharpoonup> web_client) \<Rightarrow> (int \<rightharpoonup> int) \<Rightarrow> (int \<rightharpoonup> int) \<Rightarrow> (int \<rightharpoonup> poll_flag set) \<Rightarrow> bool" where
  "shape L C I J E \<longleftrightarrow>
     E = expected L C I J \<and> apart L C I J
     \<and> owners wc_cgiInputFd C I \<and> owners wc_cgiOutputFd C J
     \<and> (\<forall>g c. C g = Some c \<longrightarrow> client_ok g c)"

lemma dom_expected: "dom (expected L C I J) = L \<union> dom C \<union> dom I \<union> dom J"
  by (auto simp: expected_def dom_def split: option.splits if_splits)

lemma shape_client: "shape L C I J E \<Longrightarrow> C g = Some c \<Longrightarrow> client_ok g c"
  by (simp add: shape_def)

lemma shape_owner:
  "shape L C I J E \<Longrightarrow> I f = Some g \<longleftrightarrow> 0 \<le> f \<and> (\<exists>c. C g = Some c \<and> wc_cgiInputFd c = f)"
  "shape L C I J E \<Longrightarrow> J f = Some g \<longleftrightarrow> 0 \<le> f \<and> (\<exists>c. C g = Some c \<and> wc_cgiOutputFd c = f)"
  by (auto simp: shape_def owners_def)

lemma shape_asks_for: "shape L C I J E \<Longrightarrow> C g = Some c \<Longrightarrow> E g = Some (asks_for c)"
  by (auto simp: shape_def expected_def apart_def)

subsection \<open>The elementary changes\<close>

lemma owners_none:
  assumes "owners pipe C M" and "\<And>c. C g = Some c \<Longrightarrow> pipe c < 0"
  shows "pipe c' < 0 \<Longrightarrow> owners pipe (C(g \<mapsto> c')) M" and "owners pipe (C(g := None)) M"
proof -
  have "M f \<noteq> Some g" for f
    using assms by (cases "C g") (auto simp: owners_def)
  with assms show "pipe c' < 0 \<Longrightarrow> owners pipe (C(g \<mapsto> c')) M" and "owners pipe (C(g := None)) M"
    by (auto simp: owners_def)
qed

lemma owners_upd:
  "owners pipe C M \<Longrightarrow> C g = Some c \<Longrightarrow> pipe c' = pipe c \<or> pipe c < 0 \<and> pipe c' < 0 \<Longrightarrow>
     owners pipe (C(g \<mapsto> c')) M"
  using owners_none(1) [of pipe C M g c'] by (auto simp: owners_def)

lemma ownersD: "owners pipe C M \<Longrightarrow> M f = Some g \<longleftrightarrow> 0 \<le> f \<and> map_option pipe (C g) = Some f"
  by (simp only: owners_def)

lemma owners_drop:
  assumes "owners pipe C M" and "C g = Some c" and "pipe c = f" and "0 \<le> f" and "pipe c' < 0"
  shows "owners pipe (C(g \<mapsto> c')) (M(f := None))"
  unfolding owners_def
proof (intro allI)
  fix h k
  have "M f = Some g" using ownersD [OF assms(1), of f g] assms(2-4) by simp
  with ownersD [OF assms(1), of h k] assms(2-5)
  show "(M(f := None)) h = Some k \<longleftrightarrow> 0 \<le> h \<and> map_option pipe ((C(g \<mapsto> c')) k) = Some h"
    by (cases "k = g"; cases "h = f") auto
qed

lemma owners_add:
  assumes "owners pipe C M" and "C g = Some c" and "pipe c < 0" and "M f = None" and "0 \<le> f" and "pipe c' = f"
  shows "owners pipe (C(g \<mapsto> c')) (M(f \<mapsto> g))"
  unfolding owners_def
proof (intro allI)
  fix h k
  show "(M(f \<mapsto> g)) h = Some k \<longleftrightarrow> 0 \<le> h \<and> map_option pipe ((C(g \<mapsto> c')) k) = Some h"
    using ownersD [OF assms(1), of h k] assms(2-6) by (cases "k = g"; cases "h = f") auto
qed

text \<open>Each change of the tables, and what it does to the expected poll list.\<close>

lemma apart_cong: "apart L C I J \<Longrightarrow> dom C' = dom C \<Longrightarrow> apart L C' I J"
  by (simp add: apart_def)

lemma shape_update:
  assumes "shape L C I J E" and "C g = Some c" and "client_ok g c'"
    and "wc_cgiInputFd c' = wc_cgiInputFd c \<or> wc_cgiInputFd c < 0 \<and> wc_cgiInputFd c' < 0"
    and "wc_cgiOutputFd c' = wc_cgiOutputFd c \<or> wc_cgiOutputFd c < 0 \<and> wc_cgiOutputFd c' < 0"
  shows "shape L (C(g \<mapsto> c')) I J (E(g \<mapsto> asks_for c'))"
proof -
  have "g \<notin> L" using assms(1,2) by (auto simp: shape_def apart_def)
  then have "expected L (C(g \<mapsto> c')) I J = (expected L C I J)(g \<mapsto> asks_for c')"
    by (auto simp: expected_def fun_eq_iff)
  moreover have "apart L (C(g \<mapsto> c')) I J"
    using assms(1,2) by (auto simp: shape_def apart_def)
  ultimately show ?thesis
    using assms owners_upd [where C = C and g = g and c = c and c' = c' and pipe = wc_cgiInputFd]
      owners_upd [where C = C and g = g and c = c and c' = c' and pipe = wc_cgiOutputFd]
    by (auto simp: shape_def)
qed

lemma shape_accept:
  assumes "shape L C I J E" and "E g = None" and "client_ok g c"
    and "wc_cgiInputFd c < 0" and "wc_cgiOutputFd c < 0"
  shows "shape L (C(g \<mapsto> c)) I J (E(g \<mapsto> asks_for c))"
proof -
  have g: "g \<notin> L" "C g = None" "I g = None" "J g = None"
    using assms(1,2) by (auto simp: shape_def expected_def split: if_splits option.splits)
  then have "expected L (C(g \<mapsto> c)) I J = (expected L C I J)(g \<mapsto> asks_for c)"
    by (auto simp: expected_def fun_eq_iff)
  with g show ?thesis
    using assms by (auto simp: shape_def apart_def intro: owners_none)
qed

lemma shape_remove:
  assumes "shape L C I J E" and "C g = Some c" and "wc_cgiInputFd c < 0" and "wc_cgiOutputFd c < 0"
  shows "shape L (C(g := None)) I J (E(g := None))"
proof -
  have g: "g \<notin> L" "I g = None" "J g = None"
    using assms(1,2) by (auto simp: shape_def apart_def)
  then have "expected L (C(g := None)) I J = (expected L C I J)(g := None)"
    by (auto simp: expected_def fun_eq_iff)
  with g show ?thesis
    using assms by (auto simp: shape_def apart_def intro: owners_none)
qed

lemma shape_drop_input:
  assumes "shape L C I J E" and "C g = Some c" and "0 \<le> wc_cgiInputFd c"
  shows "shape L (C(g \<mapsto> c\<lparr>wc_cgiInputFd := - 1\<rparr>)) (I(wc_cgiInputFd c := None)) J (E(wc_cgiInputFd c := None))"
proof -
  let ?f = "wc_cgiInputFd c"
  have "I ?f = Some g" using shape_owner(1) [OF assms(1)] assms(2,3) by blast
  then have f: "?f \<notin> L" "C ?f = None" "J ?f = None"
    using assms(1) by (auto simp: shape_def apart_def)
  then have "expected L (C(g \<mapsto> c\<lparr>wc_cgiInputFd := - 1\<rparr>)) (I(?f := None)) J = (expected L C I J)(?f := None)"
    using assms(2) by (auto simp: expected_def asks_for_def fun_eq_iff)
  moreover have "client_ok g (c\<lparr>wc_cgiInputFd := - 1\<rparr>)"
    using shape_client [OF assms(1,2)] by (simp add: client_ok_def)
  moreover have "apart L (C(g \<mapsto> c\<lparr>wc_cgiInputFd := - 1\<rparr>)) (I(?f := None)) J"
    using assms(1,2) by (auto simp: shape_def apart_def)
  ultimately show ?thesis
    using assms by (auto simp: shape_def intro: owners_drop owners_upd)
qed

lemma shape_drop_output:
  assumes "shape L C I J E" and "C g = Some c" and "0 \<le> wc_cgiOutputFd c"
  shows "shape L (C(g \<mapsto> c\<lparr>wc_cgiOutputFd := - 1\<rparr>)) I (J(wc_cgiOutputFd c := None)) (E(wc_cgiOutputFd c := None))"
proof -
  let ?f = "wc_cgiOutputFd c"
  have "J ?f = Some g" using shape_owner(2) [OF assms(1)] assms(2,3) by blast
  then have f: "?f \<notin> L" "C ?f = None" "I ?f = None"
    using assms(1) by (auto simp: shape_def apart_def)
  then have "expected L (C(g \<mapsto> c\<lparr>wc_cgiOutputFd := - 1\<rparr>)) I (J(?f := None)) = (expected L C I J)(?f := None)"
    using assms(2) by (auto simp: expected_def asks_for_def fun_eq_iff)
  moreover have "client_ok g (c\<lparr>wc_cgiOutputFd := - 1\<rparr>)"
    using shape_client [OF assms(1,2)] by (simp add: client_ok_def)
  moreover have "apart L (C(g \<mapsto> c\<lparr>wc_cgiOutputFd := - 1\<rparr>)) I (J(?f := None))"
    using assms(1,2) by (auto simp: shape_def apart_def)
  ultimately show ?thesis
    using assms by (auto simp: shape_def intro: owners_drop owners_upd)
qed

lemma shape_add_output:
  assumes "shape L C I J E" and "C g = Some c" and "0 < wc_cgiPid c" and "wc_cgiOutputFd c < 0"
    and "E f = None" and "0 \<le> f"
  shows "shape L (C(g \<mapsto> c\<lparr>wc_cgiOutputFd := f\<rparr>)) I (J(f \<mapsto> g)) (E(f \<mapsto> {POLLIN}))"
proof -
  have f: "f \<notin> L" "C f = None" "I f = None" "J f = None"
    using assms(1,5) by (auto simp: shape_def expected_def split: if_splits option.splits)
  then have "expected L (C(g \<mapsto> c\<lparr>wc_cgiOutputFd := f\<rparr>)) I (J(f \<mapsto> g)) = (expected L C I J)(f \<mapsto> {POLLIN})"
    using assms(2) by (auto simp: expected_def asks_for_def fun_eq_iff)
  moreover have "client_ok g (c\<lparr>wc_cgiOutputFd := f\<rparr>)"
    using shape_client [OF assms(1,2)] assms(3) by (simp add: client_ok_def)
  moreover have "apart L (C(g \<mapsto> c\<lparr>wc_cgiOutputFd := f\<rparr>)) I (J(f \<mapsto> g))"
    using assms(1,2) f by (auto simp: shape_def apart_def)
  ultimately show ?thesis
    using assms f by (auto simp: shape_def intro: owners_add owners_upd)
qed

lemma shape_add_input:
  assumes "shape L C I J E" and "C g = Some c" and "0 < wc_cgiPid c" and "wc_cgiInputFd c < 0"
    and "E f = None" and "0 \<le> f"
  shows "shape L (C(g \<mapsto> c\<lparr>wc_cgiInputFd := f\<rparr>)) (I(f \<mapsto> g)) J (E(f \<mapsto> {POLLOUT}))"
proof -
  have f: "f \<notin> L" "C f = None" "I f = None" "J f = None"
    using assms(1,5) by (auto simp: shape_def expected_def split: if_splits option.splits)
  then have "expected L (C(g \<mapsto> c\<lparr>wc_cgiInputFd := f\<rparr>)) (I(f \<mapsto> g)) J = (expected L C I J)(f \<mapsto> {POLLOUT})"
    using assms(2) by (auto simp: expected_def asks_for_def fun_eq_iff)
  moreover have "client_ok g (c\<lparr>wc_cgiInputFd := f\<rparr>)"
    using shape_client [OF assms(1,2)] assms(3) by (simp add: client_ok_def)
  moreover have "apart L (C(g \<mapsto> c\<lparr>wc_cgiInputFd := f\<rparr>)) (I(f \<mapsto> g)) J"
    using assms(1,2) f by (auto simp: shape_def apart_def)
  ultimately show ?thesis
    using assms f by (auto simp: shape_def intro: owners_add owners_upd)
qed

end
