(* ===== verification/Web_Tables.thy ===== *)
theory Web_Tables
  imports Web_Invariant
begin

section \<open>webserv: every operation keeps the tables consistent\<close>

text \<open>
  \<open>wf_pending R s\<close> is the invariant of the server in which the children of the clients \<open>R\<close>
  have been waited for but are still named; between two operations \<open>R\<close> is empty. The
  operations keep it, as long as the kernel hands out descriptors that are not open.
\<close>

subsection \<open>Counting clients and children\<close>

definition childrenOf :: "(int \<rightharpoonup> web_client) \<Rightarrow> int \<Rightarrow> int set" where
  "childrenOf C p = {g. \<exists>c. C g = Some c \<and> wc_cgiPid c = p}"

definition withChild :: "(int \<rightharpoonup> web_client) \<Rightarrow> int set" where
  "withChild C = {g. \<exists>c. C g = Some c \<and> 0 < wc_cgiPid c}"

definition children :: "int set \<Rightarrow> (int \<rightharpoonup> web_client) \<Rightarrow> (int \<Rightarrow> int) \<Rightarrow> bool" where
  "children R C K \<longleftrightarrow> (\<forall>p. 0 < p \<longrightarrow> K p = int (card (childrenOf C p - R)))"

definition bounded :: "(int \<rightharpoonup> web_client) \<Rightarrow> bool" where
  "bounded C \<longleftrightarrow> card (dom C) \<le> MAX_CONNECTIONS \<and> card (withChild C) \<le> MAX_CGI_PROCESSES"

lemma childrenOf_dom: "childrenOf C p \<subseteq> dom C" "withChild C \<subseteq> dom C"
  by (auto simp: childrenOf_def withChild_def)

lemma finite_children [simp]:
  "finite (dom C) \<Longrightarrow> finite (childrenOf C p)" "finite (dom C) \<Longrightarrow> finite (withChild C)"
  using childrenOf_dom finite_subset by metis+

lemma childrenOf_upd:
  "childrenOf (C(g \<mapsto> c)) p = (if wc_cgiPid c = p then insert g (childrenOf C p) else childrenOf C p - {g})"
  "childrenOf (C(g := None)) p = childrenOf C p - {g}"
  "withChild (C(g \<mapsto> c)) = (if 0 < wc_cgiPid c then insert g (withChild C) else withChild C - {g})"
  "withChild (C(g := None)) = withChild C - {g}"
  by (auto simp: childrenOf_def withChild_def)

lemma childrenOf_iff: "C g = Some c \<Longrightarrow> g \<in> childrenOf C p \<longleftrightarrow> wc_cgiPid c = p"
  "C g = Some c \<Longrightarrow> g \<in> withChild C \<longleftrightarrow> 0 < wc_cgiPid c"
  "C g = None \<Longrightarrow> g \<notin> childrenOf C p" "C g = None \<Longrightarrow> g \<notin> withChild C"
  by (auto simp: childrenOf_def withChild_def)

lemma children_same:
  assumes "children R C K" and "C g = Some c" and "wc_cgiPid c' = wc_cgiPid c"
  shows "children R (C(g \<mapsto> c')) K"
proof -
  have "childrenOf (C(g \<mapsto> c')) p = childrenOf C p" for p
    using assms(2,3) by (auto simp: childrenOf_def)
  with assms(1) show ?thesis by (simp add: children_def)
qed

lemma children_done:
  assumes "children R C K" and "C g = Some c" and "g \<in> R \<or> wc_cgiPid c \<le> 0" and "wc_cgiPid c' \<le> 0"
  shows "children (R - {g}) (C(g \<mapsto> c')) K" and "children (R - {g}) (C(g := None)) K"
proof -
  have "childrenOf (C(g \<mapsto> c')) p - (R - {g}) = childrenOf C p - R"
    and "childrenOf (C(g := None)) p - (R - {g}) = childrenOf C p - R" if "0 < p" for p
    using assms(2-4) that by (auto simp: childrenOf_def)
  with assms(1) show "children (R - {g}) (C(g \<mapsto> c')) K" and "children (R - {g}) (C(g := None)) K"
    by (simp_all add: children_def)
qed

lemma children_reap:
  assumes "children R C K" and "finite (dom C)" and "C g = Some c" and "g \<notin> R"
  shows "children (insert g R) C (K(wc_cgiPid c := K (wc_cgiPid c) - 1))"
  unfolding children_def
proof (intro allI impI)
  fix p :: int assume p: "0 < p"
  have fin: "finite (childrenOf C p - R)" using assms(2) by simp
  have k: "K p = int (card (childrenOf C p - R))" using assms(1) p by (simp add: children_def)
  have e: "childrenOf C p - insert g R = childrenOf C p - R - {g}" by auto
  show "(K(wc_cgiPid c := K (wc_cgiPid c) - 1)) p = int (card (childrenOf C p - insert g R))"
  proof (cases "p = wc_cgiPid c")
    case True
    then have g: "g \<in> childrenOf C p - R" using assms(3,4) by (auto simp: childrenOf_def)
    then have "0 < card (childrenOf C p - R)" using fin card_gt_0_iff by blast
    with g True k show ?thesis unfolding e by (simp add: card_Diff_singleton of_nat_diff)
  next
    case False
    then have "g \<notin> childrenOf C p" using assms(3) by (auto simp: childrenOf_def)
    with False k show ?thesis unfolding e by simp
  qed
qed

lemma children_start:
  assumes "children {} C K" and "finite (dom C)" and "C g = Some c" and "wc_cgiPid c \<le> 0" and "0 < wc_cgiPid c'"
  shows "children {} (C(g \<mapsto> c')) (K(wc_cgiPid c' := K (wc_cgiPid c') + 1))"
proof -
  have "g \<notin> childrenOf C p" if "0 < p" for p using assms(3,4) that by (auto simp: childrenOf_def)
  with assms(1,2) show ?thesis by (simp add: children_def childrenOf_upd)
qed

lemma bounded_update:
  assumes "bounded C" and "finite (dom C)" and "C g = Some c" and "0 < wc_cgiPid c' \<longrightarrow> 0 < wc_cgiPid c"
  shows "bounded (C(g \<mapsto> c'))"
proof -
  have "withChild (C(g \<mapsto> c')) \<subseteq> withChild C" using assms(3,4) by (auto simp: withChild_def)
  then have "card (withChild (C(g \<mapsto> c'))) \<le> card (withChild C)" using assms(2) by (simp add: card_mono)
  with assms show ?thesis by (auto simp: bounded_def insert_absorb domI)
qed

lemma bounded_start:
  assumes "bounded C" and "finite (dom C)" and "C g = Some c" and "card (withChild C) < MAX_CGI_PROCESSES"
  shows "bounded (C(g \<mapsto> c'))"
proof -
  have "withChild (C(g \<mapsto> c')) \<subseteq> insert g (withChild C)" by (auto simp: withChild_def)
  then have "card (withChild (C(g \<mapsto> c'))) \<le> card (insert g (withChild C))"
    using assms(2) by (simp add: card_mono)
  also have "\<dots> \<le> Suc (card (withChild C))" using assms(2) by (simp add: card_insert_if)
  finally show ?thesis using assms by (simp add: bounded_def insert_absorb domI)
qed

lemma bounded_remove:
  assumes "bounded C" and "finite (dom C)"
  shows "bounded (C(g := None))"
proof -
  have "card (withChild C - {g}) \<le> card (withChild C)" and "card (dom C - {g}) \<le> card (dom C)"
    using assms(2) by (simp_all add: card_mono)
  with assms(1) show ?thesis by (simp add: bounded_def childrenOf_upd)
qed

subsection \<open>The invariant of a state\<close>

definition wf_pending :: "int set \<Rightarrow> webserver \<Rightarrow> bool" where
  "wf_pending R s \<longleftrightarrow>
     ordered_map (ws_clients s) \<and> distinct (map pf_fd (ws_pollFds s))
     \<and> shape (listenFds s) (clientMap s) (ws_inputOwners s) (ws_outputOwners s) (eventMap (ws_pollFds s))
     \<and> fd_balance (ws_trace s) = (\<lambda>f. if eventMap (ws_pollFds s) f = None then 0 else 1)
     \<and> children R (clientMap s) (child_balance (ws_trace s))
     \<and> bounded (clientMap s) \<and> distinct (map fst (ws_listeners s))"

abbreviation wf_web :: "webserver \<Rightarrow> bool" where
  "wf_web \<equiv> wf_pending {}"

lemma map_set_set [simp]: "map_set k v (map_set k v' m) = map_set k v m"
  by (induction k v' m rule: map_set.induct) auto

lemma filter_map_set [simp]: "filter (\<lambda>(k, v). k \<noteq> g) (map_set g v m) = filter (\<lambda>(k, v). k \<noteq> g) m"
  by (induction g v m rule: map_set.induct) auto

lemma map_of_erase [simp]: "map_of (filter (\<lambda>(k, v). k \<noteq> g) m) = (map_of m)(g := None)"
  by (induction m) (auto simp: fun_eq_iff)

lemma ordered_erase [simp]: "ordered_map m \<Longrightarrow> ordered_map (filter (\<lambda>(k, v). k \<noteq> g) m)"
  by (induction m) auto

lemma finite_clients [simp]: "finite (dom (clientMap s))"
  by (rule finite_dom_map_of)

lemma length_clients: "ordered_map m \<Longrightarrow> length m = card (dom (map_of m))"
  using distinct_card [of "map fst m"] by (simp add: dom_map_of_conv_image_fst ordered_map_def)

lemma runningCgi_card: "ordered_map (ws_clients s) \<Longrightarrow> runningCgi s = card (withChild (clientMap s))"
proof -
  assume o: "ordered_map (ws_clients s)"
  have "withChild (clientMap s) = fst ` set (filter (\<lambda>(fd, c). 0 < wc_cgiPid c) (ws_clients s))"
    using o by (force simp: withChild_def ordered_map_def)
  moreover have "distinct (map fst (filter (\<lambda>(fd, c). 0 < wc_cgiPid c) (ws_clients s)))"
    using o by (simp add: ordered_map_def distinct_map_filter)
  ultimately show ?thesis
    using distinct_card [of "map fst (filter (\<lambda>(fd, c). 0 < wc_cgiPid c) (ws_clients s))"]
    by (simp add: runningCgi_def)
qed

text \<open>How the accounts change with one effect.\<close>

lemma balance_simps [simp]:
  "fd_balance (FdOpened f # tr) = (fd_balance tr)(f := fd_balance tr f + 1)"
  "fd_balance (FdClosed f # tr) = (fd_balance tr)(f := fd_balance tr f - 1)"
  "fd_balance (ChildStarted p l # tr) = fd_balance tr"
  "fd_balance (ChildKilled p # tr) = fd_balance tr"
  "fd_balance (ChildReaped p # tr) = fd_balance tr"
  "fd_balance (SentTo f v # tr) = fd_balance tr"
  "fd_balance (PipedTo f v # tr) = fd_balance tr"
  "fd_balance (OnDisk e # tr) = fd_balance tr"
  "child_balance (FdOpened f # tr) = child_balance tr"
  "child_balance (FdClosed f # tr) = child_balance tr"
  "child_balance (ChildStarted p l # tr) = (child_balance tr)(p := child_balance tr p + 1)"
  "child_balance (ChildKilled p # tr) = child_balance tr"
  "child_balance (ChildReaped p # tr) = (child_balance tr)(p := child_balance tr p - 1)"
  "child_balance (SentTo f v # tr) = child_balance tr"
  "child_balance (PipedTo f v # tr) = child_balance tr"
  "child_balance (OnDisk e # tr) = child_balance tr"
  by (auto simp: fun_eq_iff)

declare fd_balance.simps(2) [simp del] child_balance.simps(2) [simp del]

subsection \<open>The changes of a state\<close>

lemma wf_pendingD:
  assumes "wf_pending R s"
  shows "ordered_map (ws_clients s)" and "distinct (map pf_fd (ws_pollFds s))"
    and "shape (listenFds s) (clientMap s) (ws_inputOwners s) (ws_outputOwners s) (eventMap (ws_pollFds s))"
    and "fd_balance (ws_trace s) = (\<lambda>f. if eventMap (ws_pollFds s) f = None then 0 else 1)"
    and "children R (clientMap s) (child_balance (ws_trace s))"
    and "bounded (clientMap s)" and "distinct (map fst (ws_listeners s))"
  using assms by (simp_all add: wf_pending_def)

lemma wf_update:
  assumes w: "wf_pending R s" and c: "clientMap s g = Some c" and ok: "client_ok g c'"
    and pipes: "wc_cgiInputFd c' = wc_cgiInputFd c" "wc_cgiOutputFd c' = wc_cgiOutputFd c"
    and pid: "wc_cgiPid c' = wc_cgiPid c \<and> R' = R
      \<or> (g \<in> R \<or> wc_cgiPid c \<le> 0) \<and> wc_cgiPid c' \<le> 0 \<and> R' = R - {g}"
    and s': "ws_clients s' = map_set g c' (ws_clients s)" "ws_listeners s' = ws_listeners s"
      "ws_inputOwners s' = ws_inputOwners s" "ws_outputOwners s' = ws_outputOwners s"
      "map pf_fd (ws_pollFds s') = map pf_fd (ws_pollFds s)"
      "eventMap (ws_pollFds s') = (eventMap (ws_pollFds s))(g \<mapsto> asks_for c')"
      "fd_balance (ws_trace s') = fd_balance (ws_trace s)"
      "child_balance (ws_trace s') = child_balance (ws_trace s)"
  shows "wf_pending R' s'"
proof -
  note d = wf_pendingD [OF w]
  have "0 < wc_cgiPid c' \<longrightarrow> 0 < wc_cgiPid c" using pid by auto
  then have "bounded ((clientMap s)(g \<mapsto> c'))"
    using bounded_update [OF d(6) _ c] by simp
  moreover have "children R' ((clientMap s)(g \<mapsto> c')) (child_balance (ws_trace s))"
    using pid children_same [OF d(5) c] children_done(1) [OF d(5) c] by blast
  moreover have "fd_balance (ws_trace s) =
      (\<lambda>f. if ((eventMap (ws_pollFds s))(g \<mapsto> asks_for c')) f = None then 0 else 1)"
    using shape_asks_for [OF d(3) c] d(4) by (auto simp: fun_eq_iff)
  moreover have "shape (listenFds s) ((clientMap s)(g \<mapsto> c')) (ws_inputOwners s) (ws_outputOwners s)
      ((eventMap (ws_pollFds s))(g \<mapsto> asks_for c'))"
    using shape_update [OF d(3) c ok] pipes by blast
  ultimately show ?thesis
    using d(1,2,7) s' by (simp add: wf_pending_def listenFds_def)
qed

lemma wf_put:
  assumes "wf_pending R s" and "clientMap s g = Some c" and "client_ok g c'"
    and "wc_cgiInputFd c' = wc_cgiInputFd c" "wc_cgiOutputFd c' = wc_cgiOutputFd c"
    and "wc_cgiPid c' = wc_cgiPid c" and "asks_for c' = asks_for c"
  shows "wf_pending R (put_client g c' s)"
  by (rule wf_update [OF assms(1-5), where R' = R])
    (use assms shape_asks_for [OF wf_pendingD(3) [OF assms(1)] assms(2)]
     in \<open>auto simp: put_client_def fun_upd_idem\<close>)

lemma wf_effects:
  assumes "wf_pending R s" and "fd_balance (rev es @ ws_trace s) = fd_balance (ws_trace s)"
    and "child_balance (rev es @ ws_trace s) = child_balance (ws_trace s)"
  shows "wf_pending R (effects es s)"
  using assms by (simp add: wf_pending_def effects_def listenFds_def)

lemma wf_reap:
  assumes "wf_pending R s" and "clientMap s g = Some c" and "g \<notin> R"
  shows "wf_pending (insert g R) (effects [ChildReaped (wc_cgiPid c)] s)"
    and "wf_pending (insert g R) (effects [ChildKilled (wc_cgiPid c), ChildReaped (wc_cgiPid c)] s)"
  using wf_pendingD [OF assms(1)] children_reap [OF _ finite_clients assms(2,3)]
  by (simp_all add: wf_pending_def effects_def listenFds_def)

lemma wf_release_input:
  assumes w: "wf_pending R s" and c: "clientMap s g = Some c" and f: "0 \<le> wc_cgiInputFd c"
  shows "wf_pending R (put_client g (c\<lparr>wc_cgiInputFd := - 1\<rparr>) (release_input (wc_cgiInputFd c) s))"
proof -
  note d = wf_pendingD [OF w]
  have o: "ws_inputOwners s (wc_cgiInputFd c) = Some g"
    using shape_owner(1) [OF d(3)] c f by blast
  then have "eventMap (ws_pollFds s) (wc_cgiInputFd c) \<noteq> None"
    using d(3) by (auto simp: shape_def expected_def apart_def split: option.split)
  moreover have "children R ((clientMap s)(g \<mapsto> c\<lparr>wc_cgiInputFd := - 1\<rparr>)) (child_balance (ws_trace s))"
    by (rule children_same [OF d(5) c]) simp
  moreover have "bounded ((clientMap s)(g \<mapsto> c\<lparr>wc_cgiInputFd := - 1\<rparr>))"
    by (rule bounded_update [OF d(6) finite_clients c]) simp
  ultimately show ?thesis
    using d shape_drop_input [OF d(3) c f]
    by (auto simp: wf_pending_def release_input_def removePollFd_def effects_def put_client_def
        listenFds_def eventMap_erase fun_eq_iff)
qed

lemma wf_release_output:
  assumes w: "wf_pending R s" and c: "clientMap s g = Some c" and f: "0 \<le> wc_cgiOutputFd c"
  shows "wf_pending R (put_client g (c\<lparr>wc_cgiOutputFd := - 1\<rparr>) (release_output (wc_cgiOutputFd c) s))"
proof -
  note d = wf_pendingD [OF w]
  have o: "ws_outputOwners s (wc_cgiOutputFd c) = Some g"
    using shape_owner(2) [OF d(3)] c f by blast
  then have "eventMap (ws_pollFds s) (wc_cgiOutputFd c) \<noteq> None"
    using d(3) by (auto simp: shape_def expected_def apart_def split: option.split)
  moreover have "children R ((clientMap s)(g \<mapsto> c\<lparr>wc_cgiOutputFd := - 1\<rparr>)) (child_balance (ws_trace s))"
    by (rule children_same [OF d(5) c]) simp
  moreover have "bounded ((clientMap s)(g \<mapsto> c\<lparr>wc_cgiOutputFd := - 1\<rparr>))"
    by (rule bounded_update [OF d(6) finite_clients c]) simp
  ultimately show ?thesis
    using d shape_drop_output [OF d(3) c f]
    by (auto simp: wf_pending_def release_output_def removePollFd_def effects_def put_client_def
        listenFds_def eventMap_erase fun_eq_iff)
qed

text \<open>Both pipes of a client.\<close>

definition no_pipes :: "web_client \<Rightarrow> web_client" where
  "no_pipes c =
     c\<lparr>wc_cgiInputFd := (if 0 \<le> wc_cgiInputFd c then - 1 else wc_cgiInputFd c),
       wc_cgiOutputFd := (if 0 \<le> wc_cgiOutputFd c then - 1 else wc_cgiOutputFd c)\<rparr>"

lemma no_pipes_simps [simp]:
  "wc_cgiInputFd (no_pipes c) < 0" "wc_cgiOutputFd (no_pipes c) < 0"
  "wc_cgiPid (no_pipes c) = wc_cgiPid c" "wc_fd (no_pipes c) = wc_fd c"
  "wc_config (no_pipes c) = wc_config c" "wc_output (no_pipes c) = wc_output c"
  by (simp_all add: no_pipes_def)

lemma release_put:
  "release_output f (put_client g c s) = put_client g c (release_output f s)"
  "release_input f (put_client g c s) = put_client g c (release_input f s)"
  "put_client g c (put_client g c' s) = put_client g c s"
  by (simp_all add: release_output_def release_input_def removePollFd_def effects_def put_client_def)

lemma clientMap_put [simp]:
  "ordered_map (ws_clients s) \<Longrightarrow> clientMap (put_client g c s) = (clientMap s)(g \<mapsto> c)"
  by (simp add: put_client_def)

lemma clients_release [simp]:
  "ws_clients (release_input f s) = ws_clients s" "ws_clients (release_output f s) = ws_clients s"
  "ws_clients (release_pipes c s) = ws_clients s" "ws_clients (effects es s) = ws_clients s"
  by (simp_all add: release_pipes_def release_output_def release_input_def removePollFd_def effects_def Let_def)

lemma wf_release_pipes:
  assumes w: "wf_pending R s" and c: "clientMap s g = Some c"
  shows "wf_pending R (put_client g (no_pipes c) (release_pipes c s))"
proof -
  note ord = wf_pendingD(1) [OF w]
  define c1 where "c1 = c\<lparr>wc_cgiInputFd := (if 0 \<le> wc_cgiInputFd c then - 1 else wc_cgiInputFd c)\<rparr>"
  define s1 where "s1 = put_client g c1
    (if 0 \<le> wc_cgiInputFd c then release_input (wc_cgiInputFd c) s else s)"
  have w1: "wf_pending R s1"
    using wf_release_input [OF w c] wf_put [OF w c, of c] shape_client [OF wf_pendingD(3) [OF w] c]
    by (simp add: s1_def c1_def)
  have m1: "clientMap s1 g = Some c1" using ord by (simp add: s1_def)
  have "put_client g (no_pipes c) (release_pipes c s) =
      (if 0 \<le> wc_cgiOutputFd c1 then put_client g (c1\<lparr>wc_cgiOutputFd := - 1\<rparr>) (release_output (wc_cgiOutputFd c1) s1)
       else s1)"
    by (simp add: release_pipes_def no_pipes_def c1_def s1_def release_put)
  then show ?thesis using wf_release_output [OF w1 m1] w1 by simp
qed

lemma wf_remove:
  assumes w: "wf_pending R s" and c: "clientMap s g = Some c" and "g \<in> R \<or> wc_cgiPid c \<le> 0"
    and "wc_cgiInputFd c < 0" and "wc_cgiOutputFd c < 0"
  shows "wf_pending (R - {g}) (erase_client g (removePollFd g (effects [FdClosed g] s)))"
proof -
  note d = wf_pendingD [OF w]
  have "fd_balance (FdClosed g # ws_trace s) =
      (\<lambda>f. if ((eventMap (ws_pollFds s))(g := None)) f = None then 0 else 1)"
    using shape_asks_for [OF d(3) c] d(4) by (auto simp: fun_eq_iff)
  with d shape_remove [OF d(3) c assms(4,5)]
    bounded_remove [OF d(6) finite_clients, of g] children_done(2) [OF d(5) c assms(3), of "c\<lparr>wc_cgiPid := 0\<rparr>"]
  show ?thesis
    by (simp add: wf_pending_def erase_client_def removePollFd_def effects_def listenFds_def eventMap_erase)
qed

lemma wf_closeClient:
  assumes w: "wf_web s"
  shows "wf_web (closeClient g s)"
proof (cases "clientMap s g")
  case None
  with w show ?thesis by (simp add: closeClient_def find_client_def)
next
  case (Some c)
  define s1 where "s1 = (if 0 < wc_cgiPid c
    then effects [ChildKilled (wc_cgiPid c), ChildReaped (wc_cgiPid c)] s else s)"
  define R where "R = (if 0 < wc_cgiPid c then {g} else {})"
  have w1: "wf_pending R s1" using wf_reap(2) [OF w Some] w by (simp add: R_def s1_def)
  have m1: "clientMap s1 g = Some c" using Some by (simp add: s1_def)
  let ?t = "put_client g (no_pipes c) (release_pipes c s1)"
  have "clientMap ?t g = Some (no_pipes c)"
    using wf_pendingD(1) [OF w1] by simp
  from wf_remove [OF wf_release_pipes [OF w1 m1] this]
  have "wf_pending (R - {g}) (erase_client g (removePollFd g (effects [FdClosed g] ?t)))"
    by (simp add: R_def)
  moreover have "erase_client g (removePollFd g (effects [FdClosed g] ?t)) = closeClient g s"
    using Some by (simp add: closeClient_def find_client_def s1_def erase_client_def removePollFd_def
        effects_def put_client_def Let_def)
  moreover have "R - {g} = {}" by (simp add: R_def)
  ultimately show ?thesis by simp
qed

subsection \<open>The end of a script, answers, timeouts\<close>

lemma serialize_not_Nil [simp]: "serialize r \<noteq> []" "web_error os status config \<noteq> []"
  by (simp_all add: serialize_def web_error_def)

lemma wf_polls:
  assumes w: "wf_pending R s"
  shows "clientMap s g = Some c \<Longrightarrow> g \<in> pf_fd ` set (ws_pollFds s)"
    and "i < length (ws_pollFds s) \<Longrightarrow> pf_fd (ws_pollFds s ! i) = g \<Longrightarrow>
      eventMap (ws_pollFds (set_events_at i ev s)) = (eventMap (ws_pollFds s))(g \<mapsto> ev)"
    and "clientMap s g = Some c \<Longrightarrow>
      eventMap (set_events g ev (ws_pollFds s)) = (eventMap (ws_pollFds s))(g \<mapsto> ev)"
    and "clientMap s g = Some c \<Longrightarrow>
      eventMap (ws_pollFds (await_output g s)) = (eventMap (ws_pollFds s))(g \<mapsto> {POLLOUT})"
proof -
  note d = wf_pendingD [OF w]
  show m: "clientMap s g = Some c \<Longrightarrow> g \<in> pf_fd ` set (ws_pollFds s)"
    using shape_asks_for [OF d(3)] by (auto simp flip: dom_eventMap)
  show "i < length (ws_pollFds s) \<Longrightarrow> pf_fd (ws_pollFds s ! i) = g \<Longrightarrow>
      eventMap (ws_pollFds (set_events_at i ev s)) = (eventMap (ws_pollFds s))(g \<mapsto> ev)"
    using eventMap_update [OF d(2), of i ev] by (simp add: set_events_at_def)
  show e: "clientMap s g = Some c \<Longrightarrow>
      eventMap (set_events g ev (ws_pollFds s)) = (eventMap (ws_pollFds s))(g \<mapsto> ev)" for ev
    using eventMap_set_events m by blast
  show "clientMap s g = Some c \<Longrightarrow>
      eventMap (ws_pollFds (await_output g s)) = (eventMap (ws_pollFds s))(g \<mapsto> {POLLOUT})"
    using e set_events_map [OF d(2)] by (simp add: await_output_def)
qed

lemma map_pf_fd_await [simp]: "map pf_fd (ws_pollFds (await_output g s)) = map pf_fd (ws_pollFds s)"
  by (simp add: await_output_def)

text \<open>A client without pipes gets its answer.\<close>

definition answered :: "web_client \<Rightarrow> bool" where
  "answered c \<longleftrightarrow> wc_output c \<noteq> [] \<and> wc_cgiPid c \<le> 0"

lemma answered_asks_for: "answered c \<Longrightarrow> asks_for c = {POLLOUT}"
  by (simp add: answered_def asks_for_def)

lemma wf_answered:
  assumes w: "wf_pending R s" and c: "clientMap s g = Some c" "g \<in> R \<or> wc_cgiPid c \<le> 0"
    and a: "answered c'" "wc_fd c' = wc_fd c" "wc_config c' = wc_config c"
      "wc_cgiInputFd c' = wc_cgiInputFd c" "wc_cgiOutputFd c' = wc_cgiOutputFd c"
      "wc_cgiInputFd c < 0" "wc_cgiOutputFd c < 0"
    and s': "ws_clients s' = map_set g c' (ws_clients s)" "ws_listeners s' = ws_listeners s"
      "ws_inputOwners s' = ws_inputOwners s" "ws_outputOwners s' = ws_outputOwners s"
      "map pf_fd (ws_pollFds s') = map pf_fd (ws_pollFds s)"
      "eventMap (ws_pollFds s') = (eventMap (ws_pollFds s))(g \<mapsto> {POLLOUT})"
      "fd_balance (ws_trace s') = fd_balance (ws_trace s)"
      "child_balance (ws_trace s') = child_balance (ws_trace s)"
  shows "wf_pending (R - {g}) s'"
proof (rule wf_update [OF w c(1) _ a(4,5)])
  show "client_ok g c'"
    using shape_client [OF wf_pendingD(3) [OF w] c(1)] a by (simp add: client_ok_def answered_def)
qed (use c(2) a s' answered_asks_for [OF a(1)] in \<open>auto simp: answered_def\<close>)

lemma finishCgi_eq:
  assumes "clientMap s g = Some c" and "wc_config c = Some config"
  obtains out where "out \<noteq> []"
    and "finishCgi os g status s =
      Done (let s2 = put_client g ((no_pipes c)\<lparr>wc_cgiPid := - 1, wc_output := out, wc_sent := 0,
                       wc_touched := int (os_time os), wc_phase := CLIENT_WRITING\<rparr>) (release_pipes c s)
            in s2\<lparr>ws_pollFds := set_events g {POLLOUT} (ws_pollFds s2)\<rparr>)"
proof -
  let ?r = "if exited_zero status then makeResponse os (wc_cgiOutput c) config else error_response os 500 config"
  show thesis
    by (rule that [of "serialize ?r"])
      (use assms in \<open>simp_all add: finishCgi_def find_client_def with_config_def no_pipes_def Let_def\<close>)
qed

lemma client_config:
  assumes "wf_pending R s" and "clientMap s g = Some c"
  obtains config where "wc_config c = Some config" and "wc_fd c = g"
  using shape_client [OF wf_pendingD(3) [OF assms(1)] assms(2)] by (auto simp: client_ok_def)

lemma wf_finishCgi:
  assumes w: "wf_pending R s" and g: "g \<in> R"
  obtains t where "finishCgi os g status s = Done t" and "wf_pending (R - {g}) t"
    and "\<And>h c. clientMap t h = Some c \<longleftrightarrow>
      (if h = g then clientMap s g \<noteq> None \<and> clientMap t g = Some c else clientMap s h = Some c)"
proof (cases "clientMap s g")
  case None
  have "children (R - {g}) (clientMap s) K" if "children R (clientMap s) K" for K
  proof -
    have "childrenOf (clientMap s) p - (R - {g}) = childrenOf (clientMap s) p - R" for p
      using None by (auto simp: childrenOf_def)
    with that show ?thesis by (simp add: children_def)
  qed
  with w have "wf_pending (R - {g}) s" by (simp add: wf_pending_def)
  with None that [of s] show thesis by (simp add: finishCgi_def find_client_def)
next
  case (Some c)
  obtain config where config: "wc_config c = Some config" using client_config [OF w Some] by blast
  obtain out where out: "out \<noteq> []" and f: "finishCgi os g status s =
      Done (let s2 = put_client g ((no_pipes c)\<lparr>wc_cgiPid := - 1, wc_output := out, wc_sent := 0,
                       wc_touched := int (os_time os), wc_phase := CLIENT_WRITING\<rparr>) (release_pipes c s)
            in s2\<lparr>ws_pollFds := set_events g {POLLOUT} (ws_pollFds s2)\<rparr>)"
    using finishCgi_eq [OF Some config] .
  define c' where "c' = (no_pipes c)\<lparr>wc_cgiPid := - 1, wc_output := out, wc_sent := 0,
                       wc_touched := int (os_time os), wc_phase := CLIENT_WRITING\<rparr>"
  let ?s1 = "put_client g (no_pipes c) (release_pipes c s)"
  have w1: "wf_pending R ?s1" by (rule wf_release_pipes [OF w Some])
  have m1: "clientMap ?s1 g = Some (no_pipes c)" using wf_pendingD(1) [OF w] by simp
  let ?t = "let s2 = put_client g c' (release_pipes c s)
            in s2\<lparr>ws_pollFds := set_events g {POLLOUT} (ws_pollFds s2)\<rparr>"
  have "wf_pending (R - {g}) ?t"
    by (rule wf_answered [OF w1 m1, where c' = c'])
      (use g out wf_polls(3) [OF w1 m1] in \<open>simp_all add: c'_def answered_def put_client_def Let_def\<close>)
  then show thesis
    by (rule that [rotated]) (use f Some wf_pendingD(1) [OF w] in \<open>auto simp: c'_def put_client_def Let_def split: if_splits\<close>)
qed

end
