(* ===== verification/Web_Keeps.thy ===== *)
theory Web_Keeps
  imports Web_Tables "HOL-Library.Multiset"
begin

section \<open>webserv: the event handlers keep the tables consistent\<close>

text \<open>
  The trace of a state only grows, so the assumption on the kernel holds for every state before
  the one it is made for. Under it each handler, the end of a round and the whole loop keep
  \<open>wf_web\<close>, and none of them reads through a \<open>NULL\<close> configuration.
\<close>

subsection \<open>The trace only grows\<close>

definition extends :: "webserver \<Rightarrow> webserver \<Rightarrow> bool" where
  "extends s t \<longleftrightarrow> (\<exists>es. ws_trace t = es @ ws_trace s)"

lemma extends_refl [simp]: "extends s s"
  by (simp add: extends_def)

lemma extends_trans: "extends s t \<Longrightarrow> extends t u \<Longrightarrow> extends s u"
  by (auto simp: extends_def)

lemma extends_kernel: "extends s t \<Longrightarrow> kernel_ok (ws_trace t) \<Longrightarrow> kernel_ok (ws_trace s)"
  by (auto simp: extends_def dest: kernel_ok_append)

lemma extends_same: "ws_trace t = ws_trace s \<Longrightarrow> extends s t"
  by (simp add: extends_def)

lemma trace_simps [simp]:
  "ws_trace (put_client g c s) = ws_trace s"
  "ws_trace (erase_client g s) = ws_trace s"
  "ws_trace (add_pollfd f ev s) = ws_trace s"
  "ws_trace (set_events_at i ev s) = ws_trace s"
  "ws_trace (removePollFd f s) = ws_trace s"
  "ws_trace (await_output f s) = ws_trace s"
  "ws_trace (effects es s) = rev es @ ws_trace s"
  "ws_trace (snd (client_slot f s)) = ws_trace s"
  "ws_trace (snd (input_owner f s)) = ws_trace s"
  "ws_trace (snd (output_owner f s)) = ws_trace s"
  "ws_trace (poll_results r s) = ws_trace s"
  by (simp_all add: put_client_def erase_client_def add_pollfd_def set_events_at_def removePollFd_def
      await_output_def effects_def client_slot_def input_owner_def output_owner_def poll_results_def
      split: option.split)

lemma trace_slots [simp]:
  "client_slot f s = (c, t) \<Longrightarrow> ws_trace t = ws_trace s"
  "input_owner f s = (g, t) \<Longrightarrow> ws_trace t = ws_trace s"
  "output_owner f s = (g, t) \<Longrightarrow> ws_trace t = ws_trace s"
  using trace_simps(8-10) [of f s] by simp_all

named_theorems later

lemma later_writes [later]:
  assumes "extends s t"
  shows "extends s (put_client g c t)" "extends s (erase_client g t)" "extends s (add_pollfd f ev t)"
    "extends s (set_events_at i ev t)" "extends s (removePollFd f t)" "extends s (await_output f t)"
    "extends s (effects es t)" "extends s (t\<lparr>ws_pollFds := ps\<rparr>)"
    "extends s (t\<lparr>ws_inputOwners := m\<rparr>)" "extends s (t\<lparr>ws_outputOwners := m\<rparr>)"
  using assms by (auto simp: extends_def)

lemma later_release [later]:
  assumes "extends s t"
  shows "extends s (release_input f t)" "extends s (release_output f t)" "extends s (release_pipes c t)"
  using assms by (simp_all add: release_input_def release_output_def release_pipes_def Let_def later)

lemma later_slot:
  "client_slot f t = (c, u) \<Longrightarrow> extends s t \<Longrightarrow> extends s u"
  "input_owner f t = (g, u) \<Longrightarrow> extends s t \<Longrightarrow> extends s u"
  "output_owner f t = (g, u) \<Longrightarrow> extends s t \<Longrightarrow> extends s u"
  by (auto simp: extends_def)

lemma later_closeClient [later]: "extends s t \<Longrightarrow> extends s (closeClient g t)"
  by (simp add: closeClient_def Let_def later split: option.split)

lemma later_answer_at [later]: "extends s t \<Longrightarrow> extends s (answer_at i g out t)"
  by (auto simp: answer_at_def split: prod.split intro!: later intro: later_slot)

text \<open>The same for outcomes.\<close>

definition reaches :: "webserver \<Rightarrow> web_outcome \<Rightarrow> bool" where
  "reaches s r \<longleftrightarrow>
     (case r of Done t \<Rightarrow> extends s t | Raised msg t \<Rightarrow> extends s t | Stuck \<Rightarrow> True | NullConfig t \<Rightarrow> extends s t)"

lemma reaches_simps [simp]:
  "reaches s (Done t) = extends s t" "reaches s (Raised msg t) = extends s t"
  "reaches s Stuck" "reaches s (NullConfig t) = extends s t"
  by (simp_all add: reaches_def)

lemma reaches_then:
  assumes "reaches s r" and "\<And>t. r = Done t \<Longrightarrow> extends s t \<Longrightarrow> reaches s (f t)"
  shows "reaches s (web_then r f)"
  using assms by (cases r) simp_all

lemma reaches_finishCgi [later]: "extends s t \<Longrightarrow> reaches s (finishCgi os g status t)"
  by (simp add: finishCgi_def with_config_def Let_def later split: option.split)

lemma later_accept [later]: "extends s t \<Longrightarrow> extends s (accept_clients config now as t)"
  by (induction as arbitrary: t) (simp_all add: Let_def later)

lemma later_attach [later]: "extends s t \<Longrightarrow> extends s (attach_cgi now i g body timeout process t)"
  by (auto simp: attach_cgi_def Let_def split: prod.splits intro!: later intro: later_slot)

lemma later_startCgi: "startCgi a i request config t = (b, u) \<Longrightarrow> extends s t \<Longrightarrow> extends s u"
  by (auto simp: startCgi_def attach_cgi_def Let_def split: if_splits sum.splits option.splits prod.splits
      intro!: later intro: later_slot)

lemma reaches_answerRequest: "extends s t \<Longrightarrow> reaches s (answerRequest a i fd c config result t)"
  by (auto simp: answerRequest_def Let_def split: parse_outcome.split prod.split
      intro!: later intro: later_startCgi)

lemma reaches_readClient [later]: "extends s t \<Longrightarrow> reaches s (readClient a i t)"
  by (auto simp: readClient_def with_config_def Let_def split: prod.split input_answer.split option.split
      intro!: later reaches_answerRequest intro: later_slot)

lemma later_writeClient [later]: "extends s t \<Longrightarrow> extends s (writeClient a i t)"
  by (auto simp: writeClient_def Let_def split: prod.split output_answer.split
      intro!: later intro: later_slot)

lemma later_writeCgi [later]: "extends s t \<Longrightarrow> extends s (writeCgi a i t)"
  by (auto simp: writeCgi_def Let_def split: prod.split intro!: later intro: later_slot)

lemma reaches_readCgi [later]: "extends s t \<Longrightarrow> reaches s (readCgi a i t)"
  by (auto simp: readCgi_def Let_def split: prod.split option.split intro!: later intro: later_slot)

lemma reaches_handle_event [later]: "extends s t \<Longrightarrow> reaches s (handle_event a kind events i t)"
  by (auto simp: handle_event_def web_acceptClient_def Let_def split: event_kind.split prod.split
      intro!: later intro: later_slot)

lemma reaches_reapCgi [later]: "extends s t \<Longrightarrow> reaches s (reapCgi a t)"
proof -
  have "extends s t \<Longrightarrow> reaches s (finish_list os es t)" for os es t
    by (induction os es t rule: finish_list.induct) (auto intro!: reaches_then later)
  then show "extends s t \<Longrightarrow> reaches s (reapCgi a t)" by (simp add: reapCgi_def later)
qed

lemma reaches_expireClients [later]: "extends s t \<Longrightarrow> reaches s (expireClients os t)"
proof -
  have "extends s t \<Longrightarrow> reaches s (expireClient os g t)" for g t
    by (auto simp: expireClient_def with_config_def Let_def split: option.split intro!: later)
  then have "extends s t \<Longrightarrow> reaches s (expire_list os fds t)" for fds t
    by (induction os fds t rule: expire_list.induct) (auto intro!: reaches_then)
  then show "extends s t \<Longrightarrow> reaches s (expireClients os t)" by (simp add: expireClients_def)
qed

subsection \<open>The handlers\<close>

text \<open>A state is safe when it is consistent, provided the kernel behaved until then.\<close>

definition safe :: "webserver \<Rightarrow> bool" where
  "safe s \<longleftrightarrow> (kernel_ok (ws_trace s) \<longrightarrow> wf_web s)"

definition outcome_safe :: "web_outcome \<Rightarrow> bool" where
  "outcome_safe r \<longleftrightarrow>
     (case r of Done t \<Rightarrow> safe t | Raised msg t \<Rightarrow> safe t | Stuck \<Rightarrow> True | NullConfig t \<Rightarrow> \<not> kernel_ok (ws_trace t))"

lemma outcome_safe_simps [simp]:
  "outcome_safe (Done t) = safe t" "outcome_safe (Raised msg t) = safe t"
  "outcome_safe Stuck" "outcome_safe (NullConfig t) = (\<not> kernel_ok (ws_trace t))"
  by (simp_all add: outcome_safe_def)

lemma outcome_safe_then:
  "outcome_safe r \<Longrightarrow> (\<And>t. r = Done t \<Longrightarrow> safe t \<Longrightarrow> outcome_safe (f t)) \<Longrightarrow> outcome_safe (web_then r f)"
  by (cases r) simp_all

lemma safeI: "extends s t \<Longrightarrow> (kernel_ok (ws_trace t) \<Longrightarrow> wf_web s \<Longrightarrow> wf_web t) \<Longrightarrow> safe s \<Longrightarrow> safe t"
  unfolding safe_def using extends_kernel by blast

lemma client_slot_present: "clientMap s g = Some c \<Longrightarrow> client_slot g s = (c, s)"
  by (simp add: client_slot_def find_client_def)

lemma wf_web_client_at:
  assumes "wf_web s" and "clientMap s g = Some c"
  shows "client_ok g c" and "eventMap (ws_pollFds s) g = Some (asks_for c)"
  using shape_client [OF wf_pendingD(3) [OF assms(1)] assms(2)]
    shape_asks_for [OF wf_pendingD(3) [OF assms(1)] assms(2)] .

text \<open>A client whose entry is at index \<open>i\<close>.\<close>

definition client_at :: "nat \<Rightarrow> int \<Rightarrow> web_client \<Rightarrow> webserver \<Rightarrow> bool" where
  "client_at i g c s \<longleftrightarrow>
     i < length (ws_pollFds s) \<and> pf_fd (ws_pollFds s ! i) = g \<and> clientMap s g = Some c"

lemma wf_reply:
  assumes w: "wf_web s" and c: "client_at i g c s" and idle: "wc_cgiPid c \<le> 0"
    and a: "answered c'" "wc_fd c' = wc_fd c" "wc_config c' = wc_config c"
      "wc_cgiInputFd c' = wc_cgiInputFd c" "wc_cgiOutputFd c' = wc_cgiOutputFd c"
  shows "wf_web (set_events_at i {POLLOUT} (put_client g c' s))"
proof -
  note c' = c [unfolded client_at_def]
  have p: "wc_cgiInputFd c < 0" "wc_cgiOutputFd c < 0"
    using wf_web_client_at(1) [OF w] c' idle by (auto simp: client_ok_def not_le [symmetric])
  have "wf_pending ({} - {g}) (set_events_at i {POLLOUT} (put_client g c' s))"
    by (rule wf_answered [OF w, of g c c'])
      (use c' idle a p wf_polls(2) [OF w, of i g "{POLLOUT}"] in
        \<open>simp_all add: set_events_at_def put_client_def\<close>)
  then show ?thesis by simp
qed

lemma wf_answer_at:
  assumes "wf_web s" and "client_at i g c s" and "wc_cgiPid c \<le> 0" and "out \<noteq> []"
  shows "wf_web (answer_at i g out s)"
  using wf_reply [OF assms(1-3), of "c\<lparr>wc_output := out, wc_phase := CLIENT_WRITING\<rparr>"] assms(2-4)
  by (simp add: answer_at_def client_slot_present client_at_def answered_def)

lemma wf_web_effects_disk: "wf_web s \<Longrightarrow> wf_web (effects (map OnDisk es) s)"
proof -
  have "fd_balance (rev (map OnDisk es) @ tr) = fd_balance tr \<and> child_balance (rev (map OnDisk es) @ tr) = child_balance tr" for tr
    by (induction es rule: rev_induct) simp_all
  then show "wf_web s \<Longrightarrow> wf_web (effects (map OnDisk es) s)" by (simp add: wf_effects)
qed

lemma wf_accept_one:
  assumes w: "wf_web s" and k: "kernel_ok (FdOpened fd # ws_trace s)" and b: "length (ws_clients s) < MAX_CONNECTIONS"
    and c: "wc_fd c = fd" "wc_config c \<noteq> None" "wc_cgiPid c = - 1" "wc_cgiInputFd c = - 1"
      "wc_cgiOutputFd c = - 1" "wc_output c = []"
  shows "wf_web (add_pollfd fd {POLLIN} (put_client fd c (effects [FdOpened fd] s)))"
proof -
  note d = wf_pendingD [OF w]
  have fd: "0 \<le> fd" and f: "eventMap (ws_pollFds s) fd = None"
    using k d(4) by (auto split: if_splits)
  then have n: "fd \<notin> pf_fd ` set (ws_pollFds s)" by (simp add: eventMap_None)
  have m: "clientMap s fd = None"
    using d(3) f by (auto simp: shape_def expected_def split: if_splits option.splits)
  have "shape (listenFds s) ((clientMap s)(fd \<mapsto> c)) (ws_inputOwners s) (ws_outputOwners s)
      ((eventMap (ws_pollFds s))(fd \<mapsto> {POLLIN}))"
    using shape_accept [OF d(3) f, of c] c fd by (simp add: client_ok_def asks_for_def)
  moreover have "children {} ((clientMap s)(fd \<mapsto> c)) (child_balance (ws_trace s))"
    using d(5) c(3) m by (auto simp: children_def childrenOf_upd childrenOf_iff(3))
  moreover have "bounded ((clientMap s)(fd \<mapsto> c))"
    using d(6) c(3) b length_clients [OF d(1)] m
    by (simp add: bounded_def childrenOf_upd childrenOf_iff(4) domIff)
  moreover have "fd_balance (FdOpened fd # ws_trace s) =
      (\<lambda>g. if ((eventMap (ws_pollFds s))(fd \<mapsto> {POLLIN})) g = None then 0 else 1)"
    using d(4) f by (auto simp: fun_eq_iff)
  ultimately show ?thesis
    using d(1,2,7) n by (simp add: wf_pending_def listenFds_def add_pollfd_def put_client_def effects_def eventMap_snoc)
qed

lemma wf_refuse: "wf_web s \<Longrightarrow> wf_web (effects [FdClosed f] (effects [FdOpened f] s))"
  using wf_effects [of "{}" s "[FdOpened f, FdClosed f]"] by (simp add: effects_def)

lemma safe_accept:
  assumes "safe s" and "config \<noteq> None"
  shows "safe (accept_clients config now as s)"
  using assms(1)
proof (induction as arbitrary: s)
  case (Cons a as)
  let ?fd = "aa_fd a"
  let ?c = "new_web_client\<lparr>wc_fd := ?fd, wc_config := config, wc_touched := now,
              wc_remoteAddress := (case aa_address a of Some t \<Rightarrow> t | None \<Rightarrow> []),
              wc_remotePort := aa_port a\<rparr>"
  have "safe (effects [FdClosed ?fd] (effects [FdOpened ?fd] s))"
    by (rule safeI [OF _ _ Cons.prems]) (auto intro!: later wf_refuse)
  moreover have "safe (add_pollfd ?fd {POLLIN} (put_client ?fd ?c (effects [FdOpened ?fd] s)))"
    if "length (ws_clients s) < MAX_CONNECTIONS"
    by (rule safeI [OF _ _ Cons.prems]) (use that assms(2) in \<open>auto simp: new_web_client_def intro!: later wf_accept_one\<close>)
  ultimately show ?case using Cons by (simp add: Let_def not_le)
qed simp

text \<open>The process of a client is started: the child, then its two pipes.\<close>

lemma wf_trace:
  "wf_pending R s \<Longrightarrow> fd_balance tr = fd_balance (ws_trace s) \<Longrightarrow> child_balance tr = child_balance (ws_trace s) \<Longrightarrow>
     wf_pending R (s\<lparr>ws_trace := tr\<rparr>)"
  by (simp add: wf_pending_def listenFds_def)

lemma wf_start:
  assumes w: "wf_web s" and c: "client_at i g c s" and idle: "wc_cgiPid c \<le> 0"
    and run: "runningCgi s < MAX_CGI_PROCESSES"
    and c': "0 < wc_cgiPid c'" "wc_cgiInputFd c' < 0" "wc_cgiOutputFd c' < 0" "client_ok g c'"
  shows "wf_web (set_events_at i {} (put_client g c' (effects [ChildStarted (wc_cgiPid c') l] s)))"
proof -
  note d = wf_pendingD [OF w]
  have m: "clientMap s g = Some c" and i: "i < length (ws_pollFds s)" "pf_fd (ws_pollFds s ! i) = g"
    using c by (simp_all add: client_at_def)
  have p: "wc_cgiInputFd c < 0" "wc_cgiOutputFd c < 0"
    using wf_web_client_at(1) [OF w m] idle by (auto simp: client_ok_def not_le [symmetric])
  have "shape (listenFds s) ((clientMap s)(g \<mapsto> c')) (ws_inputOwners s) (ws_outputOwners s)
      ((eventMap (ws_pollFds s))(g \<mapsto> {}))"
    using shape_update [OF d(3) m c'(4)] c' p by (simp add: asks_for_def)
  moreover have "children {} ((clientMap s)(g \<mapsto> c'))
      ((child_balance (ws_trace s))(wc_cgiPid c' := child_balance (ws_trace s) (wc_cgiPid c') + 1))"
    by (rule children_start [OF d(5) finite_clients m idle c'(1)])
  moreover have "bounded ((clientMap s)(g \<mapsto> c'))"
    using bounded_start [OF d(6) finite_clients m] run runningCgi_card [OF d(1)] by simp
  moreover have "fd_balance (ws_trace s) = (\<lambda>f. if ((eventMap (ws_pollFds s))(g \<mapsto> {})) f = None then 0 else 1)"
    using wf_web_client_at(2) [OF w m] d(4) by (auto simp: fun_eq_iff)
  ultimately show ?thesis
    using d(1,2,7) eventMap_update [OF d(2) i(1), of "{}"] i(2)
    by (simp add: wf_pending_def listenFds_def set_events_at_def put_client_def effects_def)
qed

lemma wf_add_output:
  assumes w: "wf_web s" and m: "clientMap s g = Some c" and pid: "0 < wc_cgiPid c" and p: "wc_cgiOutputFd c < 0"
    and f: "0 \<le> f" "eventMap (ws_pollFds s) f = None"
  shows "wf_web ((add_pollfd f {POLLIN} (put_client g (c\<lparr>wc_cgiOutputFd := f\<rparr>) (effects [FdOpened f] s)))
    \<lparr>ws_outputOwners := (ws_outputOwners s)(f \<mapsto> g)\<rparr>)"
proof -
  note d = wf_pendingD [OF w]
  have n: "f \<notin> pf_fd ` set (ws_pollFds s)" using f by (simp add: eventMap_None)
  have "children {} ((clientMap s)(g \<mapsto> c\<lparr>wc_cgiOutputFd := f\<rparr>)) (child_balance (ws_trace s))"
    by (rule children_same [OF d(5) m]) simp
  moreover have "bounded ((clientMap s)(g \<mapsto> c\<lparr>wc_cgiOutputFd := f\<rparr>))"
    by (rule bounded_update [OF d(6) finite_clients m]) simp
  moreover have "fd_balance (FdOpened f # ws_trace s) =
      (\<lambda>h. if ((eventMap (ws_pollFds s))(f \<mapsto> {POLLIN})) h = None then 0 else 1)"
    using d(4) f by (auto simp: fun_eq_iff)
  ultimately show ?thesis
    using d(1,2,7) n shape_add_output [OF d(3) m pid p f(2,1)]
    by (simp add: wf_pending_def listenFds_def add_pollfd_def put_client_def effects_def eventMap_snoc)
qed

lemma wf_add_input:
  assumes w: "wf_web s" and m: "clientMap s g = Some c" and pid: "0 < wc_cgiPid c" and p: "wc_cgiInputFd c < 0"
    and f: "0 \<le> f" "eventMap (ws_pollFds s) f = None"
  shows "wf_web ((add_pollfd f {POLLOUT} (put_client g (c\<lparr>wc_cgiInputFd := f\<rparr>) (effects [FdOpened f] s)))
    \<lparr>ws_inputOwners := (ws_inputOwners s)(f \<mapsto> g)\<rparr>)"
proof -
  note d = wf_pendingD [OF w]
  have n: "f \<notin> pf_fd ` set (ws_pollFds s)" using f by (simp add: eventMap_None)
  have "children {} ((clientMap s)(g \<mapsto> c\<lparr>wc_cgiInputFd := f\<rparr>)) (child_balance (ws_trace s))"
    by (rule children_same [OF d(5) m]) simp
  moreover have "bounded ((clientMap s)(g \<mapsto> c\<lparr>wc_cgiInputFd := f\<rparr>))"
    by (rule bounded_update [OF d(6) finite_clients m]) simp
  moreover have "fd_balance (FdOpened f # ws_trace s) =
      (\<lambda>h. if ((eventMap (ws_pollFds s))(f \<mapsto> {POLLOUT})) h = None then 0 else 1)"
    using d(4) f by (auto simp: fun_eq_iff)
  ultimately show ?thesis
    using d(1,2,7) n shape_add_input [OF d(3) m pid p f(2,1)]
    by (simp add: wf_pending_def listenFds_def add_pollfd_def put_client_def effects_def eventMap_snoc)
qed

lemma wf_attach_cgi:
  assumes w: "wf_web s" and c: "client_at i g c s" and idle: "wc_cgiPid c \<le> 0" "wc_output c = []"
    and run: "runningCgi s < MAX_CGI_PROCESSES"
    and k: "kernel_ok (rev (start_effects a st) @ ws_trace s)"
    and st: "cs_process st = Some \<lparr>cp_pid = ca_fork a, cp_inputFd = in1, cp_outputFd = out0\<rparr>"
      "cs_opened st = [in0, in1, out0, out1]" "cs_closed st = [in0, out1]" "cs_launch st = Some l"
  shows "wf_web (attach_cgi now i g body timeout \<lparr>cp_pid = ca_fork a, cp_inputFd = in1, cp_outputFd = out0\<rparr>
    (effects (start_effects a st) s))"
proof -
  let ?E = "eventMap (ws_pollFds s)" and ?tr = "ws_trace s" and ?pid = "ca_fork a"
  have m: "clientMap s g = Some c" using c by (simp add: client_at_def)
  have tr: "rev (start_effects a st) @ ?tr =
      [FdClosed out1, FdClosed in0, ChildStarted ?pid l, FdOpened out1, FdOpened out0, FdOpened in1, FdOpened in0] @ ?tr"
    using st by (simp add: start_effects_def)
  have b: "fd_balance ?tr = (\<lambda>f. if ?E f = None then 0 else 1)" by (rule wf_pendingD(4) [OF w])
  have k': "0 < ?pid" "0 \<le> in1" "0 \<le> out0" "?E in0 = None" "?E in1 = None" "?E out0 = None" "?E out1 = None"
      "in1 \<noteq> in0" "out0 \<noteq> in0" "out0 \<noteq> in1" "out1 \<noteq> in0" "out1 \<noteq> in1" "out1 \<noteq> out0"
    using k by (auto simp: tr b split: if_splits)
  define c1 where "c1 = c\<lparr>wc_cgiPid := ?pid, wc_cgiInputFd := - 1, wc_cgiOutputFd := - 1,
    wc_cgiInput := body, wc_cgiWritten := 0, wc_cgiOutput := [], wc_touched := now,
    wc_timeoutSeconds := timeout, wc_phase := (if body = [] then CLIENT_CGI_READING else CLIENT_CGI_WRITING)\<rparr>"
  define s1 where "s1 = set_events_at i {} (put_client g c1 (effects [ChildStarted (wc_cgiPid c1) l] s))"
  have "client_ok g c1"
    using wf_web_client_at(1) [OF w m] k'(1) idle(2) by (simp add: client_ok_def c1_def)
  then have w1: "wf_web s1"
    unfolding s1_def by (rule wf_start [OF w c idle(1) run, rotated 3]) (use k'(1) in \<open>simp_all add: c1_def\<close>)
  have ord: "ordered_map (ws_clients s)" by (rule wf_pendingD(1) [OF w])
  have m1: "clientMap s1 g = Some c1" using ord by (simp add: s1_def set_events_at_def put_client_def)
  have e1: "eventMap (ws_pollFds s1) f = None \<longleftrightarrow> ?E f = None" for f
    by (simp add: eventMap_None s1_def set_events_at_def put_client_def effects_def)
  define c2 where "c2 = c1\<lparr>wc_cgiOutputFd := out0\<rparr>"
  define s2 where "s2 = (add_pollfd out0 {POLLIN} (put_client g c2 (effects [FdOpened out0] s1)))
    \<lparr>ws_outputOwners := (ws_outputOwners s1)(out0 \<mapsto> g)\<rparr>"
  have w2: "wf_web s2"
    unfolding s2_def c2_def by (rule wf_add_output [OF w1 m1]) (use k' e1 in \<open>simp_all add: c1_def\<close>)
  have m2: "clientMap s2 g = Some c2"
    using ord by (simp add: s2_def add_pollfd_def s1_def set_events_at_def put_client_def)
  have e2: "eventMap (ws_pollFds s2) in1 = None"
    using e1 [of in1] k'(5,10) by (simp add: eventMap_None s2_def add_pollfd_def put_client_def effects_def)
  let ?t = "attach_cgi now i g body timeout \<lparr>cp_pid = ?pid, cp_inputFd = in1, cp_outputFd = out0\<rparr>
    (effects (start_effects a st) s)"
  note unfold = attach_cgi_def c1_def c2_def s1_def s2_def add_pollfd_def set_events_at_def put_client_def effects_def
  have slot: "client_slot g (effects es s) = (c, effects es s)" for es
    using m by (intro client_slot_present) simp
  show ?thesis
  proof (cases "body = []")
    case True
    have "?t = s2\<lparr>ws_trace := FdClosed in1 # rev (start_effects a st) @ ?tr\<rparr>"
      using True slot [unfolded effects_def] by (cases s; cases c) (simp add: unfold)
    moreover have "fd_balance (FdClosed in1 # rev (start_effects a st) @ ?tr) = fd_balance (ws_trace s2)"
      using k' by (auto simp: tr unfold fun_eq_iff)
    moreover have "child_balance (FdClosed in1 # rev (start_effects a st) @ ?tr) = child_balance (ws_trace s2)"
      by (simp add: tr unfold)
    ultimately show ?thesis using wf_trace [OF w2] by simp
  next
    case False
    define s3 where "s3 = (add_pollfd in1 {POLLOUT} (put_client g (c2\<lparr>wc_cgiInputFd := in1\<rparr>)
      (effects [FdOpened in1] s2)))\<lparr>ws_inputOwners := (ws_inputOwners s2)(in1 \<mapsto> g)\<rparr>"
    have w3: "wf_web s3"
      unfolding s3_def by (rule wf_add_input [OF w2 m2]) (use k' e2 in \<open>simp_all add: c2_def c1_def\<close>)
    have "?t = s3\<lparr>ws_trace := rev (start_effects a st) @ ?tr\<rparr>"
      using False slot [unfolded effects_def] by (cases s; cases c) (simp add: unfold s3_def)
    moreover have "fd_balance (rev (start_effects a st) @ ?tr) = fd_balance (ws_trace s3)"
      using k' by (auto simp: tr unfold s3_def fun_eq_iff)
    moreover have "child_balance (rev (start_effects a st) @ ?tr) = child_balance (ws_trace s3)"
      by (simp add: tr unfold s3_def)
    ultimately show ?thesis using wf_trace [OF w3] by simp
  qed
qed

text \<open>What \<open>CgiHandler::start\<close> leaves open.\<close>

lemma balance_lists:
  "fd_balance (map FdOpened fds @ tr) f = fd_balance tr f + int (count_list fds f)"
  "fd_balance (map FdClosed fds @ tr) f = fd_balance tr f - int (count_list fds f)"
  "child_balance (map FdOpened fds @ tr) = child_balance tr"
  "child_balance (map FdClosed fds @ tr) = child_balance tr"
  by (induction fds) auto

lemma start_cgi_failed_closes:
  assumes "cs_process (start_cgi os a request route config) = None"
  shows "mset (cs_closed (start_cgi os a request route config)) = mset (cs_opened (start_cgi os a request route config))"
  using assms by (simp add: start_cgi_def Let_def add_mset_commute split: if_splits option.splits prod.splits)

lemma start_effects_closed:
  assumes "cs_process st = None" and "mset (cs_closed st) = mset (cs_opened st)"
  shows "fd_balance (rev (start_effects a st) @ tr) = fd_balance tr"
    and "child_balance (rev (start_effects a st) @ tr) = child_balance tr"
proof -
  have "count_list (rev (cs_closed st)) f = count_list (rev (cs_opened st)) f" for f
    using assms(2) by (metis count_mset mset_rev)
  with assms(1) show "fd_balance (rev (start_effects a st) @ tr) = fd_balance tr"
    and "child_balance (rev (start_effects a st) @ tr) = child_balance tr"
    by (simp_all add: start_effects_def rev_map balance_lists fun_eq_iff split: option.split)
qed

lemmas start_cgi_failed = start_effects_closed [OF _ start_cgi_failed_closes]

lemma start_cgi_started:
  assumes "cs_process (start_cgi os a request route config) = Some process"
  obtains in0 in1 out0 out1 l where "process = \<lparr>cp_pid = ca_fork a, cp_inputFd = in1, cp_outputFd = out0\<rparr>"
    and "cs_opened (start_cgi os a request route config) = [in0, in1, out0, out1]"
    and "cs_closed (start_cgi os a request route config) = [in0, out1]"
    and "cs_launch (start_cgi os a request route config) = Some l"
  using assms by (auto simp: start_cgi_def Let_def split: if_splits option.splits)

lemma client_at_effects [simp]: "client_at i g c (effects es s) = client_at i g c s"
  by (simp add: client_at_def effects_def)

lemma wf_startCgi:
  assumes w: "wf_web s" and c: "client_at i g c s" and idle: "wc_cgiPid c \<le> 0" "wc_output c = []"
    and st: "startCgi a i request config s = (b, t)" and k: "kernel_ok (ws_trace t)"
  shows "wf_web t" and "\<not> b \<Longrightarrow> t = s"
proof -
  have g: "pf_fd (ws_pollFds s ! i) = g" and m: "clientMap s g = Some c" using c by (simp_all add: client_at_def)
  have ans: "wf_web (answer_at i g (web_error os status config) s)" for os status
    by (rule wf_answer_at [OF w c idle(1)]) simp
  let ?route = "resolve request config" and ?os = "wa_os a"
  show "\<not> b \<Longrightarrow> t = s"
    using st by (auto simp: startCgi_def Let_def split: if_splits sum.splits option.splits)
  show "wf_web t"
  proof (cases "rt_status ?route \<noteq> ROUTE_READY \<or> \<not> cgi_matches ?route \<or> MAX_CGI_PROCESSES \<le> runningCgi s
      \<or> isl (resolveExisting ?os (route_root ?route config) (rt_diskPath ?route))")
    case True
    then have "t = s \<or> (\<exists>os status. t = answer_at i g (web_error os status config) s)"
      using st g by (cases "resolveExisting ?os (route_root ?route config) (rt_diskPath ?route)")
        (auto simp: startCgi_def Let_def split: if_splits)
    with w ans show ?thesis by blast
  next
    case False
    then obtain path where r: "resolveExisting ?os (route_root ?route config) (rt_diskPath ?route) = Inr path"
      and run: "runningCgi s < MAX_CGI_PROCESSES"
      by (cases "resolveExisting ?os (route_root ?route config) (rt_diskPath ?route)") auto
    let ?st = "start_cgi ?os (wa_cgi a) request (?route\<lparr>rt_diskPath := path\<rparr>) config"
    let ?s1 = "effects (start_effects (wa_cgi a) ?st) s"
    show ?thesis
    proof (cases "cs_process ?st")
      case None
      have "wf_web ?s1"
        by (rule wf_effects [OF w]) (rule start_cgi_failed [OF None None])+
      moreover have "client_at i g c ?s1" using c by simp
      ultimately have "wf_web (set_events_at i {POLLOUT} (put_client g (c\<lparr>wc_output := web_error ?os 500 config\<rparr>) ?s1))"
        by (rule wf_reply) (use idle in \<open>simp_all add: answered_def\<close>)
      moreover have slot: "client_slot g ?s1 = (c, ?s1)" using m by (intro client_slot_present) simp
      have "startCgi a i request config s =
          (True, set_events_at i {POLLOUT} (put_client g (c\<lparr>wc_output := web_error ?os 500 config\<rparr>) ?s1))"
        using False r g None slot run by (simp add: startCgi_def Let_def)
      ultimately show ?thesis using st by simp
    next
      case (Some process)
      obtain in0 in1 out0 out1 l where p: "process = \<lparr>cp_pid = ca_fork (wa_cgi a), cp_inputFd = in1, cp_outputFd = out0\<rparr>"
        and f: "cs_opened ?st = [in0, in1, out0, out1]" "cs_closed ?st = [in0, out1]" "cs_launch ?st = Some l"
        by (rule start_cgi_started [OF Some])
      let ?timeout = "case rt_location ?route of Some l \<Rightarrow> lc_cgiTimeout l | None \<Rightarrow> 0"
      have "startCgi a i request config s = (True, attach_cgi (wa_now a) i g (rq_body request) ?timeout process ?s1)"
        using False r g Some run by (simp add: startCgi_def Let_def)
      with st have t: "t = attach_cgi (wa_now a) i g (rq_body request) ?timeout process ?s1" by simp
      then have "extends ?s1 t" by (simp add: later)
      from extends_kernel [OF this k] have "kernel_ok (rev (start_effects (wa_cgi a) ?st) @ ws_trace s)" by simp
      from wf_attach_cgi [OF w c idle run this Some [unfolded p] f] show ?thesis unfolding t p .
    qed
  qed
qed

end
