(* ===== verification/Web_Events.thy ===== *)
theory Web_Events
  imports Web_Keeps
begin

section \<open>webserv: a round of the event loop keeps the tables consistent\<close>

text \<open>
  \<open>poll\<close> reports of reading and writing only what it was asked for. The entries from an index
  on that have not been handled in this round still satisfy that (\<open>fresh_from\<close>), although
  handlers erase entries, append some and change what others ask for.
\<close>

subsection \<open>Unhandled entries\<close>

definition honest :: "pollfd \<Rightarrow> bool" where
  "honest p \<longleftrightarrow> pf_revents p \<inter> {POLLIN, POLLOUT} \<subseteq> pf_events p"

definition fresh_from :: "nat \<Rightarrow> webserver \<Rightarrow> bool" where
  "fresh_from i s \<longleftrightarrow> (\<forall>p \<in> set (drop i (ws_pollFds s)). honest p)"

lemma fresh_from_le: "fresh_from i s \<Longrightarrow> i \<le> j \<Longrightarrow> fresh_from j s"
  using set_drop_subset_set_drop [of i j "ws_pollFds s"] by (auto simp: fresh_from_def)

lemma set_drop_erase: "set (drop i (erase_pollfd f ps)) \<subseteq> set (drop i ps)"
proof (induction ps arbitrary: i)
  case (Cons p ps)
  show ?case
  proof (cases i)
    case 0
    with Cons [of 0] show ?thesis by auto
  next
    case (Suc j)
    with Cons [of j] set_drop_subset_set_drop [of j "Suc j" ps] show ?thesis by auto
  qed
qed simp

lemma set_drop_snoc: "set (drop i (ps @ [p])) \<subseteq> insert p (set (drop i ps))"
  by (cases "i \<le> length ps") auto

lemma set_drop_set_events:
  "q \<in> set (drop i (set_events g ev ps)) \<Longrightarrow>
     q \<in> set (drop i ps) \<or> (\<exists>p \<in> set (drop i ps). pf_fd p = g \<and> q = p\<lparr>pf_events := ev\<rparr>)"
proof (induction ps arbitrary: i)
  case (Cons p ps)
  from Cons.IH [of 0] Cons.IH [of "i - 1"] Cons.prems show ?case
    by (cases i) (auto split: if_splits)
qed simp

definition thinner :: "nat \<Rightarrow> webserver \<Rightarrow> webserver \<Rightarrow> bool" where
  "thinner i s t \<longleftrightarrow> set (drop i (ws_pollFds t)) \<subseteq> set (drop i (ws_pollFds s))"

lemma thinner_fresh: "thinner i s t \<Longrightarrow> fresh_from i s \<Longrightarrow> fresh_from i t"
  by (auto simp: thinner_def fresh_from_def)

lemma thinner_refl [simp]: "thinner i s s"
  by (simp add: thinner_def)

named_theorems thin

lemma thin_writes [thin]:
  assumes "thinner i s t"
  shows "thinner i s (put_client g c t)" "thinner i s (erase_client g t)" "thinner i s (effects es t)"
    "thinner i s (t\<lparr>ws_inputOwners := m\<rparr>)" "thinner i s (t\<lparr>ws_outputOwners := m\<rparr>)"
    "thinner i s (removePollFd f t)"
  using assms set_drop_erase [of i f "ws_pollFds t"]
  by (auto simp: thinner_def put_client_def erase_client_def effects_def removePollFd_def)

lemma thin_release [thin]:
  assumes "thinner i s t"
  shows "thinner i s (release_input f t)" "thinner i s (release_output f t)" "thinner i s (release_pipes c t)"
  using assms by (simp_all add: release_input_def release_output_def release_pipes_def Let_def thin)

lemma thin_closeClient [thin]: "thinner i s t \<Longrightarrow> thinner i s (closeClient g t)"
  by (simp add: closeClient_def Let_def thin split: option.split)

lemma fresh_set_at: "fresh_from i s \<Longrightarrow> fresh_from (Suc i) (set_events_at i ev s)"
  using fresh_from_le [of i s "Suc i"] by (simp add: fresh_from_def set_events_at_def)

lemma fresh_add: "fresh_from i s \<Longrightarrow> fresh_from i (add_pollfd f ev s)"
  using set_drop_snoc [of i "ws_pollFds s"] by (fastforce simp: fresh_from_def add_pollfd_def honest_def)

lemma fresh_writes:
  "fresh_from i (put_client g c s) = fresh_from i s" "fresh_from i (effects es s) = fresh_from i s"
  "fresh_from i (s\<lparr>ws_inputOwners := m\<rparr>) = fresh_from i s" "fresh_from i (s\<lparr>ws_outputOwners := m\<rparr>) = fresh_from i s"
  by (simp_all add: fresh_from_def put_client_def effects_def)

text \<open>An entry that did not ask for anything may ask for something now.\<close>

lemma fresh_set_events:
  assumes "fresh_from i s" and "\<And>p. p \<in> set (ws_pollFds s) \<Longrightarrow> pf_fd p = g \<Longrightarrow> pf_events p = {}"
  shows "fresh_from i (s\<lparr>ws_pollFds := set_events g ev (ws_pollFds s)\<rparr>)"
  unfolding fresh_from_def
proof
  fix q assume "q \<in> set (drop i (ws_pollFds (s\<lparr>ws_pollFds := set_events g ev (ws_pollFds s)\<rparr>)))"
  then consider "q \<in> set (drop i (ws_pollFds s))"
    | p where "p \<in> set (drop i (ws_pollFds s))" and "pf_fd p = g" and "q = p\<lparr>pf_events := ev\<rparr>"
    using set_drop_set_events [of q i g ev] by auto
  then show "honest q"
  proof cases
    case (2 p)
    then have "p \<in> set (ws_pollFds s)" by (auto dest: in_set_dropD)
    with 2 assms show ?thesis by (auto simp: fresh_from_def honest_def)
  qed (use assms(1) in \<open>simp add: fresh_from_def\<close>)
qed

lemma wf_entry:
  assumes "wf_pending R s" and "clientMap s g = Some c" and "p \<in> set (ws_pollFds s)" and "pf_fd p = g"
  shows "pf_events p = asks_for c"
proof -
  have "eventMap (ws_pollFds s) (pf_fd p) = Some (pf_events p)"
    using wf_pendingD(2) [OF assms(1)] assms(3) unfolding eventMap_def
    by (intro map_of_is_SomeI) (auto simp: o_def)
  with shape_asks_for [OF wf_pendingD(3) [OF assms(1)] assms(2)] assms(4) show ?thesis by simp
qed

subsection \<open>The handlers at an index\<close>

definition step_ok :: "event_kind \<Rightarrow> int \<Rightarrow> nat \<Rightarrow> web_outcome \<Rightarrow> bool" where
  "step_ok kind fd i r \<longleftrightarrow>
     (case r of
        Done t \<Rightarrow> kernel_ok (ws_trace t) \<longrightarrow> wf_web t \<and> fresh_from (next_index kind fd i t) t
      | Raised msg t \<Rightarrow> kernel_ok (ws_trace t) \<longrightarrow> wf_web t
      | Stuck \<Rightarrow> True
      | NullConfig t \<Rightarrow> \<not> kernel_ok (ws_trace t))"

lemma step_ok_simps [simp]:
  "step_ok kind fd i (Done t) \<longleftrightarrow> (kernel_ok (ws_trace t) \<longrightarrow> wf_web t \<and> fresh_from (next_index kind fd i t) t)"
  "step_ok kind fd i (Raised msg t) \<longleftrightarrow> (kernel_ok (ws_trace t) \<longrightarrow> wf_web t)"
  "step_ok kind fd i Stuck"
  "step_ok kind fd i (NullConfig t) \<longleftrightarrow> \<not> kernel_ok (ws_trace t)"
  by (simp_all add: step_ok_def)

lemma next_index_ge: "i \<le> next_index kind fd i t"
  by (simp add: next_index_def)

lemma step_thin:
  "wf_web t \<Longrightarrow> thinner i s t \<Longrightarrow> fresh_from i s \<Longrightarrow> step_ok kind fd i (Done t)"
  using fresh_from_le [OF thinner_fresh next_index_ge] by auto

lemma step_at:
  assumes "wf_web t" and "fresh_from (Suc i) t" and "kind \<in> {EvReadable, EvWritable}"
    and "i < length (ws_pollFds t)" and "pf_fd (ws_pollFds t ! i) = fd"
  shows "step_ok kind fd i (Done t)"
  using assms by (auto simp: next_index_def)

text \<open>A client whose entry reports that it can be read waits for a request.\<close>

lemma readable_client:
  assumes w: "wf_web s" and f: "fresh_from i s" and i: "i < length (ws_pollFds s)"
    and c: "clientMap s (pf_fd (ws_pollFds s ! i)) = Some c" and r: "POLLIN \<in> pf_revents (ws_pollFds s ! i)"
  shows "wc_cgiPid c \<le> 0" and "wc_output c = []"
proof -
  have "ws_pollFds s ! i \<in> set (drop i (ws_pollFds s))"
    using i by (auto simp: set_conv_nth intro: exI [of _ 0])
  then have "POLLIN \<in> pf_events (ws_pollFds s ! i)" using f r by (auto simp: fresh_from_def honest_def)
  moreover have "pf_events (ws_pollFds s ! i) = asks_for c"
    using wf_entry [OF w c nth_mem [OF i] refl] .
  ultimately show "wc_cgiPid c \<le> 0" and "wc_output c = []"
    by (auto simp: asks_for_def split: if_splits)
qed

lemma step_answer_at:
  assumes w: "wf_web s" and f: "fresh_from i s" and c: "client_at i g c s" and idle: "wc_cgiPid c \<le> 0"
    and "out \<noteq> []" and kind: "kind \<in> {EvReadable, EvWritable}"
  shows "step_ok kind g i (Done (answer_at i g out s))"
proof (rule step_at [OF wf_answer_at [OF w c idle \<open>out \<noteq> []\<close>] _ kind])
  have "answer_at i g out s = set_events_at i {POLLOUT} (put_client g (c\<lparr>wc_output := out, wc_phase := CLIENT_WRITING\<rparr>) s)"
    using c by (simp add: answer_at_def client_slot_present client_at_def)
  with f c show "fresh_from (Suc i) (answer_at i g out s)" "i < length (ws_pollFds (answer_at i g out s))"
      "pf_fd (ws_pollFds (answer_at i g out s) ! i) = g"
    by (auto simp: fresh_set_at fresh_writes) (auto simp: set_events_at_def put_client_def client_at_def)
qed

lemma started_entry:
  assumes c: "client_at i g c s" and f: "fresh_from i s" and st: "startCgi a i request config s = (True, t)"
  shows "fresh_from (Suc i) t" and "i < length (ws_pollFds t)" and "pf_fd (ws_pollFds t ! i) = g"
proof -
  have c': "i < length (ws_pollFds s)" "pf_fd (ws_pollFds s ! i) = g" using c by (simp_all add: client_at_def)
  have slot: "client_slot g (effects es s) = (c, effects es s)" "client_slot g s = (c, s)" for es
    using c by (simp_all add: client_slot_present client_at_def)
  have f1: "fresh_from (Suc i) (set_events_at i ev (put_client g c1 (effects es s)))"
    and f2: "fresh_from (Suc i) (set_events_at i ev (put_client g c1 s))" for ev c1 es
    using f by (simp_all add: fresh_set_at fresh_writes)
  have "fresh_from (Suc i) t \<and> i < length (ws_pollFds t) \<and> pf_fd (ws_pollFds t ! i) = g"
    using st c' f1 f2
    by (auto simp: startCgi_def attach_cgi_def answer_at_def Let_def slot fresh_add fresh_writes
        split: if_splits sum.splits option.splits)
      (auto simp: add_pollfd_def set_events_at_def put_client_def effects_def nth_append)
  then show "fresh_from (Suc i) t" and "i < length (ws_pollFds t)" and "pf_fd (ws_pollFds t ! i) = g"
    by simp_all
qed

lemma step_answerRequest:
  assumes w: "wf_web s" and f: "fresh_from i s" and c: "client_at i g c s"
    and idle: "wc_cgiPid c \<le> 0" "wc_output c = []"
  shows "step_ok EvReadable g i (answerRequest a i g c' config result s)"
proof -
  have ans: "step_ok EvReadable g i (Done (answer_at i g (web_error os status config) s))" for os status
    by (rule step_answer_at [OF w f c idle(1)]) simp_all
  have here: "step_ok EvReadable g i (Done s)" by (rule step_thin [OF w _ f]) simp
  have ok: "step_ok EvReadable g i (answerRequest a i g c' config (REQUEST_OK r) s)" for r
  proof -
    let ?r = "r\<lparr>rq_remoteAddress := wc_remoteAddress c', rq_remotePort := wc_remotePort c'\<rparr>"
    obtain b t where st: "startCgi a i ?r config s = (b, t)" by (cases "startCgi a i ?r config s")
    show ?thesis
    proof (cases b)
      case True
      have "kernel_ok (ws_trace t) \<longrightarrow> wf_web t" using wf_startCgi(1) [OF w c idle st] by blast
      moreover have st': "startCgi a i ?r config s = (True, t)" using st True by simp
      ultimately show ?thesis using started_entry [OF c f st']
        by (auto simp: answerRequest_def next_index_def)
    next
      case False
      obtain resp es where d: "dispatch (wa_os a) ?r config = (resp, es)"
        by (cases "dispatch (wa_os a) ?r config")
      have "t = s"
        using st False by (auto simp: startCgi_def Let_def split: if_splits sum.splits option.splits)
      then have "answerRequest a i g c' config (REQUEST_OK r) s =
          Done (answer_at i g (serialize resp) (effects (map OnDisk es) s))"
        using st False d by (simp add: answerRequest_def Let_def)
      moreover have "step_ok EvReadable g i (Done (answer_at i g (serialize resp) (effects (map OnDisk es) s)))"
        by (rule step_answer_at [OF wf_web_effects_disk [OF w]]) (use f c idle in \<open>simp_all add: fresh_writes\<close>)
      ultimately show ?thesis by simp
    qed
  qed
  show ?thesis
    by (cases result) (use w ans here ok in \<open>simp_all add: answerRequest_def [of _ _ _ _ _ REQUEST_INCOMPLETE]
      answerRequest_def [of _ _ _ _ _ REQUEST_BAD] answerRequest_def [of _ _ _ _ _ REQUEST_TOO_LARGE]
      answerRequest_def [of _ _ _ _ _ REQUEST_VERSION_NOT_SUPPORTED] answerRequest_def [of _ _ _ _ _ PARSE_THROWS]\<close>)
qed

lemma step_readClient:
  assumes w: "wf_web s" and f: "fresh_from i s" and c: "client_at i g c s"
    and idle: "wc_cgiPid c \<le> 0" "wc_output c = []"
  shows "step_ok EvReadable g i (readClient a i s)"
proof -
  have m: "clientMap s g = Some c" and g: "pf_fd (ws_pollFds s ! i) = g" using c by (simp_all add: client_at_def)
  have slot: "client_slot g s = (c, s)" by (rule client_slot_present [OF m])
  obtain config where cfg: "wc_config c = Some config" using client_config [OF w m] by blast
  have close: "step_ok EvReadable g i (Done (closeClient g s))"
    by (rule step_thin [OF wf_closeClient [OF w] _ f]) (simp add: thin)
  have here: "step_ok EvReadable g i (Done s)" by (rule step_thin [OF w _ f]) simp
  have e413: "step_ok EvReadable g i (Done (answer_at i g (web_error (wa_os a) 413 config) s))"
    by (rule step_answer_at [OF w f c idle(1)]) simp_all
  have ans: "step_ok EvReadable g i (answerRequest a i g c1 config result (put_client g c1 s))"
    if "c1 = c\<lparr>wc_input := x, wc_touched := n\<rparr>" for c1 x n result
  proof (rule step_answerRequest)
    show "wf_web (put_client g c1 s)"
      by (rule wf_put [OF w m]) (use that wf_web_client_at(1) [OF w m] in \<open>simp_all add: client_ok_def asks_for_def\<close>)
    show "fresh_from i (put_client g c1 s)" using f by (simp add: fresh_writes)
    show "client_at i g c1 (put_client g c1 s)"
      using c wf_pendingD(1) [OF w] by (simp add: client_at_def) (simp add: put_client_def)
  qed (use that idle in simp_all)
  show ?thesis
    using close here e413 ans
    by (simp add: readClient_def g slot with_config_def cfg Let_def split: input_answer.split option.split)
qed

definition took_output :: "web_answers \<Rightarrow> int \<Rightarrow> web_client \<Rightarrow> nat \<Rightarrow> webserver \<Rightarrow> webserver" where
  "took_output a g c n s =
     put_client g (c\<lparr>wc_sent := wc_sent c + n, wc_touched := wa_now a\<rparr>)
       (effects [SentTo g (take n (drop (wc_sent c) (wc_output c)))] s)"

lemma writeClient_eq:
  assumes "clientMap s g = Some c" and "pf_fd (ws_pollFds s ! i) = g"
  shows "writeClient a i s = (case wa_output a of OutputAgain \<Rightarrow> s | OutputFailed \<Rightarrow> closeClient g s
      | OutputTook n \<Rightarrow> if n = 0 then closeClient g s
          else if wc_sent c + n = length (wc_output c) then closeClient g (took_output a g c n s)
          else took_output a g c n s)"
  by (simp add: writeClient_def assms(2) client_slot_present [OF assms(1)] Let_def took_output_def split: output_answer.split)

lemma step_writeClient:
  assumes w: "wf_web s" and f: "fresh_from i s" and c: "client_at i g c s"
  shows "step_ok EvWritable g i (Done (writeClient a i s))"
proof -
  have m: "clientMap s g = Some c" and g: "pf_fd (ws_pollFds s ! i) = g" using c by (simp_all add: client_at_def)
  have close: "step_ok EvWritable g i (Done (closeClient g t))" if "wf_web t" "thinner i s t" for t
    by (rule step_thin [OF wf_closeClient [OF that(1)] _ f]) (simp add: thin that(2))
  have w1: "wf_web (took_output a g c n s)" for n
    unfolding took_output_def by (rule wf_put [OF wf_effects [OF w], of _ g c])
      (use m wf_web_client_at(1) [OF w m] in \<open>simp_all add: client_ok_def asks_for_def\<close>)
  have t1: "thinner i s (took_output a g c n s)" for n by (simp add: took_output_def thin)
  show ?thesis
    unfolding writeClient_eq [OF m g]
    using close [OF w thinner_refl] close [OF w1 t1] step_thin [OF w1 t1 f] step_thin [OF w thinner_refl f]
    by (auto simp del: step_ok_simps split: output_answer.split)
qed

lemma pipe_owner:
  assumes w: "wf_web s"
  shows "ws_inputOwners s fd = Some g \<Longrightarrow>
      \<exists>c. clientMap s g = Some c \<and> wc_cgiInputFd c = fd \<and> 0 \<le> fd \<and> 0 < wc_cgiPid c"
    and "ws_outputOwners s fd = Some g \<Longrightarrow>
      \<exists>c. clientMap s g = Some c \<and> wc_cgiOutputFd c = fd \<and> 0 \<le> fd \<and> 0 < wc_cgiPid c"
  using shape_owner [OF wf_pendingD(3) [OF w]] wf_web_client_at(1) [OF w] by (auto simp: client_ok_def)

text \<open>A script has taken some of its input; the pipe to it is closed.\<close>

definition fed_client :: "web_answers \<Rightarrow> nat \<Rightarrow> web_client \<Rightarrow> web_client" where
  "fed_client a n c = c\<lparr>wc_cgiWritten := wc_cgiWritten c + n, wc_touched := wa_now a\<rparr>"

lemma fed_client_simps [simp]:
  "wc_output (fed_client a n c) = wc_output c" "wc_sent (fed_client a n c) = wc_sent c"
  "wc_config (fed_client a n c) = wc_config c" "wc_cgiInputFd (fed_client a n c) = wc_cgiInputFd c"
  by (simp_all add: fed_client_def)

definition took_input :: "web_answers \<Rightarrow> int \<Rightarrow> int \<Rightarrow> web_client \<Rightarrow> nat \<Rightarrow> webserver \<Rightarrow> webserver" where
  "took_input a fd g c n s =
     put_client g (fed_client a n c) (effects [PipedTo fd (take n (drop (wc_cgiWritten c) (wc_cgiInput c)))] s)"

definition input_done :: "int \<Rightarrow> int \<Rightarrow> web_client \<Rightarrow> webserver \<Rightarrow> webserver" where
  "input_done fd g c s =
     put_client g (c\<lparr>wc_cgiInputFd := - 1, wc_phase := CLIENT_CGI_READING\<rparr>) (release_input fd s)"

lemma writeCgi_eq:
  assumes "clientMap s g = Some c" and "pf_fd (ws_pollFds s ! i) = fd" and "ws_inputOwners s fd = Some g"
  shows "writeCgi a i s = (case wa_output a of OutputAgain \<Rightarrow> s
      | OutputFailed \<Rightarrow> input_done fd g c s
      | OutputTook n \<Rightarrow> if n = 0 then input_done fd g c s
          else if wc_cgiWritten c + n = length (wc_cgiInput c)
          then input_done fd g (fed_client a n c) (took_input a fd g c n s)
          else took_input a fd g c n s)"
  by (simp add: writeCgi_def assms(2,3) input_owner_def client_slot_present [OF assms(1)] Let_def fed_client_def
      took_input_def input_done_def split: output_answer.split)

lemma step_writeCgi:
  assumes w: "wf_web s" and f: "fresh_from i s" and fd: "pf_fd (ws_pollFds s ! i) = fd"
    and o: "ws_inputOwners s fd = Some g"
  shows "step_ok kind fd i (Done (writeCgi a i s))"
proof -
  obtain c where m: "clientMap s g = Some c" and c: "wc_cgiInputFd c = fd" "0 \<le> fd" "0 < wc_cgiPid c"
    using pipe_owner(1) [OF w o] by blast
  have ok: "client_ok g c" by (rule wf_web_client_at(1) [OF w m])
  note ord = wf_pendingD(1) [OF w]
  have finish: "step_ok kind fd i (Done (input_done fd g c1 t))"
    if t: "wf_web t" "thinner i s t" "clientMap t g = Some c1" "wc_cgiInputFd c1 = fd" for t c1
  proof (rule step_thin [OF _ _ f])
    have "wf_web (put_client g (c1\<lparr>wc_cgiInputFd := - 1\<rparr>) (release_input fd t))"
      using wf_release_input [OF t(1,3)] t(4) c(2) by simp
    from wf_put [OF this, of g "c1\<lparr>wc_cgiInputFd := - 1\<rparr>" "c1\<lparr>wc_cgiInputFd := - 1, wc_phase := CLIENT_CGI_READING\<rparr>"]
    show "wf_web (input_done fd g c1 t)"
      using wf_pendingD(1) [OF t(1)] wf_web_client_at(1) [OF t(1,3)]
      by (auto simp: input_done_def release_put client_ok_def asks_for_def)
    show "thinner i s (input_done fd g c1 t)" by (simp add: input_done_def thin t(2))
  qed
  have w1: "wf_web (took_input a fd g c n s)" for n
    unfolding took_input_def by (rule wf_put [OF wf_effects [OF w], of _ g c])
      (use m ok in \<open>simp_all add: fed_client_def client_ok_def asks_for_def\<close>)
  have t1: "thinner i s (took_input a fd g c n s)" for n by (simp add: took_input_def thin)
  have m1: "clientMap (took_input a fd g c n s) g = Some (fed_client a n c)" for n
    using ord by (simp add: took_input_def)
  have "wc_cgiInputFd (fed_client a n c) = fd" for n by (simp add: c)
  from finish [OF w1 t1 m1 this]
  have e1: "step_ok kind fd i (Done (input_done fd g (fed_client a n c) (took_input a fd g c n s)))" for n .
  show ?thesis
    unfolding writeCgi_eq [OF m fd o]
    using e1 finish [OF w thinner_refl m c(1)] step_thin [OF w1 t1 f] step_thin [OF w thinner_refl f]
    by (auto simp del: step_ok_simps split: output_answer.split)
qed

text \<open>The script of a client ends.\<close>

lemma fresh_finishCgi:
  assumes w: "wf_pending R s" and f: "fresh_from i s" and m: "clientMap s g = Some c" and p: "0 < wc_cgiPid c"
    and r: "finishCgi os g status s = Done t"
  shows "fresh_from i t"
proof -
  obtain config where config: "wc_config c = Some config" using client_config [OF w m] by blast
  obtain out where "finishCgi os g status s =
      Done (let s2 = put_client g ((no_pipes c)\<lparr>wc_cgiPid := - 1, wc_output := out, wc_sent := 0,
                       wc_touched := int (os_time os), wc_phase := CLIENT_WRITING\<rparr>) (release_pipes c s)
            in s2\<lparr>ws_pollFds := set_events g {POLLOUT} (ws_pollFds s2)\<rparr>)"
    using finishCgi_eq [OF m config] .
  then obtain c2 where t: "t = (let s2 = put_client g c2 (release_pipes c s) in s2\<lparr>ws_pollFds := set_events g {POLLOUT} (ws_pollFds s2)\<rparr>)"
    using r by simp
  have th: "thinner j s (put_client g c2 (release_pipes c s))" for j by (simp add: thin)
  show ?thesis
    unfolding t Let_def
  proof (rule fresh_set_events)
    show "fresh_from i (put_client g c2 (release_pipes c s))" using thinner_fresh [OF th f] .
    fix q assume "q \<in> set (ws_pollFds (put_client g c2 (release_pipes c s)))" and "pf_fd q = g"
    moreover from this(1) have "q \<in> set (ws_pollFds s)" using th [of 0] by (auto simp: thinner_def)
    ultimately show "pf_events q = {}" using wf_entry [OF w m] p by (simp add: asks_for_def)
  qed
qed

lemma step_finishCgi:
  assumes w: "wf_pending {g} t" and m: "clientMap t g = Some c" and p: "0 < wc_cgiPid c"
    and th: "thinner i s t" and f: "fresh_from i s"
  shows "step_ok kind fd i (finishCgi os g status t)"
proof -
  obtain u where u: "finishCgi os g status t = Done u" "wf_pending ({g} - {g}) u"
    using wf_finishCgi [OF w, of g os status] by blast
  have "fresh_from i u" using fresh_finishCgi [OF w thinner_fresh [OF th f] m p u(1)] .
  with u fresh_from_le [OF _ next_index_ge] show ?thesis by simp
qed

definition output_done :: "int \<Rightarrow> int \<Rightarrow> web_client \<Rightarrow> webserver \<Rightarrow> webserver" where
  "output_done fd g c s = put_client g (c\<lparr>wc_cgiOutputFd := - 1\<rparr>) (release_output fd s)"

definition heard_client :: "web_answers \<Rightarrow> string \<Rightarrow> web_client \<Rightarrow> web_client" where
  "heard_client a out c = c\<lparr>wc_cgiOutput := out, wc_touched := wa_now a\<rparr>"

lemma heard_client_simps [simp]:
  "wc_output (heard_client a out c) = wc_output c" "wc_sent (heard_client a out c) = wc_sent c"
  "wc_config (heard_client a out c) = wc_config c" "wc_cgiPid (heard_client a out c) = wc_cgiPid c"
  by (simp_all add: heard_client_def)

lemma readCgi_eq:
  assumes "clientMap s g = Some c" and "pf_fd (ws_pollFds s ! i) = fd" and "ws_outputOwners s fd = Some g"
  shows "readCgi a i s =
     (let data = (case wa_input a of InputData d \<Rightarrow> d | _ \<Rightarrow> []);
          s1 = put_client g (heard_client a (wc_cgiOutput c @ data) c) s
      in if wa_input a = InputAgain then Done s
         else if data \<noteq> []
         then (if 16 * 1024 * 1024 < length (wc_cgiOutput c @ data)
               then finishCgi (wa_os a) g (wa_wait a (wc_cgiPid c))
                      (effects [ChildKilled (wc_cgiPid c), ChildReaped (wc_cgiPid c)] s1)
               else Done s1)
         else (case wa_waitNoHang a (wc_cgiPid c) of
                 None \<Rightarrow> Done (output_done fd g c s)
               | Some status \<Rightarrow>
                   finishCgi (wa_os a) g status (effects [ChildReaped (wc_cgiPid c)] (output_done fd g c s))))"
  by (simp add: readCgi_def assms(2,3) output_owner_def client_slot_present [OF assms(1)] Let_def heard_client_def
      output_done_def split: option.split)

lemma step_readCgi:
  assumes w: "wf_web s" and f: "fresh_from i s" and fd: "pf_fd (ws_pollFds s ! i) = fd"
    and o: "ws_outputOwners s fd = Some g"
  shows "step_ok kind fd i (readCgi a i s)"
proof -
  obtain c where m: "clientMap s g = Some c" and c: "wc_cgiOutputFd c = fd" "0 \<le> fd" "0 < wc_cgiPid c"
    using pipe_owner(2) [OF w o] by blast
  note ord = wf_pendingD(1) [OF w]
  define s1 where "s1 = (\<lambda>out. put_client g (heard_client a out c) s)"
  have w1: "wf_web (s1 out)" for out
    unfolding s1_def by (rule wf_put [OF w m])
      (use wf_web_client_at(1) [OF w m] in \<open>simp_all add: heard_client_def client_ok_def asks_for_def\<close>)
  have m1: "clientMap (s1 out) g = Some (heard_client a out c)" for out using ord by (simp add: s1_def)
  define s2 where "s2 = output_done fd g c s"
  have w2: "wf_web s2" using wf_release_output [OF w m] c by (simp add: s2_def output_done_def)
  have m2: "clientMap s2 g = Some (c\<lparr>wc_cgiOutputFd := - 1\<rparr>)" using ord by (simp add: s2_def output_done_def)
  have t1: "thinner i s (s1 out)" and t2: "thinner i s s2" for out
    by (simp_all add: s1_def s2_def output_done_def thin)
  have k1: "step_ok kind fd i (finishCgi os g status (effects [ChildKilled (wc_cgiPid c), ChildReaped (wc_cgiPid c)] (s1 out)))" for os status out
    by (rule step_finishCgi [OF wf_reap(2) [OF w1 m1, unfolded heard_client_simps], where c = "heard_client a out c"])
      (use m1 c f t1 in \<open>simp_all add: thin\<close>)
  have k2: "step_ok kind fd i (finishCgi os g status (effects [ChildReaped (wc_cgiPid c)] s2))" for os status
    by (rule step_finishCgi [OF wf_reap(1) [OF w2 m2, simplified], where c = "c\<lparr>wc_cgiOutputFd := - 1\<rparr>"])
      (use m2 c f t2 in \<open>simp_all add: thin\<close>)
  have s1: "put_client g (heard_client a out c) s = s1 out" for out by (simp add: s1_def)
  show ?thesis
    unfolding readCgi_eq [OF m fd o] Let_def s1 s2_def [symmetric]
    using k1 k2 step_thin [OF w1 t1 f] step_thin [OF w2 t2 f] step_thin [OF w thinner_refl f]
    by (simp del: step_ok_simps add: if_split [of "step_ok kind fd i"] split: option.split)
qed

subsection \<open>Any event, and all events of a round\<close>

lemma classify_cases:
  assumes w: "wf_web s" and i: "i < length (ws_pollFds s)"
  shows "classify (pf_fd (ws_pollFds s ! i)) ev s \<in> {EvHangup, EvReadable, EvWritable, EvOther} \<Longrightarrow>
    \<exists>c. client_at i (pf_fd (ws_pollFds s ! i)) c s"
proof -
  let ?fd = "pf_fd (ws_pollFds s ! i)"
  assume "classify ?fd ev s \<in> {EvHangup, EvReadable, EvWritable, EvOther}"
  then have n: "?fd \<notin> listenFds s" "ws_outputOwners s ?fd = None" "ws_inputOwners s ?fd = None"
    by (auto simp: classify_def isListener_def listenFds_def list_ex_iff split: if_splits)
  have "eventMap (ws_pollFds s) ?fd \<noteq> None" using i by (simp add: eventMap_None)
  then have "clientMap s ?fd \<noteq> None"
    using wf_pendingD(3) [OF w] n by (auto simp: shape_def expected_def split: option.splits)
  with i show ?thesis by (auto simp: client_at_def)
qed

lemma accept_fresh: "fresh_from i s \<Longrightarrow> fresh_from i (accept_clients config now as s)"
  by (induction as arbitrary: s) (simp_all add: Let_def fresh_writes fresh_add)

lemma step_handle_event:
  assumes w: "wf_web s" and f: "fresh_from i s" and i: "i < length (ws_pollFds s)"
    and fd: "fd = pf_fd (ws_pollFds s ! i)" and ev: "ev = pf_revents (ws_pollFds s ! i)"
    and kind: "kind = classify fd ev s"
  shows "step_ok kind fd i (handle_event a kind ev i s)"
proof -
  have here: "step_ok kind fd i (Done s)" by (rule step_thin [OF w thinner_refl f])
  have close: "step_ok kind fd i (Done (closeClient g s))" for g
    by (rule step_thin [OF wf_closeClient [OF w] _ f]) (simp add: thin)
  show ?thesis
  proof (cases kind)
    case EvListener
    then have "isListener fd s" using kind by (auto simp: classify_def split: if_splits)
    then have "map_of (ws_listeners s) fd \<noteq> None"
      by (auto simp: isListener_def list_ex_iff map_of_eq_None_iff)
    then have "safe (web_acceptClient a i s)"
      unfolding web_acceptClient_def fd [symmetric] by (intro safe_accept) (simp add: safe_def w)
    moreover have "fresh_from (i + 1) (web_acceptClient a i s)"
      unfolding web_acceptClient_def by (rule fresh_from_le [OF accept_fresh [OF f]]) simp
    ultimately show ?thesis
      using EvListener here by (simp add: handle_event_def safe_def next_index_def)
  next
    case EvCgiOutput
    then obtain g where g: "ws_outputOwners s fd = Some g" using kind by (auto simp: classify_def split: if_splits)
    with step_readCgi [OF w f fd [symmetric] g, of kind a] close here show ?thesis
      using EvCgiOutput fd by (simp add: handle_event_def output_owner_def del: step_ok_simps)
  next
    case EvCgiInput
    then obtain g where g: "ws_inputOwners s fd = Some g" using kind by (auto simp: classify_def split: if_splits)
    with step_writeCgi [OF w f fd [symmetric] g, of kind a] close here show ?thesis
      using EvCgiInput fd by (simp add: handle_event_def input_owner_def del: step_ok_simps)
  next
    case EvHangup
    with close fd show ?thesis by (simp add: handle_event_def del: step_ok_simps)
  next
    case EvReadable
    then obtain c where c: "client_at i fd c s" using classify_cases [OF w i, of ev] kind fd by auto
    have "POLLIN \<in> ev" using kind EvReadable by (auto simp: classify_def split: if_splits)
    with readable_client [OF w f i, of c] c fd ev
    have "wc_cgiPid c \<le> 0" "wc_output c = []" by (simp_all add: client_at_def)
    from step_readClient [OF w f c this, of a] EvReadable show ?thesis by (simp add: handle_event_def del: step_ok_simps)
  next
    case EvWritable
    then obtain c where c: "client_at i fd c s" using classify_cases [OF w i, of ev] kind fd by auto
    from step_writeClient [OF w f c, of a] EvWritable show ?thesis by (simp add: handle_event_def del: step_ok_simps)
  next
    case EvOther
    with here show ?thesis by (simp add: handle_event_def del: step_ok_simps)
  qed
qed

definition tidy :: "nat \<Rightarrow> webserver \<Rightarrow> bool" where
  "tidy i s \<longleftrightarrow> (kernel_ok (ws_trace s) \<longrightarrow> wf_web s \<and> fresh_from i s)"

lemma safe_web_events: "tidy i s \<Longrightarrow> outcome_safe (web_events answers i ready s)"
proof (induction answers i ready s rule: web_events.induct)
  case (1 answers i ready s)
  note IH = "1.IH" [OF _ refl refl refl]
  show ?case
  proof (cases "length (ws_pollFds s) \<le> i \<or> ready = 0")
    case True
    then show ?thesis using "1.prems" by (subst web_events.simps) (simp add: tidy_def safe_def)
  next
    case False
    let ?p = "ws_pollFds s ! i"
    show ?thesis
    proof (cases "pf_revents ?p = {}")
      case True
      have "tidy (i + 1) s" using "1.prems" fresh_from_le [of i s "i + 1"] by (simp add: tidy_def)
      with IH(1) [OF False True] False True show ?thesis by (subst web_events.simps) (simp add: Let_def)
    next
      case e: False
      let ?kind = "classify (pf_fd ?p) (pf_revents ?p) s"
      let ?r = "handle_event (answers (pf_fd ?p)) ?kind (pf_revents ?p) i s"
      have later: "reaches s ?r" by (simp add: later)
      have step: "step_ok ?kind (pf_fd ?p) i ?r" if "kernel_ok (ws_trace s)"
        by (rule step_handle_event) (use that "1.prems" False in \<open>simp_all add: tidy_def\<close>)
      have "outcome_safe (web_then ?r (\<lambda>t. web_events answers (next_index ?kind (pf_fd ?p) i t) (ready - 1) t))"
      proof (cases ?r)
        case (Done t)
        have "tidy (next_index ?kind (pf_fd ?p) i t) t"
          using step later extends_kernel [of s t] Done by (auto simp: tidy_def)
        with IH(2) [OF False e refl Done] Done show ?thesis by simp
      next
        case (Raised msg t)
        with step later extends_kernel [of s t] show ?thesis by (auto simp: safe_def)
      next
        case (NullConfig t)
        with step later extends_kernel [of s t] show ?thesis by auto
      qed simp
      with False e show ?thesis by (subst web_events.simps) (simp add: Let_def)
    qed
  qed
qed

end
