(* ===== verification/Web_Loop.thy ===== *)
theory Web_Loop
  imports Web_Events
begin

section \<open>webserv: the whole run\<close>

text \<open>
  The end of a round, the event loop, the start and the destructor: every state a run leaves
  is consistent, no descriptor and no child is left over at the end; and what the end of a round
  does to one client.
\<close>

subsection \<open>Scripts that have ended\<close>

lemma effects_Cons: "effects (e # es) s = effects es (effects [e] s)"
  by (simp add: effects_def)

lemma effects_Nil [simp]: "effects [] s = s"
  by (simp add: effects_def)

lemma wf_reap_list:
  assumes "wf_pending R s" and "distinct (map fst es)" and "fst ` set es \<inter> R = {}"
    and "\<forall>(g, pid, st) \<in> set es. \<exists>c. clientMap s g = Some c \<and> wc_cgiPid c = pid"
  shows "wf_pending (R \<union> fst ` set es) (effects (map (\<lambda>(g, pid, st). ChildReaped pid) es) s)"
  using assms
proof (induction es arbitrary: R s)
  case (Cons e es)
  obtain g pid st where e: "e = (g, pid, st)" by (cases e)
  with Cons.prems(4) obtain c where c: "clientMap s g = Some c" "wc_cgiPid c = pid" by auto
  have "g \<notin> R" using Cons.prems(3) e by auto
  then have "wf_pending (insert g R) (effects [ChildReaped pid] s)"
    using wf_reap(1) [OF Cons.prems(1) c(1)] c(2) by simp
  moreover have "distinct (map fst es)" and "fst ` set es \<inter> insert g R = {}"
    using Cons.prems(2,3) by (auto simp: e)
  moreover have "\<forall>(h, pid', st) \<in> set es. \<exists>c. clientMap (effects [ChildReaped pid] s) h = Some c \<and> wc_cgiPid c = pid'"
    using Cons.prems(4) by simp
  ultimately have "wf_pending (insert g R \<union> fst ` set es)
      (effects (map (\<lambda>(g, pid, st). ChildReaped pid) es) (effects [ChildReaped pid] s))"
    by (rule Cons.IH)
  moreover have "R \<union> fst ` set (e # es) = insert g R \<union> fst ` set es" by (simp add: e)
  moreover have "effects (map (\<lambda>(g, pid, st). ChildReaped pid) (e # es)) s =
      effects (map (\<lambda>(g, pid, st). ChildReaped pid) es) (effects [ChildReaped pid] s)"
    using effects_Cons [of "ChildReaped pid" "map (\<lambda>(g, pid, st). ChildReaped pid) es" s] by (simp add: e)
  ultimately show ?case by (simp only:)
qed simp

lemma wf_finish_list:
  assumes "wf_pending (fst ` set es) s" and "distinct (map fst es)"
  obtains t where "finish_list os es s = Done t" and "wf_web t"
  using assms
proof (induction es arbitrary: s thesis)
  case (Cons e es)
  obtain g pid st where e: "e = (g, pid, st)" by (cases e)
  have g: "g \<in> fst ` set (e # es)" by (simp add: e)
  obtain u where u: "finishCgi os g st s = Done u" "wf_pending (fst ` set (e # es) - {g}) u"
    using wf_finishCgi [OF Cons.prems(2) g] by blast
  have "fst ` set (e # es) - {g} = fst ` set es" using Cons.prems(3) by (auto simp: e)
  with u(2) have "wf_pending (fst ` set es) u" by simp
  from Cons.IH [OF _ this] Cons.prems(3) obtain t where "finish_list os es u = Done t" "wf_web t" by auto
  with u(1) Cons.prems(1) show ?case by (simp add: e)
qed simp

lemma distinct_concat_keys:
  assumes "distinct (map fst m)" and "\<And>e. f e = [] \<or> (\<exists>y. f e = [(fst e, y)])"
  shows "distinct (map fst (concat (map f m)))"
proof -
  have keys: "fst ` set (concat (map f m)) \<subseteq> fst ` set m" for m
  proof (induction m)
    case (Cons e m)
    then show ?case using assms(2) [of e] by auto
  qed simp
  from assms(1) show ?thesis
  proof (induction m)
    case (Cons e m)
    have n: "fst e \<notin> fst ` set (concat (map f m))" using Cons.prems keys [of m] by auto
    have IH: "distinct (map fst (concat (map f m)))" using Cons by simp
    consider "f e = []" | y where "f e = [(fst e, y)]" using assms(2) by blast
    then show ?case by cases (use n IH in \<open>simp_all del: set_concat\<close>)
  qed simp
qed

lemma ended_cgi_facts:
  assumes "ordered_map (ws_clients s)"
  shows "distinct (map fst (ended_cgi a s))"
    and "(g, pid, st) \<in> set (ended_cgi a s) \<longleftrightarrow>
      (\<exists>c. clientMap s g = Some c \<and> wc_cgiPid c = pid \<and> 0 < pid \<and> wc_cgiOutputFd c < 0 \<and> wa_waitNoHang a pid = Some st)"
proof -
  have d: "distinct (map fst (ws_clients s))" using assms by (simp add: ordered_map_def)
  show "distinct (map fst (ended_cgi a s))"
    unfolding ended_cgi_def by (rule distinct_concat_keys [OF d]) (auto split: option.splits if_splits)
  show "(g, pid, st) \<in> set (ended_cgi a s) \<longleftrightarrow>
      (\<exists>c. clientMap s g = Some c \<and> wc_cgiPid c = pid \<and> 0 < pid \<and> wc_cgiOutputFd c < 0 \<and> wa_waitNoHang a pid = Some st)"
    by (simp add: ended_cgi_def map_of_eq_Some_iff [OF d]) (force split: if_splits option.splits)
qed

lemma wf_reapCgi:
  assumes w: "wf_web s"
  obtains t where "reapCgi a s = Done t" and "wf_web t"
proof -
  let ?es = "ended_cgi a s"
  note e = ended_cgi_facts [OF wf_pendingD(1) [OF w], where a = a]
  have "\<forall>(g, pid, st) \<in> set ?es. \<exists>c. clientMap s g = Some c \<and> wc_cgiPid c = pid"
    using e(2) by blast
  from wf_reap_list [OF w e(1) _ this]
  have "wf_pending (fst ` set ?es) (effects (map (\<lambda>(g, pid, st). ChildReaped pid) ?es) s)" by simp
  from wf_finish_list [OF this e(1)] that show thesis by (auto simp: reapCgi_def)
qed

subsection \<open>Timeouts\<close>

lemma wf_expireClient:
  assumes w: "wf_web s"
  obtains t where "expireClient os g s = Done t" and "wf_web t"
proof (cases "clientMap s g")
  case None
  with w that [of s] show thesis by (simp add: expireClient_def find_client_def)
next
  case (Some c)
  obtain config where cfg: "wc_config c = Some config" and fd: "wc_fd c = g" using client_config [OF w Some] by blast
  show thesis
  proof (cases "0 < wc_cgiPid c")
    case True
    let ?s1 = "effects [ChildKilled (wc_cgiPid c), ChildReaped (wc_cgiPid c)] s"
    let ?s2 = "put_client g (no_pipes c) (release_pipes c ?s1)"
    let ?c1 = "timeout_answer os 504 config ((no_pipes c)\<lparr>wc_cgiPid := - 1\<rparr>)"
    have m1: "clientMap ?s1 g = Some c" using Some by simp
    have w2: "wf_pending {g} ?s2" by (rule wf_release_pipes [OF wf_reap(2) [OF w Some] m1]) simp
    have m2: "clientMap ?s2 g = Some (no_pipes c)" using wf_pendingD(1) [OF w] by simp
    have "wf_pending ({g} - {g}) (await_output g (put_client g ?c1 (release_pipes c ?s1)))"
      by (rule wf_answered [OF w2 m2, where c' = ?c1])
        (use wf_polls(4) [OF w2 m2] in \<open>simp_all add: timeout_answer_def answered_def put_client_def await_output_def\<close>)
    then show thesis
      using that [of "await_output g (put_client g ?c1 (release_pipes c ?s1))"] Some True cfg fd
      by (simp add: expireClient_def find_client_def with_config_def no_pipes_def Let_def)
  next
    case False
    show thesis
    proof (cases "wc_output c = []")
      case out: True
      let ?c1 = "timeout_answer os 408 config c"
      have p: "wc_cgiInputFd c < 0" "wc_cgiOutputFd c < 0"
        using wf_web_client_at(1) [OF w Some] False by (auto simp: client_ok_def not_le [symmetric])
      have "wf_pending ({} - {g}) (await_output g (put_client g ?c1 s))"
        by (rule wf_answered [OF w Some, where c' = ?c1])
          (use wf_polls(4) [OF w Some] False p in \<open>simp_all add: timeout_answer_def answered_def put_client_def await_output_def\<close>)
      then show thesis
        using that [of "await_output g (put_client g ?c1 s)"] Some False out cfg fd
        by (simp add: expireClient_def find_client_def with_config_def)
    next
      case out: False
      then show thesis
        using that [OF _ wf_closeClient [OF w]] Some False fd by (simp add: expireClient_def find_client_def)
    qed
  qed
qed

lemma wf_expire_list:
  assumes "wf_web s"
  obtains t where "expire_list os fds s = Done t" and "wf_web t"
  using assms
proof (induction fds arbitrary: s thesis)
  case (Cons fd fds)
  obtain u where u: "expireClient os fd s = Done u" "wf_web u" using wf_expireClient [OF Cons.prems(2)] .
  obtain t where "expire_list os fds u = Done t" "wf_web t" using Cons.IH [OF _ u(2)] .
  with u Cons.prems(1) show ?case by simp
qed simp

lemma wf_expireClients:
  assumes "wf_web s"
  obtains t where "expireClients os s = Done t" and "wf_web t"
  unfolding expireClients_def using wf_expire_list [OF assms] .

subsection \<open>Rounds and runs\<close>

text \<open>\<open>poll\<close> reports of reading and writing only what was asked for.\<close>

definition poll_honest :: "web_tick \<Rightarrow> webserver \<Rightarrow> bool" where
  "poll_honest tk s \<longleftrightarrow>
     (\<forall>p \<in> set (ws_pollFds s). wt_revents tk (pf_fd p) \<inter> {POLLIN, POLLOUT} \<subseteq> pf_events p)"

lemma wf_poll_results:
  assumes "wf_web s"
  shows "wf_web (poll_results r s)"
proof -
  have "map pf_fd (ws_pollFds (poll_results r s)) = map pf_fd (ws_pollFds s)"
    and "eventMap (ws_pollFds (poll_results r s)) = eventMap (ws_pollFds s)"
    by (simp_all add: poll_results_def eventMap_def o_def)
  with assms show ?thesis by (simp add: wf_pending_def listenFds_def poll_results_def o_def)
qed

lemma safe_web_round:
  assumes "safe s" and "poll_honest tk s"
  shows "outcome_safe (web_round tk s)"
  unfolding web_round_def
proof (intro outcome_safe_then)
  have "fresh_from 0 (poll_results (wt_revents tk) s)"
    using assms(2) by (auto simp: fresh_from_def poll_honest_def poll_results_def honest_def)
  with assms(1) show "outcome_safe (web_events (wt_answers tk) 0 (nat (wt_ready tk)) (poll_results (wt_revents tk) s))"
    by (intro safe_web_events) (simp add: tidy_def safe_def wf_poll_results)
next
  fix t assume "safe t"
  then show "outcome_safe (reapCgi (wt_end tk) t)"
    using reaches_reapCgi [of t t "wt_end tk"] extends_kernel wf_reapCgi [of t "wt_end tk"]
    by (cases "kernel_ok (ws_trace t)"; cases "reapCgi (wt_end tk) t") (auto simp: safe_def)
next
  fix t assume "safe t"
  then show "outcome_safe (expireClients (wa_os (wt_end tk)) t)"
    using reaches_expireClients [of t t "wa_os (wt_end tk)"] extends_kernel wf_expireClients [of t "wa_os (wt_end tk)"]
    by (cases "kernel_ok (ws_trace t)"; cases "expireClients (wa_os (wt_end tk)) t") (auto simp: safe_def)
qed

text \<open>The states at the head of the loop.\<close>

inductive web_serving :: "webserver \<Rightarrow> bool" where
  web_start: "openListeners pton las (new_webserver configs) = Done s \<Longrightarrow> kernel_ok (ws_trace s) \<Longrightarrow> web_serving s"
| web_next: "web_serving s \<Longrightarrow> poll_honest tk s \<Longrightarrow> web_round tk s = Done t \<Longrightarrow> kernel_ok (ws_trace t) \<Longrightarrow>
    web_serving t"

inductive_cases web_serving_cases: "web_serving s"

lemma wf_new_webserver [simp]: "wf_web (new_webserver configs)"
  by (simp add: wf_pending_def new_webserver_def shape_def apart_def owners_def expected_def listenFds_def
      children_def childrenOf_def withChild_def bounded_def fun_eq_iff)

lemma wf_openListener:
  assumes w: "wf_web s" and c: "ws_clients s = []" and r: "openListener pton a config s = Done t"
    and k: "kernel_ok (ws_trace t)"
  shows "wf_web t" and "ws_clients t = []"
proof -
  let ?fd = "la_socket a"
  note d = wf_pendingD [OF w]
  have t: "t = add_pollfd ?fd {POLLIN} ((effects [FdOpened ?fd] s)\<lparr>ws_listeners := ws_listeners s @ [(?fd, config)]\<rparr>)"
    using r by (simp add: openListener_def Let_def effects_def split: if_splits)
  then have f: "eventMap (ws_pollFds s) ?fd = None"
    using k d(4) by (auto simp: add_pollfd_def effects_def split: if_splits)
  have none: "ws_inputOwners s = Map.empty" "ws_outputOwners s = Map.empty"
    using shape_owner [OF d(3)] c by (auto simp: fun_eq_iff) (metis not_Some_eq option.distinct(1))+
  have "expected (insert ?fd (listenFds s)) (clientMap s) Map.empty Map.empty =
      (expected (listenFds s) (clientMap s) Map.empty Map.empty)(?fd \<mapsto> {POLLIN})"
    by (auto simp: expected_def fun_eq_iff)
  then have "shape (insert ?fd (listenFds s)) (clientMap s) (ws_inputOwners s) (ws_outputOwners s)
      ((eventMap (ws_pollFds s))(?fd \<mapsto> {POLLIN}))"
    using d(3) c by (simp add: shape_def none apart_def)
  moreover have "fd_balance (FdOpened ?fd # ws_trace s) =
      (\<lambda>g. if ((eventMap (ws_pollFds s))(?fd \<mapsto> {POLLIN})) g = None then 0 else 1)"
    using d(4) f by (auto simp: fun_eq_iff)
  moreover have "?fd \<notin> pf_fd ` set (ws_pollFds s)" using f by (simp add: eventMap_None)
  moreover have l: "?fd \<notin> fst ` set (ws_listeners s)"
    using d(3) f by (auto simp: shape_def expected_def listenFds_def split: if_splits)
  ultimately show "wf_web t"
    using d(1,2,5-7) l unfolding t
    by (simp add: wf_pending_def add_pollfd_def effects_def listenFds_def eventMap_snoc)
  show "ws_clients t = []" using c by (simp add: t add_pollfd_def)
qed

lemma openListeners_later: "reaches s (openListeners pton l s)"
proof -
  have "extends s t \<Longrightarrow> reaches s (openListener pton a config t)" for s t a config
    by (auto simp: openListener_def Let_def extends_def add_pollfd_def effects_def)
  then have "extends s t \<Longrightarrow> reaches s (openListeners pton l t)" for s t
    by (induction pton l t rule: openListeners.induct) (auto intro!: reaches_then)
  then show ?thesis by simp
qed

lemma wf_openListeners:
  "wf_web s \<Longrightarrow> ws_clients s = [] \<Longrightarrow> openListeners pton l s = Done t \<Longrightarrow> kernel_ok (ws_trace t) \<Longrightarrow>
     wf_web t \<and> ws_clients t = []"
proof (induction pton l s rule: openListeners.induct)
  case (2 pton a config rest s)
  then obtain u where u: "openListener pton a config s = Done u" and t: "openListeners pton rest u = Done t"
    by (auto simp: web_then_Done)
  have "kernel_ok (ws_trace u)"
    using openListeners_later [of u pton rest] t extends_kernel "2.prems"(4) by simp
  with wf_openListener [OF "2.prems"(1,2) u] "2.IH" [OF u] t "2.prems"(4) show ?case by blast
qed simp

lemma wf_web_serving: "web_serving s \<Longrightarrow> wf_web s \<and> kernel_ok (ws_trace s)"
proof (induction rule: web_serving.induct)
  case (web_start pton las configs s)
  then show ?case using wf_openListeners [OF wf_new_webserver _ web_start(1,2)] by (simp add: new_webserver_def)
next
  case (web_next s tk t)
  then show ?case using safe_web_round [of s tk] by (simp add: safe_def)
qed

subsection \<open>The destructor\<close>

lemma balance_append:
  "fd_balance (es @ tr) f = fd_balance es f + fd_balance tr f"
  "child_balance (es @ tr) p = child_balance es p + child_balance tr p"
proof -
  show "fd_balance (es @ tr) f = fd_balance es f + fd_balance tr f"
    by (induction es) (auto split: web_effect.splits simp: fd_balance.simps(2) simp del: balance_simps)
  show "child_balance (es @ tr) p = child_balance es p + child_balance tr p"
    by (induction es) (auto split: web_effect.splits simp: child_balance.simps(2) simp del: balance_simps)
qed

lemma balance_rev [simp]:
  "fd_balance (rev es) f = fd_balance es f" "child_balance (rev es) p = child_balance es p"
proof -
  show "fd_balance (rev es) f = fd_balance es f"
  proof (induction es)
    case (Cons e es)
    then show ?case using balance_append(1) [of "[e]" es f] by (simp add: balance_append)
  qed simp
  show "child_balance (rev es) p = child_balance es p"
  proof (induction es)
    case (Cons e es)
    then show ?case using balance_append(2) [of "[e]" es p] by (simp add: balance_append)
  qed simp
qed

lemma closeClient_trace:
  assumes "clientMap s g = Some c"
  shows "fd_balance (ws_trace (closeClient g s)) f = fd_balance (close_all (g, c)) f + fd_balance (ws_trace s) f"
    and "child_balance (ws_trace (closeClient g s)) p = child_balance (wait_all (g, c)) p + child_balance (ws_trace s) p"
  using assms
  by (simp_all add: closeClient_def find_client_def release_pipes_def release_input_def release_output_def
      close_all_def wait_all_def Let_def)

lemma closeClient_first:
  assumes w: "wf_web s" and c: "ws_clients s = (g, c) # m"
  shows "ws_clients (closeClient g s) = m" and "ws_listeners (closeClient g s) = ws_listeners s"
proof -
  have "\<forall>x \<in> set m. fst x \<noteq> g" using wf_pendingD(1) [OF w] c by (auto simp: ordered_map_def)
  then have "filter (\<lambda>(k, v). k \<noteq> g) m = m" by (intro filter_True) auto
  with c show "ws_clients (closeClient g s) = m"
    by (simp add: closeClient_def find_client_def erase_client_def removePollFd_def Let_def)
  show "ws_listeners (closeClient g s) = ws_listeners s"
    by (auto simp: closeClient_def erase_client_def removePollFd_def release_pipes_def release_input_def
        release_output_def effects_def Let_def split: option.split)
qed

lemma closing_balance:
  assumes "wf_web s"
  shows "fd_balance (concat (map close_all (ws_clients s))) f + fd_balance (ws_trace s) f =
      (if f \<in> listenFds s then 1 else 0)
    \<and> (0 < p \<longrightarrow> child_balance (concat (map wait_all (ws_clients s))) p + child_balance (ws_trace s) p = 0)"
  using assms
proof (induction "length (ws_clients s)" arbitrary: s)
  case 0
  then have m: "ws_clients s = []" by simp
  note d = wf_pendingD [OF 0(2)]
  have "ws_inputOwners s f = None" "ws_outputOwners s f = None"
    using shape_owner [OF d(3)] m by (metis map_of.simps(1) not_Some_eq option.distinct(1))+
  then have "eventMap (ws_pollFds s) f = None \<longleftrightarrow> f \<notin> listenFds s"
    using d(3) m by (auto simp: shape_def expected_def)
  with d(4) have "fd_balance (ws_trace s) f = (if f \<in> listenFds s then 1 else 0)" by simp
  moreover have "0 < p \<Longrightarrow> child_balance (ws_trace s) p = 0"
    using d(5) m by (simp add: children_def childrenOf_def)
  ultimately show ?case using m by simp
next
  case (Suc n)
  then obtain g c m where m: "ws_clients s = (g, c) # m" and n: "length m = n" by (cases "ws_clients s") auto
  let ?t = "closeClient g s"
  have c: "clientMap s g = Some c" by (simp add: m)
  note t = closeClient_first [OF Suc(3) m]
  have l: "listenFds ?t = listenFds s" using t(2) by (simp add: listenFds_def)
  note IH = Suc(1) [of ?t, unfolded t(1) l, OF n [symmetric] wf_closeClient [OF Suc(3)]]
  note tr = closeClient_trace [OF c]
  show ?case
    unfolding m using IH unfolding tr by (simp add: balance_append algebra_simps)
qed

lemma count_distinct: "distinct xs \<Longrightarrow> count_list xs x = (if x \<in> set xs then 1 else 0)"
  by (induction xs) auto

lemma destroy_web_account:
  assumes w: "wf_web s"
  shows "fd_balance (ws_trace (destroy_web s)) f = 0"
    and "0 < p \<Longrightarrow> child_balance (ws_trace (destroy_web s)) p = 0"
proof -
  let ?l = "map (\<lambda>l. FdClosed (fst l)) (ws_listeners s)"
  have l: "?l = map FdClosed (map fst (ws_listeners s))" by simp
  have "count_list (map fst (ws_listeners s)) f = (if f \<in> listenFds s then 1 else 0)"
    using count_distinct [OF wf_pendingD(7) [OF w]] by (simp add: listenFds_def)
  then have "fd_balance ?l f = - (if f \<in> listenFds s then 1 else 0)"
    using balance_lists(2) [of "map fst (ws_listeners s)" "[]" f] unfolding l by simp
  moreover have "fd_balance (concat (map wait_all m)) f = 0" for m
    by (induction m) (auto simp: wait_all_def)
  moreover have "child_balance (concat (map close_all m)) p = 0" for m
    by (induction m) (auto simp: close_all_def)
  moreover have "child_balance ?l p = 0" for p
    using balance_lists(4) [of "map fst (ws_listeners s)" "[]"] unfolding l by simp
  ultimately show "fd_balance (ws_trace (destroy_web s)) f = 0"
    and "0 < p \<Longrightarrow> child_balance (ws_trace (destroy_web s)) p = 0"
    using closing_balance [OF w, of f p] by (simp_all add: destroy_web_def balance_append)
qed

subsection \<open>One client at the end of a round\<close>

text \<open>It keeps its state, or it is answered, or it is closed.\<close>

definition just_answered :: "int \<Rightarrow> web_client \<Rightarrow> web_client option \<Rightarrow> bool" where
  "just_answered now c m \<longleftrightarrow>
     (\<exists>c'. m = Some c' \<and> answered c' \<and> wc_touched c' = now \<and> wc_timeoutSeconds c' = wc_timeoutSeconds c)"

lemma clientMap_closeClient: "clientMap (closeClient g s) = (clientMap s)(g := None)"
  by (cases "clientMap s g")
    (simp_all add: closeClient_def find_client_def erase_client_def removePollFd_def Let_def fun_upd_idem)

lemma clientMap_await [simp]: "ws_clients (await_output g s) = ws_clients s"
  by (simp add: await_output_def)

lemma finishCgi_at:
  assumes w: "wf_pending R s" and r: "finishCgi os g status s = Done t"
  shows "h \<noteq> g \<Longrightarrow> clientMap t h = clientMap s h"
    and "clientMap s g = Some c \<Longrightarrow> just_answered (int (os_time os)) c (clientMap t g)"
proof -
  note ord = wf_pendingD(1) [OF w]
  have "(h \<noteq> g \<longrightarrow> clientMap t h = clientMap s h) \<and> (clientMap s g = Some c \<longrightarrow> just_answered (int (os_time os)) c (clientMap t g))"
  proof (cases "clientMap s g")
    case None
    with r show ?thesis by (simp add: finishCgi_def find_client_def)
  next
    case (Some d)
    obtain config where cfg: "wc_config d = Some config" using client_config [OF w Some] by blast
    obtain out where "out \<noteq> []" and "finishCgi os g status s =
        Done (let s2 = put_client g ((no_pipes d)\<lparr>wc_cgiPid := - 1, wc_output := out, wc_sent := 0,
                       wc_touched := int (os_time os), wc_phase := CLIENT_WRITING\<rparr>) (release_pipes d s)
              in s2\<lparr>ws_pollFds := set_events g {POLLOUT} (ws_pollFds s2)\<rparr>)"
      using finishCgi_eq [OF Some cfg] .
    with r ord Some show ?thesis
      by (auto simp: just_answered_def answered_def put_client_def no_pipes_def Let_def)
  qed
  then show "h \<noteq> g \<Longrightarrow> clientMap t h = clientMap s h"
    and "clientMap s g = Some c \<Longrightarrow> just_answered (int (os_time os)) c (clientMap t g)" by blast+
qed

lemma finish_list_at:
  assumes "wf_pending (fst ` set es) s" and "distinct (map fst es)" and "finish_list os es s = Done t"
  shows "g \<notin> fst ` set es \<Longrightarrow> clientMap t g = clientMap s g"
    and "g \<in> fst ` set es \<Longrightarrow> clientMap s g = Some c \<Longrightarrow> just_answered (int (os_time os)) c (clientMap t g)"
proof -
  have "(g \<notin> fst ` set es \<longrightarrow> clientMap t g = clientMap s g)
    \<and> (g \<in> fst ` set es \<longrightarrow> clientMap s g = Some c \<longrightarrow> just_answered (int (os_time os)) c (clientMap t g))"
    using assms
  proof (induction es arbitrary: s)
    case (Cons e es)
    obtain k pid st where e: "e = (k, pid, st)" by (cases e)
    have k: "k \<in> fst ` set (e # es)" "k \<notin> fst ` set es" using Cons.prems(2) by (simp_all add: e)
    obtain u where u: "finishCgi os k st s = Done u" "wf_pending (fst ` set (e # es) - {k}) u"
      using wf_finishCgi [OF Cons.prems(1) k(1)] by blast
    have "fst ` set (e # es) - {k} = fst ` set es" using k(2) by (auto simp: e)
    with u(2) have "wf_pending (fst ` set es) u" by simp
    note IH = Cons.IH [OF this] 
    note at = finishCgi_at [OF Cons.prems(1) u(1)]
    show ?case
    proof (cases "g = k")
      case True
      with IH Cons.prems at(2) [of c] k(2) u(1) show ?thesis by (simp add: e)
    next
      case False
      with IH Cons.prems at(1) [of g] u(1) show ?thesis by (simp add: e)
    qed
  qed simp
  then show "g \<notin> fst ` set es \<Longrightarrow> clientMap t g = clientMap s g"
    and "g \<in> fst ` set es \<Longrightarrow> clientMap s g = Some c \<Longrightarrow> just_answered (int (os_time os)) c (clientMap t g)" by blast+
qed

lemma reapCgi_at:
  assumes w: "wf_web s" and r: "reapCgi a s = Done t"
  shows "clientMap s g = None \<Longrightarrow> clientMap t g = None"
    and "clientMap s g = Some c \<Longrightarrow> clientMap t g = Some c \<or> 0 < wc_cgiPid c \<and> just_answered (wa_now a) c (clientMap t g)"
proof -
  let ?es = "ended_cgi a s"
  let ?s1 = "effects (map (\<lambda>(g, pid, st). ChildReaped pid) ?es) s"
  note e = ended_cgi_facts [OF wf_pendingD(1) [OF w], where a = a]
  have "\<forall>(g, pid, st) \<in> set ?es. \<exists>c. clientMap s g = Some c \<and> wc_cgiPid c = pid" using e(2) by blast
  from wf_reap_list [OF w e(1) _ this] have w1: "wf_pending (fst ` set ?es) ?s1" by simp
  have f: "finish_list (wa_os a) ?es ?s1 = Done t" using r by (simp add: reapCgi_def)
  note at = finish_list_at [OF w1 e(1) f, of g]
  have p: "g \<in> fst ` set ?es \<Longrightarrow> \<exists>c. clientMap s g = Some c \<and> 0 < wc_cgiPid c"
    using e(2) by force
  show "clientMap s g = None \<Longrightarrow> clientMap t g = None"
    using at(1) p by fastforce
  show "clientMap s g = Some c \<Longrightarrow> clientMap t g = Some c \<or> 0 < wc_cgiPid c \<and> just_answered (wa_now a) c (clientMap t g)"
    using at(1) at(2) [of c] p by (cases "g \<in> fst ` set ?es") (auto simp: wa_now_def)
qed

lemma expireClient_at:
  assumes w: "wf_web s" and r: "expireClient os g s = Done t"
  shows "h \<noteq> g \<Longrightarrow> clientMap t h = clientMap s h"
    and "clientMap s g = Some c \<Longrightarrow> (if answered c then clientMap t g = None else just_answered (int (os_time os)) c (clientMap t g))"
proof -
  note ord = wf_pendingD(1) [OF w]
  have "(h \<noteq> g \<longrightarrow> clientMap t h = clientMap s h) \<and> (clientMap s g = Some c \<longrightarrow>
      (if answered c then clientMap t g = None else just_answered (int (os_time os)) c (clientMap t g)))"
  proof (cases "clientMap s g")
    case None
    with r show ?thesis by (simp add: expireClient_def find_client_def)
  next
    case (Some d)
    obtain config where cfg: "wc_config d = Some config" "wc_fd d = g" using client_config [OF w Some] by blast
    show ?thesis
      using r Some cfg ord
      by (auto simp: expireClient_def find_client_def with_config_def Let_def timeout_answer_def just_answered_def
          answered_def clientMap_closeClient split: if_splits)
  qed
  then show "h \<noteq> g \<Longrightarrow> clientMap t h = clientMap s h"
    and "clientMap s g = Some c \<Longrightarrow> (if answered c then clientMap t g = None else just_answered (int (os_time os)) c (clientMap t g))"
    by blast+
qed

lemma expireClient_absent: "clientMap s g = None \<Longrightarrow> expireClient os g s = Done s"
  by (simp add: expireClient_def find_client_def)

lemma expire_list_at:
  assumes "wf_web s" and "distinct fds" and "expire_list os fds s = Done t"
  shows "g \<notin> set fds \<or> clientMap s g = None \<Longrightarrow> clientMap t g = clientMap s g"
    and "g \<in> set fds \<Longrightarrow> clientMap s g = Some c \<Longrightarrow>
      (if answered c then clientMap t g = None else just_answered (int (os_time os)) c (clientMap t g))"
proof -
  have "(g \<notin> set fds \<or> clientMap s g = None \<longrightarrow> clientMap t g = clientMap s g)
    \<and> (g \<in> set fds \<longrightarrow> clientMap s g = Some c \<longrightarrow>
        (if answered c then clientMap t g = None else just_answered (int (os_time os)) c (clientMap t g)))"
    using assms
  proof (induction fds arbitrary: s)
    case (Cons k fds)
    obtain u where u: "expireClient os k s = Done u" "wf_web u" using wf_expireClient [OF Cons.prems(1)] .
    note IH = Cons.IH [OF u(2)]
    note at = expireClient_at [OF Cons.prems(1) u(1)]
    have k: "k \<notin> set fds" "distinct fds" "expire_list os fds u = Done t"
      using Cons.prems(2,3) u(1) by simp_all
    show ?case
    proof (cases "g = k")
      case True
      with IH k at(2) [of c] expireClient_absent [of s k os] u(1) show ?thesis by auto
    next
      case False
      with IH k at(1) [of g] show ?thesis by simp
    qed
  qed simp
  then show "g \<notin> set fds \<or> clientMap s g = None \<Longrightarrow> clientMap t g = clientMap s g"
    and "g \<in> set fds \<Longrightarrow> clientMap s g = Some c \<Longrightarrow>
      (if answered c then clientMap t g = None else just_answered (int (os_time os)) c (clientMap t g))" by blast+
qed

lemma expireClients_at:
  assumes w: "wf_web s" and r: "expireClients os s = Done t"
  shows "clientMap s g = None \<Longrightarrow> clientMap t g = None"
    and "clientMap s g = Some c \<Longrightarrow> \<not> expired os c \<Longrightarrow> clientMap t g = Some c"
    and "clientMap s g = Some c \<Longrightarrow> expired os c \<Longrightarrow>
      (if answered c then clientMap t g = None else just_answered (int (os_time os)) c (clientMap t g))"
proof -
  let ?fds = "map fst (filter (\<lambda>(fd, c). expired os c) (ws_clients s))"
  have d: "distinct (map fst (ws_clients s))" using wf_pendingD(1) [OF w] by (simp add: ordered_map_def)
  then have fd: "distinct ?fds" by (rule distinct_map_filter)
  note at = expire_list_at [OF w fd r [unfolded expireClients_def], of g]
  have m: "g \<in> set ?fds \<longleftrightarrow> (\<exists>c. clientMap s g = Some c \<and> expired os c)"
    by (force simp: map_of_eq_Some_iff [OF d])
  show "clientMap s g = None \<Longrightarrow> clientMap t g = None"
    and "clientMap s g = Some c \<Longrightarrow> \<not> expired os c \<Longrightarrow> clientMap t g = Some c"
    and "clientMap s g = Some c \<Longrightarrow> expired os c \<Longrightarrow>
      (if answered c then clientMap t g = None else just_answered (int (os_time os)) c (clientMap t g))"
    using at(1) at(2) [of c] m by simp_all
qed

end
