(* ===== verification/Web_Exit.thy ===== *)
theory Web_Exit
  imports Web_Loop
begin

section \<open>webserv: the end of the program\<close>

text \<open>
  The contract of one round of the event loop, lifted once to whole runs, and what it gives
  for \<open>main\<close>: whichever way the run ends, nothing that was opened or started is left over.
\<close>

subsection \<open>From rounds to runs\<close>

text \<open>
  \<open>allows tk s\<close> is what is assumed of the kernel's answers \<open>tk\<close> in the state \<open>s\<close> in which they
  are used; \<open>allowed_run\<close> assumes it of every round that happens.
\<close>

fun allowed_run :: "(web_tick \<Rightarrow> webserver \<Rightarrow> bool) \<Rightarrow> web_tick list \<Rightarrow> webserver \<Rightarrow> bool" where
  "allowed_run allows [] s \<longleftrightarrow> True"
| "allowed_run allows (tk # tks) s \<longleftrightarrow>
     (if \<not> wt_running tk then True
      else if wt_ready tk < 0 then allowed_run allows tks s
      else allows tk s
           \<and> (case web_round tk s of Done t \<Rightarrow> allowed_run allows tks t | _ \<Rightarrow> True))"

locale round_contract =
  fixes inv :: "webserver \<Rightarrow> bool" and ends :: "web_outcome \<Rightarrow> bool"
    and allows :: "web_tick \<Rightarrow> webserver \<Rightarrow> bool"
  assumes ends_Done: "inv s \<longleftrightarrow> ends (Done s)"
    and ends_Raised: "inv s \<Longrightarrow> ends (Raised msg s)"
    and round_ends: "inv s \<Longrightarrow> allows tk s \<Longrightarrow> ends (web_round tk s)"
begin

lemma run_ends:
  assumes "inv s" and "allowed_run allows tks s"
  shows "ends (web_run tks s)"
  using assms
proof (induction tks arbitrary: s)
  case Nil
  then show ?case by (simp add: ends_Done [symmetric])
next
  case (Cons tk tks)
  show ?case
  proof (cases "wt_running tk \<and> 0 \<le> wt_ready tk")
    case True
    with Cons.prems have r: "ends (web_round tk s)" by (simp add: round_ends)
    with True Cons show ?thesis
      by (cases "web_round tk s") (simp_all add: ends_Done)
  next
    case False
    with Cons show ?thesis using ends_Done ends_Raised by (auto simp: not_le)
  qed
qed

end

interpretation tables: round_contract safe outcome_safe poll_honest
  by unfold_locales (simp_all add: safe_web_round)

subsection \<open>What \<open>main\<close> leaves behind\<close>

lemma destroy_extends: "extends s (destroy_web s)"
  by (auto simp: destroy_web_def extends_def)

lemma safe_opened:
  assumes "openListeners pton l (new_webserver configs) = Done s"
  shows "safe s"
  using wf_openListeners [OF wf_new_webserver _ assms] by (simp add: safe_def new_webserver_def)

lemma destroyed_balance:
  assumes "safe t" and "kernel_ok (ws_trace (destroy_web t))"
  shows "fd_balance (ws_trace (destroy_web t)) f = 0"
    and "0 < p \<Longrightarrow> child_balance (ws_trace (destroy_web t)) p = 0"
proof -
  have "wf_web t" using assms extends_kernel [OF destroy_extends] by (simp add: safe_def)
  then show "fd_balance (ws_trace (destroy_web t)) f = 0"
    and "0 < p \<Longrightarrow> child_balance (ws_trace (destroy_web t)) p = 0"
    by (simp_all add: destroy_web_account)
qed

lemma web_main_balance:
  assumes opened: "openListeners pton (zip (map answers [0..<length configs]) configs)
      (new_webserver configs) = Done s0"
    and config: "config_parse pton path (files path) = Inr configs"
    and run: "allowed_run poll_honest ticks s0"
    and main: "web_main [path] pton files answers ticks = Some (code, Some s)"
    and kernel: "kernel_ok (ws_trace s)"
  shows "fd_balance (ws_trace s) f = 0 \<and> (0 < p \<longrightarrow> child_balance (ws_trace s) p = 0)"
proof -
  have e: "outcome_safe (web_run ticks s0)"
    by (rule tables.run_ends [OF safe_opened [OF opened] run])
  have "\<exists>t. safe t \<and> s = destroy_web t"
    using main e by (cases "web_run ticks s0") (auto simp: web_main_def config opened)
  with kernel destroyed_balance show ?thesis by blast
qed

text \<open>The program does not read through a \<open>NULL\<close> configuration.\<close>

lemma web_run_not_null:
  assumes "openListeners pton l (new_webserver configs) = Done s0"
    and "allowed_run poll_honest ticks s0" and "web_run ticks s0 = NullConfig t"
  shows "\<not> kernel_ok (ws_trace t)"
  using tables.run_ends [OF safe_opened [OF assms(1)] assms(2)] assms(3) by simp

end
