(* ===== verification/Web_Silent.thy ===== *)
theory Web_Silent
  imports Web_Exit
begin

section \<open>webserv: one silent client among others\<close>

text \<open>
  What a round of the event loop does to a client of which \<open>poll\<close> reports nothing, while any
  other clients connect, send, receive and leave: its events leave it as it is, and the check
  of the time limits at the end of the round, which is made in every round, answers it and later
  closes it.
\<close>

subsection \<open>Whole runs only add to the trace\<close>

lemma reaches_web_events: "extends s t \<Longrightarrow> reaches s (web_events answers i ready t)"
proof (induction answers i ready t rule: web_events.induct)
  case (1 answers i ready t)
  note IH = "1.IH" [OF _ refl refl refl]
  let ?p = "ws_pollFds t ! i"
  consider "length (ws_pollFds t) \<le> i \<or> ready = 0"
    | "\<not> (length (ws_pollFds t) \<le> i \<or> ready = 0)" "pf_revents ?p = {}"
    | "\<not> (length (ws_pollFds t) \<le> i \<or> ready = 0)" "pf_revents ?p \<noteq> {}" by blast
  then show ?case
  proof cases
    case 3
    let ?kind = "classify (pf_fd ?p) (pf_revents ?p) t"
    have "reaches s (web_then (handle_event (answers (pf_fd ?p)) ?kind (pf_revents ?p) i t)
        (\<lambda>u. web_events answers (next_index ?kind (pf_fd ?p) i u) (ready - 1) u))"
      using IH(2) [OF 3 refl] "1.prems" by (intro reaches_then) (simp_all add: later)
    with 3 show ?thesis by (subst web_events.simps) (simp add: Let_def)
  qed (use IH(1) "1.prems" in \<open>subst web_events.simps, simp\<close>)+
qed

lemma reaches_web_round: "extends s t \<Longrightarrow> reaches s (web_round tk t)"
  unfolding web_round_def
  by (intro reaches_then reaches_web_events reaches_reapCgi reaches_expireClients) (simp_all add: extends_def)

lemma extends_run: "web_run tks s = Done t \<Longrightarrow> extends s t"
proof (induction tks arbitrary: s)
  case (Cons tk tks)
  then show ?case
    using reaches_web_round [of s s tk]
    by (auto simp: web_then_Done split: if_splits intro: extends_trans)
qed simp

subsection \<open>A client that is not spoken of\<close>

text \<open>
  \<open>unmoved r g c s\<close>: in \<open>s\<close> the client \<open>g\<close> is \<open>c\<close>, and the poll list reports no more than \<open>r\<close>.
\<close>

definition unmoved :: "(int \<Rightarrow> poll_flag set) \<Rightarrow> int \<Rightarrow> web_client \<Rightarrow> webserver \<Rightarrow> bool" where
  "unmoved r g c s \<longleftrightarrow>
     clientMap s g = Some c \<and> (\<forall>p \<in> set (ws_pollFds s). pf_revents p \<subseteq> r (pf_fd p))"

definition unmoved_outcome :: "(int \<Rightarrow> poll_flag set) \<Rightarrow> int \<Rightarrow> web_client \<Rightarrow> web_outcome \<Rightarrow> bool" where
  "unmoved_outcome r g c u \<longleftrightarrow> (case u of Done t \<Rightarrow> unmoved r g c t | _ \<Rightarrow> True)"

lemma unmoved_outcome_simps [simp]:
  "unmoved_outcome r g c (Done t) = unmoved r g c t" "unmoved_outcome r g c (Raised msg t)"
  "unmoved_outcome r g c Stuck" "unmoved_outcome r g c (NullConfig t)"
  by (simp_all add: unmoved_outcome_def)

lemma map_of_map_set_other: "g \<noteq> k \<Longrightarrow> map_of (map_set k v m) g = map_of m g"
  by (induction k v m rule: map_set.induct) auto

named_theorems others

lemma unmoved_writes [others]:
  assumes "unmoved r g c s"
  shows "h \<noteq> g \<Longrightarrow> unmoved r g c (put_client h d s)" "h \<noteq> g \<Longrightarrow> unmoved r g c (erase_client h s)"
    "unmoved r g c (effects es s)" "unmoved r g c (add_pollfd f ev s)" "unmoved r g c (removePollFd f s)"
    "unmoved r g c (s\<lparr>ws_inputOwners := m\<rparr>)" "unmoved r g c (s\<lparr>ws_outputOwners := m\<rparr>)"
    "unmoved r g c (s\<lparr>ws_pollFds := set_events f ev (ws_pollFds s)\<rparr>)"
  using assms set_drop_erase [of 0 f "ws_pollFds s"] set_drop_set_events [of _ 0 f ev "ws_pollFds s"]
  by (fastforce simp: unmoved_def put_client_def erase_client_def effects_def add_pollfd_def removePollFd_def
      map_of_map_set_other)+

lemma unmoved_events_at [others]:
  assumes "unmoved r g c s"
  shows "unmoved r g c (set_events_at i ev s)"
proof (cases "i < length (ws_pollFds s)")
  case True
  then have "ws_pollFds s ! i \<in> set (ws_pollFds s)" by simp
  with assms show ?thesis
    using set_update_subset_insert [of "ws_pollFds s" i "(ws_pollFds s ! i)\<lparr>pf_events := ev\<rparr>"]
    by (auto simp: unmoved_def set_events_at_def dest!: subsetD)
qed (use assms in \<open>simp add: unmoved_def set_events_at_def list_update_beyond\<close>)

lemma unmoved_release [others]:
  assumes "unmoved r g c s"
  shows "unmoved r g c (release_input f s)" "unmoved r g c (release_output f s)" "unmoved r g c (release_pipes d s)"
  using assms by (simp_all add: release_input_def release_output_def release_pipes_def Let_def others)

lemma unmoved_slot:
  "client_slot h s = (d, t) \<Longrightarrow> unmoved r g c s \<Longrightarrow> h \<noteq> g \<Longrightarrow> unmoved r g c t"
  "input_owner f s = (h, t) \<Longrightarrow> unmoved r g c s \<Longrightarrow> unmoved r g c t"
  "output_owner f s = (h, t) \<Longrightarrow> unmoved r g c s \<Longrightarrow> unmoved r g c t"
  by (auto simp: client_slot_def input_owner_def output_owner_def others split: option.splits)

lemma unmoved_closeClient [others]: "unmoved r g c s \<Longrightarrow> h \<noteq> g \<Longrightarrow> unmoved r g c (closeClient h s)"
  by (simp add: closeClient_def Let_def others split: option.split)

lemma unmoved_answer_at [others]: "unmoved r g c s \<Longrightarrow> h \<noteq> g \<Longrightarrow> unmoved r g c (answer_at i h out s)"
  by (auto simp: answer_at_def split: prod.split intro!: others dest: unmoved_slot)

lemma unmoved_attach [others]:
  "unmoved r g c s \<Longrightarrow> h \<noteq> g \<Longrightarrow> unmoved r g c (attach_cgi now i h body timeout process s)"
  by (auto simp: attach_cgi_def Let_def split: prod.split intro!: others dest: unmoved_slot)

lemma unmoved_startCgi:
  "startCgi a i request config s = (b, t) \<Longrightarrow> unmoved r g c s \<Longrightarrow> pf_fd (ws_pollFds s ! i) \<noteq> g \<Longrightarrow> unmoved r g c t"
  by (auto simp: startCgi_def Let_def split: if_splits sum.splits option.splits prod.splits
      intro!: others dest: unmoved_slot intro: unmoved_slot(1) [OF _ unmoved_writes(3)])

lemma unmoved_finishCgi: "unmoved r g c s \<Longrightarrow> h \<noteq> g \<Longrightarrow> unmoved_outcome r g c (finishCgi os h status s)"
  by (auto simp: finishCgi_def with_config_def Let_def split: option.split intro!: others)

lemma unmoved_answerRequest:
  assumes "unmoved r g c s" and "pf_fd (ws_pollFds s ! i) = h" and "h \<noteq> g"
  shows "unmoved_outcome r g c (answerRequest a i h d config result s)"
  using assms by (cases result) (auto simp: answerRequest_def Let_def split: prod.split intro!: others dest: unmoved_startCgi)

lemma unmoved_readClient:
  assumes u: "unmoved r g c s" and h: "pf_fd (ws_pollFds s ! i) \<noteq> g"
  shows "unmoved_outcome r g c (readClient a i s)"
proof -
  let ?h = "pf_fd (ws_pollFds s ! i)"
  obtain d t where slot: "client_slot ?h s = (d, t)" by (cases "client_slot ?h s")
  have t: "unmoved r g c t" by (rule unmoved_slot(1) [OF slot u h])
  have "ws_pollFds t = ws_pollFds s" using slot by (auto simp: client_slot_def put_client_def split: option.splits)
  then have "unmoved_outcome r g c (answerRequest a i ?h d' config result (put_client ?h d' t))" for d' config result
    using t h by (intro unmoved_answerRequest others) (simp_all add: put_client_def)
  then show ?thesis
    using t h by (auto simp: readClient_def Let_def slot with_config_def split: input_answer.split option.split intro!: others)
qed

lemma unmoved_writeClient: "unmoved r g c s \<Longrightarrow> pf_fd (ws_pollFds s ! i) \<noteq> g \<Longrightarrow> unmoved r g c (writeClient a i s)"
  by (auto simp: writeClient_def Let_def split: prod.split output_answer.split intro!: others dest: unmoved_slot)

lemma unmoved_writeCgi:
  "unmoved r g c s \<Longrightarrow> ws_inputOwners s (pf_fd (ws_pollFds s ! i)) = Some h \<Longrightarrow> h \<noteq> g \<Longrightarrow> unmoved r g c (writeCgi a i s)"
  by (auto simp: writeCgi_def Let_def input_owner_def split: prod.split output_answer.split intro!: others dest: unmoved_slot)

lemma unmoved_readCgi:
  "unmoved r g c s \<Longrightarrow> ws_outputOwners s (pf_fd (ws_pollFds s ! i)) = Some h \<Longrightarrow> h \<noteq> g \<Longrightarrow>
     unmoved_outcome r g c (readCgi a i s)"
  by (auto simp: readCgi_def Let_def output_owner_def split: prod.split option.split
      intro!: others unmoved_finishCgi dest: unmoved_slot)

text \<open>An open descriptor is not handed out again, so an accepted client is another one.\<close>

lemma unmoved_accept:
  assumes "unmoved r g c s" and "fd_balance (ws_trace s) g = 1" and "kernel_ok (ws_trace (accept_clients config now as s))"
  shows "unmoved r g c (accept_clients config now as s)"
  using assms
proof (induction as arbitrary: s)
  case (Cons a as)
  let ?fd = "aa_fd a" and ?s1 = "effects [FdOpened (aa_fd a)] s"
  have later: "extends s (accept_clients config now as s)" for s :: webserver by (simp add: later)
  show ?case
  proof (cases "?fd < 0")
    case False
    have ne: "?fd \<noteq> g" if "kernel_ok (FdOpened ?fd # ws_trace s)" using that Cons.prems(2) by auto
    have refused: "unmoved r g c (accept_clients config now as (effects [FdClosed ?fd] ?s1))"
      if k: "kernel_ok (ws_trace (accept_clients config now as (effects [FdClosed ?fd] ?s1)))"
    proof -
      have "?fd \<noteq> g" using ne extends_kernel [OF later k] by simp
      with Cons.prems(1,2) show ?thesis by (intro Cons.IH [OF _ _ k]) (auto intro!: others)
    qed
    have taken: "unmoved r g c (accept_clients config now as (add_pollfd ?fd ev (put_client ?fd d ?s1)))"
      if k: "kernel_ok (ws_trace (accept_clients config now as (add_pollfd ?fd ev (put_client ?fd d ?s1))))" for ev d
    proof -
      have "?fd \<noteq> g" using ne extends_kernel [OF later k] by simp
      with Cons.prems(1,2) show ?thesis by (intro Cons.IH [OF _ _ k]) (auto intro!: others)
    qed
    from False refused taken Cons.prems(3) show ?thesis by (auto simp: Let_def split: if_splits)
  qed (use Cons.prems in simp)
qed simp

subsection \<open>The events of a round\<close>

text \<open>\<open>r\<close> reports neither the connection of the client nor a pipe of its script.\<close>

definition unheard :: "(int \<Rightarrow> poll_flag set) \<Rightarrow> int \<Rightarrow> web_client \<Rightarrow> bool" where
  "unheard r g c \<longleftrightarrow> (\<forall>f \<in> {g, wc_cgiInputFd c, wc_cgiOutputFd c}. 0 \<le> f \<longrightarrow> r f = {})"

definition unready :: "int \<Rightarrow> web_tick \<Rightarrow> webserver \<Rightarrow> bool" where
  "unready g tk s \<longleftrightarrow> (\<forall>c. find_client g s = Some c \<longrightarrow> unheard (wt_revents tk) g c)"

lemma unmoved_handle_event:
  assumes w: "wf_web s" and u: "unmoved r g c s" and r: "unheard r g c" and i: "i < length (ws_pollFds s)"
    and fd: "fd = pf_fd (ws_pollFds s ! i)" and ev: "ev = pf_revents (ws_pollFds s ! i)" "ev \<noteq> {}"
    and kind: "kind = classify fd ev s" and t: "handle_event a kind ev i s = Done t" and k: "kernel_ok (ws_trace t)"
  shows "unmoved r g c t"
proof -
  have m: "clientMap s g = Some c" and "ev \<subseteq> r fd" using u i fd ev(1) by (auto simp: unmoved_def)
  then have "r fd \<noteq> {}" using ev(2) by auto
  moreover have "0 \<le> g" using wf_web_client_at(1) [OF w m] by (simp add: client_ok_def)
  ultimately have ne: "fd \<noteq> g" "ws_inputOwners s fd = Some h \<Longrightarrow> h \<noteq> g" "ws_outputOwners s fd = Some h \<Longrightarrow> h \<noteq> g" for h
    using r pipe_owner [OF w] m by (fastforce simp: unheard_def)+
  have close: "unmoved r g c (closeClient h s)" if "h \<noteq> g" for h using u that by (simp add: others)
  show ?thesis
  proof (cases kind)
    case EvListener
    have "fd_balance (ws_trace s) g = 1"
      using wf_web_client_at(2) [OF w m] wf_pendingD(4) [OF w] by simp
    with u k t EvListener show ?thesis
      by (auto simp: handle_event_def web_acceptClient_def intro!: unmoved_accept)
  next
    case EvCgiOutput
    then obtain h where h: "ws_outputOwners s fd = Some h" using kind by (auto simp: classify_def split: if_splits)
    with unmoved_readCgi [OF u, of i h a] ne(3) [OF h] close [of h] u t EvCgiOutput fd show ?thesis
      by (auto simp: handle_event_def output_owner_def split: if_splits)
  next
    case EvCgiInput
    then obtain h where h: "ws_inputOwners s fd = Some h" using kind by (auto simp: classify_def split: if_splits)
    with unmoved_writeCgi [OF u, of i h a] ne(2) [OF h] close [of h] u t EvCgiInput fd show ?thesis
      by (auto simp: handle_event_def input_owner_def split: if_splits)
  next
    case EvReadable
    with unmoved_readClient [OF u, of i a] ne(1) t fd show ?thesis by (auto simp: handle_event_def)
  qed (use u t ne(1) fd close unmoved_writeClient in \<open>auto simp: handle_event_def\<close>)
qed

lemma unmoved_web_events:
  "tidy i s \<Longrightarrow> unmoved r g c s \<Longrightarrow> unheard r g c \<Longrightarrow> web_events answers i ready s = Done t \<Longrightarrow>
     kernel_ok (ws_trace t) \<Longrightarrow> unmoved r g c t"
proof (induction answers i ready s rule: web_events.induct)
  case (1 answers i ready s)
  note IH = "1.IH" [OF _ refl refl refl]
  let ?p = "ws_pollFds s ! i"
  have w: "wf_web s"
    using "1.prems"(1,4,5) reaches_web_events [of s s answers i ready] extends_kernel [of s t] by (simp add: tidy_def)
  consider "length (ws_pollFds s) \<le> i \<or> ready = 0"
    | "\<not> (length (ws_pollFds s) \<le> i \<or> ready = 0)" "pf_revents ?p = {}"
    | "\<not> (length (ws_pollFds s) \<le> i \<or> ready = 0)" "pf_revents ?p \<noteq> {}" by blast
  then show ?case
  proof cases
    case 1
    with "1.prems" show ?thesis by (subst (asm) web_events.simps) simp
  next
    case 2
    have "tidy (i + 1) s" using "1.prems"(1) fresh_from_le [of i s "i + 1"] by (simp add: tidy_def)
    moreover have "web_events answers (i + 1) ready s = Done t"
      using "1.prems"(4) 2 by (subst (asm) web_events.simps) (simp add: Let_def)
    ultimately show ?thesis using IH(1) [OF 2] "1.prems" by blast
  next
    case 3
    let ?kind = "classify (pf_fd ?p) (pf_revents ?p) s"
    let ?i = "next_index ?kind (pf_fd ?p) i"
    obtain u where u: "handle_event (answers (pf_fd ?p)) ?kind (pf_revents ?p) i s = Done u"
        "web_events answers (?i u) (ready - 1) u = Done t"
      using "1.prems"(4) 3 by (subst (asm) web_events.simps) (auto simp: Let_def web_then_Done)
    have k: "kernel_ok (ws_trace u)"
      using reaches_web_events [of u u answers "?i u" "ready - 1"] u(2) extends_kernel "1.prems"(5) by simp
    have i: "i < length (ws_pollFds s)" using 3 by simp
    have "kernel_ok (ws_trace s)"
      using k reaches_handle_event [of s s "answers (pf_fd ?p)" ?kind "pf_revents ?p" i] u(1) extends_kernel by simp
    with "1.prems"(1) have "fresh_from i s" by (simp add: tidy_def)
    from step_handle_event [OF w this i refl refl refl, of "answers (pf_fd ?p)"] u(1) k
    have "tidy (?i u) u" by (simp add: tidy_def)
    moreover have "unmoved r g c u"
      by (rule unmoved_handle_event [OF w "1.prems"(2,3) i refl refl 3(2) refl u(1) k])
    ultimately show ?thesis using IH(2) [OF 3 refl u(1)] "1.prems"(3,5) u(2) by blast
  qed
qed

subsection \<open>The end of a round\<close>

text \<open>The connection of \<open>g\<close> is closed between two states.\<close>

definition closes :: "int \<Rightarrow> webserver \<Rightarrow> webserver \<Rightarrow> bool" where
  "closes g s t \<longleftrightarrow> (\<exists>es. ws_trace t = es @ ws_trace s \<and> FdClosed g \<in> set es)"

lemma closes_trans:
  "closes g s t \<Longrightarrow> extends t u \<Longrightarrow> closes g s u" "extends s t \<Longrightarrow> closes g t u \<Longrightarrow> closes g s u"
  by (auto simp: closes_def extends_def)

lemma closes_closeClient: "clientMap s g = Some c \<Longrightarrow> closes g s (closeClient g s)"
  using later_release(3) [of s "if 0 < wc_cgiPid c then effects [ChildKilled (wc_cgiPid c), ChildReaped (wc_cgiPid c)] s else s" c]
  by (auto simp: closeClient_def find_client_def Let_def closes_def extends_def)

lemma expireClient_closes:
  assumes w: "wf_web s" and t: "expireClient os h s = Done t" and c: "clientMap s g = Some c" "clientMap t g = None"
  shows "closes g s t"
proof -
  have h: "h = g" using expireClient_at(1) [OF w t, of g] c by auto
  note ord = wf_pendingD(1) [OF w]
  obtain config where cfg: "wc_config c = Some config" "wc_fd c = g" using client_config [OF w c(1)] by blast
  have "t = closeClient g s"
    using t h c cfg ord by (auto simp: expireClient_def find_client_def with_config_def Let_def split: if_splits)
  with closes_closeClient [OF c(1)] show ?thesis by simp
qed

lemma extends_expire:
  "expireClient os h s = Done u \<Longrightarrow> extends s u" "expire_list os fds s = Done u \<Longrightarrow> extends s u"
proof -
  have 1: "expireClient os h s = Done u \<Longrightarrow> extends s u" for h s u
    by (auto simp: expireClient_def with_config_def Let_def later split: option.splits if_splits)
  then show "expireClient os h s = Done u \<Longrightarrow> extends s u" .
  show "expire_list os fds s = Done u \<Longrightarrow> extends s u"
    by (induction fds arbitrary: s) (auto simp: web_then_Done intro: extends_trans dest: 1)
qed

lemma expire_list_closes:
  "wf_web s \<Longrightarrow> expire_list os fds s = Done t \<Longrightarrow> clientMap s g = Some c \<Longrightarrow> clientMap t g = None \<Longrightarrow> closes g s t"
proof (induction fds arbitrary: s c)
  case (Cons h fds)
  obtain u where u: "expireClient os h s = Done u" "wf_web u" using wf_expireClient [OF Cons.prems(1)] .
  have t: "expire_list os fds u = Done t" using Cons.prems(2) u(1) by simp
  have reach: "extends u t" "extends s u" using extends_expire [of os] u(1) t by blast+
  show ?case
  proof (cases "clientMap u g")
    case None
    from closes_trans(1) [OF expireClient_closes [OF Cons.prems(1) u(1) Cons.prems(3) None] reach(1)] show ?thesis .
  next
    case (Some d)
    from closes_trans(2) [OF reach(2) Cons.IH [OF u(2) t Some Cons.prems(4)]] show ?thesis .
  qed
qed simp

text \<open>One round, as the silent client sees it.\<close>

lemma unready_round:
  assumes w: "wf_web s" and honest: "poll_honest tk s" and q: "unready g tk s" and c: "clientMap s g = Some c"
    and t: "web_round tk s = Done t" and k: "kernel_ok (ws_trace t)"
  shows "wf_web t"
    and "clientMap t g = None \<Longrightarrow> closes g s t"
    and "answered c \<Longrightarrow> clientMap t g = (if expired (wa_os (wt_end tk)) c then None else Some c)"
    and "clientMap t g = None \<or> clientMap t g = Some c \<and> \<not> expired (wa_os (wt_end tk)) c
      \<or> just_answered (wa_now (wt_end tk)) c (clientMap t g)"
proof -
  let ?a = "wt_end tk" and ?s1 = "poll_results (wt_revents tk) s"
  obtain u v where u: "web_events (wt_answers tk) 0 (nat (wt_ready tk)) ?s1 = Done u"
    and v: "reapCgi ?a u = Done v" and x: "expireClients (wa_os ?a) v = Done t"
    using t by (auto simp: web_round_def web_then_Done)
  have e: "extends v t" "extends u v" "extends s u"
    using reaches_expireClients [of v v "wa_os ?a"] x reaches_reapCgi [of u u ?a] v
      reaches_web_events [of s ?s1 "wt_answers tk" 0 "nat (wt_ready tk)"] u by (simp_all add: extends_def)
  have kv: "kernel_ok (ws_trace v)" "kernel_ok (ws_trace u)" "kernel_ok (ws_trace s)"
    using e extends_kernel k by blast+
  have "fresh_from 0 ?s1"
    using honest by (auto simp: fresh_from_def poll_honest_def poll_results_def honest_def)
  then have tidy: "tidy 0 ?s1" by (simp add: tidy_def wf_poll_results [OF w])
  have "unmoved (wt_revents tk) g c ?s1" using c by (auto simp: unmoved_def poll_results_def)
  moreover have "unheard (wt_revents tk) g c" using q c by (simp add: unready_def find_client_def)
  ultimately have "unmoved (wt_revents tk) g c u" using unmoved_web_events [OF tidy _ _ u kv(2)] by blast
  then have cu: "clientMap u g = Some c" by (simp add: unmoved_def)
  have wu: "wf_web u" using safe_web_events [OF tidy, of "wt_answers tk" "nat (wt_ready tk)"] u kv(2) by (simp add: safe_def)
  obtain v' where "reapCgi ?a u = Done v'" "wf_web v'" using wf_reapCgi [OF wu] .
  with v have wv: "wf_web v" by simp
  obtain t' where "expireClients (wa_os ?a) v = Done t'" "wf_web t'" using wf_expireClients [OF wv] .
  with x show "wf_web t" by simp
  note r = reapCgi_at(2) [OF wu v cu] and ex = expireClients_at [OF wv x, of g]
  have now: "\<not> expired (wa_os ?a) d" if "wc_touched d = wa_now ?a" for d
    using that by (simp add: expired_def wa_now_def)
  have stays: "just_answered (wa_now ?a) c (clientMap t g)" if "just_answered (wa_now ?a) c (clientMap v g)"
    using that ex(2) now by (fastforce simp: just_answered_def)
  obtain d where d: "clientMap v g = Some d" using r by (auto simp: just_answered_def)
  show "closes g s t" if "clientMap t g = None"
    using expire_list_closes [OF wv x [unfolded expireClients_def] d that] closes_trans(2) e(2,3) extends_trans by blast
  show "clientMap t g = None \<or> clientMap t g = Some c \<and> \<not> expired (wa_os ?a) c
      \<or> just_answered (wa_now ?a) c (clientMap t g)"
    using r ex(2,3) [of c] stays
    by (cases "expired (wa_os ?a) c"; cases "clientMap v g = Some c") (auto simp: wa_now_def split: if_splits)
  assume a: "answered c"
  then have "\<not> 0 < wc_cgiPid c" by (simp add: answered_def)
  then show "clientMap t g = (if expired (wa_os ?a) c then None else Some c)"
    using r ex(2,3) [of c] a by auto
qed

subsection \<open>The rounds of a run\<close>

text \<open>
  What a run may do from the state \<open>s0\<close>: as long as the connection of \<open>g\<close> has not been
  closed, \<open>poll\<close> reports nothing of it.
\<close>

definition silent_on :: "int \<Rightarrow> webserver \<Rightarrow> web_tick \<Rightarrow> webserver \<Rightarrow> bool" where
  "silent_on g s0 tk s \<longleftrightarrow> poll_honest tk s \<and> (closes g s0 s \<or> unready g tk s)"

text \<open>One step of such a run: either the round is skipped, or it has the effect above.\<close>

lemma silent_on_step:
  assumes "allowed_run (silent_on g s0) (tk # tks) s" and "web_run (tk # tks) s = Done t" and "wt_running tk"
    and "kernel_ok (ws_trace t)"
  obtains "wt_ready tk < 0" and "allowed_run (silent_on g s0) tks s" and "web_run tks s = Done t"
    | u where "0 \<le> wt_ready tk" and "silent_on g s0 tk s" and "web_round tk s = Done u"
      and "allowed_run (silent_on g s0) tks u" and "web_run tks u = Done t" and "kernel_ok (ws_trace u)" and "extends s u"
proof (cases "wt_ready tk < 0")
  case True
  with assms that(1) show thesis by (auto split: if_splits)
next
  case False
  then obtain u where u: "web_round tk s = Done u" "web_run tks u = Done t"
    using assms(2,3) by (auto simp: web_then_Done)
  have "kernel_ok (ws_trace u)" "extends s u"
    using extends_kernel [OF extends_run [OF u(2)]] assms(4) reaches_web_round [of s s tk] u(1) by simp_all
  with that(2) False assms(1,3) u show thesis by simp
qed

text \<open>The client is gone, or it has its answer, stored at \<open>T0\<close> or before.\<close>

definition going :: "int \<Rightarrow> webserver \<Rightarrow> int \<Rightarrow> nat \<Rightarrow> webserver \<Rightarrow> bool" where
  "going g s0 T0 limit s \<longleftrightarrow>
     closes g s0 s
     \<or> (\<exists>c. clientMap s g = Some c \<and> answered c \<and> wc_touched c \<le> T0 \<and> wc_timeoutSeconds c = limit)"

lemma going_leaves:
  assumes "wf_web s" and "extends s0 s" and "going g s0 T0 limit s" and "allowed_run (silent_on g s0) tks s"
    and "web_run tks s = Done t" and "kernel_ok (ws_trace t)" and "\<forall>tk \<in> set tks. wt_running tk"
    and "\<exists>tk \<in> set tks. 0 \<le> wt_ready tk \<and> T0 + int limit < wa_now (wt_end tk)"
  shows "closes g s0 t"
  using assms
proof (induction tks arbitrary: s)
  case (Cons tk tks)
  show ?case
  proof (cases "closes g s0 s")
    case True
    from closes_trans(1) [OF this extends_run [OF Cons.prems(5)]] show ?thesis .
  next
    case False
    with Cons.prems(3) obtain c where c: "clientMap s g = Some c" "answered c" "wc_touched c \<le> T0"
        "wc_timeoutSeconds c = limit" by (auto simp: going_def)
    have run: "wt_running tk" using Cons.prems(7) by simp
    from Cons.prems(4,5) run Cons.prems(6) show ?thesis
    proof (cases rule: silent_on_step)
      case 1
      with Cons.IH [OF Cons.prems(1-3)] Cons.prems(6-8) show ?thesis by auto
    next
      case (2 u)
      have q: "poll_honest tk s" "unready g tk s" using 2(2) False by (simp_all add: silent_on_def)
      note r = unready_round [OF Cons.prems(1) q c(1) 2(3,6)]
      have e: "extends s0 u" using extends_trans [OF Cons.prems(2) 2(7)] .
      show ?thesis
      proof (cases "clientMap u g")
        case None
        from closes_trans(1) [OF closes_trans(2) [OF Cons.prems(2) r(2) [OF None]] extends_run [OF 2(5)]]
        show ?thesis .
      next
        case (Some d)
        then have "d = c" and x: "\<not> expired (wa_os (wt_end tk)) c" using r(3) [OF c(2)] by (auto split: if_splits)
        with Some c have "going g s0 T0 limit u" by (auto simp: going_def)
        moreover have "\<not> T0 + int limit < wa_now (wt_end tk)" using x c by (simp add: expired_def wa_now_def)
        ultimately show ?thesis using Cons.IH [OF r(1) e _ 2(4,5)] Cons.prems(6-8) by auto
      qed
    qed
  qed
qed simp

lemma silent_client_closed:
  assumes "wf_web s" and "extends s0 s" and "clientMap s g = Some c \<or> going g s0 (wa_now (wt_end tk1)) (wc_timeoutSeconds c) s"
    and "allowed_run (silent_on g s0) (pre @ tk1 # post) s"
    and "web_run (pre @ tk1 # post) s = Done t" and "kernel_ok (ws_trace t)"
    and "\<forall>tk \<in> set (pre @ tk1 # post). wt_running tk" and "0 \<le> wt_ready tk1"
    and "\<forall>tk \<in> set pre. wa_now (wt_end tk) \<le> wa_now (wt_end tk1)"
    and "wc_touched c + int (wc_timeoutSeconds c) < wa_now (wt_end tk1)"
    and "\<exists>tk \<in> set post. 0 \<le> wt_ready tk \<and> wa_now (wt_end tk1) + int (wc_timeoutSeconds c) < wa_now (wt_end tk)"
  shows "closes g s0 t"
  using assms
proof (induction pre arbitrary: s)
  case Nil
  show ?case
  proof (cases "clientMap s g = Some c \<and> \<not> closes g s0 s")
    case True
    have run: "wt_running tk1" using Nil.prems(7) by simp
    from Nil.prems(4,5) [unfolded append_Nil] run Nil.prems(6) show ?thesis
    proof (cases rule: silent_on_step)
      case (2 u)
      have q: "poll_honest tk1 s" "unready g tk1 s" using 2(2) True by (simp_all add: silent_on_def)
      note r = unready_round [OF Nil.prems(1) q _ 2(3,6), of c]
      have "expired (wa_os (wt_end tk1)) c" using Nil.prems(10) by (simp add: expired_def wa_now_def)
      then have "going g s0 (wa_now (wt_end tk1)) (wc_timeoutSeconds c) u"
        using r(2,4) True closes_trans(2) [OF Nil.prems(2)] by (auto simp: going_def just_answered_def)
      from going_leaves [OF r(1) extends_trans [OF Nil.prems(2) 2(7)] this 2(4,5) Nil.prems(6)] Nil.prems(7,11) True
      show ?thesis by auto
    qed (use Nil.prems(8) in simp)
  next
    case False
    with Nil.prems(3) have "going g s0 (wa_now (wt_end tk1)) (wc_timeoutSeconds c) s" by (auto simp: going_def)
    from going_leaves [OF Nil.prems(1,2) this Nil.prems(4-7) [unfolded append_Nil]] Nil.prems(11) show ?thesis by auto
  qed
next
  case (Cons tk pre)
  let ?now = "wa_now (wt_end tk1)" and ?limit = "wc_timeoutSeconds c"
  show ?case
  proof (cases "closes g s0 s")
    case True
    from closes_trans(1) [OF this extends_run [OF Cons.prems(5)]] show ?thesis .
  next
    case False
    have run: "wt_running tk" using Cons.prems(7) by simp
    from Cons.prems(4,5) [unfolded append_Cons] run Cons.prems(6) show ?thesis
    proof (cases rule: silent_on_step)
      case 1
      show ?thesis by (rule Cons.IH [OF Cons.prems(1-3) 1(2,3) Cons.prems(6)]) (use Cons.prems(7-11) in simp_all)
    next
      case (2 u)
      have q: "poll_honest tk s" "unready g tk s" using 2(2) False by (simp_all add: silent_on_def)
      obtain d where d: "clientMap s g = Some d" "d = c \<or> answered d \<and> wc_touched d \<le> ?now \<and> wc_timeoutSeconds d = ?limit"
        using Cons.prems(3) False by (auto simp: going_def)
      note r = unready_round [OF Cons.prems(1) q d(1) 2(3,6)]
      have now: "wa_now (wt_end tk) \<le> ?now" using Cons.prems(9) by simp
      consider "clientMap u g = None" | "clientMap u g = Some d" | "just_answered (wa_now (wt_end tk)) d (clientMap u g)"
        using r(4) by (elim disjE conjE)
      then have "clientMap u g = Some c \<or> going g s0 ?now ?limit u"
      proof cases
        case 1
        with r(2) closes_trans(2) [OF Cons.prems(2)] show ?thesis by (simp add: going_def)
      next
        case 2
        with d(2) show ?thesis by (auto simp: going_def)
      next
        case 3
        then obtain d' where d': "clientMap u g = Some d'" "answered d'" "wc_touched d' = wa_now (wt_end tk)"
            "wc_timeoutSeconds d' = wc_timeoutSeconds d"
          unfolding just_answered_def by blast
        have "wc_timeoutSeconds d = ?limit" using d(2) by (elim disjE) simp_all
        with d' now have "going g s0 ?now ?limit u" unfolding going_def by (intro disjI2 exI [of _ d']) simp
        then show ?thesis ..
      qed
      then show ?thesis
        by (rule Cons.IH [OF r(1) extends_trans [OF Cons.prems(2) 2(7)] _ 2(4,5) Cons.prems(6)])
          (use Cons.prems(7-11) in simp_all)
    qed
  qed
qed

end
