(* ===== verification/Web_Path.thy ===== *)
theory Web_Path
  imports Web_Router
begin

section \<open>webserv: a request cannot leave its root by its path\<close>

text \<open>
  What \<open>decodePath\<close> guarantees of the path it returns, and what is left of it in the path on
  disk after the router has cut the location's prefix off: no segment is \<open>.\<close> or \<open>..\<close>, no
  byte is a control character, and what is appended to the root starts with a slash.
\<close>

subsection \<open>Splitting at a character\<close>

lemma split_at_not_Nil [simp]: "split_at c s \<noteq> []"
  by (induction c s rule: split_at.induct) (auto split: list.split)

lemma split_at_append: "split_at c (a @ c # b) = split_at c a @ split_at c b"
proof (induction a)
  case (Cons x a)
  then show ?case by (cases "split_at c a") (auto split: list.split)
qed simp

lemma split_at_single: "c \<notin> set a \<Longrightarrow> split_at c a = [a]"
  by (induction a) auto

lemma split_at_parts: "seg \<in> set (split_at c s) \<Longrightarrow> c \<notin> set seg \<and> set seg \<subseteq> set s"
proof (induction c s arbitrary: seg rule: split_at.induct)
  case (2 c x s)
  then show ?case by (cases "split_at c s") (fastforce split: if_splits)+
qed simp

lemma split_at_Cons: "split_at c (c # s) = [] # split_at c s"
  by simp

subsection \<open>Joining the segments\<close>

fun join_slash :: "string list \<Rightarrow> string" where
  "join_slash [] = []"
| "join_slash [s] = s"
| "join_slash (s # ss) = s @ ''/'' @ join_slash ss"

lemma join_slash_snoc: "ks \<noteq> [] \<Longrightarrow> join_slash (ks @ [k]) = join_slash ks @ ''/'' @ k"
  by (induction ks rule: join_slash.induct) auto

lemma join_slash_Nil_iff: "\<forall>k \<in> set ks. k \<noteq> [] \<Longrightarrow> join_slash ks = [] \<longleftrightarrow> ks = []"
  by (cases ks rule: join_slash.cases) auto

lemma split_at_join:
  "ks \<noteq> [] \<Longrightarrow> \<forall>k \<in> set ks. CHR ''/'' \<notin> set k \<Longrightarrow> split_at (CHR ''/'') (join_slash ks) = ks"
  by (induction ks rule: join_slash.induct) (auto simp: split_at_single split_at_append)

lemma set_join_slash: "set (join_slash ks) \<subseteq> insert (CHR ''/'') (\<Union>k \<in> set ks. set k)"
  by (induction ks rule: join_slash.induct) auto

definition kept_segment :: "string \<Rightarrow> bool" where
  "kept_segment s \<longleftrightarrow> s \<noteq> [] \<and> s \<noteq> ''.'' \<and> s \<noteq> ''..''"

lemma joinSegments_join:
  assumes "joinSegments (''/'' @ join_slash ks) segs = Some out" and "\<forall>k \<in> set ks. kept_segment k"
  shows "\<exists>ks'. out = ''/'' @ join_slash (ks @ ks') \<and> (\<forall>k \<in> set ks'. kept_segment k \<and> k \<in> set segs)"
  using assms
proof (induction segs arbitrary: ks)
  case Nil
  then show ?case by (intro exI [of _ "[]"]) simp
next
  case (Cons s segs)
  show ?case
  proof (cases "s = [] \<or> s = ''.''")
    case True
    with Cons.prems have "joinSegments (''/'' @ join_slash ks) segs = Some out" by auto
    from Cons.IH [OF this Cons.prems(2)] show ?thesis by fastforce
  next
    case False
    have nd: "s \<noteq> ''..''" using Cons.prems(1) by auto
    have l: "1 < length (''/'' @ join_slash ks) \<longleftrightarrow> ks \<noteq> []"
      using join_slash_Nil_iff [of ks] Cons.prems(2) by (auto simp: kept_segment_def)
    have "(if 1 < length (''/'' @ join_slash ks) then (''/'' @ join_slash ks) @ ''/'' else ''/'' @ join_slash ks) @ s
        = ''/'' @ join_slash (ks @ [s])"
      by (cases "ks = []") (simp_all only: l if_True if_False, simp_all add: join_slash_snoc)
    with Cons.prems(1) False nd have "joinSegments (''/'' @ join_slash (ks @ [s])) segs = Some out"
      by (simp del: append_Cons append.simps)
    moreover have "\<forall>k \<in> set (ks @ [s]). kept_segment k"
      using Cons.prems(2) False nd by (auto simp: kept_segment_def)
    ultimately obtain ks' where "out = ''/'' @ join_slash ((ks @ [s]) @ ks')"
        and "\<forall>k \<in> set ks'. kept_segment k \<and> k \<in> set segs"
      using Cons.IH by blast
    with False nd show ?thesis by (intro exI [of _ "s # ks'"]) (simp add: kept_segment_def)
  qed
qed

subsection \<open>Bytes of the decoded text\<close>

definition printable :: "char \<Rightarrow> bool" where
  "printable c \<longleftrightarrow> 0x20 \<le> (of_char c :: nat) \<and> (of_char c :: nat) \<noteq> 0x7F"

lemma hex_digit_less: "is_hex c \<Longrightarrow> hex_digit c < 16"
  by (auto simp: is_hex_def hex_digit_def is_digit_bounds digit_value_def char_simps)

lemma hex_value_two: "\<forall>c \<in> set ds. is_hex c \<Longrightarrow> length ds \<le> 2 \<Longrightarrow> hex_value ds < 256"
  by (cases ds; cases "tl ds") (fastforce simp: hex_value_def dest: hex_digit_less)+

lemma hex_value_one: "\<forall>c \<in> set ds. is_hex c \<Longrightarrow> length ds \<le> 1 \<Longrightarrow> hex_value ds < 16"
  by (cases ds) (auto simp: hex_value_def dest: hex_digit_less)

lemma read_hex_two:
  assumes "read_hex 32 [a, b] = Some (v, extra)"
  shows "v < 256 \<or> 2 ^ 32 - 16 < v"
proof -
  let ?t = "dropWhile is_space [a, b]"
  define neg where "neg \<longleftrightarrow> ?t \<noteq> [] \<and> hd ?t = CHR ''-''"
  define u where "u = (if ?t \<noteq> [] \<and> (hd ?t = CHR ''-'' \<or> hd ?t = CHR ''+'') then tl ?t else ?t)"
  define w where "w = (if starts_with ''0x'' u \<or> starts_with ''0X'' u then drop 2 u else u)"
  define ds where "ds = takeWhile is_hex w"
  have v: "v = (if neg then (2 ^ 32 - hex_value ds) mod 2 ^ 32 else hex_value ds)"
  proof -
    have "read_hex 32 [a, b] = (if ds = [] \<or> 2 ^ 32 \<le> hex_value ds then None
        else Some (if neg then (2 ^ 32 - hex_value ds) mod 2 ^ 32 else hex_value ds, dropWhile is_hex w))"
      by (simp only: read_hex_def Let_def ds_def w_def u_def neg_def)
    with assms show ?thesis by (simp split: if_splits)
  qed
  have t: "length ?t \<le> 2" using length_dropWhile_le [of is_space "[a, b]"] by simp
  have lw: "length w \<le> length u" by (simp add: w_def)
  have ld: "length ds \<le> length w" by (simp add: ds_def length_takeWhile_le)
  have h: "\<forall>c \<in> set ds. is_hex c" unfolding ds_def using set_takeWhileD by fast
  show ?thesis
  proof (cases neg)
    case True
    then have "length u \<le> 1" using t by (simp add: u_def neg_def)
    with lw ld h have n: "hex_value ds < 16" by (intro hex_value_one) auto
    show ?thesis
    proof (cases "hex_value ds = 0")
      case False
      with n have "(2 ^ 32 - hex_value ds) mod 2 ^ 32 = (2::nat) ^ 32 - hex_value ds" by simp
      with True v have "v = 2 ^ 32 - hex_value ds" by simp
      with n have "2 ^ 32 - 16 < v" by (simp add: less_diff_conv)
      then show ?thesis by simp
    qed (use True v in simp)
  next
    case False
    have "length u \<le> 2" using t by (auto simp: u_def)
    with lw ld h have "hex_value ds < 256" by (intro hex_value_two) auto
    with False v show ?thesis by simp
  qed
qed

lemma printable_escape:
  assumes "read_hex 32 [a, b] = Some (v, extra)" and "0x20 \<le> v" and "v \<noteq> 0x7F"
  shows "printable (char_of v)"
proof -
  have "v < 2 ^ 32" by (rule read_hex_bound [OF assms(1)])
  have "32 \<le> v mod 256 \<and> v mod 256 \<noteq> 127"
  proof (cases "v < 256")
    case False
    with read_hex_two [OF assms(1)] have "2 ^ 32 - 16 < v" by simp
    with \<open>v < 2 ^ 32\<close> have "v - (2 ^ 32 - 256) < 256" and "240 < v - (2 ^ 32 - 256)" by simp_all
    moreover have "v mod 256 = (v - (2 ^ 32 - 256)) mod 256"
    proof -
      have "v = (v - (2 ^ 32 - 256)) + 256 * 16777215" using \<open>2 ^ 32 - 16 < v\<close> by simp
      then show ?thesis by (metis mod_mult_self2)
    qed
    ultimately show ?thesis by simp
  qed (use assms in simp)
  then show ?thesis by (simp add: printable_def of_char_of)
qed

lemma decodeEscapes_printable: "decodeEscapes s = Some d \<Longrightarrow> c \<in> set d \<Longrightarrow> printable c"
proof (induction s arbitrary: d rule: decodeEscapes.induct)
  case (2 c' s)
  show ?case
  proof (cases "c' = CHR ''%''")
    case True
    with "2.prems" obtain a b rest v extra d' where s: "s = a # b # rest"
      and r: "read_hex 32 [a, b] = Some (v, extra)" and v: "0x20 \<le> v" "v \<noteq> 0x7F"
      and e: "\<not> (\<not> only_space extra \<or> v = 0 \<or> v < 0x20 \<or> v = 0x7F)"
      and d: "decodeEscapes rest = Some d'" "d = char_of v # d'"
      by (auto split: list.splits option.splits prod.splits if_splits)
    from d(2) "2.prems"(2) consider "c = char_of v" | "c \<in> set d'" by auto
    then show ?thesis
      using printable_escape [OF r v] "2.IH"(1) [OF True s refl r refl e d(1)] by cases simp_all
  next
    case False
    with "2.prems" show ?thesis
      using "2.IH"(2) by (auto simp: printable_def split: if_splits)
  qed
qed simp

subsection \<open>Safe paths\<close>

definition safe_path :: "string \<Rightarrow> bool" where
  "safe_path p \<longleftrightarrow>
     p \<noteq> [] \<and> hd p = CHR ''/'' \<and> (\<forall>c \<in> set p. printable c)
     \<and> ''.'' \<notin> set (split_at (CHR ''/'') p) \<and> ''..'' \<notin> set (split_at (CHR ''/'') p)"

text \<open>No empty segment between two slashes: the path does not start a network location.\<close>

definition single_slashes :: "string \<Rightarrow> bool" where
  "single_slashes p \<longleftrightarrow> [] \<notin> set (butlast (tl (split_at (CHR ''/'') p)))"

lemma decodePath_safe:
  assumes "decodePath s = Some p"
  shows "safe_path p" and "single_slashes p"
proof -
  obtain d out where d: "decodeEscapes s = Some d"
    and out: "joinSegments ''/'' (split_at (CHR ''/'') (drop 1 d)) = Some out"
    and p: "p = out \<or> p = out @ ''/'' \<and> last out \<noteq> CHR ''/''"
    using assms by (auto simp: decodePath_def split: option.splits if_splits)
  obtain ks where ks: "out = ''/'' @ join_slash ks"
    and kept: "\<forall>k \<in> set ks. kept_segment k \<and> k \<in> set (split_at (CHR ''/'') (drop 1 d))"
    using joinSegments_join [of "[]" "split_at (CHR ''/'') (drop 1 d)" out] out by auto
  have noslash: "\<forall>k \<in> set ks. CHR ''/'' \<notin> set k" and sub: "\<forall>k \<in> set ks. set k \<subseteq> set d"
    using kept split_at_parts set_drop_subset by fast+
  have pr: "\<forall>c \<in> set out. printable c"
  proof
    fix c assume "c \<in> set out"
    then have "c = CHR ''/'' \<or> (\<exists>k \<in> set ks. c \<in> set k)" using ks set_join_slash [of ks] by auto
    then show "printable c"
      using sub decodeEscapes_printable [OF d, of c] by (auto simp: printable_def)
  qed
  have sp: "split_at (CHR ''/'') out = [] # (if ks = [] then [[]] else ks)"
    using split_at_join [OF _ noslash] by (simp add: ks)
  have "split_at (CHR ''/'') (out @ ''/'') = split_at (CHR ''/'') out @ [[]]"
    by (rule split_at_append [of _ out "[]", simplified])
  moreover have "ks \<noteq> []" if "last out \<noteq> CHR ''/''" using that ks by (cases ks) auto
  ultimately have parts: "split_at (CHR ''/'') p = [] # (if ks = [] then [[]] else ks)
      \<or> ks \<noteq> [] \<and> split_at (CHR ''/'') p = [] # ks @ [[]]"
    using p sp by auto
  have "p \<noteq> []" "hd p = CHR ''/''" "\<forall>c \<in> set p. printable c"
    using p pr by (auto simp: ks printable_def)
  moreover have "set (split_at (CHR ''/'') p) \<subseteq> insert [] (set ks)" using parts by (elim disjE) auto
  moreover have "''.'' \<notin> set ks" "''..'' \<notin> set ks" using kept by (auto simp: kept_segment_def)
  ultimately show "safe_path p" unfolding safe_path_def by blast
  have "[] \<notin> set ks" using kept by (auto simp: kept_segment_def)
  then have "[] \<notin> set (butlast ks)" by (auto dest: in_set_butlastD)
  with parts \<open>[] \<notin> set ks\<close> show "single_slashes p"
    by (cases "ks = []") (auto simp: single_slashes_def butlast_snoc)
qed

lemma prefix_matches_rest:
  assumes "prefix_matches prefix path" and "seg \<in> set (split_at (CHR ''/'') (drop (length prefix) path))"
  shows "seg = [] \<or> seg \<in> set (split_at (CHR ''/'') path)"
proof -
  define rest where "rest = drop (length prefix) path"
  have path: "path = prefix @ rest"
    using assms(1) by (auto simp: prefix_matches_def rest_def dest: starts_withD)
  have "prefix = ''/'' \<or> prefix \<noteq> [] \<and> last prefix = CHR ''/'' \<or> length path = length prefix
      \<or> length prefix < length path \<and> path ! length prefix = CHR ''/''"
    using assms(1) by (simp add: prefix_matches_def)
  then consider q where "prefix = q @ ''/''" | "rest = []" | r where "rest = CHR ''/'' # r"
  proof (elim disjE)
    assume "prefix \<noteq> [] \<and> last prefix = CHR ''/''"
    then have "prefix = butlast prefix @ ''/''" by (metis append_butlast_last_id)
    then show thesis by (rule that(1))
  next
    assume "length prefix < length path \<and> path ! length prefix = CHR ''/''"
    then have "rest \<noteq> []" and "hd rest = CHR ''/''" by (auto simp: rest_def hd_drop_conv_nth)
    then show thesis using that(3) [of "tl rest"] by (cases rest) auto
  qed (use that(1) [of "[]"] that(2) in \<open>auto simp: rest_def\<close>)
  then show ?thesis
  proof cases
    case 1
    then have "split_at (CHR ''/'') path = split_at (CHR ''/'') q @ split_at (CHR ''/'') rest"
      by (simp add: path split_at_append)
    with assms(2) show ?thesis by (simp add: rest_def)
  next
    case 2
    with assms(2) show ?thesis by (simp add: rest_def [symmetric])
  next
    case 3
    then have "split_at (CHR ''/'') path = split_at (CHR ''/'') prefix @ split_at (CHR ''/'') r"
      by (simp add: path split_at_append)
    with assms(2) 3 show ?thesis by (auto simp: rest_def [symmetric])
  qed
qed

lemma safe_relative:
  assumes "safe_path path" and "\<forall>seg \<in> set (split_at (CHR ''/'') rel). seg = [] \<or> seg \<in> set (split_at (CHR ''/'') path)"
    and "set rel \<subseteq> set path"
  shows "safe_path (if rel = [] \<or> hd rel \<noteq> CHR ''/'' then ''/'' @ rel else rel)"
  using assms by (auto simp: safe_path_def printable_def)

text \<open>The path on disk is the root of the location (or server) followed by a safe path.\<close>

lemma resolve_confined:
  assumes "safe_path (rq_path request)" and "rt_status (resolve request config) = ROUTE_READY"
  shows "\<exists>rel. safe_path rel \<and> rt_diskPath (resolve request config) =
    (case rt_location (resolve request config) of Some l \<Rightarrow> lc_root l | None \<Rightarrow> sc_root config) @ rel"
proof (cases "matchLocation config (rq_path request)")
  case None
  with assms show ?thesis
    using safe_relative [OF assms(1), of "rq_path request"]
    by (auto simp: resolve_def Let_def split: if_splits)
next
  case (Some l)
  let ?rest = "drop (length (lc_path l)) (rq_path request)"
  have m: "prefix_matches (lc_path l) (rq_path request)" by (rule matchLocation_longest(2) [OF Some])
  have s: "safe_path (if ?rest = [] \<or> hd ?rest \<noteq> CHR ''/'' then ''/'' @ ?rest else ?rest)"
    by (rule safe_relative [OF assms(1)]) (use prefix_matches_rest [OF m] in blast, rule set_drop_subset)
  have "starts_with (lc_path l) (rq_path request)" using m by (simp add: prefix_matches_def)
  moreover have "lc_redirect l = []" "methodAllowed (lc_methods l) (rq_method request)"
    using assms(2) Some by (auto simp: resolve_def Let_def split: if_splits)
  ultimately have "rt_location (resolve request config) = Some l"
    and "rt_diskPath (resolve request config)
      = lc_root l @ (if ?rest = [] \<or> hd ?rest \<noteq> CHR ''/'' then ''/'' @ ?rest else ?rest)"
    using Some by (simp_all add: resolve_def Let_def)
  with s show ?thesis by auto
qed

end
