(* ===== verification/Web_Chunked.thy ===== *)
theory Web_Chunked
  imports Web_Http
begin

section \<open>webserv: the chunked coding\<close>

text \<open>
  The decoder of chunked bodies against the coding itself: what an encoder writes is read
  back; the loop ends when no size is large enough to wrap the position around; and sizes
  that do wrap it make the call run forever or throw.
\<close>

subsection \<open>Hexadecimal numbers\<close>

definition hex_char :: "nat \<Rightarrow> char" where
  "hex_char d = (if d < 10 then digit_char d else char_of (87 + d))"

fun show_hex :: "nat \<Rightarrow> string" where
  "show_hex n = (if n < 16 then [hex_char n] else show_hex (n div 16) @ [hex_char (n mod 16)])"

declare show_hex.simps [simp del]

lemma hex_char_facts:
  assumes "d < 16"
  shows "is_hex (hex_char d)" and "hex_digit (hex_char d) = d"
proof -
  have "d < 10 \<or> d \<in> {10, 11, 12, 13, 14, 15}" using assms by auto
  then have "is_hex (hex_char d) \<and> hex_digit (hex_char d) = d"
    using digit_char_facts [of d]
    by (auto simp: hex_char_def is_hex_def hex_digit_def is_digit_bounds char_simps)
  then show "is_hex (hex_char d)" and "hex_digit (hex_char d) = d" by simp_all
qed

lemma show_hex_digits: "c \<in> set (show_hex n) \<Longrightarrow> is_hex c"
proof (induction n rule: show_hex.induct)
  case (1 n)
  then show ?case
    by (cases "n < 16") (auto simp: show_hex.simps [of n] hex_char_facts)
qed

lemma show_hex_not_Nil [simp]: "show_hex n \<noteq> []"
  by (subst show_hex.simps) simp

lemma hex_value_show_hex [simp]: "hex_value (show_hex n) = n"
proof (induction n rule: show_hex.induct)
  case (1 n)
  then show ?case
    by (cases "n < 16") (simp_all add: show_hex.simps [of n] hex_value_def hex_char_facts)
qed

lemma is_hex_facts: "is_hex c \<Longrightarrow> \<not> is_space c \<and> c \<notin> {SP, TAB, CR, LF, CHR '';'', CHR ''-'', CHR ''+'', CHR ''x'', CHR ''X''}"
  by (auto simp: is_hex_def is_space_def is_digit_def char_simps)

lemma hex_text:
  assumes "\<forall>c \<in> set v. is_hex c" and "v \<noteq> []"
  shows "trim v = v" and "takeWhile (\<lambda>c. c \<noteq> CHR '';'') v = v"
    and "hex_value v < 2 ^ w \<Longrightarrow> read_hex w v = Some (hex_value v, [])"
proof -
  obtain a as where v: "v = a # as" using assms(2) by (cases v) auto
  have nb: "c \<notin> {SP, TAB, CR, LF}" if "c \<in> set v" for c using assms(1) that is_hex_facts by blast
  have "dropWhile (\<lambda>c. c \<in> {SP, TAB, CR, LF}) v = v" using nb v by simp
  moreover have "dropWhile (\<lambda>c. c \<in> {SP, TAB, CR, LF}) (rev v) = rev v"
    using nb [of "last v"] assms(2) by (cases "rev v") (auto simp: last_rev [symmetric] hd_rev dest: arg_cong [where f = rev])
  ultimately show "trim v = v" by (simp add: trim_def Let_def)
  show "takeWhile (\<lambda>c. c \<noteq> CHR '';'') v = v"
    using assms(1) is_hex_facts by (auto simp: takeWhile_eq_all_conv)
  assume n: "hex_value v < 2 ^ w"
  have a: "\<not> is_space a" "a \<noteq> CHR ''-''" "a \<noteq> CHR ''+''"
    using assms(1) v is_hex_facts [of a] by auto
  have x: "\<not> starts_with ''0x'' v" "\<not> starts_with ''0X'' v"
    using assms(1) v is_hex_facts [of "hd as"] by (cases as; auto simp: starts_with_def)+
  have "takeWhile is_hex v = v" "dropWhile is_hex v = []"
    using assms(1) by (auto simp: takeWhile_eq_all_conv dropWhile_eq_Nil_conv)
  with a x n v show "read_hex w v = Some (hex_value v, [])"
    by (simp add: read_hex_def Let_def)
qed

subsection \<open>One round on a chunk\<close>

text \<open>The number read from the size line at \<open>pre\<close> decides what the round does.\<close>

lemma chunkStep_size:
  assumes "input = pre @ v @ crlf @ rest" and "\<forall>c \<in> set v. is_hex c" and "v \<noteq> []"
    and "hex_value v < 2 ^ 64"
  shows "chunkStep input (length pre, body) =
    (let start = length pre + length v + 2; n = hex_value v
     in if n = 0 then Inr (chunkTrailers input start body)
        else if length input < (start + n + 2) mod 2 ^ 64 then Inr (ChunkReturn True body False)
        else
          let pos = (start + n) mod 2 ^ 64
          in if length input < pos then Inr ChunkThrow
             else if take 2 (drop pos input) \<noteq> crlf
             then Inr (ChunkReturn False (body @ take n rest) False)
             else Inl (pos + 2, body @ take n rest))"
proof -
  have "CR \<notin> set v" using assms(2) is_hex_facts by blast
  then have f: "find_text_from crlf (length pre) input = Some (length pre + length v)"
    by (simp add: assms(1) find_text_crlf)
  have d: "take (length v) (drop (length pre) input) = v"
    "drop (length pre + length v + 2) input = rest"
    by (simp_all add: assms(1) crlf_def)
  have t: "trim (takeWhile (\<lambda>c. c \<noteq> CHR '';'')
      (take (length pre + length v - length pre) (drop (length pre) input))) = v"
    unfolding add_diff_cancel_left' d(1) hex_text(2) [OF assms(2,3)] hex_text(1) [OF assms(2,3)] ..
  show ?thesis
    unfolding chunkStep_def prod.case f option.case Let_def t hex_text(3) [OF assms(2,3,4)] d(2)
    by (simp add: assms(3) only_space_def)
qed

text \<open>A chunk as an encoder writes it.\<close>

definition encode_chunk :: "string \<Rightarrow> string" where
  "encode_chunk c = show_hex (length c) @ crlf @ c @ crlf"

definition encode_chunks :: "string list \<Rightarrow> string" where
  "encode_chunks cs = concat (map encode_chunk cs) @ ''0'' @ crlf @ crlf"

lemma chunkStep_chunk:
  assumes "input = pre @ encode_chunk c @ rest" and "c \<noteq> []" and "length input < 2 ^ 64"
  shows "chunkStep input (length pre, body) = Inl (length (pre @ encode_chunk c), body @ c)"
proof -
  let ?v = "show_hex (length c)"
  have i: "input = pre @ ?v @ crlf @ (c @ crlf @ rest)" by (simp add: assms(1) encode_chunk_def)
  have len: "length input = length pre + length ?v + 2 + length c + 2 + length rest" by (simp add: i)
  with assms(3) have n: "hex_value ?v < 2 ^ 64" by simp
  have "drop (length pre + length ?v + 2 + length c) input = crlf @ rest"
    by (simp add: i crlf_def)
  then have "take 2 (drop (length pre + length ?v + 2 + length c) input) = crlf"
    by (simp add: crlf_def)
  moreover have "(length pre + length ?v + 2 + length c + 2) mod 2 ^ 64 = length pre + length ?v + 2 + length c + 2"
    and "(length pre + length ?v + 2 + length c) mod 2 ^ 64 = length pre + length ?v + 2 + length c"
    using len assms(3) by simp_all
  ultimately show ?thesis
    using chunkStep_size [OF i _ _ n, of body] assms(2) len show_hex_digits
    by (simp add: Let_def encode_chunk_def)
qed

lemma chunkStep_last:
  assumes "input = pre @ ''0'' @ crlf @ crlf @ extra"
  shows "chunkStep input (length pre, body) = Inr (ChunkReturn True body True)"
proof -
  have "hex_value ''0'' = 0" by (simp add: hex_value_def hex_digit_def is_digit_def digit_value_def char_simps)
  moreover have "\<forall>c \<in> set ''0''. is_hex c" by (simp add: is_hex_def is_digit_def)
  ultimately show ?thesis
    using chunkStep_size [of input pre "''0''" "crlf @ extra" body] assms
    by (simp add: chunkTrailers_def crlf_def Let_def)
qed

lemma chunkLoop_chunks:
  assumes "input = pre @ encode_chunks cs @ extra" and "[] \<notin> set cs" and "length input < 2 ^ 64"
  shows "chunkLoop input (Inl (length pre, body)) = Some (ChunkReturn True (body @ concat cs) True)"
  using assms
proof (induction cs arbitrary: pre body)
  case Nil
  then show ?case
    using chunkStep_last [of input pre extra body] by (simp add: chunkLoop_simps encode_chunks_def)
next
  case (Cons c cs)
  have i: "input = pre @ encode_chunk c @ encode_chunks cs @ extra"
    using Cons.prems(1) by (simp add: encode_chunks_def)
  have "chunkStep input (length pre, body) = Inl (length (pre @ encode_chunk c), body @ c)"
    using Cons.prems(2,3) by (intro chunkStep_chunk [OF i]) auto
  then show ?case
    using Cons.IH [of "pre @ encode_chunk c" "body @ c"] Cons.prems(2,3) i
    by (simp add: chunkLoop_simps(1) [of _ "(length pre, body)"])
qed

text \<open>What follows the last chunk is not looked at.\<close>

theorem parseChunked_encode:
  assumes "[] \<notin> set cs" and "length (encode_chunks cs @ extra) < 2 ^ 64"
  shows "parseChunked (encode_chunks cs @ extra) = Some (ChunkReturn True (concat cs) True)"
  using chunkLoop_chunks [of "encode_chunks cs @ extra" "[]" cs extra "[]"] assms by (simp add: parseChunked_def)

subsection \<open>A coding that has not arrived completely\<close>

text \<open>Before the end of a size line, and before the end of the chunk that it announces.\<close>

lemma chunkStep_no_line:
  assumes "find_text crlf v = None"
  shows "chunkStep (pre @ v) (length pre, body) = Inr (ChunkReturn True body False)"
  using assms by (simp add: chunkStep_def)

lemma find_text_take:
  assumes "find_text p s = Some e" and "k < e + length p"
  shows "find_text p (take k s) = None"
proof (cases "find_text p (take k s)")
  case (Some i)
  note i = find_text_SomeD [OF Some]
  then have le: "i + length p \<le> k" by simp
  have "starts_with p (take (k - i) (drop i s))" using i unfolding drop_take by simp
  then have "starts_with p (drop i s)"
    by (metis starts_with_append starts_withD append.assoc append_take_drop_id)
  moreover have "i < e" using le assms(2) by simp
  ultimately show ?thesis using find_text_first [OF assms(1)] by blast
qed simp

lemma no_crlf_before: "CR \<notin> set v \<Longrightarrow> k < length v + 2 \<Longrightarrow> find_text crlf (take k (v @ crlf @ s)) = None"
  by (rule find_text_take [OF find_text_crlf]) (simp_all add: crlf_def)

lemma chunkStep_part:
  assumes "c \<noteq> []" and "k < length (encode_chunk c)" and "length pre + length (encode_chunk c) < 2 ^ 64"
  shows "chunkStep (pre @ take k (encode_chunk c)) (length pre, body) = Inr (ChunkReturn True body False)"
proof -
  let ?v = "show_hex (length c)"
  have hex: "\<forall>x \<in> set ?v. is_hex x" using show_hex_digits by blast
  then have cr: "CR \<notin> set ?v" using is_hex_facts by blast
  show ?thesis
  proof (cases "k < length ?v + 2")
    case True
    then show ?thesis unfolding encode_chunk_def by (rule chunkStep_no_line [OF no_crlf_before [OF cr]])
  next
    case False
    let ?rest = "take (k - (length ?v + 2)) (c @ crlf)"
    have "take k (?v @ crlf) = ?v @ crlf" by (rule take_all) (use False in \<open>simp add: crlf_def\<close>)
    moreover have "length (?v @ crlf) = length ?v + 2" by (simp add: crlf_def)
    ultimately have t: "take k (encode_chunk c) = ?v @ crlf @ ?rest"
      using take_append [of k "?v @ crlf" "c @ crlf"] by (simp only: encode_chunk_def append.assoc)
    have "length ?rest < length c + 2" using assms(2) False by (simp add: encode_chunk_def crlf_def)
    moreover have "(length pre + length ?v + 2 + length c + 2) mod 2 ^ 64 = length pre + length ?v + 2 + length c + 2"
      using assms(3) by (simp add: encode_chunk_def crlf_def)
    moreover have "hex_value ?v < 2 ^ 64" using assms(3) by (simp add: encode_chunk_def)
    ultimately show ?thesis
      using chunkStep_size [of "pre @ ?v @ crlf @ ?rest" pre ?v ?rest body, OF refl hex] assms(1)
      by (simp add: t Let_def)
  qed
qed

lemma chunkLoop_last_part:
  assumes "k < length (''0'' @ crlf @ crlf)"
  shows "chunkStep (pre @ take k (''0'' @ crlf @ crlf)) (length pre, body) = Inr (ChunkReturn True body False)"
proof (cases "k < length ''0'' + 2")
  case True
  have "CR \<notin> set ''0''" by (simp add: char_simps)
  from chunkStep_no_line [OF no_crlf_before [OF this True]] show ?thesis .
next
  case False
  define w where "w = take (k - 3) crlf"
  have w: "w = [] \<or> w = [CR]" using assms False by (cases "k - 3"; cases "k - 4") (auto simp: w_def crlf_def)
  have t: "take k (''0'' @ crlf @ crlf) = ''0'' @ crlf @ w"
    using False by (simp add: w_def crlf_def take_Cons' eval_nat_numeral)
  have z: "hex_value ''0'' = 0" by (simp add: hex_value_def hex_digit_def is_digit_def digit_value_def char_simps)
  have h: "\<forall>c \<in> set ''0''. is_hex c" by (simp add: is_hex_def is_digit_def)
  have "chunkStep (pre @ ''0'' @ crlf @ w) (length pre, body)
      = Inr (chunkTrailers (pre @ ''0'' @ crlf @ w) (length pre + 1 + 2) body)"
    using chunkStep_size [of "pre @ ''0'' @ crlf @ w" pre "''0''" w body, OF refl h] z by (simp add: Let_def)
  moreover have "drop (length pre + 1 + 2) (pre @ ''0'' @ crlf @ w) = w" by (simp add: crlf_def)
  then have "chunkTrailers (pre @ ''0'' @ crlf @ w) (length pre + 1 + 2) body = ChunkReturn True body False"
    using w by (auto simp: chunkTrailers_def find_text_from_def crlf_def starts_with_def)
  ultimately have "chunkStep (pre @ ''0'' @ crlf @ w) (length pre, body) = Inr (ChunkReturn True body False)" by simp
  then show ?thesis unfolding t .
qed

lemma chunkLoop_part:
  assumes "[] \<notin> set cs" and "k < length (encode_chunks cs)" and "length pre + length (encode_chunks cs) < 2 ^ 64"
  shows "\<exists>b. chunkLoop (pre @ take k (encode_chunks cs)) (Inl (length pre, body)) = Some (ChunkReturn True (body @ b) False)
    \<and> length b \<le> length (concat cs)"
  using assms
proof (induction cs arbitrary: pre body k)
  case Nil
  then have "chunkStep (pre @ take k (encode_chunks [])) (length pre, body) = Inr (ChunkReturn True body False)"
    using chunkLoop_last_part [of k pre body] by (simp add: encode_chunks_def)
  then show ?case by (simp add: chunkLoop_simps)
next
  case (Cons c cs)
  have e: "encode_chunks (c # cs) = encode_chunk c @ encode_chunks cs" by (simp add: encode_chunks_def)
  show ?case
  proof (cases "k < length (encode_chunk c)")
    case True
    have "chunkStep (pre @ take k (encode_chunk c)) (length pre, body) = Inr (ChunkReturn True body False)"
      using Cons.prems True by (intro chunkStep_part) (auto simp: e)
    with True show ?thesis by (simp add: e chunkLoop_simps)
  next
    case False
    let ?j = "k - length (encode_chunk c)"
    have t: "pre @ take k (encode_chunks (c # cs)) = pre @ encode_chunk c @ take ?j (encode_chunks cs)"
      using False by (simp add: e)
    have "chunkStep (pre @ encode_chunk c @ take ?j (encode_chunks cs)) (length pre, body) =
        Inl (length (pre @ encode_chunk c), body @ c)"
      using Cons.prems by (intro chunkStep_chunk [OF refl]) (auto simp: e)
    moreover have "\<exists>b. chunkLoop ((pre @ encode_chunk c) @ take ?j (encode_chunks cs))
          (Inl (length (pre @ encode_chunk c), body @ c)) = Some (ChunkReturn True ((body @ c) @ b) False)
        \<and> length b \<le> length (concat cs)"
      by (rule Cons.IH) (use Cons.prems False in \<open>auto simp: e\<close>)
    then obtain b where "chunkLoop ((pre @ encode_chunk c) @ take ?j (encode_chunks cs))
          (Inl (length (pre @ encode_chunk c), body @ c)) = Some (ChunkReturn True ((body @ c) @ b) False)"
        "length b \<le> length (concat cs)" by blast
    ultimately have "chunkLoop (pre @ take k (encode_chunks (c # cs))) (Inl (length pre, body)) =
        Some (ChunkReturn True (body @ (c @ b)) False)"
      unfolding t by (simp add: chunkLoop_simps(1) [of _ "(length pre, body)"])
    with \<open>length b \<le> length (concat cs)\<close> show ?thesis by (intro exI [of _ "c @ b"]) simp
  qed
qed

lemma parseChunked_part:
  assumes "[] \<notin> set cs" and "k < length (encode_chunks cs)" and "length (encode_chunks cs) < 2 ^ 64"
  shows "\<exists>b. parseChunked (take k (encode_chunks cs)) = Some (ChunkReturn True b False) \<and> length b \<le> length (concat cs)"
  using chunkLoop_part [of cs k "[]" "[]"] assms by (simp add: parseChunked_def)

subsection \<open>Sizes that wrap the position around\<close>

text \<open>
  \<open>2 ^ 64 - 20\<close> as a size line. At the start of a body the position after the chunk is no
  position of the text; after a chunk it is the end of that chunk, so the same line is read
  again and again.
\<close>

definition wrapping_size :: string where
  "wrapping_size = ''FFFFFFFFFFFFFFEC''"

lemma wrapping_size_facts:
  "\<forall>c \<in> set wrapping_size. is_hex c" "wrapping_size \<noteq> []" "length wrapping_size = 16"
  "hex_value wrapping_size = 2 ^ 64 - 20"
  by (simp_all add: wrapping_size_def is_hex_def is_digit_def hex_value_def hex_digit_def char_simps)

lemma parseChunked_throws:
  assumes "length rest < 2 ^ 63"
  shows "parseChunked (wrapping_size @ crlf @ rest) = Some ChunkThrow"
proof -
  let ?i = "wrapping_size @ crlf @ rest"
  have l: "length ?i = 18 + length rest" by (simp add: wrapping_size_facts)
  have "chunkStep ?i (length ([] :: string), []) = Inr ChunkThrow"
    using assms l chunkStep_size [of ?i "[]" wrapping_size rest "[]", OF _ wrapping_size_facts(1,2)]
    by (simp add: wrapping_size_facts(3,4) Let_def)
  then show ?thesis by (simp add: parseChunked_def chunkLoop_simps)
qed

lemma chunkLoop_repeats:
  assumes "\<And>body. \<exists>body'. chunkStep input (pos, body) = Inl (pos, body')"
  shows "chunkLoop input (Inl (pos, body)) = None"
proof -
  define f where "f = (\<lambda>st :: (nat \<times> string) + chunk_outcome. chunkStep input (projl st))"
  define P where "P st \<longleftrightarrow> (\<exists>b. st = Inl (pos, b))" for st :: "(nat \<times> string) + chunk_outcome"
  have step: "P (f st)" if "P st" for st
    using that assms by (auto simp: P_def f_def)
  have p: "P ((f ^^ k) (Inl (pos, body)))" for k
    by (induction k) (simp add: P_def, simp add: step)
  have "isl st" if "P st" for st using that by (auto simp: P_def)
  with p have "isl ((f ^^ k) (Inl (pos, body)))" for k by blast
  then show ?thesis by (simp add: chunkLoop_def while_option_def f_def)
qed

lemma parseChunked_endless:
  assumes "c \<noteq> []" and "length (encode_chunk c) + length rest < 2 ^ 63"
  shows "parseChunked (encode_chunk c @ wrapping_size @ crlf @ rest) = None"
proof -
  let ?e = "encode_chunk c"
  let ?i = "?e @ wrapping_size @ crlf @ rest"
  let ?p = "length ?e"
  have l: "length ?i = ?p + 18 + length rest" by (simp add: wrapping_size_facts)
  have e: "2 \<le> ?p" by (simp add: encode_chunk_def)
  have "take 2 (drop (?p - 2) ?i) = crlf"
    by (simp add: encode_chunk_def crlf_def)
  moreover have "(?p + 16 + 2 + (2 ^ 64 - 20) + 2) mod 2 ^ 64 = ?p"
    and "(?p + 16 + 2 + (2 ^ 64 - 20)) mod 2 ^ 64 = ?p - 2"
  proof -
    have "?p + 16 + 2 + (2 ^ 64 - 20) + 2 = ?p + 2 ^ 64" by simp
    then show "(?p + 16 + 2 + (2 ^ 64 - 20) + 2) mod 2 ^ 64 = ?p" using assms(2) by simp
    have p: "?p + 16 + 2 + (2 ^ 64 - 20) = (?p - 2) + 2 ^ 64" using e by simp
    have "?p - 2 < 2 ^ 64" using assms(2) by simp
    then show "(?p + 16 + 2 + (2 ^ 64 - 20)) mod 2 ^ 64 = ?p - 2" unfolding p by (simp add: mod_less del: power_numeral)
  qed
  ultimately have "\<exists>body'. chunkStep ?i (?p, body) = Inl (?p, body')" for body
    using chunkStep_size [of ?i ?e wrapping_size rest body, OF _ wrapping_size_facts(1,2)] l e
    unfolding wrapping_size_facts(3,4) Let_def by simp arith
  then have "chunkLoop ?i (Inl (?p, c)) = None" by (rule chunkLoop_repeats)
  moreover have "chunkStep ?i (length ([] :: string), []) = Inl (length ([] @ ?e), [] @ c)"
    using assms l by (intro chunkStep_chunk) simp_all
  ultimately show ?thesis by (simp add: parseChunked_def chunkLoop_simps(1) [of _ "(0, [])"])
qed

subsection \<open>The loop ends when no size wraps\<close>

text \<open>
  Every number in front of a line end, from any position, is small: what a body without
  absurd sizes satisfies. Each round then moves the position forward.
\<close>

definition tame_sizes :: "string \<Rightarrow> bool" where
  "tame_sizes input \<longleftrightarrow>
     (\<forall>pos end n extra. find_text_from crlf pos input = Some end \<longrightarrow>
        read_hex 64 (trim (takeWhile (\<lambda>c. c \<noteq> CHR '';'') (take (end - pos) (drop pos input)))) = Some (n, extra) \<longrightarrow>
        n < 2 ^ 63)"

lemma chunkStep_forward:
  assumes "tame_sizes input" and "length input < 2 ^ 62" and "chunkStep input (pos, body) = Inl (pos', body')"
  shows "pos < pos'" and "pos' \<le> length input"
proof -
  obtain endp n extra where f: "find_text_from crlf pos input = Some endp"
    and r: "read_hex 64 (trim (takeWhile (\<lambda>c. c \<noteq> CHR '';'') (take (endp - pos) (drop pos input)))) = Some (n, extra)"
    and le: "\<not> length input < (endp + 2 + n + 2) mod 2 ^ 64" and p: "pos' = (endp + 2 + n) mod 2 ^ 64 + 2"
    using assms(3) by (auto simp: chunkStep_def Let_def split: option.splits prod.splits if_splits)
  have n: "n < 2 ^ 63" using assms(1) f r unfolding tame_sizes_def by blast
  note e = find_text_from_SomeD [OF f]
  have "endp + 2 + n + 2 < 2 ^ 64" using e(3) n assms(2) by simp
  then have m: "(endp + 2 + n + 2) mod 2 ^ 64 = endp + 2 + n + 2" "(endp + 2 + n) mod 2 ^ 64 = endp + 2 + n"
    by simp_all
  from e(1) p m(2) show "pos < pos'" by simp
  from le p m show "pos' \<le> length input" by simp
qed

lemma chunkStep_no_throw:
  assumes "tame_sizes input" and "length input < 2 ^ 62"
  shows "chunkStep input (pos, body) \<noteq> Inr ChunkThrow"
proof
  assume a: "chunkStep input (pos, body) = Inr ChunkThrow"
  obtain endp n extra where f: "find_text_from crlf pos input = Some endp"
    and r: "read_hex 64 (trim (takeWhile (\<lambda>c. c \<noteq> CHR '';'') (take (endp - pos) (drop pos input)))) = Some (n, extra)"
    and le: "\<not> length input < (endp + 2 + n + 2) mod 2 ^ 64" "length input < (endp + 2 + n) mod 2 ^ 64"
    using a by (auto simp: chunkStep_def chunkTrailers_def Let_def split: option.splits prod.splits if_splits)
  have n: "n < 2 ^ 63" using assms(1) f r unfolding tame_sizes_def by blast
  have "endp + 2 + n + 2 < 2 ^ 64" using find_text_from_SomeD(3) [OF f] n assms(2) by simp
  then have "(endp + 2 + n + 2) mod 2 ^ 64 = endp + 2 + n + 2" "(endp + 2 + n) mod 2 ^ 64 = endp + 2 + n"
    by simp_all
  with le show False by simp
qed

lemma chunkLoop_returns:
  assumes "tame_sizes input" and "length input < 2 ^ 62"
  shows "\<exists>ok b complete. chunkLoop input (Inl (pos, body)) = Some (ChunkReturn ok b complete)"
proof (induction "length input - pos" arbitrary: pos body rule: less_induct)
  case less
  show ?case
  proof (cases "chunkStep input (pos, body)")
    case (Inl st)
    then obtain pos' body' where s: "chunkStep input (pos, body) = Inl (pos', body')" by (cases st) auto
    with chunkStep_forward [OF assms s] have "length input - pos' < length input - pos" by simp
    from less [OF this, of body'] s show ?thesis by (simp add: chunkLoop_simps)
  next
    case (Inr r)
    with chunkStep_no_throw [OF assms, of pos body] show ?thesis by (cases r) (simp_all add: chunkLoop_simps)
  qed
qed

end
