(* ===== verification/Web_Request.thy ===== *)
theory Web_Request
  imports Web_Path Web_Chunked
begin

section \<open>webserv: a request as a client writes it\<close>

text \<open>
  The text of a well-formed request and its way through \<open>parseRequest\<close>: the request line, the
  headers and the body come back, without a body and in both codings of one, and as long as a
  part of the text has not arrived the request is incomplete. The names of the headers may be
  written with capitals; the parser keeps them in lower case (\<open>lowered\<close>).
\<close>

subsection \<open>Lines ended by CRLF\<close>

definition crlf_lines :: "string list \<Rightarrow> string" where
  "crlf_lines ls = concat (map (\<lambda>l. l @ crlf) ls)"

lemma crlf_lines_simps [simp]:
  "crlf_lines [] = []"
  "crlf_lines (l # ls) = l @ crlf @ crlf_lines ls"
  by (simp_all add: crlf_lines_def)

definition header_text :: "string \<Rightarrow> bool" where
  "header_text l \<longleftrightarrow> l \<noteq> [] \<and> CR \<notin> set l \<and> LF \<notin> set l"

lemma find_text_skip:
  "c \<notin> set l \<Longrightarrow> find_text (c # p) (l @ s) = map_option (\<lambda>i. length l + i) (find_text (c # p) s)"
proof (induction l)
  case Nil
  then show ?case by (cases "find_text (c # p) s") simp_all
next
  case (Cons a l)
  then show ?case by (cases "find_text (c # p) s") (auto simp: starts_with_def)
qed

lemma find_blank_line:
  assumes "\<forall>l \<in> set ls. header_text l"
  shows "find_text (crlf @ crlf) (crlf @ crlf_lines ls @ crlf @ payload) = Some (length (crlf_lines ls))"
  using assms
proof (induction ls)
  case Nil
  then show ?case by (simp add: crlf_def starts_with_def)
next
  case (Cons l ls)
  then have l: "l \<noteq> []" "CR \<notin> set l" "LF \<notin> set l" by (auto simp: header_text_def)
  then obtain a as where "l = a # as" "a \<noteq> CR" by (cases l) auto
  moreover have "find_text (crlf @ crlf) (l @ crlf @ crlf_lines ls @ crlf @ payload)
      = Some (length l + length (crlf_lines ls))"
    using find_text_skip [OF l(2), of "LF # crlf" "crlf @ crlf_lines ls @ crlf @ payload"] Cons
    by (simp add: crlf_def)
  ultimately show ?case by (simp add: crlf_def starts_with_def)
qed

lemma find_head_end:
  assumes "header_text l" and "\<forall>l \<in> set ls. header_text l"
  shows "find_text (crlf @ crlf) (crlf_lines (l # ls) @ crlf @ payload) = Some (length l + length (crlf_lines ls))"
  using find_text_skip [of CR l "LF # crlf" "crlf @ crlf_lines ls @ crlf @ payload"] find_blank_line [OF assms(2)] assms(1)
  by (simp add: crlf_def header_text_def)

text \<open>The head without its last CRLF is cut into the lines, all but the last with their CR.\<close>

lemma getlines_head:
  assumes "header_text l" and "\<forall>l \<in> set ls. header_text l"
  shows "map chomp_cr (getlines (take (length l + length (crlf_lines ls)) (crlf_lines (l # ls) @ rest))) = l # ls"
  using assms
proof (induction ls arbitrary: l)
  case Nil
  moreover from this have "last l \<noteq> CR" by (metis header_text_def last_in_set)
  ultimately show ?case by (simp add: getlines_last chomp_cr_def header_text_def)
next
  case (Cons m ls)
  have l: "LF \<notin> set (l @ [CR])" using Cons.prems(1) by (simp add: header_text_def)
  have "take (length l + length (crlf_lines (m # ls))) (crlf_lines (l # m # ls) @ rest)
      = (l @ [CR]) @ LF # take (length m + length (crlf_lines ls)) (crlf_lines (m # ls) @ rest)"
    by (simp add: crlf_def)
  then have "getlines (take (length l + length (crlf_lines (m # ls))) (crlf_lines (l # m # ls) @ rest))
      = (l @ [CR]) # getlines (take (length m + length (crlf_lines ls)) (crlf_lines (m # ls) @ rest))"
    by (simp only: getlines_line [OF l])
  with Cons.IH [of m] Cons.prems show ?case by (simp add: chomp_cr_def)
qed

subsection \<open>Headers\<close>

definition valid_header :: "string \<times> string \<Rightarrow> bool" where
  "valid_header h \<longleftrightarrow> validToken (fst h) \<and> trim (snd h) = snd h \<and> CR \<notin> set (snd h) \<and> LF \<notin> set (snd h)"

definition header_field :: "string \<times> string \<Rightarrow> string" where
  "header_field h = fst h @ '': '' @ snd h"

definition lowered :: "(string \<times> string) list \<Rightarrow> (string \<times> string) list" where
  "lowered headers = map (\<lambda>h. (lower (fst h), snd h)) headers"

lemma lowered_simps [simp]: "lowered [] = []" "lowered (h # hs) = (lower (fst h), snd h) # lowered hs"
  by (simp_all add: lowered_def)

lemma lower_tokenCharacter:
  assumes "tokenCharacter c"
  shows "tokenCharacter (lower_char c)"
proof (cases "CHR ''A'' \<le> c \<and> c \<le> CHR ''Z''")
  case True
  then have n: "65 \<le> (of_char c :: nat)" "(of_char c :: nat) \<le> 90" by (simp_all add: char_simps)
  then have "of_char (char_of (of_char c + (32::nat))) = (of_char c + 32 :: nat)"
    by (simp add: of_char_of)
  with n True show ?thesis by (simp add: tokenCharacter_def lower_char_def char_simps)
qed (use assms in \<open>auto simp: lower_char_def\<close>)

lemma lower_validToken: "validToken v \<Longrightarrow> validToken (lower v)"
  using lower_tokenCharacter by (auto simp: validToken_def lower_def list_all_iff)

lemma tokenCharacter_facts: "tokenCharacter c \<Longrightarrow> c \<noteq> CHR '':'' \<and> \<not> is_space c \<and> c \<notin> {SP, TAB, CR, LF}"
  by (auto simp: tokenCharacter_def is_space_def apostrophe_def char_simps)

lemma trim_spaceless:
  assumes "\<forall>c \<in> set v. c \<notin> {SP, TAB, CR, LF}"
  shows "trim v = v"
proof -
  have "dropWhile (\<lambda>c. c \<in> {SP, TAB, CR, LF}) w = w" if "set w \<subseteq> set v" for w
    using that assms by (cases w) auto
  from this [of v] this [of "rev v"] show ?thesis by (simp add: trim_def Let_def)
qed

lemma validToken_trim: "validToken v \<Longrightarrow> trim v = v"
  using tokenCharacter_facts by (intro trim_spaceless) (auto simp: validToken_def list_all_iff)

lemma trim_space: "trim (SP # v) = trim v"
  by (simp add: trim_def)

lemma header_text_field: "valid_header h \<Longrightarrow> header_text (header_field h)"
  using tokenCharacter_facts
  by (fastforce simp: valid_header_def header_field_def header_text_def validToken_def list_all_iff)

lemma parseHeaders_fields:
  assumes "map chomp_cr lines = map header_field hs" and "\<forall>h \<in> set hs. valid_header h"
    and "distinct (map fst (lowered hs))" and "\<forall>h \<in> set (lowered hs). map_of m (fst h) = None" and "ordered_map m"
  shows "parseHeaders lines m = Some (fold (\<lambda>(k, v). map_set k v) (lowered hs) m)"
  using assms
proof (induction hs arbitrary: lines m)
  case (Cons h hs)
  obtain k v where h: "h = (k, v)" by (cases h)
  obtain line0 ls where lines: "lines = line0 # ls" and c: "chomp_cr line0 = k @ '': '' @ v"
    and cs: "map chomp_cr ls = map header_field hs"
    using Cons.prems(1) by (cases lines) (auto simp: h header_field_def)
  have k: "validToken k" and v: "trim v = v" using Cons.prems(2) by (auto simp: h valid_header_def)
  have nc: "CHR '':'' \<notin> set k" using k tokenCharacter_facts by (auto simp: validToken_def list_all_iff)
  have "\<forall>x \<in> set (lowered hs). fst x \<noteq> lower k" using Cons.prems(3) by (auto simp: h rev_image_eqI)
  then have "parseHeaders ls (map_set (lower k) v m) = Some (fold (\<lambda>(k, v). map_set k v) (lowered hs) (map_set (lower k) v m))"
    using Cons.prems h by (intro Cons.IH [OF cs]) auto
  then show ?case
    using Cons.prems(4) nc lower_validToken [OF k] validToken_trim [OF k] v c
    by (simp add: lines h Let_def find_char_append [of _ _ "SP # v"] trim_space)
qed simp

lemma fold_map_set:
  assumes "ordered_map m"
  shows "map_of (fold (\<lambda>(k, v). map_set k v) hs m) = map_of m ++ map_of (rev hs)"
    and "ordered_map (fold (\<lambda>(k, v). map_set k v) hs m)"
  using assms by (induction hs arbitrary: m) (auto simp: map_add_def fun_eq_iff split: option.split)

subsection \<open>The request line\<close>

lemma next_word_word:
  assumes "w \<noteq> []" and "\<forall>c \<in> set w. \<not> is_space c"
  shows "next_word (w @ SP # rest) = Some (w, SP # rest)" and "next_word w = Some (w, [])"
    and "next_word (SP # s) = next_word s"
proof -
  obtain a as where w: "w = a # as" using assms(1) by (cases w) auto
  have sp: "is_space SP" by (simp add: is_space_def)
  have "takeWhile (\<lambda>c. \<not> is_space c) w = w" "dropWhile (\<lambda>c. \<not> is_space c) w = []"
    using assms(2) by (auto simp: takeWhile_eq_all_conv dropWhile_eq_Nil_conv)
  moreover have "takeWhile (\<lambda>c. \<not> is_space c) (w @ SP # rest) = w"
    "dropWhile (\<lambda>c. \<not> is_space c) (w @ SP # rest) = SP # rest"
    using assms(2) sp by (simp_all add: takeWhile_append2 dropWhile_append2)
  ultimately show "next_word (w @ SP # rest) = Some (w, SP # rest)" and "next_word w = Some (w, [])"
    using assms w by (simp_all add: next_word_def Let_def)
  show "next_word (SP # s) = next_word s" by (simp add: next_word_def sp)
qed

definition request_line :: "string \<Rightarrow> string \<Rightarrow> string" where
  "request_line verb target = verb @ '' '' @ target @ '' HTTP/1.1''"

lemma version_word: "\<forall>c \<in> set ''HTTP/1.1''. \<not> is_space c"
  by (simp add: is_space_def)

lemma parseRequestLine_line:
  assumes "validToken verb" and "target \<noteq> []" and "\<forall>c \<in> set target. \<not> is_space c"
  shows "parseRequestLine (request_line verb target) = Some (verb, target, ''HTTP/1.1'')"
proof -
  have m: "verb \<noteq> []" "\<forall>c \<in> set verb. \<not> is_space c"
    using assms(1) tokenCharacter_facts by (auto simp: validToken_def list_all_iff)
  have "next_word (request_line verb target) = Some (verb, SP # target @ SP # ''HTTP/1.1'')"
    using next_word_word(1) [OF m, of "target @ SP # ''HTTP/1.1''"] by (simp add: request_line_def)
  moreover have "next_word (SP # target @ SP # ''HTTP/1.1'') = Some (target, SP # ''HTTP/1.1'')"
    using next_word_word(1,3) [OF assms(2,3)] by simp
  moreover have "next_word (SP # ''HTTP/1.1'') = Some (''HTTP/1.1'', [])"
    using next_word_word(2,3) [OF _ version_word] by simp
  ultimately show ?thesis by (simp add: parseRequestLine_def next_word_def [of "[]"])
qed

lemma header_text_request_line:
  assumes "validToken verb" and "\<forall>c \<in> set target. \<not> is_space c"
  shows "header_text (request_line verb target)"
  using assms tokenCharacter_facts
  by (fastforce simp: header_text_def request_line_def validToken_def list_all_iff is_space_def)

subsection \<open>The whole request\<close>

definition render_request :: "string \<Rightarrow> string \<Rightarrow> (string \<times> string) list \<Rightarrow> string \<Rightarrow> string" where
  "render_request verb target headers payload =
     crlf_lines (request_line verb target # map header_field headers) @ crlf @ payload"

definition valid_head :: "string \<Rightarrow> string \<Rightarrow> (string \<times> string) list \<Rightarrow> bool" where
  "valid_head verb target headers \<longleftrightarrow>
     validToken verb \<and> target \<noteq> [] \<and> hd target = CHR ''/'' \<and> (\<forall>c \<in> set target. \<not> is_space c)
     \<and> (\<forall>h \<in> set headers. valid_header h) \<and> distinct (map fst (lowered headers))
     \<and> map_of (lowered headers) ''host'' \<noteq> None"

definition parsed_head :: "string \<Rightarrow> string \<Rightarrow> string \<Rightarrow> (string \<times> string) list \<Rightarrow> request" where
  "parsed_head verb target path headers =
     new_request\<lparr>rq_method := verb, rq_target := target, rq_path := path,
       rq_query := drop 1 (dropWhile (\<lambda>c. c \<noteq> CHR ''?'') target), rq_version := ''HTTP/1.1'',
       rq_headers := fold (\<lambda>(k, v). map_set k v) (lowered headers) []\<rparr>"

lemma parsed_headers:
  assumes "distinct (map fst (lowered headers))"
  shows "map_of (rq_headers (parsed_head verb target path headers)) = map_of (lowered headers)"
proof -
  have "map_of (rev (lowered headers)) = map_of (lowered headers)"
    by (rule map_of_inject_set [THEN iffD2]) (use assms in \<open>simp_all add: rev_map [symmetric]\<close>)
  then show ?thesis by (simp add: parsed_head_def fold_map_set(1))
qed

lemma parseRequest_render:
  assumes "valid_head verb target headers"
    and "decodePath (takeWhile (\<lambda>c. c \<noteq> CHR ''?'') target) = Some path"
  shows "parseRequest (render_request verb target headers payload) maxBody
    = parseBody payload maxBody (parsed_head verb target path headers)"
proof -
  let ?l = "request_line verb target"
  let ?fs = "map header_field headers"
  let ?e = "length ?l + length (crlf_lines ?fs)"
  let ?raw = "render_request verb target headers payload"
  note v = assms(1) [unfolded valid_head_def]
  have l: "header_text ?l" and fs: "\<forall>l \<in> set ?fs. header_text l"
    using v header_text_request_line header_text_field by auto
  have e: "find_text (crlf @ crlf) ?raw = Some ?e"
    using find_head_end [OF l fs, of payload] by (simp add: render_request_def)
  have "map chomp_cr (getlines (take ?e ?raw)) = ?l # ?fs"
    using getlines_head [OF l fs, of "crlf @ payload"] by (simp add: render_request_def)
  then obtain l0 ls where g: "getlines (take ?e ?raw) = l0 # ls" and l0: "chomp_cr l0 = ?l"
    and ls: "map chomp_cr ls = map header_field headers" by auto
  have h: "parseHeaders ls [] = Some (fold (\<lambda>(k, v). map_set k v) (lowered headers) [])"
    using v by (intro parseHeaders_fields [OF ls]) auto
  have "map_of (fold (\<lambda>(k, v). map_set k v) (lowered headers) []) = map_of (lowered headers)"
    using parsed_headers [of headers verb target path] v by (simp add: parsed_head_def)
  moreover obtain host where "map_of (lowered headers) ''host'' = Some host"
    using v by blast
  moreover have "parseRequestLine ?l = Some (verb, target, ''HTTP/1.1'')"
    using v by (intro parseRequestLine_line) auto
  moreover have "drop (?e + 4) ?raw = payload"
  proof -
    let ?h = "crlf_lines (?l # ?fs) @ crlf"
    have "?raw = ?h @ payload" and "length ?h = ?e + 4" by (simp_all add: render_request_def)
    then show ?thesis by (metis append_eq_conv_conj)
  qed
  ultimately show ?thesis
    using v e g l0 h assms(2) by (simp add: parseRequest_def parsed_head_def)
qed

lemma strtoul10_show_nat: "n < 2 ^ 64 \<Longrightarrow> strtoul10 (show_nat n) = (False, n, [])"
proof -
  assume n: "n < 2 ^ 64"
  let ?v = "show_nat n"
  have d: "\<forall>c \<in> set ?v. is_digit c" by (simp add: show_nat_digits)
  have nz: "\<forall>c \<in> set ?v. c \<noteq> NUL \<and> \<not> is_space c \<and> c \<noteq> CHR ''-'' \<and> c \<noteq> CHR ''+''"
    using d by (auto simp: is_digit_def is_space_def char_simps)
  obtain a as where v: "?v = a # as" using show_nat_not_Nil by (cases ?v) auto
  have t: "takeWhile (\<lambda>x. x \<noteq> NUL) ?v = ?v" using nz by (auto simp: takeWhile_eq_all_conv)
  have s: "dropWhile is_space ?v = ?v" using nz v by auto
  have td: "takeWhile is_digit ?v = ?v" "dropWhile is_digit ?v = []"
    using d by (auto simp: takeWhile_eq_all_conv dropWhile_eq_Nil_conv)
  have h: "hd ?v \<noteq> CHR ''-''" "hd ?v \<noteq> CHR ''+''" using nz v by auto
  show ?thesis unfolding strtoul10_def Let_def t s using h n by (simp add: td)
qed

lemma show_nat_sign: "hd (show_nat n) \<noteq> CHR ''-'' \<and> hd (show_nat n) \<noteq> CHR ''+''"
  using show_nat_digits [OF hd_in_set [OF show_nat_not_Nil], of n] by (auto simp: is_digit_def)

subsection \<open>The three ways to send a body\<close>

text \<open>
  \<open>coded verb headers body payload\<close>: with these headers, \<open>payload\<close> is how \<open>body\<close> is sent.
\<close>

inductive coded :: "string \<Rightarrow> (string \<times> string) list \<Rightarrow> string \<Rightarrow> string \<Rightarrow> bool" for verb headers where
  coded_none: "map_of (lowered headers) ''transfer-encoding'' = None \<Longrightarrow>
    map_of (lowered headers) ''content-length'' = None \<Longrightarrow> verb \<noteq> ''POST'' \<Longrightarrow> coded verb headers [] []"
| coded_length: "map_of (lowered headers) ''transfer-encoding'' = None \<Longrightarrow>
    map_of (lowered headers) ''content-length'' = Some (show_nat (length body)) \<Longrightarrow> coded verb headers body body"
| coded_chunks: "map_option lower (map_of (lowered headers) ''transfer-encoding'') = Some ''chunked'' \<Longrightarrow>
    map_of (lowered headers) ''content-length'' = None \<Longrightarrow> [] \<notin> set cs \<Longrightarrow>
    coded verb headers (concat cs) (encode_chunks cs)"

lemma chunked_coding: "lower coding = ''chunked'' \<Longrightarrow> lower (trim coding) = ''chunked''"
proof -
  assume l: "lower coding = ''chunked''"
  have "c \<notin> {SP, TAB, CR, LF}" if "c \<in> set coding" for c
  proof
    assume c: "c \<in> {SP, TAB, CR, LF}"
    then have "lower_char c = c" by (auto simp: lower_char_def char_simps)
    moreover have "lower_char c \<in> set (lower coding)" using that by (simp add: lower_def)
    ultimately show False using l c by (auto simp: char_simps)
  qed
  then have "trim coding = coding" by (intro trim_spaceless) blast
  with l show ?thesis by simp
qed

lemma parseBody_coded:
  assumes "distinct (map fst (lowered headers))" and "coded verb headers body payload"
    and "length body \<le> maxBody" and "length (payload @ extra) < 2 ^ 64"
  shows "parseBody (payload @ extra) maxBody (parsed_head verb target path headers) =
    Some (REQUEST_OK ((parsed_head verb target path headers)\<lparr>rq_body := body\<rparr>))"
  using assms(2)
proof cases
  case coded_none
  then show ?thesis using parsed_headers [OF assms(1)] by (simp add: parseBody_def parsed_head_def)
next
  case coded_length
  then show ?thesis
    using assms(3,4) parsed_headers [OF assms(1), of verb target path] show_nat_sign [of "length body"]
    by (simp add: parseBody_def strtoul10_show_nat)
next
  case (coded_chunks cs)
  then obtain coding where c: "map_of (lowered headers) ''transfer-encoding'' = Some coding" "lower coding = ''chunked''"
    by auto
  have "parseChunked (payload @ extra) = Some (ChunkReturn True body True)"
    using parseChunked_encode [of cs extra] coded_chunks assms(4) by simp
  with c chunked_coding [OF c(2)] coded_chunks(4) assms(3) show ?thesis
    using parsed_headers [OF assms(1), of verb target path] by (simp add: parseBody_def)
qed

lemma parseBody_part:
  assumes "distinct (map fst (lowered headers))" and "coded verb headers body payload" and "k < length payload"
    and "length body \<le> maxBody" and "length payload < 2 ^ 64"
  shows "parseBody (take k payload) maxBody (parsed_head verb target path headers) = Some REQUEST_INCOMPLETE"
  using assms(2)
proof cases
  case coded_length
  then show ?thesis
    using assms(3-5) parsed_headers [OF assms(1), of verb target path] show_nat_sign [of "length body"]
    by (simp add: parseBody_def strtoul10_show_nat)
next
  case (coded_chunks cs)
  then obtain coding where c: "map_of (lowered headers) ''transfer-encoding'' = Some coding" "lower coding = ''chunked''"
    by auto
  obtain b where "parseChunked (take k payload) = Some (ChunkReturn True b False)" "length b \<le> length body"
    using parseChunked_part [of cs k] coded_chunks assms(3,5) by auto
  with c chunked_coding [OF c(2)] coded_chunks(4) assms(4) show ?thesis
    using parsed_headers [OF assms(1), of verb target path] by (simp add: parseBody_def)
qed (use assms(3) in simp)

subsection \<open>The text as it arrives\<close>

text \<open>A head that has not arrived completely, and one that has.\<close>

lemma parseRequest_part:
  assumes head: "valid_head verb target headers" and path: "decodePath (takeWhile (\<lambda>c. c \<noteq> CHR ''?'') target) = Some path"
    and size: "length (render_request verb target headers []) \<le> 65536"
  shows "parseRequest (take k (render_request verb target headers payload)) maxBody =
    (if k < length (render_request verb target headers []) then Some REQUEST_INCOMPLETE
     else parseBody (take (k - length (render_request verb target headers [])) payload) maxBody
       (parsed_head verb target path headers))"
proof -
  let ?h = "length (render_request verb target headers [])"
  let ?raw = "render_request verb target headers payload"
  have raw: "render_request verb target headers x = render_request verb target headers [] @ x" for x
    by (simp add: render_request_def)
  show ?thesis
  proof (cases "k < ?h")
    case True
    let ?l = "request_line verb target" and ?fs = "map header_field headers"
    have l: "header_text ?l" and fs: "\<forall>l \<in> set ?fs. header_text l"
      using head header_text_request_line header_text_field by (auto simp: valid_head_def)
    have e: "find_text (crlf @ crlf) ?raw = Some (length ?l + length (crlf_lines ?fs))"
      using find_head_end [OF l fs, of payload] by (simp add: render_request_def)
    have "?h = length ?l + length (crlf_lines ?fs) + length (crlf @ crlf)"
      by (simp add: render_request_def crlf_def)
    then have "find_text (crlf @ crlf) (take k ?raw) = None" using find_text_take [OF e] True by simp
    moreover have "length (take k ?raw) \<le> 65536" using True size by simp
    ultimately show ?thesis using True by (simp add: parseRequest_def del: length_take)
  next
    case False
    then have "take k ?raw = render_request verb target headers (take (k - ?h) payload)"
      using raw [of payload] raw [of "take (k - ?h) payload"] by simp
    with False parseRequest_render [OF head path, of "take (k - ?h) payload" maxBody] show ?thesis by simp
  qed
qed

end
