(* ===== verification/Web_Response.thy ===== *)
theory Web_Response
  imports Web_Request Web_Cgi
begin

section \<open>webserv: what a response looks like to its reader\<close>

text \<open>
  A reader finds the end of the head at the first empty line and the length of the body in the
  header \<open>Content-Length\<close>, unless there is a \<open>Transfer-Encoding\<close>, which has precedence over it
  (RFC 9112, 6.3). A response is delimited when the head starts with a status line, every other
  line has a colon, no header carries a line feed and the only \<open>Content-Length\<close> gives back the
  body that was meant; it is well framed when moreover no line is a \<open>Transfer-Encoding\<close>. Every
  response of the dispatcher and of the error pages is well framed. Those of the scripts are
  delimited: \<open>CgiHandler::makeResponse\<close> takes over the \<open>Transfer-Encoding\<close> of a script.
\<close>

subsection \<open>The first empty line\<close>

definition field_line :: "string \<Rightarrow> bool" where
  "field_line l \<longleftrightarrow> l \<noteq> [] \<and> LF \<notin> set l"

lemma find_crlf_skip:
  "LF \<notin> set l \<Longrightarrow> find_text (CR # LF # p) (l @ CR # s) = map_option (\<lambda>i. length l + i) (find_text (CR # LF # p) (CR # s))"
proof (induction l)
  case (Cons a l)
  then have "\<not> starts_with (CR # LF # p) (a # l @ CR # s)"
    by (cases l) (auto simp: starts_with_def)
  moreover have "find_text (CR # LF # p) ((a # l) @ CR # s) =
      (if starts_with (CR # LF # p) (a # l @ CR # s) then Some 0
       else map_option Suc (find_text (CR # LF # p) (l @ CR # s)))"
    by (simp only: append_Cons find_text.simps)
  ultimately show ?case
    using Cons by (cases "find_text (CR # LF # p) (CR # s)") auto
next
  case Nil
  then show ?case by (cases "find_text (CR # LF # p) (CR # s)") simp_all
qed

lemma find_empty_line:
  assumes "\<forall>l \<in> set ls. field_line l"
  shows "find_text (crlf @ crlf) (crlf @ crlf_lines ls @ crlf @ payload) = Some (length (crlf_lines ls))"
  using assms
proof (induction ls)
  case Nil
  then show ?case by (simp add: crlf_def starts_with_def)
next
  case (Cons l ls)
  then have l: "l \<noteq> []" "LF \<notin> set l" by (auto simp: field_line_def)
  have "find_text (crlf @ crlf) (l @ crlf @ crlf_lines ls @ crlf @ payload)
      = Some (length l + length (crlf_lines ls))"
    using find_crlf_skip [OF l(2), of crlf "LF # crlf_lines ls @ crlf @ payload"] Cons
    by (simp add: crlf_def)
  moreover have "\<not> starts_with (crlf @ crlf) (crlf @ l @ crlf @ crlf_lines ls @ crlf @ payload)"
    using l by (cases l; cases "tl l") (auto simp: crlf_def starts_with_def)
  ultimately show ?case by (simp add: crlf_def starts_with_def)
qed

lemma find_head:
  assumes "field_line l" and "\<forall>l \<in> set ls. field_line l"
  shows "find_text (crlf @ crlf) (crlf_lines (l # ls) @ crlf @ payload) = Some (length l + length (crlf_lines ls))"
  using find_crlf_skip [of l crlf "LF # crlf_lines ls @ crlf @ payload"] find_empty_line [OF assms(2)] assms(1)
  by (simp add: crlf_def field_line_def)

subsection \<open>Well framed messages\<close>

definition field_name :: "string \<Rightarrow> string" where
  "field_name l = lower (takeWhile (\<lambda>c. c \<noteq> CHR '':'') l)"

text \<open>The lines of the head and the body, as a reader finds them.\<close>

definition delimited :: "string \<Rightarrow> string list \<Rightarrow> string \<Rightarrow> bool" where
  "delimited out ls body \<longleftrightarrow>
     ls \<noteq> [] \<and> list_all field_line ls
     \<and> starts_with ''HTTP/1.1 '' (hd ls) \<and> list_all (\<lambda>l. CHR '':'' \<in> set l) (tl ls)
     \<and> out = crlf_lines ls @ crlf @ body
     \<and> find_text (crlf @ crlf) out = Some (length (crlf_lines ls) - 2)
     \<and> filter (\<lambda>l. field_name l = ''content-length'') ls = [''Content-Length: '' @ show_nat (length body)]"

definition well_framed :: "string \<Rightarrow> string list \<Rightarrow> string \<Rightarrow> bool" where
  "well_framed out ls body \<longleftrightarrow>
     delimited out ls body \<and> list_all (\<lambda>l. field_name l \<noteq> ''transfer-encoding'') (tl ls)"

text \<open>What a script may add to a head, and what the server itself adds.\<close>

definition passable_header :: "string \<times> string \<Rightarrow> bool" where
  "passable_header h \<longleftrightarrow> LF \<notin> set (fst h) \<and> LF \<notin> set (snd h) \<and> CHR '':'' \<notin> set (fst h)
     \<and> lower (fst h) \<noteq> ''content-length''"

definition clean_header :: "string \<times> string \<Rightarrow> bool" where
  "clean_header h \<longleftrightarrow> passable_header h \<and> lower (fst h) \<noteq> ''transfer-encoding''"

definition passable_response :: "response \<Rightarrow> bool" where
  "passable_response r \<longleftrightarrow> (\<forall>h \<in> set (rs_headers r). passable_header h)"

definition clean_response :: "response \<Rightarrow> bool" where
  "clean_response r \<longleftrightarrow> (\<forall>h \<in> set (rs_headers r). clean_header h)"

text \<open>No header of the response says how its body is coded.\<close>

definition uncoded :: "response \<Rightarrow> bool" where
  "uncoded r \<longleftrightarrow> list_all (\<lambda>h. lower (fst h) \<noteq> ''transfer-encoding'') (rs_headers r)"

lemma clean_iff: "clean_response r \<longleftrightarrow> passable_response r \<and> uncoded r"
  by (auto simp: clean_response_def passable_response_def uncoded_def clean_header_def list_all_iff)

definition head_lines :: "response \<Rightarrow> string list" where
  "head_lines r =
     (''HTTP/1.1 '' @ show_int (rs_status r) @ '' '' @ reasonPhrase (rs_status r))
     # map header_field (filter (\<lambda>h. \<not> hasHeader (rs_headers r) (fst h)) SECURITY_HEADERS)
     @ map header_field (rs_headers r)
     @ [''Content-Length: '' @ show_nat (length (rs_body r)), ''Connection: close'']"

lemma crlf_lines_append [simp]: "crlf_lines (a @ b) = crlf_lines a @ crlf_lines b"
  by (simp add: crlf_lines_def)

lemma crlf_lines_headers: "crlf_lines (map header_field hs) = concat (map header_line hs)"
  by (induction hs) (simp_all add: header_field_def header_line_def)

lemma serialize_lines: "serialize r = crlf_lines (head_lines r) @ crlf @ rs_body r"
  by (simp add: serialize_def head_lines_def crlf_lines_headers)

lemma LF_digits [simp]: "LF \<notin> set (show_nat n)"
  using show_nat_digits [of LF n] by (auto simp: is_digit_def char_simps)

lemma LF_reason: "LF \<notin> set (reasonPhrase status)"
  by (simp add: reasonPhrase_def char_simps)

lemma clean_security: "\<forall>h \<in> set SECURITY_HEADERS. clean_header h"
  by code_simp

lemma field_line_header: "passable_header h \<Longrightarrow> field_line (header_field h)"
  by (simp add: passable_header_def field_line_def header_field_def char_simps)

lemma field_name_header: "CHR '':'' \<notin> set (fst h) \<Longrightarrow> field_name (header_field h) = lower (fst h)"
proof -
  assume "CHR '':'' \<notin> set (fst h)"
  then have "takeWhile (\<lambda>c. c \<noteq> CHR '':'') (fst h) = fst h" by (auto simp: takeWhile_eq_all_conv)
  then show ?thesis by (simp add: field_name_def header_field_def takeWhile_tail)
qed

lemma lower_Cons: "lower (c # s) = lower_char c # lower s"
  by (simp add: lower_def)

text \<open>A head of a status line, passable headers and the \<open>Content-Length\<close> among them.\<close>

lemma delimited_head:
  assumes status: "starts_with ''HTTP/1.1 '' st" "LF \<notin> set st"
    and pre: "\<forall>h \<in> set pre. passable_header h" and post: "\<forall>h \<in> set post. passable_header h"
    and ls: "ls = st # map header_field (pre @ (''Content-Length'', show_nat (length body)) # post)"
  shows "delimited (crlf_lines ls @ crlf @ body) ls body"
    and "well_framed (crlf_lines ls @ crlf @ body) ls body \<longleftrightarrow>
      (\<forall>h \<in> set pre \<union> set post. lower (fst h) \<noteq> ''transfer-encoding'')"
proof -
  let ?length = "(''Content-Length'', show_nat (length body))"
  have name: "field_name (header_field ?length) = ''content-length''"
    by (subst field_name_header) (simp, code_simp)
  have field: "field_line st" "\<forall>l \<in> set (tl ls). field_line l"
    using status pre post field_line_header LF_digits
    by (auto simp: ls field_line_def header_field_def passable_header_def char_simps starts_with_def)
  have "field_name st \<noteq> ''content-length''"
  proof -
    have "lower_char (CHR ''H'') = CHR ''h''" by code_simp
    with status show ?thesis by (cases st) (auto simp: starts_with_def field_name_def lower_Cons)
  qed
  moreover have other: "field_name (header_field h) = lower (fst h)" "field_name (header_field h) \<noteq> ''content-length''"
    if "h \<in> set pre \<union> set post" for h
    using that pre post by (auto simp: passable_header_def field_name_header)
  ultimately have "filter (\<lambda>l. field_name l = ''content-length'') ls = [header_field ?length]"
    using name by (simp add: ls filter_empty_conv)
  moreover have "find_text (crlf @ crlf) (crlf_lines ls @ crlf @ body) = Some (length (crlf_lines ls) - 2)"
    using find_head [OF field, of body] by (simp add: ls crlf_def)
  ultimately show d: "delimited (crlf_lines ls @ crlf @ body) ls body"
    using status field by (auto simp: delimited_def ls list_all_iff header_field_def)
  show "well_framed (crlf_lines ls @ crlf @ body) ls body \<longleftrightarrow>
      (\<forall>h \<in> set pre \<union> set post. lower (fst h) \<noteq> ''transfer-encoding'')"
    using d name ball_cong [OF refl, of "set pre \<union> set post" "\<lambda>h. field_name (header_field h) \<noteq> ''transfer-encoding''"
        "\<lambda>h. lower (fst h) \<noteq> ''transfer-encoding''"] other(1)
    by (simp add: well_framed_def ls list_all_iff ball_Un)
qed

lemma framed_serialize:
  assumes "passable_response r"
  shows "delimited (serialize r) (head_lines r) (rs_body r)"
    and "well_framed (serialize r) (head_lines r) (rs_body r) \<longleftrightarrow> uncoded r"
proof -
  let ?status = "''HTTP/1.1 '' @ show_int (rs_status r) @ '' '' @ reasonPhrase (rs_status r)"
  let ?security = "filter (\<lambda>h. \<not> hasHeader (rs_headers r) (fst h)) SECURITY_HEADERS"
  let ?pre = "?security @ rs_headers r" and ?post = "[(''Connection'', ''close'')]"
  have status: "LF \<notin> set ?status" using LF_reason LF_digits by (auto simp: show_int_def char_simps)
  have pre: "\<forall>h \<in> set ?pre. passable_header h"
    using assms clean_security by (auto simp: passable_response_def clean_header_def)
  have post: "\<forall>h \<in> set ?post. passable_header h" by code_simp
  have close: "lower ''Connection'' \<noteq> ''transfer-encoding''" by code_simp
  have security: "\<forall>h \<in> set ?security. lower (fst h) \<noteq> ''transfer-encoding''"
    using clean_security by (auto simp: clean_header_def)
  have ls: "head_lines r = ?status # map header_field (?pre @ (''Content-Length'', show_nat (length (rs_body r))) # ?post)"
    by (simp add: head_lines_def header_field_def)
  note d = delimited_head [OF starts_with_append status pre post ls, folded serialize_lines]
  show "delimited (serialize r) (head_lines r) (rs_body r)" by (rule d(1))
  show "well_framed (serialize r) (head_lines r) (rs_body r) \<longleftrightarrow> uncoded r"
    unfolding d(2) using close security by (auto simp: uncoded_def list_all_iff)
qed

subsection \<open>The responses of the server\<close>

lemma clean_set_header:
  "clean_response r \<Longrightarrow> clean_header (k, v) \<Longrightarrow> clean_response (set_header k v r)"
  using set_map_set [of k v "rs_headers r"] by (auto simp: clean_response_def set_header_def)

lemma passable_set_header:
  "passable_response r \<Longrightarrow> passable_header (k, v) \<Longrightarrow> passable_response (set_header k v r)"
  using set_map_set [of k v "rs_headers r"] by (auto simp: passable_response_def set_header_def)

lemma clean_passable: "clean_response r \<Longrightarrow> passable_response r"
  by (simp add: clean_iff)

lemma passable_body [simp]: "passable_response (r\<lparr>rs_body := b\<rparr>) = passable_response r"
  by (simp add: passable_response_def)

lemma clean_new [simp]: "clean_response (new_response status)" "clean_response (r\<lparr>rs_body := b\<rparr>) = clean_response r"
  by (simp_all add: clean_response_def new_response_def)

definition clean_config :: "server_config \<Rightarrow> bool" where
  "clean_config config \<longleftrightarrow>
     list_all (\<lambda>m. LF \<notin> set m) (sc_methods config)
     \<and> list_all (\<lambda>l. LF \<notin> set (lc_redirect l) \<and> list_all (\<lambda>m. LF \<notin> set m) (lc_methods l)) (sc_locations config)"

definition clean_request :: "request \<Rightarrow> bool" where
  "clean_request r \<longleftrightarrow> LF \<notin> set (rq_path r) \<and> LF \<notin> set (rq_query r)"

lemma clean_error: "clean_response (error_response os status config)"
  unfolding error_response_def Let_def by (rule clean_set_header) (simp, code_simp)

lemma lower_names:
  "lower ''Content-Type'' = ''content-type''" "lower ''Content-Disposition'' = ''content-disposition''"
  "lower ''Location'' = ''location''" "lower ''Allow'' = ''allow''"
  by code_simp+

lemma clean_fields:
  "LF \<notin> set v \<Longrightarrow> clean_header (''Content-Type'', v)"
  "LF \<notin> set v \<Longrightarrow> clean_header (''Content-Disposition'', v)"
  "LF \<notin> set v \<Longrightarrow> clean_header (''Location'', v)"
  "LF \<notin> set v \<Longrightarrow> clean_header (''Allow'', v)"
  by (simp_all add: clean_header_def passable_header_def lower_names char_simps)

text \<open>A response chosen by cases is clean when each of them is.\<close>

lemma clean_cases:
  "clean_response x \<Longrightarrow> clean_response y \<Longrightarrow> clean_response (if b then x else y)"
  "(\<And>e. clean_response (f e)) \<Longrightarrow> (\<And>v. clean_response (g v)) \<Longrightarrow> clean_response (case q of Inl e \<Rightarrow> f e | Inr v \<Rightarrow> g v)"
  "clean_response x \<Longrightarrow> (\<And>v. clean_response (h v)) \<Longrightarrow> clean_response (case z of None \<Rightarrow> x | Some v \<Rightarrow> h v)"
  by (simp_all split: sum.split option.split)

lemma clean_serveFile: "clean_response (serveFile os route config p q kind)"
proof -
  have v: "LF \<notin> set (mimeType p)" "LF \<notin> set ''attachment''" "LF \<notin> set ''application/octet-stream''"
    by (simp_all add: mimeType_def Let_def char_simps)
  show ?thesis
    unfolding serveFile_def Let_def
    by (intro clean_cases clean_error clean_set_header clean_fields v) simp_all
qed

lemma clean_serveDirectory:
  assumes "clean_request request"
  shows "clean_response (serveDirectory os request route config p)"
proof -
  have v: "LF \<notin> set (rq_path request @ ''/'' @ (if rq_query request = [] then [] else ''?'' @ rq_query request))"
    "LF \<notin> set ''text/html; charset=utf-8''"
    using assms by (simp_all add: clean_request_def char_simps)
  show ?thesis
    unfolding serveDirectory_def Let_def
    by (intro clean_cases clean_error clean_serveFile clean_set_header clean_fields v) simp_all
qed

lemma clean_static:
  "clean_request request \<Longrightarrow> clean_response (static_handle os request route config)"
  unfolding static_handle_def by (intro clean_cases clean_error clean_serveFile clean_serveDirectory)

lemma validFileName_clean: "validFileName name \<Longrightarrow> LF \<notin> set name"
  by (auto simp: validFileName_def list_all_iff char_simps)

lemma clean_upload:
  assumes "clean_request request"
  shows "clean_response (fst (upload_handle os request route config))"
  using assms validFileName_clean
  by (auto simp: upload_handle_def Let_def clean_error clean_request_def toString_def LF_digits char_simps
      split: option.split prod.split intro!: clean_set_header clean_fields)

lemma clean_delete: "clean_response (fst (delete_handle os route config))"
  by (simp add: delete_handle_def clean_error split: prod.split)

lemma clean_methods: "list_all (\<lambda>m. LF \<notin> set m) ms \<Longrightarrow> LF \<notin> set (join_methods ms)"
  by (induction ms rule: join_methods.induct) (auto simp: char_simps)

lemma clean_route:
  assumes "clean_config config"
  shows "LF \<notin> set (join_methods (rt_methods (resolve request config)))"
    and "LF \<notin> set (rt_redirect (resolve request config))"
proof -
  have "l \<in> set (sc_locations config)" if "matchLocation config (rq_path request) = Some l" for l
    by (rule matchLocation_longest(1) [OF that])
  with assms show "LF \<notin> set (join_methods (rt_methods (resolve request config)))"
    and "LF \<notin> set (rt_redirect (resolve request config))"
    by (auto simp: resolve_def Let_def clean_config_def list_all_iff
        intro!: clean_methods split: option.split)
qed

lemma clean_dispatch:
  assumes "clean_request request" and "clean_config config"
  shows "clean_response (fst (dispatch os request config))"
  using assms clean_route [OF assms(2)]
  by (simp add: dispatch_def Let_def clean_error clean_static clean_upload clean_delete clean_fields clean_set_header)

text \<open>The headers of a script: a line has no line feed, a name no colon.\<close>

lemma getlines_lines: "l \<in> set (getlines s) \<Longrightarrow> LF \<notin> set l"
proof (induction s arbitrary: l rule: getlines.induct)
  case (1 s)
  then show ?case using getlines.simps [of s] by (auto split: if_splits dest: set_takeWhileD)
qed

lemma set_trim: "set (trim s) \<subseteq> set s"
  by (auto simp: trim_def Let_def dest!: set_dropWhileD)

lemma passable_cgi_headers:
  "cgi_headers lines r b = Some (r', b') \<Longrightarrow> \<forall>l \<in> set lines. LF \<notin> set l \<Longrightarrow> passable_response r \<Longrightarrow>
     passable_response r'"
proof (induction lines r b rule: cgi_headers.induct)
  case (2 line0 lines r b)
  let ?line = "chomp_cr line0"
  obtain colon where c: "find_char (CHR '':'') ?line = Some colon"
    using "2.prems"(1) by (cases "find_char (CHR '':'') ?line") (simp_all add: Let_def)
  have "LF \<notin> set ?line" using "2.prems"(2) by (auto simp: chomp_cr_def dest: in_set_butlastD)
  then have v: "LF \<notin> set (trim (take colon ?line))" "LF \<notin> set (trim (drop (colon + 1) ?line))"
    using set_trim by (fastforce dest: in_set_takeD in_set_dropD)+
  have n: "CHR '':'' \<notin> set (trim (take colon ?line))"
    using set_trim c by (fastforce elim: find_char_SomeE)
  note IH = "2.IH" [OF refl c refl refl]
  let ?name = "trim (take colon ?line)" and ?val = "trim (drop (colon + 1) ?line)"
  have lines: "\<forall>l \<in> set lines. LF \<notin> set l" using "2.prems"(2) by simp
  consider "lower ?name = ''status''" | "lower ?name \<noteq> ''status''" "lower ?name = ''content-length'' \<or> lower ?name = ''connection''"
    | "lower ?name \<noteq> ''status''" "lower ?name \<noteq> ''content-length'' \<and> lower ?name \<noteq> ''connection''"
    by blast
  then show ?case
  proof cases
    case 1
    then obtain code where code: "read_int ?val = Some code" "\<not> (code < 100 \<or> 599 < code)"
      "cgi_headers lines (r\<lparr>rs_status := code\<rparr>) b = Some (r', b')"
      using "2.prems"(1) c by (cases "read_int ?val") (auto simp: Let_def split: if_splits)
    have "passable_response (r\<lparr>rs_status := code\<rparr>)" using "2.prems"(3) by (simp add: passable_response_def)
    with IH(1) [OF 1 code lines] show ?thesis .
  next
    case 2
    then have "cgi_headers lines r b = Some (r', b')" using "2.prems"(1) c by (auto simp: Let_def)
    from IH(3) [OF 2(1) _ this lines "2.prems"(3)] 2(2) show ?thesis by blast
  next
    case 3
    then have "cgi_headers lines (set_header ?name ?val r) (b \<or> lower ?name = ''content-type'') = Some (r', b')"
      using "2.prems"(1) c by (simp add: Let_def)
    moreover have "passable_response (set_header ?name ?val r)"
      using v n 3 "2.prems"(3) by (intro passable_set_header) (simp_all add: passable_header_def)
    ultimately show ?thesis using IH(2) [OF 3 _ lines] by blast
  qed
qed simp

lemma passable_makeResponse: "passable_response (makeResponse os output config)"
proof -
  have new: "passable_response (new_response 200)" by (simp add: passable_response_def new_response_def)
  have plain: "passable_header (''Content-Type'', ''text/plain; charset=utf-8'')" by code_simp
  have "passable_response r" if "cgi_headers (getlines s) (new_response 200) False = Some (r, b)" for s r b
    using passable_cgi_headers [OF that _ new] getlines_lines by blast
  then have "passable_response (if b then r\<lparr>rs_body := x\<rparr>
      else set_header ''Content-Type'' ''text/plain; charset=utf-8'' (r\<lparr>rs_body := x\<rparr>))"
    if "cgi_headers (getlines s) (new_response 200) False = Some (r, b)" for s r b x
    using that by (auto intro!: passable_set_header [OF _ plain])
  then show ?thesis
    by (auto simp: makeResponse_def Let_def clean_passable clean_error split: option.split)
qed

subsection \<open>What an accepted request is made of\<close>

lemma parseBody_ok:
  assumes "parseBody payload maxBody r0 = Some (REQUEST_OK r)"
  shows "\<exists>b. r = r0\<lparr>rq_body := b\<rparr> \<and> length b \<le> maxBody"
proof (cases "map_of (rq_headers r0) ''transfer-encoding''")
  case None
  show ?thesis
  proof (cases "map_of (rq_headers r0) ''content-length''")
    case (Some digits)
    obtain erange n rest where n: "strtoul10 digits = (erange, n, rest)" by (cases "strtoul10 digits")
    have "r = r0\<lparr>rq_body := take n payload\<rparr>" and "n \<le> maxBody"
      using assms None Some n by (simp_all add: parseBody_def split: if_splits)
    then show ?thesis by force
  qed (use assms None in \<open>auto simp: parseBody_def split: if_splits\<close>)
next
  case (Some coding)
  have "map_of (rq_headers r0) ''content-length'' = None"
    using assms Some
    by (cases "map_of (rq_headers r0) ''content-length''") (simp_all add: parseBody_def Let_def)
  then obtain z where z: "parseChunked payload = Some z"
    using assms Some by (auto simp: parseBody_def split: if_splits)
  show ?thesis
    using assms Some z \<open>map_of (rq_headers r0) ''content-length'' = None\<close>
    by (cases z) (auto simp: parseBody_def split: if_splits)
qed

lemma next_word_spaces: "next_word s = Some (w, rest) \<Longrightarrow> c \<in> set w \<Longrightarrow> \<not> is_space c"
  by (auto simp: next_word_def Let_def dest: set_takeWhileD split: if_splits)

lemma parseRequest_parts:
  assumes "parseRequest raw maxBody = Some (REQUEST_OK r)"
  obtains verb target version line path p lines headers payload
    where "parseRequestLine line = Some (verb, target, version)" and "decodePath path = Some p"
      and "parseHeaders lines [] = Some headers" and "map_of headers ''host'' \<noteq> None"
      and "parseBody payload maxBody (new_request\<lparr>rq_method := verb, rq_target := target, rq_path := p,
        rq_query := drop 1 (dropWhile (\<lambda>c. c \<noteq> CHR ''?'') target), rq_version := version, rq_headers := headers\<rparr>)
        = Some (REQUEST_OK r)"
proof -
  obtain e where e: "find_text (crlf @ crlf) raw = Some e"
    using assms by (cases "find_text (crlf @ crlf) raw") (simp_all add: parseRequest_def split: if_splits)
  obtain line lines where g: "getlines (take e raw) = line # lines"
    using assms e by (cases "getlines (take e raw)") (simp_all add: parseRequest_def)
  obtain verb target version where l: "parseRequestLine (chomp_cr line) = Some (verb, target, version)"
    using assms e g by (cases "parseRequestLine (chomp_cr line)") (auto simp: parseRequest_def)
  obtain headers where h: "parseHeaders lines [] = Some headers"
    using assms e g l by (cases "parseHeaders lines []") (simp_all add: parseRequest_def split: if_splits)
  obtain p where p: "decodePath (takeWhile (\<lambda>c. c \<noteq> CHR ''?'') target) = Some p"
    using assms e g l h
    by (cases "decodePath (takeWhile (\<lambda>c. c \<noteq> CHR ''?'') target)") (simp_all add: parseRequest_def split: if_splits)
  show thesis
    by (rule that [OF l p h, of "drop (e + 4) raw"])
      (use assms e g l h p in \<open>simp_all add: parseRequest_def split: if_splits\<close>)
qed

lemma lower_lower: "lower (lower k) = lower k"
  by (auto simp: lower_def lower_char_def char_simps of_char_of)

lemma parseHeaders_keys:
  "parseHeaders lines m = Some headers \<Longrightarrow> \<forall>h \<in> set m. lower (fst h) = fst h \<and> validToken (fst h) \<Longrightarrow>
     \<forall>h \<in> set headers. lower (fst h) = fst h \<and> validToken (fst h)"
proof (induction lines m rule: parseHeaders.induct)
  case (2 line0 lines m)
  let ?line = "chomp_cr line0"
  obtain colon where c: "find_char (CHR '':'') ?line = Some colon"
    using "2.prems"(1) by (cases "find_char (CHR '':'') ?line") (simp_all add: Let_def)
  let ?key = "lower (trim (take colon ?line))"
  have k: "validToken ?key" "parseHeaders lines (map_set ?key (trim (drop (colon + 1) ?line)) m) = Some headers"
    "\<not> (\<not> validToken ?key \<or> map_of m ?key \<noteq> None)"
    using "2.prems"(1) c by (auto simp: Let_def split: if_splits)
  have "\<forall>h \<in> set (map_set ?key (trim (drop (colon + 1) ?line)) m). lower (fst h) = fst h \<and> validToken (fst h)"
    using "2.prems"(2) k(1) set_map_set [of ?key "trim (drop (colon + 1) ?line)" m] by (auto simp: lower_lower)
  from "2.IH" [OF refl c refl k(3,2) this] show ?case .
qed simp

lemma parseRequest_ok:
  assumes "parseRequest raw maxBody = Some (REQUEST_OK r)"
  shows "safe_path (rq_path r)" and "clean_request r" and "length (rq_body r) \<le> maxBody"
    and "map_of (rq_headers r) ''host'' \<noteq> None"
    and "\<forall>h \<in> set (rq_headers r). lower (fst h) = fst h \<and> validToken (fst h)"
proof -
  obtain verb target version line path p lines headers payload
    where l: "parseRequestLine line = Some (verb, target, version)" and p: "decodePath path = Some p"
      and hs: "parseHeaders lines [] = Some headers" and h: "map_of headers ''host'' \<noteq> None"
      and b: "parseBody payload maxBody (new_request\<lparr>rq_method := verb, rq_target := target, rq_path := p,
        rq_query := drop 1 (dropWhile (\<lambda>c. c \<noteq> CHR ''?'') target), rq_version := version, rq_headers := headers\<rparr>)
        = Some (REQUEST_OK r)"
    by (rule parseRequest_parts [OF assms])
  have r: "rq_path r = p" "rq_query r = drop 1 (dropWhile (\<lambda>c. c \<noteq> CHR ''?'') target)" "rq_headers r = headers"
    using parseBody_ok [OF b] by auto
  show "safe_path (rq_path r)" using decodePath_safe [OF p] r by simp
  then have "LF \<notin> set (rq_path r)" by (auto simp: safe_path_def printable_def char_simps)
  moreover have "\<forall>c \<in> set target. \<not> is_space c"
    using l next_word_spaces by (fastforce simp: parseRequestLine_def split: option.splits if_splits)
  then have "LF \<notin> set (rq_query r)"
    using r by (auto simp: is_space_def dest!: in_set_dropD set_dropWhileD)
  ultimately show "clean_request r" by (simp add: clean_request_def)
  show "length (rq_body r) \<le> maxBody" using parseBody_ok [OF b] by auto
  show "map_of (rq_headers r) ''host'' \<noteq> None" using h r by simp
  show "\<forall>h \<in> set (rq_headers r). lower (fst h) = fst h \<and> validToken (fst h)"
    using parseHeaders_keys [OF hs] r by simp
qed

end
