(* ===== verification/Web_Answers.thy ===== *)
theory Web_Answers
  imports Web_Silent Web_Response
begin

section \<open>webserv: which answer belongs to a client\<close>

text \<open>
  Abstract specification of the answers of the server: what a client is answered is determined
  by what it has sent, by its configuration, by what the operating system said when the answer
  was made, and by what its script has written. Every answer of this kind is delimited, and it
  is well framed unless a script has sent a \<open>Transfer-Encoding\<close>.
\<close>

subsection \<open>What a client asks for\<close>

definition asked :: "server_config \<Rightarrow> web_client \<Rightarrow> parse_outcome option" where
  "asked config c = parseRequest (wc_input c) (sc_maxBody config)"

text \<open>The request, with the address that the connection came from.\<close>

definition request_of :: "server_config \<Rightarrow> web_client \<Rightarrow> request option" where
  "request_of config c =
     (case asked config c of
        Some (REQUEST_OK r) \<Rightarrow>
          Some (r\<lparr>rq_remoteAddress := wc_remoteAddress c, rq_remotePort := wc_remotePort c\<rparr>)
      | _ \<Rightarrow> None)"

definition runs_script :: "server_config \<Rightarrow> request \<Rightarrow> bool" where
  "runs_script config request \<longleftrightarrow>
     rt_status (resolve request config) = ROUTE_READY \<and> cgi_matches (resolve request config)"

text \<open>A client whose request a script is answering.\<close>

definition awaits_script :: "server_config \<Rightarrow> web_client \<Rightarrow> bool" where
  "awaits_script config c \<longleftrightarrow> (\<exists>request. request_of config c = Some request \<and> runs_script config request)"

lemma request_of_cong:
  assumes "wc_input c' = wc_input c" and "wc_remoteAddress c' = wc_remoteAddress c"
    and "wc_remotePort c' = wc_remotePort c"
  shows "asked config c' = asked config c" and "request_of config c' = request_of config c"
    and "awaits_script config c' = awaits_script config c"
  using assms by (simp_all add: asked_def request_of_def awaits_script_def cong: option.case_cong parse_outcome.case_cong)

lemma asked_updates [simp]:
  "asked config (c\<lparr>wc_output := x\<rparr>) = asked config c"
  "asked config (c\<lparr>wc_sent := n\<rparr>) = asked config c"
  "asked config (c\<lparr>wc_touched := t\<rparr>) = asked config c"
  "asked config (c\<lparr>wc_phase := ph\<rparr>) = asked config c"
  "asked config (c\<lparr>wc_cgiPid := p\<rparr>) = asked config c"
  "asked config (c\<lparr>wc_cgiInputFd := f\<rparr>) = asked config c"
  "asked config (c\<lparr>wc_cgiOutputFd := f\<rparr>) = asked config c"
  "asked config (c\<lparr>wc_cgiInput := x\<rparr>) = asked config c"
  "asked config (c\<lparr>wc_cgiWritten := n\<rparr>) = asked config c"
  "asked config (c\<lparr>wc_timeoutSeconds := n\<rparr>) = asked config c"
  "request_of config (c\<lparr>wc_output := x\<rparr>) = request_of config c"
  "request_of config (c\<lparr>wc_sent := n\<rparr>) = request_of config c"
  "request_of config (c\<lparr>wc_touched := t\<rparr>) = request_of config c"
  "request_of config (c\<lparr>wc_phase := ph\<rparr>) = request_of config c"
  "request_of config (c\<lparr>wc_cgiPid := p\<rparr>) = request_of config c"
  "request_of config (c\<lparr>wc_cgiInputFd := f\<rparr>) = request_of config c"
  "request_of config (c\<lparr>wc_cgiOutputFd := f\<rparr>) = request_of config c"
  "request_of config (c\<lparr>wc_cgiInput := x\<rparr>) = request_of config c"
  "request_of config (c\<lparr>wc_cgiWritten := n\<rparr>) = request_of config c"
  "request_of config (c\<lparr>wc_timeoutSeconds := n\<rparr>) = request_of config c"
  "awaits_script config (c\<lparr>wc_output := x\<rparr>) = awaits_script config c"
  "awaits_script config (c\<lparr>wc_sent := n\<rparr>) = awaits_script config c"
  "awaits_script config (c\<lparr>wc_touched := t\<rparr>) = awaits_script config c"
  "awaits_script config (c\<lparr>wc_phase := ph\<rparr>) = awaits_script config c"
  "awaits_script config (c\<lparr>wc_cgiPid := p\<rparr>) = awaits_script config c"
  "awaits_script config (c\<lparr>wc_cgiInputFd := f\<rparr>) = awaits_script config c"
  "awaits_script config (c\<lparr>wc_cgiOutputFd := f\<rparr>) = awaits_script config c"
  "awaits_script config (c\<lparr>wc_cgiInput := x\<rparr>) = awaits_script config c"
  "awaits_script config (c\<lparr>wc_cgiWritten := n\<rparr>) = awaits_script config c"
  "awaits_script config (c\<lparr>wc_timeoutSeconds := n\<rparr>) = awaits_script config c"
  "asked config (c\<lparr>wc_cgiOutput := x\<rparr>) = asked config c" "request_of config (c\<lparr>wc_cgiOutput := x\<rparr>) = request_of config c"
  "awaits_script config (c\<lparr>wc_cgiOutput := x\<rparr>) = awaits_script config c"
  by (simp_all add: asked_def request_of_def awaits_script_def cong: option.case_cong parse_outcome.case_cong)

lemma clean_request_of: "request_of config c = Some request \<Longrightarrow> clean_request request"
  using parseRequest_ok(2) [of "wc_input c" "sc_maxBody config"]
  by (auto simp: request_of_def asked_def clean_request_def split: option.splits parse_outcome.splits)

subsection \<open>The answers\<close>

text \<open>
  \<open>oss\<close> are the states of the operating system in which the answer may have been made. A
  request that never became complete is answered with 413 when \<open>n\<close> more bytes would have
  passed the limit, and with 408 when it took too long.
\<close>

inductive right_answer :: "os set \<Rightarrow> server_config \<Rightarrow> web_client \<Rightarrow> response \<Rightarrow> bool"
  for oss :: "os set" and config :: server_config and c :: web_client where
  answer_bad: "asked config c = Some REQUEST_BAD \<Longrightarrow> os \<in> oss \<Longrightarrow>
    right_answer oss config c (error_response os 400 config)"
| answer_large: "asked config c = Some REQUEST_TOO_LARGE \<Longrightarrow> os \<in> oss \<Longrightarrow>
    right_answer oss config c (error_response os 413 config)"
| answer_full: "asked config c = Some REQUEST_INCOMPLETE \<Longrightarrow> 0 < n \<Longrightarrow>
    size_sub (requestLimit config) n < length (wc_input c) \<Longrightarrow> os \<in> oss \<Longrightarrow>
    right_answer oss config c (error_response os 413 config)"
| answer_version: "asked config c = Some REQUEST_VERSION_NOT_SUPPORTED \<Longrightarrow> os \<in> oss \<Longrightarrow>
    right_answer oss config c (error_response os 505 config)"
| answer_late: "asked config c = Some REQUEST_INCOMPLETE \<Longrightarrow> os \<in> oss \<Longrightarrow>
    right_answer oss config c (error_response os 408 config)"
| answer_dispatch: "request_of config c = Some request \<Longrightarrow> \<not> runs_script config request \<Longrightarrow> os \<in> oss \<Longrightarrow>
    right_answer oss config c (fst (dispatch os request config))"
| answer_no_script: "awaits_script config c \<Longrightarrow> status \<in> {403, 404, 500, 503, 504} \<Longrightarrow> os \<in> oss \<Longrightarrow>
    right_answer oss config c (error_response os status config)"
| answer_script: "awaits_script config c \<Longrightarrow> os \<in> oss \<Longrightarrow>
    right_answer oss config c (makeResponse os (wc_cgiOutput c) config)"

inductive_cases right_answerE: "right_answer oss config c r"

lemma right_answer_cong:
  assumes "wc_input c' = wc_input c" and "wc_remoteAddress c' = wc_remoteAddress c"
    and "wc_remotePort c' = wc_remotePort c" and "wc_cgiOutput c' = wc_cgiOutput c"
  shows "right_answer oss config c' r = right_answer oss config c r"
  by (simp only: right_answer.simps request_of_cong [OF assms(1-3)] assms(1,4))

lemma right_answer_updates [simp]:
  "right_answer oss config (c\<lparr>wc_output := x\<rparr>) r = right_answer oss config c r"
  "right_answer oss config (c\<lparr>wc_sent := n\<rparr>) r = right_answer oss config c r"
  "right_answer oss config (c\<lparr>wc_touched := t\<rparr>) r = right_answer oss config c r"
  "right_answer oss config (c\<lparr>wc_phase := ph\<rparr>) r = right_answer oss config c r"
  "right_answer oss config (c\<lparr>wc_cgiPid := p\<rparr>) r = right_answer oss config c r"
  "right_answer oss config (c\<lparr>wc_cgiInputFd := f\<rparr>) r = right_answer oss config c r"
  "right_answer oss config (c\<lparr>wc_cgiOutputFd := f\<rparr>) r = right_answer oss config c r"
  "right_answer oss config (c\<lparr>wc_cgiInput := x\<rparr>) r = right_answer oss config c r"
  "right_answer oss config (c\<lparr>wc_cgiWritten := n\<rparr>) r = right_answer oss config c r"
  "right_answer oss config (c\<lparr>wc_timeoutSeconds := n\<rparr>) r = right_answer oss config c r"
  by (rule right_answer_cong; simp)+

lemma right_answer_mono: "right_answer oss config c r \<Longrightarrow> oss \<subseteq> oss' \<Longrightarrow> right_answer oss' config c r"
  by (induction rule: right_answer.induct) (blast intro: right_answer.intros)+

text \<open>Only the header of a script can say how the body is coded.\<close>

lemma right_answer_clean:
  assumes "right_answer oss config c r" and "clean_config config"
  shows "passable_response r"
    and "\<not> uncoded r \<Longrightarrow> awaits_script config c \<and> (\<exists>os \<in> oss. r = makeResponse os (wc_cgiOutput c) config)"
  using assms(1)
  by (cases; use assms(2) clean_error clean_dispatch clean_request_of passable_makeResponse in \<open>auto simp: clean_iff\<close>)+

lemma right_answer_delimited:
  assumes "right_answer oss config c r" and "clean_config config"
  shows "delimited (serialize r) (head_lines r) (rs_body r)"
    and "well_framed (serialize r) (head_lines r) (rs_body r) \<longleftrightarrow> uncoded r"
  using framed_serialize right_answer_clean(1) [OF assms] by blast+

subsection \<open>Clients between two events\<close>

text \<open>
  A client has its answer, or its script runs, or its request is incomplete.
\<close>

definition attended :: "os set \<Rightarrow> web_client \<Rightarrow> bool" where
  "attended oss c \<longleftrightarrow>
     (\<exists>config. wc_config c = Some config \<and> clean_config config
        \<and> (if wc_output c \<noteq> [] then \<exists>r. right_answer oss config c r \<and> wc_output c = serialize r
           else if 0 < wc_cgiPid c then awaits_script config c
           else asked config c = Some REQUEST_INCOMPLETE))"

lemma attended_same:
  assumes "attended oss c" and "wc_config c' = wc_config c" and "wc_output c' = wc_output c"
    and "wc_input c' = wc_input c" and "wc_remoteAddress c' = wc_remoteAddress c"
    and "wc_remotePort c' = wc_remotePort c" and "0 < wc_cgiPid c' \<longleftrightarrow> 0 < wc_cgiPid c"
    and "wc_output c = [] \<or> wc_cgiOutput c' = wc_cgiOutput c"
  shows "attended oss c'"
  using assms(1-3,7,8) request_of_cong [OF assms(4-6)] right_answer_cong [OF assms(4-6)]
  by (auto simp: attended_def split: if_splits)

lemma attended_answer:
  assumes "wc_config c = Some config" and "clean_config config" and "right_answer oss config c r"
    and "wc_output c = serialize r"
  shows "attended oss c"
  using assms by (auto simp: attended_def)

text \<open>Storing an answer, with the fields that are written beside it.\<close>

lemma attended_stored:
  assumes "wc_config c = Some config" and "clean_config config" and "right_answer oss config c r"
  shows "attended oss (c\<lparr>wc_output := serialize r, wc_phase := ph\<rparr>)" and "attended oss (c\<lparr>wc_output := serialize r\<rparr>)"
  by (rule attended_answer [of _ config _ r]; use assms in simp)+

lemma attended_config: "attended oss c \<Longrightarrow> wc_config c = Some config \<Longrightarrow> clean_config config"
  by (auto simp: attended_def)

lemma attended_idle:
  "attended oss c \<Longrightarrow> wc_config c = Some config \<Longrightarrow> wc_output c = [] \<Longrightarrow>
     if 0 < wc_cgiPid c then awaits_script config c else asked config c = Some REQUEST_INCOMPLETE"
  by (auto simp: attended_def split: if_splits)

lemma attended_output:
  assumes "attended oss c" and "wc_output c \<noteq> []"
  obtains config r where "wc_config c = Some config" and "clean_config config" and "right_answer oss config c r"
    and "wc_output c = serialize r"
  using assms by (auto simp: attended_def)

lemma attended_new:
  "wc_input c = [] \<Longrightarrow> wc_output c = [] \<Longrightarrow> wc_cgiPid c \<le> 0 \<Longrightarrow> wc_config c = Some config \<Longrightarrow>
     clean_config config \<Longrightarrow> attended oss c"
  by (simp add: attended_def asked_def parseRequest_def starts_with_def crlf_def)

end
