(* ===== verification/Web_Delivery.thy ===== *)
theory Web_Delivery
  imports Web_Answers
begin

section \<open>webserv: one connection, one answer, the right one\<close>

text \<open>
  Through every event of every run: what waits for a client is the answer to what it has sent
  (\<open>attended\<close>), and what a connection has been sent, read off the trace, is the beginning of
  that one answer. To follow one answer through a run, the invariant also has a connection that
  it watches: the number of a connection of a descriptor and the answer stored for it.
\<close>

subsection \<open>What a descriptor has been sent since it was opened\<close>

fun received :: "web_effect list \<Rightarrow> int \<Rightarrow> string" where
  "received [] g = []"
| "received (e # tr) g =
     (case e of
        FdOpened f \<Rightarrow> if f = g then [] else received tr g
      | SentTo f d \<Rightarrow> if f = g then received tr g @ d else received tr g
      | _ \<Rightarrow> received tr g)"

text \<open>The connections of a descriptor are counted; what the \<open>k\<close>-th has been sent.\<close>

definition openings :: "web_effect list \<Rightarrow> int \<Rightarrow> nat" where
  "openings tr g = count_list tr (FdOpened g)"

fun sent_on :: "nat \<Rightarrow> web_effect list \<Rightarrow> int \<Rightarrow> string" where
  "sent_on k [] g = []"
| "sent_on k (e # tr) g =
     (case e of
        SentTo f d \<Rightarrow> if f = g \<and> openings tr g = k then sent_on k tr g @ d else sent_on k tr g
      | _ \<Rightarrow> sent_on k tr g)"

lemma openings_simps [simp]:
  "openings [] g = 0"
  "openings (e # tr) g = (if e = FdOpened g then Suc (openings tr g) else openings tr g)"
  by (simp_all add: openings_def)

lemma sent_on_later: "openings tr g < k \<Longrightarrow> sent_on k tr g = []"
  by (induction tr) (auto split: web_effect.splits if_splits)

lemma sent_on_now: "sent_on (openings tr g) tr g = received tr g"
  by (induction tr) (auto simp: sent_on_later split: web_effect.splits)

definition begins_answer :: "string \<Rightarrow> bool" where
  "begins_answer x \<longleftrightarrow> (\<exists>r rest. passable_response r \<and> serialize r = x @ rest)"

fun delivered :: "web_effect list \<Rightarrow> bool" where
  "delivered [] = True"
| "delivered (e # tr) =
     (delivered tr \<and> (case e of SentTo g d \<Rightarrow> begins_answer (received tr g @ d) | _ \<Rightarrow> True))"

lemma begins_Nil [simp]: "begins_answer []"
  using clean_passable [OF clean_new(1), of 200] by (auto simp: begins_answer_def)

text \<open>The same for every connection.\<close>

lemma delivered_received: "delivered tr \<Longrightarrow> begins_answer (received tr g)"
  by (induction tr) (auto split: web_effect.splits)

lemma delivered_sent_on: "delivered tr \<Longrightarrow> begins_answer (sent_on k tr g)"
  by (induction tr) (auto simp: sent_on_now split: web_effect.splits)

definition quiet_effect :: "web_effect \<Rightarrow> bool" where
  "quiet_effect e \<longleftrightarrow> (case e of FdOpened f \<Rightarrow> False | SentTo f d \<Rightarrow> False | _ \<Rightarrow> True)"

lemma quiet_effects:
  assumes "\<forall>e \<in> set es. quiet_effect e"
  shows "received (es @ tr) g = received tr g" and "delivered (es @ tr) = delivered tr"
    and "openings (es @ tr) g = openings tr g" and "sent_on k (es @ tr) g = sent_on k tr g"
  using assms by (induction es) (auto simp: quiet_effect_def split: web_effect.splits)

subsection \<open>The link between the clients and the trace\<close>

definition link :: "web_client \<Rightarrow> string \<Rightarrow> bool" where
  "link c x \<longleftrightarrow> x = take (wc_sent c) (wc_output c) \<and> (wc_output c = [] \<longrightarrow> wc_sent c = 0)"

text \<open>
  A view: the states of the operating system that answers may come from, and the connection
  that is watched, if any (its descriptor, its number and the answer that was stored for it).
\<close>

type_synonym view = "os set \<times> (int \<times> nat \<times> string) option"

definition followed :: "(int \<times> nat \<times> string) option \<Rightarrow> webserver \<Rightarrow> bool" where
  "followed watch s \<longleftrightarrow>
     (\<forall>g k out. watch = Some (g, k, out) \<longrightarrow>
        out \<noteq> [] \<and> k \<le> openings (ws_trace s) g
        \<and> (\<exists>n. sent_on k (ws_trace s) g = take n out)
        \<and> (openings (ws_trace s) g = k \<longrightarrow> (\<forall>c. clientMap s g = Some c \<longrightarrow> wc_output c = out)))"

text \<open>The clients in \<open>G\<close> are being handled: they need not be attended to yet.\<close>

definition linked :: "view \<Rightarrow> int set \<Rightarrow> webserver \<Rightarrow> bool" where
  "linked v G s \<longleftrightarrow>
     ordered_map (ws_clients s) \<and> delivered (ws_trace s) \<and> followed (snd v) s
     \<and> (\<forall>e \<in> set (ws_listeners s). clean_config (snd e))
     \<and> (\<forall>g c. clientMap s g = Some c \<longrightarrow>
          link c (received (ws_trace s) g)
          \<and> (\<forall>config. wc_config c = Some config \<longrightarrow> clean_config config)
          \<and> (wc_output c \<noteq> [] \<or> g \<notin> G \<longrightarrow> attended (fst v) c))"

lemma linkedD:
  assumes "linked v G s"
  shows "ordered_map (ws_clients s)" and "delivered (ws_trace s)" and "followed (snd v) s"
    and "\<forall>e \<in> set (ws_listeners s). clean_config (snd e)"
    and "clientMap s g = Some c \<Longrightarrow> link c (received (ws_trace s) g)"
    and "clientMap s g = Some c \<Longrightarrow> wc_config c = Some config \<Longrightarrow> clean_config config"
    and "clientMap s g = Some c \<Longrightarrow> wc_output c \<noteq> [] \<or> g \<notin> G \<Longrightarrow> attended (fst v) c"
  using assms by (simp_all add: linked_def)

lemma link_same:
  "link c x \<Longrightarrow> wc_sent c' = wc_sent c \<Longrightarrow> wc_output c' = wc_output c \<Longrightarrow> link c' x"
  by (simp add: link_def)

lemma link_new: "link c x \<Longrightarrow> wc_output c = [] \<Longrightarrow> wc_sent c' = 0 \<Longrightarrow> link c' x"
  by (simp add: link_def)

text \<open>What is watched has an answer already.\<close>

lemma followed_output:
  assumes "followed (Some (g, k, out)) s" and "openings (ws_trace s) g = k" and "clientMap s g = Some c"
  shows "wc_output c = out" and "wc_output c \<noteq> []"
  using assms by (simp_all add: followed_def)

lemma linked_cong:
  "ws_clients t = ws_clients s \<Longrightarrow> ws_trace t = ws_trace s \<Longrightarrow> ws_listeners t = ws_listeners s \<Longrightarrow>
     linked v G t = linked v G s"
  by (simp only: linked_def followed_def)

lemma linked_frame [simp]:
  "linked v G (add_pollfd f ev s) = linked v G s" "linked v G (set_events_at i ev s) = linked v G s"
  "linked v G (removePollFd f s) = linked v G s" "linked v G (await_output f s) = linked v G s"
  "linked v G (poll_results r s) = linked v G s" "linked v G (s\<lparr>ws_pollFds := ps\<rparr>) = linked v G s"
  "linked v G (s\<lparr>ws_inputOwners := m\<rparr>) = linked v G s" "linked v G (s\<lparr>ws_outputOwners := m\<rparr>) = linked v G s"
  by (rule linked_cong; simp add: add_pollfd_def set_events_at_def removePollFd_def poll_results_def await_output_def)+

lemma linked_quiet [simp]: "\<forall>e \<in> set es. quiet_effect e \<Longrightarrow> linked v G (effects es s) = linked v G s"
  using quiet_effects [where es = "rev es" and tr = "ws_trace s"] by (simp add: linked_def followed_def effects_def)

lemma quiet_simps [simp]:
  "quiet_effect (FdClosed f)" "quiet_effect (ChildStarted p l)" "quiet_effect (ChildKilled p)"
  "quiet_effect (ChildReaped p)" "quiet_effect (PipedTo f d)" "quiet_effect (OnDisk x)"
  by (simp_all add: quiet_effect_def)

lemma linked_release [simp]:
  "linked v G (release_input f s) = linked v G s" "linked v G (release_output f s) = linked v G s"
  "linked v G (release_pipes c s) = linked v G s"
  by (simp_all add: release_input_def release_output_def release_pipes_def Let_def)

lemma linked_opened:
  assumes l: "linked v G s" and f: "clientMap s f = None"
  shows "linked v G (effects [FdOpened f] s)"
proof -
  have "followed (snd v) (effects [FdOpened f] s)"
    using linkedD(3) [OF l] f by (auto simp: followed_def effects_def)
  moreover have "received (ws_trace (effects [FdOpened f] s)) g = received (ws_trace s) g" if "clientMap s g = Some c" for g c
    using that f by (auto simp: effects_def)
  ultimately show ?thesis
    using linkedD(1,2,4-7) [OF l] by (simp add: linked_def) (simp add: effects_def)
qed

text \<open>Storing a client that is attended to, and the client of a watched connection with its answer.\<close>

lemma linked_put:
  assumes l: "linked v (insert g G) s" and c: "attended (fst v) c \<or> wc_output c = [] \<and> g \<in> G"
    and config: "\<And>config. wc_config c = Some config \<Longrightarrow> clean_config config"
    and x: "link c (received (ws_trace s) g)"
    and w: "\<And>k out. snd v = Some (g, k, out) \<Longrightarrow> openings (ws_trace s) g = k \<Longrightarrow> wc_output c = out"
  shows "linked v G (put_client g c s)"
proof -
  have "followed (snd v) (put_client g c s)"
    using linkedD(1,3) [OF l] w by (auto simp: followed_def put_client_def)
  moreover have "attended (fst v) c" if "wc_output c \<noteq> [] \<or> g \<notin> G" using c that by auto
  ultimately show ?thesis
    using linkedD(1,2,4-7) [OF l] x config by (simp add: linked_def put_client_def)
qed

lemma linked_erase: "linked v G s \<Longrightarrow> linked v G (erase_client g s)"
  by (auto simp: linked_def followed_def erase_client_def)

lemma linked_less: "linked v G s \<Longrightarrow> G \<subseteq> G' \<Longrightarrow> linked v G' s"
  by (fastforce simp: linked_def)

text \<open>The two ways in which a client changes: without its answer, or from none to one.\<close>

lemma linked_keep:
  assumes l: "linked v (insert g G) s" and m: "clientMap s g = Some c"
    and c': "wc_sent c' = wc_sent c" "wc_output c' = wc_output c" "wc_config c' = wc_config c"
    and att: "attended (fst v) c' \<or> wc_output c = [] \<and> g \<in> G"
  shows "linked v G (put_client g c' s)"
proof (rule linked_put [OF l])
  show "attended (fst v) c' \<or> wc_output c' = [] \<and> g \<in> G" using att c'(2) by auto
  show "clean_config config" if "wc_config c' = Some config" for config
    using linkedD(6) [OF l m] that c'(3) by simp
  show "link c' (received (ws_trace s) g)" by (rule link_same [OF linkedD(5) [OF l m] c'(1,2)])
  show "wc_output c' = out" if "snd v = Some (g, k, out)" "openings (ws_trace s) g = k" for k out
    using followed_output(1) [OF _ that(2) m] linkedD(3) [OF l] that(1) c'(2) by simp
qed

lemma linked_answer:
  assumes l: "linked v (insert g G) s" and m: "clientMap s g = Some c" and out: "wc_output c = []"
    and c': "wc_sent c' = 0" "attended (fst v) c'" "wc_config c' = wc_config c"
  shows "linked v G (put_client g c' s)"
proof (rule linked_put [OF l])
  show "attended (fst v) c' \<or> wc_output c' = [] \<and> g \<in> G" using c'(2) by simp
  show "clean_config config" if "wc_config c' = Some config" for config
    using linkedD(6) [OF l m] that c'(3) by simp
  show "link c' (received (ws_trace s) g)" by (rule link_new [OF linkedD(5) [OF l m] out c'(1)])
  show "wc_output c' = x" if "snd v = Some (g, k, x)" "openings (ws_trace s) g = k" for k x
    using followed_output(2) [OF _ that(2) m, of x] linkedD(3) [OF l] that(1) out by simp
qed

lemma linked_unsent: "linked v G s \<Longrightarrow> clientMap s g = Some c \<Longrightarrow> wc_output c = [] \<Longrightarrow> wc_sent c = 0"
  using linkedD(5) [of v G s g c] by (simp add: link_def)

subsection \<open>The operations\<close>

lemma linked_closeClient [simp]: "linked v G s \<Longrightarrow> linked v G (closeClient g s)"
  by (auto simp: closeClient_def Let_def intro!: linked_erase split: option.split)

lemma linked_finishCgi:
  assumes l: "linked v {} s" and m: "\<And>c. clientMap s g = Some c \<Longrightarrow> wc_output c = [] \<and> 0 < wc_cgiPid c"
    and os: "os \<in> fst v" and r: "finishCgi os g status s = Done t"
  shows "linked v {} t"
proof (cases "clientMap s g")
  case None
  with r l show ?thesis by (simp add: finishCgi_def find_client_def)
next
  case (Some c)
  then obtain config where cfg: "wc_config c = Some config"
    using r by (cases "wc_config c") (simp_all add: finishCgi_def find_client_def with_config_def)
  note c = m [OF Some]
  note clean = linkedD(6) [OF l Some cfg]
  have "attended (fst v) c" using linkedD(7) [OF l Some] by simp
  then have script: "awaits_script config c" using attended_idle [OF _ cfg] c by simp
  let ?r = "if exited_zero status then makeResponse os (wc_cgiOutput c) config else error_response os 500 config"
  have a: "right_answer (fst v) config c ?r"
    using script os answer_script [OF script os] answer_no_script [OF script _ os, of 500] by simp
  let ?c1 = "c\<lparr>wc_cgiInputFd := if 0 \<le> wc_cgiInputFd c then - 1 else wc_cgiInputFd c,
      wc_cgiOutputFd := if 0 \<le> wc_cgiOutputFd c then - 1 else wc_cgiOutputFd c, wc_cgiPid := - 1,
      wc_output := serialize ?r, wc_sent := 0, wc_touched := int (os_time os), wc_phase := CLIENT_WRITING\<rparr>"
  have "attended (fst v) ?c1" by (rule attended_answer [OF _ clean]) (use cfg a in simp_all)
  then have "linked v {} (put_client g ?c1 (release_pipes c s))"
    using linked_less [OF l, of "{g}"] Some c by (intro linked_answer [where c = c]) simp_all
  moreover have "t = (put_client g ?c1 (release_pipes c s))
      \<lparr>ws_pollFds := set_events g {POLLOUT} (ws_pollFds (put_client g ?c1 (release_pipes c s)))\<rparr>"
    using r Some cfg by (simp add: finishCgi_def find_client_def with_config_def Let_def)
  ultimately show ?thesis by simp
qed

lemma linked_answer_at:
  assumes "linked v {g} s" and "client_at i g c s" and "wc_output c = []"
    and "attended (fst v) (c\<lparr>wc_output := out, wc_phase := CLIENT_WRITING\<rparr>)"
  shows "linked v {} (answer_at i g out s)"
  using assms linked_unsent [of v "{g}" s g c]
  by (auto simp: answer_at_def client_slot_present client_at_def intro!: linked_answer)

lemma linked_settle:
  assumes "linked v {g} s" and "clientMap s g = Some c" and "attended (fst v) c"
  shows "linked v {} s"
  using assms by (fastforce simp: linked_def)

text \<open>A descriptor that is open is not handed out again.\<close>

lemma open_not_reopened:
  assumes "kernel_ok (rev (map FdOpened fds) @ tr)" and "fd_balance tr g = 1"
  shows "g \<notin> set fds"
  using assms(1)
proof (induction fds rule: rev_induct)
  case (snoc f fds)
  have g: "g \<notin> set fds" using snoc by simp
  have "fd_balance (rev (map FdOpened fds) @ tr) g = 1"
    using g assms(2) balance_lists(1) [of "rev fds" tr g] by (simp add: rev_map count_notin)
  with snoc.prems g show ?case by auto
qed simp

lemma wf_client_open: "wf_web s \<Longrightarrow> clientMap s g = Some c \<Longrightarrow> fd_balance (ws_trace s) g = 1"
  using wf_web_client_at(2) [of s g c] wf_pendingD(4) [of "{}" s] by simp

lemma linked_opened_list:
  assumes "linked v G s" and "\<forall>f \<in> set fds. clientMap s f = None"
  shows "linked v G (effects (map FdOpened fds) s)"
  using assms
proof (induction fds rule: rev_induct)
  case (snoc f fds)
  have "effects (map FdOpened (fds @ [f])) s = effects [FdOpened f] (effects (map FdOpened fds) s)"
    by (simp add: effects_def)
  moreover have "clientMap (effects (map FdOpened fds) s) f = None" using snoc.prems(2) by simp
  ultimately show ?case using snoc by (auto intro!: linked_opened)
qed (simp add: effects_def)

lemma effects_append: "effects (es @ fs) s = effects fs (effects es s)"
  by (simp add: effects_def)

lemma linked_start_effects:
  assumes w: "wf_web s" and l: "linked v G s" and k: "kernel_ok (ws_trace (effects (start_effects a st) s))"
  shows "linked v G (effects (start_effects a st) s)"
proof -
  define es where "es = drop (length (cs_opened st)) (start_effects a st)"
  have e: "start_effects a st = map FdOpened (cs_opened st) @ es" and q: "\<forall>e \<in> set es. quiet_effect e"
    by (auto simp: es_def start_effects_def split: option.split)
  have "kernel_ok (rev (map FdOpened (cs_opened st)) @ ws_trace s)"
    using k kernel_ok_append [of "rev es"] by (simp add: e)
  then have "\<forall>f \<in> set (cs_opened st). clientMap s f = None"
    using open_not_reopened wf_client_open [OF w] by (metis not_None_eq)
  then have "linked v G (effects (map FdOpened (cs_opened st)) s)" by (rule linked_opened_list [OF l])
  with q show ?thesis by (simp add: e effects_append)
qed

subsection \<open>The handlers\<close>

definition links :: "view \<Rightarrow> web_outcome \<Rightarrow> bool" where
  "links v r \<longleftrightarrow> (case r of Done t \<Rightarrow> kernel_ok (ws_trace t) \<longrightarrow> linked v {} t | _ \<Rightarrow> True)"

lemma links_simps [simp]:
  "links v (Done t) = (kernel_ok (ws_trace t) \<longrightarrow> linked v {} t)"
  "links v (Raised msg t)" "links v Stuck" "links v (NullConfig t)"
  by (simp_all add: links_def)

lemma start_cgi_pid:
  assumes "cs_process (start_cgi os a request route config) = Some process"
    and "kernel_ok (ws_trace (effects (start_effects a (start_cgi os a request route config)) s))"
  shows "0 < cp_pid process"
proof -
  let ?st = "start_cgi os a request route config"
  obtain in0 in1 out0 out1 l where p: "process = \<lparr>cp_pid = ca_fork a, cp_inputFd = in1, cp_outputFd = out0\<rparr>"
    and st: "cs_opened ?st = [in0, in1, out0, out1]" "cs_closed ?st = [in0, out1]" "cs_launch ?st = Some l"
    by (rule start_cgi_started [OF assms(1)])
  show ?thesis using assms by (simp add: start_effects_def st p)
qed

lemma linked_attach:
  assumes l: "linked v {g} s" and m: "clientMap s g = Some c" and out: "wc_output c = []"
    and cfg: "wc_config c = Some config" and script: "awaits_script config c" and pid: "0 < cp_pid process"
  shows "linked v {} (attach_cgi now i g body timeout process s)"
proof -
  note ord = linkedD(1) [OF l] and clean = linkedD(6) [OF l m cfg]
  define c1 where "c1 = c\<lparr>wc_cgiPid := cp_pid process, wc_cgiInputFd := cp_inputFd process,
     wc_cgiOutputFd := cp_outputFd process, wc_cgiInput := body, wc_cgiWritten := 0, wc_cgiOutput := [],
     wc_touched := now, wc_timeoutSeconds := timeout,
     wc_phase := (if body = [] then CLIENT_CGI_READING else CLIENT_CGI_WRITING)\<rparr>"
  have c1: "wc_sent c1 = wc_sent c" "wc_output c1 = wc_output c" "wc_config c1 = wc_config c" by (simp_all add: c1_def)
  have a1: "attended (fst v) c1" "attended (fst v) (c1\<lparr>wc_cgiInputFd := - 1\<rparr>)"
    using out cfg clean script pid by (simp_all add: attended_def c1_def)
  define s3 where "s3 = (let s2 = add_pollfd (cp_outputFd process) {POLLIN} (set_events_at i {} (put_client g c1 s))
     in s2\<lparr>ws_outputOwners := (ws_outputOwners s2)(cp_outputFd process \<mapsto> g)\<rparr>)"
  have l1: "linked v {} (put_client g c1 s)" by (rule linked_keep [OF l m c1]) (simp add: a1)
  then have l3: "linked v {} s3" by (simp add: s3_def Let_def)
  have m3: "clientMap s3 g = Some c1"
    using ord by (simp add: s3_def Let_def) (simp add: add_pollfd_def set_events_at_def put_client_def)
  have "linked v {} (put_client g (c1\<lparr>wc_cgiInputFd := - 1\<rparr>) (effects [FdClosed (cp_inputFd process)] s3))"
    using linked_less [OF l3, of "{g}"] m3 a1(2) by (intro linked_keep [where c = c1]) simp_all
  moreover have "attach_cgi now i g body timeout process s =
      (if body = [] then put_client g (c1\<lparr>wc_cgiInputFd := - 1\<rparr>) (effects [FdClosed (cp_inputFd process)] s3)
       else let s4 = add_pollfd (cp_inputFd process) {POLLOUT} s3
            in s4\<lparr>ws_inputOwners := (ws_inputOwners s4)(cp_inputFd process \<mapsto> g)\<rparr>)"
    by (simp add: attach_cgi_def client_slot_present [OF m] Let_def c1_def s3_def)
  ultimately show ?thesis using l3 by (simp add: Let_def)
qed

lemma linked_startCgi:
  assumes w: "wf_web s" and l: "linked v {g} s" and c: "client_at i g c s" and out: "wc_output c = []"
    and cfg: "wc_config c = Some config" and req: "request_of config c = Some request" and os: "wa_os a \<in> fst v"
    and st: "startCgi a i request config s = (b, t)" and k: "kernel_ok (ws_trace t)"
  shows "if b then linked v {} t else t = s \<and> \<not> runs_script config request"
proof (cases "runs_script config request")
  case False
  with st show ?thesis by (auto simp: startCgi_def Let_def runs_script_def)
next
  case True
  have g: "pf_fd (ws_pollFds s ! i) = g" and m: "clientMap s g = Some c" using c by (simp_all add: client_at_def)
  note clean = linkedD(6) [OF l m cfg]
  have script: "awaits_script config c" using req True by (auto simp: awaits_script_def)
  let ?route = "resolve request config" and ?os = "wa_os a"
  have stored: "attended (fst v) (c\<lparr>wc_output := web_error ?os status config, wc_phase := ph\<rparr>)"
    "attended (fst v) (c\<lparr>wc_output := web_error ?os status config\<rparr>)"
    if "status \<in> {403, 404, 500, 503}" for status ph
    using attended_stored [OF cfg clean answer_no_script [OF script _ os, of status]] that by (auto simp: web_error_def)
  have ans: "linked v {} (answer_at i g (web_error ?os status config) s)" if "status \<in> {403, 404, 500, 503}" for status
    by (rule linked_answer_at [OF l c out stored(1) [OF that]])
  note ready = True [unfolded runs_script_def]
  show ?thesis
  proof (cases "MAX_CGI_PROCESSES \<le> runningCgi s
      \<or> isl (resolveExisting ?os (route_root ?route config) (rt_diskPath ?route))")
    case True
    then have "b \<and> (\<exists>status \<in> {403, 404, 500, 503}. t = answer_at i g (web_error ?os status config) s)"
      using st g ready by (cases "resolveExisting ?os (route_root ?route config) (rt_diskPath ?route)")
        (auto simp: startCgi_def Let_def split: if_splits)
    with ans show ?thesis by auto
  next
    case False
    then obtain path where r: "resolveExisting ?os (route_root ?route config) (rt_diskPath ?route) = Inr path"
      by (cases "resolveExisting ?os (route_root ?route config) (rt_diskPath ?route)") auto
    let ?st = "start_cgi ?os (wa_cgi a) request (?route\<lparr>rt_diskPath := path\<rparr>) config"
    let ?s1 = "effects (start_effects (wa_cgi a) ?st) s"
    let ?c1 = "c\<lparr>wc_output := web_error ?os 500 config\<rparr>"
    have slot: "client_slot g ?s1 = (c, ?s1)" using m by (intro client_slot_present) simp
    have t: "b" "t = (case cs_process ?st of
        None \<Rightarrow> set_events_at i {POLLOUT} (put_client g ?c1 ?s1)
      | Some process \<Rightarrow> attach_cgi (wa_now a) i g (rq_body request)
          (case rt_location ?route of Some l \<Rightarrow> lc_cgiTimeout l | None \<Rightarrow> 0) process ?s1)"
      using False r g st slot ready by (auto simp: startCgi_def Let_def split: option.splits)
    then have "extends ?s1 t" by (simp add: later split: option.split)
    from extends_kernel [OF this k] have k1: "kernel_ok (ws_trace ?s1)" .
    then have l1: "linked v {g} ?s1" by (rule linked_start_effects [OF w l])
    have m1: "clientMap ?s1 g = Some c" using m by simp
    have "linked v {} (put_client g ?c1 ?s1)"
      by (rule linked_answer [OF l1 m1 out]) (use linked_unsent [OF l m out] stored(2) [of 500] in simp_all)
    moreover have "0 < cp_pid process" if "cs_process ?st = Some process" for process
      using start_cgi_pid [OF that] k1 by simp
    ultimately show ?thesis
      using t linked_attach [OF l1 m1 out cfg script] by (simp split: option.split)
  qed
qed

lemma linked_answerRequest:
  assumes w: "wf_web s" and l: "linked v {g} s" and c: "client_at i g c s" and out: "wc_output c = []" "wc_cgiPid c \<le> 0"
    and cfg: "wc_config c = Some config" and ask: "asked config c = Some result" and os: "wa_os a \<in> fst v"
  shows "links v (answerRequest a i g c config result s)"
proof -
  have m: "clientMap s g = Some c" using c by (simp add: client_at_def)
  note clean = linkedD(6) [OF l m cfg]
  have ans: "linked v {} (answer_at i g (serialize r) s)" if "right_answer (fst v) config c r" for r
    using linked_answer_at [OF l c out(1)] attended_stored(1) [OF cfg clean that] by blast
  show ?thesis
  proof (cases result)
    case (REQUEST_OK r)
    let ?r = "r\<lparr>rq_remoteAddress := wc_remoteAddress c, rq_remotePort := wc_remotePort c\<rparr>"
    have req: "request_of config c = Some ?r" using ask REQUEST_OK by (simp add: request_of_def)
    obtain resp es where resp: "dispatch (wa_os a) ?r config = (resp, es)" by (cases "dispatch (wa_os a) ?r config")
    obtain b t where st: "startCgi a i ?r config s = (b, t)" by (cases "startCgi a i ?r config s")
    note started = linked_startCgi [OF w l c out(1) cfg req os st]
    have "linked v {} (answer_at i g (serialize resp) (effects (map OnDisk es) s))" if "\<not> runs_script config ?r"
    proof (rule linked_answer_at)
      show "attended (fst v) (c\<lparr>wc_output := serialize resp, wc_phase := CLIENT_WRITING\<rparr>)"
        using attended_stored(1) [OF cfg clean answer_dispatch [OF req that os]] resp by simp
      show "linked v {g} (effects (map OnDisk es) s)" using l by simp
    qed (use c out in simp_all)
    moreover have "kernel_ok (ws_trace t)"
      if "kernel_ok (ws_trace (answer_at i g (serialize resp) (effects (map OnDisk es) t)))"
      by (rule extends_kernel [OF _ that]) (simp add: later)
    ultimately show ?thesis using started st resp REQUEST_OK by (auto simp: answerRequest_def split: if_splits)
  next
    case REQUEST_INCOMPLETE
    then have "attended (fst v) c" using cfg clean out ask by (simp add: attended_def)
    from linked_settle [OF l m this] REQUEST_INCOMPLETE show ?thesis by (simp add: answerRequest_def)
  qed (use ask ans right_answer.intros(1,2,4) [OF _ os] in \<open>simp_all add: answerRequest_def web_error_def\<close>)
qed

lemma linked_readClient:
  assumes w: "wf_web s" and l: "linked v {} s" and c: "client_at i g c s" and idle: "wc_cgiPid c \<le> 0" "wc_output c = []"
    and os: "wa_os a \<in> fst v"
  shows "links v (readClient a i s)"
proof -
  have m: "clientMap s g = Some c" and g: "pf_fd (ws_pollFds s ! i) = g" using c by (simp_all add: client_at_def)
  have slot: "client_slot g s = (c, s)" by (rule client_slot_present [OF m])
  obtain config where cfg: "wc_config c = Some config" using client_config [OF w m] by blast
  note clean = linkedD(6) [OF l m cfg] and lg = linked_less [OF l, of "{g}"]
  have waits: "asked config c = Some REQUEST_INCOMPLETE"
    using attended_idle [OF _ cfg idle(2)] linkedD(7) [OF l m] idle(1) by simp
  have e413: "linked v {} (answer_at i g (web_error (wa_os a) 413 config) s)"
    if "data \<noteq> []" "size_sub (requestLimit config) (length data) < length (wc_input c)" for data :: string
  proof -
    have "right_answer (fst v) config c (error_response (wa_os a) 413 config)"
      using answer_full [OF waits _ that(2) os] that(1) by simp
    from linked_answer_at [OF lg c idle(2) attended_stored(1) [OF cfg clean this]] show ?thesis
      by (simp add: web_error_def)
  qed
  have ans: "links v (answerRequest a i g c1 config result (put_client g c1 s))"
    if c1: "c1 = c\<lparr>wc_input := x, wc_touched := n\<rparr>" and p: "parseRequest x (sc_maxBody config) = Some result" for c1 x n result
  proof (rule linked_answerRequest)
    show "wf_web (put_client g c1 s)"
      by (rule wf_put [OF w m]) (use c1 wf_web_client_at(1) [OF w m] in \<open>simp_all add: client_ok_def asks_for_def\<close>)
    show "linked v {g} (put_client g c1 s)"
      by (rule linked_keep [OF linked_less [OF l] m]) (use c1 idle in simp_all)
    show "client_at i g c1 (put_client g c1 s)"
      using c wf_pendingD(1) [OF w] by (simp add: client_at_def) (simp add: put_client_def)
    show "asked config c1 = Some result" using p by (simp add: asked_def c1)
  qed (use c1 idle cfg os in simp_all)
  show ?thesis
    using l e413 ans
    by (simp add: readClient_def g slot with_config_def cfg Let_def split: input_answer.split option.split)
qed

lemma linked_sent:
  assumes l: "linked v {} s" and m: "clientMap s g = Some c" and out: "wc_output c \<noteq> []"
    and c': "c' = c\<lparr>wc_sent := wc_sent c + n, wc_touched := now\<rparr>"
  shows "linked v {} (put_client g c' (effects [SentTo g (take n (drop (wc_sent c) (wc_output c)))] s))"
proof -
  let ?d = "take n (drop (wc_sent c) (wc_output c))" and ?tr = "ws_trace s"
  let ?s1 = "effects [SentTo g ?d] s"
  have r: "received ?tr g @ ?d = take (wc_sent c + n) (wc_output c)"
    using linkedD(5) [OF l m] by (simp add: link_def take_add)
  have att: "attended (fst v) c" using linkedD(7) [OF l m] by simp
  obtain config r' where "clean_config config" "right_answer (fst v) config c r'" "wc_output c = serialize r'"
    using attended_output [OF att out] .
  then have begins: "begins_answer (received ?tr g @ ?d)"
    unfolding r begins_answer_def using right_answer_clean(1) by (metis append_take_drop_id)
  have sent: "sent_on k (ws_trace ?s1) f = (if f = g \<and> openings ?tr g = k then take (wc_sent c + n) (wc_output c)
      else sent_on k ?tr f)" for f k
    using sent_on_now [of ?tr g] r by (auto simp: effects_def)
  have "followed (snd v) (put_client g c' ?s1)"
    using linkedD(3) [OF l] linkedD(1) [OF l] m c' sent
    by (auto simp: followed_def put_client_def effects_def)
  moreover have "link c' (received ?tr g @ ?d)" using r c' out by (simp add: link_def)
  moreover have "attended (fst v) c'" by (rule attended_same [OF att]) (simp_all add: c')
  ultimately show ?thesis
    using linkedD(1,2,4-7) [OF l] begins linkedD(6) [OF l m] c'
    by (auto simp: linked_def put_client_def effects_def)
qed

lemma linked_writeClient:
  assumes l: "linked v {} s" and c: "client_at i g c s" and out: "wc_output c \<noteq> []"
  shows "linked v {} (writeClient a i s)"
proof -
  have m: "clientMap s g = Some c" and g: "pf_fd (ws_pollFds s ! i) = g" using c by (simp_all add: client_at_def)
  have "linked v {} (took_output a g c n s)" for n
    unfolding took_output_def by (rule linked_sent [OF l m out]) simp
  then show ?thesis
    using l unfolding writeClient_eq [OF m g] by (simp split: output_answer.split)
qed

lemma linked_writeCgi:
  assumes w: "wf_web s" and l: "linked v {} s" and fd: "pf_fd (ws_pollFds s ! i) = fd"
    and o: "ws_inputOwners s fd = Some g" and m: "clientMap s g = Some c"
  shows "linked v {} (writeCgi a i s)"
proof -
  note ord = linkedD(1) [OF l]
  have keep: "linked v {} (put_client g c' t)"
    if "linked v {} t" "clientMap t g = Some c0" "c' = c0\<lparr>wc_cgiInputFd := f, wc_phase := ph\<rparr>" for c' c0 f ph t
    by (rule linked_keep [OF linked_less [OF that(1)] that(2)])
      (use attended_same [OF linkedD(7) [OF that(1,2)]] that(3) in simp_all)
  have fed: "linked v {} (took_input a fd g c n s)" for n
    unfolding took_input_def
    by (rule linked_keep [of _ _ _ _ c]) (use linked_less [OF l] m attended_same [OF linkedD(7) [OF l m]] in
      \<open>simp_all add: fed_client_def\<close>)
  have m1: "clientMap (took_input a fd g c n s) g = Some (fed_client a n c)" for n
    using ord by (simp add: took_input_def)
  have last: "linked v {} (input_done fd g c0 t)" if "linked v {} t" "clientMap t g = Some c0" for c0 t
    unfolding input_done_def by (rule keep) (use that in simp_all)
  show ?thesis
    using l fed last [OF fed m1] last [OF l m] unfolding writeCgi_eq [OF m fd o]
    by (simp split: output_answer.split)
qed

lemma links_finishCgi:
  assumes "linked v {} s" and "clientMap s g = Some c" and "wc_output c = []" and "0 < wc_cgiPid c" and "os \<in> fst v"
  shows "links v (finishCgi os g status s)"
proof (cases "finishCgi os g status s")
  case (Done t)
  with linked_finishCgi [OF assms(1) _ assms(5) Done] assms(2-4) show ?thesis by simp
qed (auto simp: finishCgi_def with_config_def Let_def split: option.splits)

lemma linked_readCgi:
  assumes w: "wf_web s" and l: "linked v {} s" and fd: "pf_fd (ws_pollFds s ! i) = fd"
    and o: "ws_outputOwners s fd = Some g" and os: "wa_os a \<in> fst v"
  shows "links v (readCgi a i s)"
proof -
  obtain c where m: "clientMap s g = Some c" and pid: "0 < wc_cgiPid c" using pipe_owner(2) [OF w o] by blast
  then have out: "wc_output c = []" using wf_web_client_at(1) [OF w m] by (simp add: client_ok_def)
  note ord = linkedD(1) [OF l] and att = attended_same [OF linkedD(7) [OF l m]]
  have l1: "linked v {} (put_client g (heard_client a x c) s)" for x
    by (rule linked_keep [of _ _ _ _ c]) (use linked_less [OF l] m att out in \<open>simp_all add: heard_client_def\<close>)
  have l2: "linked v {} (output_done fd g c s)"
    unfolding output_done_def
    by (rule linked_keep [of _ _ _ _ c]) (use linked_less [OF l] m att in simp_all)
  have f1: "links v (finishCgi (wa_os a) g status (effects [ChildKilled p, ChildReaped p] (put_client g (heard_client a x c) s)))"
    for status p x
    by (rule links_finishCgi [where c = "heard_client a x c"]) (use l1 ord out pid os in simp_all)
  have f2: "links v (finishCgi (wa_os a) g status (effects [ChildReaped p] (output_done fd g c s)))" for status p
    by (rule links_finishCgi [where c = "c\<lparr>wc_cgiOutputFd := - 1\<rparr>"])
      (use l2 ord out pid os in \<open>simp_all add: output_done_def\<close>)
  show ?thesis
    unfolding readCgi_eq [OF m fd o] Let_def using l l1 l2 f1 f2
    by (simp add: if_split [of "links v"] split: option.split)
qed

subsection \<open>Accepting\<close>

lemma linked_open_one:
  assumes "wf_web s" and "linked v G s" and "kernel_ok (FdOpened f # ws_trace s)"
  shows "linked v G (effects [FdOpened f] s)"
proof (rule linked_opened [OF assms(2)])
  have "fd_balance (ws_trace s) f = 0" using assms(3) by simp
  with wf_client_open [OF assms(1), of f] show "clientMap s f = None" by (cases "clientMap s f") auto
qed

definition sound :: "view \<Rightarrow> webserver \<Rightarrow> bool" where
  "sound v s \<longleftrightarrow> (kernel_ok (ws_trace s) \<longrightarrow> wf_web s \<and> linked v {} s)"

lemma sound_accept:
  assumes "sound v s" and "config = Some conf" and "clean_config conf"
  shows "sound v (accept_clients config now as s)"
  using assms(1)
proof (induction as arbitrary: s)
  case (Cons a as)
  let ?fd = "aa_fd a" and ?s1 = "effects [FdOpened (aa_fd a)] s"
  let ?c = "new_web_client\<lparr>wc_fd := ?fd, wc_config := config, wc_touched := now,
              wc_remoteAddress := (case aa_address a of Some t \<Rightarrow> t | None \<Rightarrow> []),
              wc_remotePort := aa_port a\<rparr>"
  have s: "wf_web s \<and> linked v {} s \<and> linked v {} ?s1" if "kernel_ok (FdOpened ?fd # ws_trace s)"
    using that Cons.prems linked_open_one [of s v "{}" ?fd] by (simp add: sound_def)
  have "sound v (effects [FdClosed ?fd] ?s1)"
    using s wf_refuse [of s ?fd] by (simp add: sound_def)
  moreover have "sound v (add_pollfd ?fd {POLLIN} (put_client ?fd ?c ?s1))"
    if "length (ws_clients s) < MAX_CONNECTIONS"
    unfolding sound_def
  proof (intro impI conjI)
    assume "kernel_ok (ws_trace (add_pollfd ?fd {POLLIN} (put_client ?fd ?c ?s1)))"
    then have k: "kernel_ok (FdOpened ?fd # ws_trace s)" by simp
    show "wf_web (add_pollfd ?fd {POLLIN} (put_client ?fd ?c ?s1))"
      by (rule wf_accept_one) (use s [OF k] k that assms(2) in \<open>simp_all add: new_web_client_def\<close>)
    have "openings (ws_trace ?s1) ?fd \<noteq> n" if "snd v = Some (?fd, n, out)" for n out
      using linkedD(3) [of v "{}" s] s [OF k] that by (auto simp: followed_def)
    moreover have "attended (fst v) ?c" by (rule attended_new) (use assms(2,3) in \<open>simp_all add: new_web_client_def\<close>)
    moreover have "linked v {?fd} ?s1" using s [OF k] linked_less [of v "{}" ?s1 "{?fd}"] by blast
    ultimately have "linked v {} (put_client ?fd ?c ?s1)"
      using assms(2,3) by (intro linked_put) (auto simp: link_def new_web_client_def)
    then show "linked v {} (add_pollfd ?fd {POLLIN} (put_client ?fd ?c ?s1))" by simp
  qed
  ultimately show ?case using Cons by (simp add: Let_def not_le)
qed simp

subsection \<open>Any event, and all events of a round\<close>

text \<open>A client whose entry reports that it can be written has an answer.\<close>

lemma writable_client:
  assumes w: "wf_web s" and f: "fresh_from i s" and i: "i < length (ws_pollFds s)"
    and c: "clientMap s (pf_fd (ws_pollFds s ! i)) = Some c" and r: "POLLOUT \<in> pf_revents (ws_pollFds s ! i)"
  shows "wc_output c \<noteq> []"
proof -
  have "ws_pollFds s ! i \<in> set (drop i (ws_pollFds s))"
    using i by (auto simp: set_conv_nth intro: exI [of _ 0])
  then have "POLLOUT \<in> pf_events (ws_pollFds s ! i)" using f r by (auto simp: fresh_from_def honest_def)
  moreover have "pf_events (ws_pollFds s ! i) = asks_for c"
    using wf_entry [OF w c nth_mem [OF i] refl] .
  ultimately show ?thesis by (auto simp: asks_for_def split: if_splits)
qed

lemma links_handle_event:
  assumes w: "wf_web s" and l: "linked v {} s" and f: "fresh_from i s" and i: "i < length (ws_pollFds s)"
    and fd: "fd = pf_fd (ws_pollFds s ! i)" and ev: "ev = pf_revents (ws_pollFds s ! i)"
    and kind: "kind = classify fd ev s" and os: "wa_os a \<in> fst v"
  shows "links v (handle_event a kind ev i s)"
proof (cases kind)
  case EvListener
  then have "isListener fd s" using kind by (auto simp: classify_def split: if_splits)
  then obtain conf where conf: "map_of (ws_listeners s) fd = Some conf"
    by (cases "map_of (ws_listeners s) fd") (auto simp: isListener_def list_ex_iff map_of_eq_None_iff)
  then have "clean_config conf"
    using linkedD(4) [OF l] by (auto dest!: map_of_SomeD)
  with sound_accept [of v s "map_of (ws_listeners s) fd" conf] conf w l
  have "sound v (web_acceptClient a i s)" by (simp add: web_acceptClient_def fd sound_def)
  with l EvListener show ?thesis by (simp add: handle_event_def sound_def)
next
  case EvCgiOutput
  then obtain g where g: "ws_outputOwners s fd = Some g" using kind by (auto simp: classify_def split: if_splits)
  with linked_readCgi [OF w l fd [symmetric] g os] l EvCgiOutput fd show ?thesis
    by (simp add: handle_event_def output_owner_def)
next
  case EvCgiInput
  then obtain g where g: "ws_inputOwners s fd = Some g" using kind by (auto simp: classify_def split: if_splits)
  then obtain c where "clientMap s g = Some c" using pipe_owner(1) [OF w] by blast
  from linked_writeCgi [OF w l fd [symmetric] g this, of a] l g EvCgiInput fd show ?thesis
    by (simp add: handle_event_def input_owner_def)
next
  case EvReadable
  then obtain c where c: "client_at i fd c s" using classify_cases [OF w i, of ev] kind fd by auto
  have "POLLIN \<in> ev" using kind EvReadable by (auto simp: classify_def split: if_splits)
  with readable_client [OF w f i, of c] c fd ev
  have "wc_cgiPid c \<le> 0" "wc_output c = []" by (simp_all add: client_at_def)
  from linked_readClient [OF w l c this os] EvReadable show ?thesis by (simp add: handle_event_def)
next
  case EvWritable
  then obtain c where c: "client_at i fd c s" using classify_cases [OF w i, of ev] kind fd by auto
  have "POLLOUT \<in> ev" using kind EvWritable by (auto simp: classify_def split: if_splits)
  with writable_client [OF w f i, of c] c fd ev have "wc_output c \<noteq> []" by (simp add: client_at_def)
  from linked_writeClient [OF l c this, of a] EvWritable show ?thesis by (simp add: handle_event_def)
qed (use l in \<open>simp_all add: handle_event_def\<close>)

lemma links_web_events:
  "tidy i s \<Longrightarrow> (kernel_ok (ws_trace s) \<Longrightarrow> linked v {} s) \<Longrightarrow> (\<And>f. wa_os (answers f) \<in> fst v) \<Longrightarrow>
     links v (web_events answers i ready s)"
proof (induction answers i ready s rule: web_events.induct)
  case (1 answers i ready s)
  note IH = "1.IH" [OF _ refl refl refl]
  show ?case
  proof (cases "length (ws_pollFds s) \<le> i \<or> ready = 0")
    case True
    then show ?thesis using "1.prems" by (subst web_events.simps) simp
  next
    case False
    let ?p = "ws_pollFds s ! i"
    show ?thesis
    proof (cases "pf_revents ?p = {}")
      case True
      have "tidy (i + 1) s" using "1.prems" fresh_from_le [of i s "i + 1"] by (simp add: tidy_def)
      with IH(1) [OF False True _ "1.prems"(2,3)] False True show ?thesis
        by (subst web_events.simps) (simp add: Let_def)
    next
      case e: False
      let ?kind = "classify (pf_fd ?p) (pf_revents ?p) s"
      let ?r = "handle_event (answers (pf_fd ?p)) ?kind (pf_revents ?p) i s"
      have later: "reaches s ?r" by (simp add: later)
      have step: "step_ok ?kind (pf_fd ?p) i ?r" "links v ?r" if "kernel_ok (ws_trace s)"
        using that "1.prems" False by (auto simp: tidy_def intro!: step_handle_event links_handle_event)
      have "links v (web_then ?r (\<lambda>t. web_events answers (next_index ?kind (pf_fd ?p) i t) (ready - 1) t))"
      proof (cases ?r)
        case (Done t)
        have "tidy (next_index ?kind (pf_fd ?p) i t) t" and "kernel_ok (ws_trace t) \<Longrightarrow> linked v {} t"
          using step later extends_kernel [of s t] Done by (auto simp: tidy_def)
        with IH(2) [OF False e refl Done _ _ "1.prems"(3)] Done show ?thesis by simp
      qed simp_all
      with False e show ?thesis by (subst web_events.simps) (simp add: Let_def)
    qed
  qed
qed

subsection \<open>The end of a round\<close>

lemma linked_finish_list:
  assumes "wf_pending (fst ` set es) s" and "linked v {} s" and "distinct (map fst es)"
    and "\<forall>g \<in> fst ` set es. \<forall>c. clientMap s g = Some c \<longrightarrow> wc_output c = [] \<and> 0 < wc_cgiPid c"
    and "finish_list os es s = Done t" and "os \<in> fst v"
  shows "linked v {} t"
  using assms
proof (induction es arbitrary: s)
  case (Cons e es)
  obtain g pid st where e: "e = (g, pid, st)" by (cases e)
  have g: "g \<in> fst ` set (e # es)" by (simp add: e)
  obtain u where u: "finishCgi os g st s = Done u" "wf_pending (fst ` set (e # es) - {g}) u"
    using wf_finishCgi [OF Cons.prems(1) g] by blast
  have "fst ` set (e # es) - {g} = fst ` set es" using Cons.prems(3) by (auto simp: e)
  with u(2) have w: "wf_pending (fst ` set es) u" by simp
  have l: "linked v {} u"
    by (rule linked_finishCgi [OF Cons.prems(2) _ Cons.prems(6) u(1)]) (use Cons.prems(4) g in blast)
  have n: "g \<notin> fst ` set es" using Cons.prems(3) by (simp add: e)
  have "\<forall>h \<in> fst ` set es. \<forall>c. clientMap u h = Some c \<longrightarrow> wc_output c = [] \<and> 0 < wc_cgiPid c"
    using Cons.prems(4) n finishCgi_at(1) [OF Cons.prems(1) u(1)] by (metis image_eqI insert_iff list.set(2) image_insert)
  with Cons.IH [OF w l] Cons.prems(3,5,6) u(1) show ?case by (simp add: e)
qed simp

lemma linked_reapCgi:
  assumes w: "wf_web s" and l: "linked v {} s" and r: "reapCgi a s = Done t" and os: "wa_os a \<in> fst v"
  shows "linked v {} t"
proof -
  let ?es = "ended_cgi a s" and ?s1 = "effects (map (\<lambda>(g, pid, st). ChildReaped pid) (ended_cgi a s)) s"
  note e = ended_cgi_facts [OF wf_pendingD(1) [OF w], where a = a]
  have "\<forall>(g, pid, st) \<in> set ?es. \<exists>c. clientMap s g = Some c \<and> wc_cgiPid c = pid" using e(2) by blast
  from wf_reap_list [OF w e(1) _ this] have w1: "wf_pending (fst ` set ?es) ?s1" by simp
  have l1: "linked v {} ?s1" using l by (auto simp: case_prod_beta)
  show ?thesis
  proof (rule linked_finish_list [OF w1 l1 e(1) _ r [unfolded reapCgi_def] os])
    show "\<forall>g \<in> fst ` set ?es. \<forall>c. clientMap ?s1 g = Some c \<longrightarrow> wc_output c = [] \<and> 0 < wc_cgiPid c"
      using e(2) wf_web_client_at(1) [OF w] by (fastforce simp: client_ok_def)
  qed
qed

lemma linked_expireClient:
  assumes w: "wf_web s" and l: "linked v {} s" and r: "expireClient os g s = Done t" and os: "os \<in> fst v"
  shows "linked v {} t"
proof (cases "clientMap s g")
  case None
  with r l show ?thesis by (simp add: expireClient_absent)
next
  case (Some c)
  obtain config where cfg: "wc_config c = Some config" using client_config [OF w Some] by blast
  note clean = linkedD(6) [OF l Some cfg]
  have att: "attended (fst v) c" using linkedD(7) [OF l Some] by simp
  have ans: "linked v {} (put_client g (timeout_answer os status config c') u)"
    if "linked v {} u" "clientMap u g = Some c" "wc_output c = []" "wc_config c' = Some config"
      "right_answer (fst v) config c' (error_response os status config)" for c' u status
  proof (rule linked_answer [OF linked_less [OF that(1)] that(2,3)])
    show "attended (fst v) (timeout_answer os status config c')"
      by (rule attended_answer [OF _ clean, of _ _ "error_response os status config"])
        (use that in \<open>simp_all add: timeout_answer_def web_error_def\<close>)
  qed (use that cfg in \<open>simp_all add: timeout_answer_def\<close>)
  show ?thesis
  proof (cases "0 < wc_cgiPid c")
    case True
    then have out: "wc_output c = []" using wf_web_client_at(1) [OF w Some] by (simp add: client_ok_def)
    then have "right_answer (fst v) config c (error_response os 504 config)"
      using attended_idle [OF att cfg] True answer_no_script [OF _ _ os, of config c 504] by simp
    with r Some cfg l out True show ?thesis
      by (auto simp: expireClient_def find_client_def with_config_def Let_def intro!: ans)
  next
    case False
    then have "right_answer (fst v) config c (error_response os 408 config)" if "wc_output c = []"
      using attended_idle [OF att cfg that] answer_late [OF _ os, of config c] by simp
    with r Some cfg l False show ?thesis
      by (auto simp: expireClient_def find_client_def with_config_def split: if_splits intro!: ans)
  qed
qed

lemma linked_expire_list:
  "wf_web s \<Longrightarrow> linked v {} s \<Longrightarrow> expire_list os fds s = Done t \<Longrightarrow> os \<in> fst v \<Longrightarrow> linked v {} t"
proof (induction fds arbitrary: s)
  case (Cons fd fds)
  obtain u where u: "expireClient os fd s = Done u" "wf_web u" using wf_expireClient [OF Cons.prems(1)] .
  from Cons.IH [OF u(2) linked_expireClient [OF Cons.prems(1,2) u(1)]] Cons.prems(3,4) u(1) show ?case by simp
qed simp

subsection \<open>Rounds and runs\<close>

text \<open>What the operating system says in one round, and that \<open>poll\<close> is honest.\<close>

definition tick_os :: "web_tick \<Rightarrow> os set" where
  "tick_os tk = insert (wa_os (wt_end tk)) (range (\<lambda>f. wa_os (wt_answers tk f)))"

definition seen_by :: "view \<Rightarrow> web_tick \<Rightarrow> webserver \<Rightarrow> bool" where
  "seen_by v tk s \<longleftrightarrow> poll_honest tk s \<and> tick_os tk \<subseteq> fst v"

definition outcome_sound :: "view \<Rightarrow> web_outcome \<Rightarrow> bool" where
  "outcome_sound v r \<longleftrightarrow> outcome_safe r \<and> links v r"

lemma outcome_sound_simps [simp]:
  "outcome_sound v (Done t) = sound v t" "outcome_sound v (Raised msg t) = safe t" "outcome_sound v Stuck"
  "outcome_sound v (NullConfig t) = (\<not> kernel_ok (ws_trace t))"
  by (auto simp: outcome_sound_def sound_def safe_def)

lemma outcome_sound_then:
  "outcome_sound v r \<Longrightarrow> (\<And>t. r = Done t \<Longrightarrow> sound v t \<Longrightarrow> outcome_sound v (f t)) \<Longrightarrow> outcome_sound v (web_then r f)"
  by (cases r) simp_all

lemma sound_safe: "sound v s \<Longrightarrow> safe s"
  by (simp add: sound_def safe_def)

text \<open>What comes after the events of a round only returns, if the kernel behaved.\<close>

lemma outcome_soundI:
  assumes later: "reaches s r" and ok: "kernel_ok (ws_trace s) \<Longrightarrow> \<exists>u. r = Done u \<and> wf_web u \<and> linked v {} u"
  shows "outcome_sound v r"
proof (cases "kernel_ok (ws_trace s)")
  case True
  with ok show ?thesis by (auto simp: sound_def)
next
  case False
  with later show ?thesis by (cases r) (auto simp: sound_def safe_def dest: extends_kernel)
qed

lemma sound_web_round:
  assumes "sound v s" and "seen_by v tk s"
  shows "outcome_sound v (web_round tk s)"
  unfolding web_round_def
proof (intro outcome_sound_then)
  have os: "wa_os (wt_answers tk f) \<in> fst v" for f using assms(2) by (auto simp: seen_by_def tick_os_def)
  have "fresh_from 0 (poll_results (wt_revents tk) s)"
    using assms(2) by (auto simp: fresh_from_def seen_by_def poll_honest_def poll_results_def honest_def)
  with assms(1) have "tidy 0 (poll_results (wt_revents tk) s)"
    and "kernel_ok (ws_trace (poll_results (wt_revents tk) s)) \<Longrightarrow> linked v {} (poll_results (wt_revents tk) s)"
    by (simp_all add: tidy_def sound_def wf_poll_results)
  with os show "outcome_sound v (web_events (wt_answers tk) 0 (nat (wt_ready tk)) (poll_results (wt_revents tk) s))"
    by (simp only: outcome_sound_def safe_web_events links_web_events)
next
  have os: "wa_os (wt_end tk) \<in> fst v" using assms(2) by (auto simp: seen_by_def tick_os_def)
  fix t assume t: "sound v t"
  show "outcome_sound v (reapCgi (wt_end tk) t)"
  proof (rule outcome_soundI)
    show "reaches t (reapCgi (wt_end tk) t)" by (simp add: later)
    assume "kernel_ok (ws_trace t)"
    with t have w: "wf_web t" "linked v {} t" by (simp_all add: sound_def)
    with wf_reapCgi [OF w(1)] linked_reapCgi [OF w _ os]
    show "\<exists>u. reapCgi (wt_end tk) t = Done u \<and> wf_web u \<and> linked v {} u" by metis
  qed
next
  have os: "wa_os (wt_end tk) \<in> fst v" using assms(2) by (auto simp: seen_by_def tick_os_def)
  fix t assume t: "sound v t"
  let ?r = "expireClients (wa_os (wt_end tk)) t"
  show "outcome_sound v ?r"
  proof (rule outcome_soundI)
    show "reaches t ?r" by (simp add: later)
    assume "kernel_ok (ws_trace t)"
    with t have w: "wf_web t" "linked v {} t" by (simp_all add: sound_def)
    with wf_expireClients [OF w(1)] linked_expire_list [OF w _ os] show "\<exists>u. ?r = Done u \<and> wf_web u \<and> linked v {} u"
      unfolding expireClients_def by metis
  qed
qed

interpretation delivery: round_contract "sound v" "outcome_sound v" "seen_by v" for v
  by unfold_locales (simp_all add: sound_web_round sound_safe)

lemma linked_openListener:
  assumes "openListener pton a config s = Done u" and "clean_config config" and "linked v {} s" and "ws_clients s = []"
  shows "linked v {} u \<and> ws_clients u = []"
proof -
  have u: "u = add_pollfd (la_socket a) {POLLIN}
      ((effects [FdOpened (la_socket a)] s)\<lparr>ws_listeners := ws_listeners s @ [(la_socket a, config)]\<rparr>)"
    using assms(1) by (simp add: openListener_def Let_def effects_def split: if_splits)
  have "linked v {} (effects [FdOpened (la_socket a)] s)" using assms(3,4) by (intro linked_opened) simp_all
  with assms(2,4) u show ?thesis
    by (simp add: linked_def followed_def) (simp add: effects_def add_pollfd_def)
qed

lemma linked_openListeners:
  "\<forall>e \<in> set l. clean_config (snd e) \<Longrightarrow> linked v {} s \<Longrightarrow> ws_clients s = [] \<Longrightarrow>
     openListeners pton l s = Done t \<Longrightarrow> linked v {} t"
proof (induction pton l s rule: openListeners.induct)
  case (2 pton a config rest s)
  then obtain u where u: "openListener pton a config s = Done u" "openListeners pton rest u = Done t"
    by (auto simp: web_then_Done)
  with linked_openListener [OF u(1)] "2.IH" [OF u(1)] "2.prems" show ?case by simp
qed simp

lemma sound_opened:
  assumes "openListeners pton (zip las configs) (new_webserver configs) = Done s"
    and "\<forall>config \<in> set configs. clean_config config"
  shows "sound (oss, None) s"
proof -
  have "linked (oss, None) {} (new_webserver configs)"
    by (simp add: linked_def followed_def new_webserver_def ordered_map_def)
  moreover have "\<forall>e \<in> set (zip las configs). clean_config (snd e)"
    using assms(2) by (auto dest: set_zip_rightD)
  moreover have "ws_clients (new_webserver configs) = []" by (simp add: new_webserver_def)
  ultimately have "linked (oss, None) {} s" using linked_openListeners assms(1) by blast
  with safe_opened [OF assms(1)] show ?thesis by (simp add: sound_def safe_def)
qed

text \<open>The assumption on a run, with what the operating system says in it.\<close>

lemma allowed_seen:
  "allowed_run poll_honest tks s \<Longrightarrow> \<Union> (tick_os ` set tks) \<subseteq> fst v \<Longrightarrow> allowed_run (seen_by v) tks s"
  by (induction tks arbitrary: s) (auto simp: seen_by_def split: web_outcome.splits)

lemma run_sound:
  assumes "sound v s" and "allowed_run poll_honest tks s" and "\<Union> (tick_os ` set tks) \<subseteq> fst v"
    and "web_run tks s = Done t"
  shows "sound v t"
  using delivery.run_ends [OF assms(1) allowed_seen [OF assms(2,3)]] assms(4) by simp

text \<open>What is stored for a client at the end of a run from the start.\<close>

lemma run_attended:
  assumes "openListeners pton (zip las configs) (new_webserver configs) = Done s"
    and "\<forall>config \<in> set configs. clean_config config"
    and "allowed_run poll_honest tks s" and "web_run tks s = Done t" and "kernel_ok (ws_trace t)"
    and "find_client g t = Some c"
  shows "attended (\<Union> (tick_os ` set tks)) c"
    and "sent_on (openings (ws_trace t) g) (ws_trace t) g = take (wc_sent c) (wc_output c)"
proof -
  have "sound (\<Union> (tick_os ` set tks), None) t"
    by (rule run_sound [OF sound_opened [OF assms(1,2)] assms(3) _ assms(4)]) simp
  with assms(5) have l: "linked (\<Union> (tick_os ` set tks), None) {} t" by (simp add: sound_def)
  have m: "clientMap t g = Some c" using assms(6) by (simp add: find_client_def)
  show "attended (\<Union> (tick_os ` set tks)) c" using linkedD(7) [OF l m] by simp
  show "sent_on (openings (ws_trace t) g) (ws_trace t) g = take (wc_sent c) (wc_output c)"
    using linkedD(5) [OF l m] by (simp add: link_def sent_on_now)
qed

text \<open>An answer stored at some time, and what its connection has been sent at any later time.\<close>

lemma run_follows:
  assumes "openListeners pton (zip las configs) (new_webserver configs) = Done s0"
    and "\<forall>config \<in> set configs. clean_config config"
    and "allowed_run poll_honest pre s0" and "web_run pre s0 = Done s"
    and c: "find_client g s = Some c" "wc_output c \<noteq> []"
    and post: "allowed_run poll_honest post s" "web_run post s = Done t"
    and kt: "kernel_ok (ws_trace t)"
  shows "\<exists>n. sent_on (openings (ws_trace s) g) (ws_trace t) g = take n (wc_output c)"
    and "openings (ws_trace t) g = openings (ws_trace s) g \<Longrightarrow> find_client g t = Some c' \<Longrightarrow>
      wc_output c' = wc_output c \<and>
      sent_on (openings (ws_trace s) g) (ws_trace t) g = take (wc_sent c') (wc_output c)"
proof -
  let ?w = "(UNIV, Some (g, openings (ws_trace s) g, wc_output c))"
  note k = extends_kernel [OF extends_run [OF post(2)] kt] kt
  have "sound (UNIV, None) s"
    by (rule run_sound [OF sound_opened [OF assms(1,2)] assms(3) _ assms(4)]) simp
  with k have l: "wf_web s" "linked (UNIV, None) {} s" by (simp_all add: sound_def)
  have m: "clientMap s g = Some c" using c(1) by (simp add: find_client_def)
  have "link c (received (ws_trace s) g)" by (rule linkedD(5) [OF l(2) m])
  then have "sent_on (openings (ws_trace s) g) (ws_trace s) g = take (wc_sent c) (wc_output c)"
    by (simp add: link_def sent_on_now)
  then have "linked ?w {} s" using l(2) m c(2) by (auto simp: linked_def followed_def)
  then have "sound ?w s" using l(1) by (simp add: sound_def)
  then have "sound ?w t" by (rule run_sound [OF _ post(1) _ post(2)]) simp
  with k have l': "linked ?w {} t" by (simp add: sound_def)
  then have f: "followed (Some (g, openings (ws_trace s) g, wc_output c)) t" using linkedD(3) by fastforce
  then show "\<exists>n. sent_on (openings (ws_trace s) g) (ws_trace t) g = take n (wc_output c)"
    by (simp add: followed_def)
  assume o: "openings (ws_trace t) g = openings (ws_trace s) g" and "find_client g t = Some c'"
  then have m': "clientMap t g = Some c'" by (simp add: find_client_def)
  have same: "wc_output c' = wc_output c" by (rule followed_output(1) [OF f o m'])
  have "link c' (received (ws_trace t) g)" by (rule linkedD(5) [OF l' m'])
  then have "sent_on (openings (ws_trace t) g) (ws_trace t) g = take (wc_sent c') (wc_output c')"
    by (simp add: link_def sent_on_now)
  with o same show "wc_output c' = wc_output c \<and>
      sent_on (openings (ws_trace s) g) (ws_trace t) g = take (wc_sent c') (wc_output c)" by simp
qed

text \<open>Every connection, whether it is still open or not.\<close>

lemma run_delivers:
  assumes "openListeners pton (zip las configs) (new_webserver configs) = Done s"
    and "\<forall>config \<in> set configs. clean_config config"
    and "allowed_run poll_honest tks s" and "web_run tks s = Done t" and "kernel_ok (ws_trace t)"
  obtains out ls body rest where "delimited out ls body" and "out = sent_on k (ws_trace t) g @ rest"
proof -
  have "sound (UNIV, None) t"
    by (rule run_sound [OF sound_opened [OF assms(1,2)] assms(3) _ assms(4)]) simp
  with assms(5) have "delivered (ws_trace t)" by (simp add: sound_def linked_def)
  from delivered_sent_on [OF this] framed_serialize(1) that show thesis
    unfolding begins_answer_def by metis
qed

end
