(* ===== verification/Web_ConfigValid.thy ===== *)
theory Web_ConfigValid
  imports Web_Config
begin

section \<open>webserv: what an accepted configuration guarantees\<close>

text \<open>
  The rest of the server relies on the ranges the parser enforces: ports, body limits,
  methods, redirect and error statuses, CGI extensions and time limits. \<open>wf_config\<close> collects
  them; every directive keeps its part.
\<close>

definition valid_methods :: "string list \<Rightarrow> bool" where
  "valid_methods ms \<longleftrightarrow> ms \<noteq> [] \<and> distinct ms \<and> set ms \<subseteq> {''GET'', ''POST'', ''DELETE''}"

definition valid_handlers :: "(string \<times> string) list \<Rightarrow> bool" where
  "valid_handlers m \<longleftrightarrow> ordered_map m \<and> (\<forall>ext \<in> fst ` set m. ext \<noteq> [] \<and> hd ext = CHR ''.'')"

definition wf_location :: "location \<Rightarrow> bool" where
  "wf_location l \<longleftrightarrow>
     lc_path l \<noteq> [] \<and> hd (lc_path l) = CHR ''/''
     \<and> 300 \<le> lc_redirectStatus l \<and> lc_redirectStatus l \<le> 399
     \<and> 1 \<le> lc_cgiTimeout l \<and> lc_cgiTimeout l \<le> 300
     \<and> valid_handlers (lc_cgiHandlers l) \<and> valid_methods (lc_methods l)
     \<and> (lc_cgiExtension l \<noteq> [] \<longrightarrow> map_of (lc_cgiHandlers l) (lc_cgiExtension l) = Some (lc_cgiPath l))"

definition wf_config :: "(string \<Rightarrow> bool) \<Rightarrow> server_config \<Rightarrow> bool" where
  "wf_config pton s \<longleftrightarrow>
     pton (sc_host s) \<and> 1 \<le> sc_port s \<and> sc_port s \<le> 65535 \<and> sc_maxBody s \<le> 16777216
     \<and> valid_methods (sc_methods s)
     \<and> (\<forall>status \<in> dom (sc_errorPages s). 300 \<le> status \<and> status \<le> 599)
     \<and> (\<forall>l \<in> set (sc_locations s). wf_location l)"

subsection \<open>Values\<close>

lemma valid_methods_add:
  "add_methods ms args = Inr ms' \<Longrightarrow> distinct ms \<Longrightarrow> set ms \<subseteq> {''GET'', ''POST'', ''DELETE''} \<Longrightarrow>
     ms \<noteq> [] \<or> args \<noteq> [] \<Longrightarrow> valid_methods ms'"
  by (induction ms args rule: add_methods.induct) (auto simp: valid_methods_def split: if_splits)

lemma valid_methods_parse: "parseMethods args line = Inr ms \<Longrightarrow> valid_methods ms"
  by (auto simp: parseMethods_def intro: valid_methods_add split: if_splits)

lemma valid_handlers_simps [simp]:
  "valid_handlers []"
  "valid_handlers m \<Longrightarrow> ext \<noteq> [] \<Longrightarrow> hd ext = CHR ''.'' \<Longrightarrow> valid_handlers (map_set ext v m)"
  by (auto simp: valid_handlers_def)

subsection \<open>Locations\<close>

text \<open>What holds of a location while its block is read: the methods are inherited later.\<close>

definition location_ok :: "location_state \<Rightarrow> bool" where
  "location_ok st \<longleftrightarrow>
     (let l = ls_value st
      in lc_path l \<noteq> [] \<and> hd (lc_path l) = CHR ''/''
         \<and> 300 \<le> lc_redirectStatus l \<and> lc_redirectStatus l \<le> 399
         \<and> 1 \<le> lc_cgiTimeout l \<and> lc_cgiTimeout l \<le> 300
         \<and> valid_handlers (lc_cgiHandlers l)
         \<and> (ls_hasMethods st \<longrightarrow> valid_methods (lc_methods l))
         \<and> (lc_cgiExtension l \<noteq> [] \<longrightarrow> hd (lc_cgiExtension l) = CHR ''.''))"

lemmas location_defs = location_ok_def updLocation_def Let_def

lemma location_ok_directive:
  assumes "locationDirective name line args st = Inr st'" and "location_ok st"
  shows "location_ok st'"
proof -
  have "location_ok st'" if "redirectDirective args st = Inr st'"
    using that assms(2) by (auto simp: redirectDirective_def location_defs split: if_splits)
  moreover have "location_ok st'" if "cgiHandlerDirective args st = Inr st'"
    using that assms(2) by (auto simp: cgiHandlerDirective_def location_defs split: if_splits)
  ultimately show ?thesis
    using assms by (auto simp: locationDirective_def location_defs valid_methods_parse split: if_splits)
qed

lemma location_ok_step: "locationStep directive args seen st = Inr (seen', st') \<Longrightarrow> location_ok st \<Longrightarrow> location_ok st'"
  by (auto simp: locationStep_def Let_def intro: location_ok_directive)

lemma location_ok_loop:
  "locationLoop seen st ts = Inr (st', rest) \<Longrightarrow> location_ok st \<Longrightarrow> location_ok st'"
proof (induction seen st ts rule: locationLoop.induct)
  case (2 seen st directive ts)
  then show ?case by (fastforce split: if_splits dest: location_ok_step)
qed simp

definition location_done :: "location_state \<Rightarrow> bool" where
  "location_done st \<longleftrightarrow> location_ok st
     \<and> (lc_cgiExtension (ls_value st) \<noteq> [] \<longrightarrow>
          map_of (lc_cgiHandlers (ls_value st)) (lc_cgiExtension (ls_value st)) = Some (lc_cgiPath (ls_value st)))"

lemma location_done_finish:
  assumes "finishLocation line st = Inr st'" and "location_ok st"
  shows "location_done st'"
proof -
  have "valid_handlers (lc_cgiHandlers (ls_value st))" using assms(2) by (simp add: location_ok_def Let_def)
  moreover from this have "ordered_map (lc_cgiHandlers (ls_value st))" by (simp add: valid_handlers_def)
  ultimately show ?thesis
    using assms by (auto simp: finishLocation_def location_done_def location_defs split: if_splits)
qed

lemma location_done_parse: "parseLocation ts = Inr (st, rest) \<Longrightarrow> location_done st"
  by (auto simp: parseLocation_def new_location_state_def new_location_def location_defs
      split: if_splits dest!: location_ok_loop intro!: location_done_finish)

subsection \<open>Servers\<close>

definition config_ok :: "(string \<Rightarrow> bool) \<Rightarrow> string set \<Rightarrow> server_config \<Rightarrow> bool" where
  "config_ok pton seen s \<longleftrightarrow>
     (''listen'' \<in> seen \<longrightarrow> pton (sc_host s)) \<and> 1 \<le> sc_port s \<and> sc_port s \<le> 65535 \<and> sc_maxBody s \<le> 16777216
     \<and> valid_methods (sc_methods s)
     \<and> (\<forall>status \<in> dom (sc_errorPages s). 300 \<le> status \<and> status \<le> 599) \<and> sc_locations s = []"

lemma config_ok_directive:
  assumes "serverDirective pton name line args s = Inr s'" and "config_ok pton seen s"
  shows "config_ok pton (insert name seen) s'"
proof -
  have "config_ok pton (insert name seen) s'" if "parseListen pton s (args ! 0) = Inr s'"
    using that assms(2) by (auto simp: parseListen_def config_ok_def Let_def split: if_splits)
  moreover have "config_ok pton (insert name seen) s'" if "errorPageDirective args s = Inr s'" "name = ''error_page''"
    using that assms(2) by (auto simp: errorPageDirective_def config_ok_def split: if_splits)
  ultimately show ?thesis
    using assms by (auto simp: serverDirective_def config_ok_def valid_methods_parse split: if_splits)
qed

lemma config_ok_step:
  assumes "serverStep pton directive args seen s = Inr (seen', s')" and "config_ok pton seen s"
  shows "config_ok pton seen' s'"
proof -
  let ?n = "uniqueName (ct_value directive)"
  have d: "serverDirective pton ?n (ct_line directive) args s = Inr s'"
    and seen: "seen' = seen \<and> ?n = ''error_page'' \<or> seen' = insert ?n seen"
    using assms(1) by (auto simp: serverStep_def markUnique_def Let_def split: if_splits)
  from config_ok_directive [OF d assms(2)] seen show ?thesis by (auto simp: config_ok_def)
qed

lemma config_ok_loop:
  "serverLoop pton seen s locs ts = Inr (seen', s', locs', rest) \<Longrightarrow> config_ok pton seen s \<Longrightarrow>
     \<forall>st \<in> set locs. location_done st \<Longrightarrow>
     config_ok pton seen' s' \<and> (\<forall>st \<in> set locs'. location_done st)"
proof (induction pton seen s locs ts rule: serverLoop.induct)
  case (2 pton seen server locs directive ts)
  show ?case
  proof (cases "ct_value directive = ''}'' \<or> ct_value directive = ''location''")
    case True
    with 2 show ?thesis by (fastforce split: if_splits dest: location_done_parse)
  next
    case False
    with 2 show ?thesis by (fastforce dest: config_ok_step)
  qed
qed simp

lemma wf_inherit: "location_done st \<Longrightarrow> valid_methods (sc_methods s) \<Longrightarrow> wf_location (inherit s st)"
  by (auto simp: location_done_def location_ok_def wf_location_def inherit_def Let_def)

lemma wf_parsed_server:
  assumes "serverLoop pton {} new_config [] ts = Inr (seen, server, locs, rest)" and "''listen'' \<in> seen"
  shows "wf_config pton (server\<lparr>sc_locations := sc_locations server @ map (inherit server) locs\<rparr>)"
proof -
  have "config_ok pton {} new_config" by (simp add: config_ok_def new_config_def valid_methods_def)
  with config_ok_loop [OF assms(1)] assms(2) show ?thesis
    by (auto simp: config_ok_def wf_config_def wf_inherit)
qed

lemma wf_parseServer: "parseServer pton ts = Inr (s, rest) \<Longrightarrow> wf_config pton s"
  by (fastforce simp: parseServer_def split: if_splits intro: wf_parsed_server)

lemma wf_parseServers:
  "parseServers pton servers ts = Inr servers' \<Longrightarrow> \<forall>s \<in> set servers. wf_config pton s \<Longrightarrow>
     \<forall>s \<in> set servers'. wf_config pton s"
proof (induction pton servers ts rule: parseServers.induct)
  case (2 pton servers keyword ts)
  then show ?case by (fastforce split: if_splits dest: wf_parseServer)
qed simp

lemma duplicate_listen_iff:
  "duplicate_listen ss \<longleftrightarrow> \<not> distinct (map (\<lambda>s. (sc_host s, sc_port s)) ss)"
  by (induction ss) (auto simp: list_ex_iff same_listen_def)

theorem config_parse_valid:
  assumes "config_parse pton path file = Inr servers"
  shows "servers \<noteq> [] \<and> distinct (map (\<lambda>s. (sc_host s, sc_port s)) servers)
    \<and> (\<forall>s \<in> set servers. wf_config pton s)"
  using assms wf_parseServers
  by (fastforce simp: config_parse_def parse_config_def duplicate_listen_iff split: option.splits if_splits)

end
