(* ===== verification/Web_ConfigText.thy ===== *)
theory Web_ConfigText
  imports Web_ConfigValid Web_Response
begin

section \<open>webserv: a configuration puts no line feed into a response\<close>

text \<open>
  No token has a line feed, not even a quoted one, so the redirect targets and methods of an
  accepted configuration are free of them: the configuration is clean in the sense of
  \<open>Web_Response\<close>.
\<close>

definition clean_tokens :: "config_token list \<Rightarrow> bool" where
  "clean_tokens ts \<longleftrightarrow> (\<forall>t \<in> set ts. LF \<notin> set (ct_value t))"

lemma clean_tokens_simps [simp]:
  "clean_tokens []" "clean_tokens (t # ts) \<longleftrightarrow> LF \<notin> set (ct_value t) \<and> clean_tokens ts"
  "clean_tokens (ts @ us) \<longleftrightarrow> clean_tokens ts \<and> clean_tokens us"
  by (auto simp: clean_tokens_def)

subsection \<open>The tokenizer\<close>

definition clean_state :: "token_state \<Rightarrow> bool" where
  "clean_state st \<longleftrightarrow> clean_tokens (ts_tokens st) \<and> LF \<notin> set (ts_current st)"

lemma clean_flush: "clean_state st \<Longrightarrow> clean_state (flushCurrent st)"
  by (simp add: clean_state_def flushCurrent_def pushToken_def)

lemma clean_tokenize_char: "tokenize_char c st = Inr st' \<Longrightarrow> clean_state st \<Longrightarrow> clean_state st'"
  using clean_flush [of st]
  by (auto simp: tokenize_char_def Let_def clean_state_def pushToken_def char_simps split: if_splits)

lemma clean_tokenize_chars: "tokenize_chars cs st = Inr st' \<Longrightarrow> clean_state st \<Longrightarrow> clean_state st'"
  by (induction cs st rule: tokenize_chars.induct) (auto dest: clean_tokenize_char)

lemma clean_tokenize: "tokenize input = Inr ts \<Longrightarrow> clean_tokens ts"
proof -
  assume t: "tokenize input = Inr ts"
  define st0 where "st0 = \<lparr>ts_tokens = [], ts_current = [], ts_tokenLine = 1, ts_line = 1, ts_quote = NUL,
    ts_comment = False\<rparr>"
  obtain st where "tokenize_chars input st0 = Inr st" and ts: "ts = ts_tokens (flushCurrent st)"
    using t by (auto simp: tokenize_def st0_def split: if_splits)
  then have "clean_state (flushCurrent st)"
    using clean_tokenize_chars clean_flush by (simp add: st0_def clean_state_def)
  with ts show ?thesis by (simp add: clean_state_def)
qed

subsection \<open>Directives and blocks\<close>

lemma clean_arguments: "arguments ts = Inr (args, rest) \<Longrightarrow> clean_tokens ts \<Longrightarrow> clean_tokens args \<and> clean_tokens rest"
  by (induction ts arbitrary: args rest) (fastforce split: if_splits)+

lemma clean_take: "take_token ts = Inr (t, rest) \<Longrightarrow> clean_tokens ts \<Longrightarrow> clean_tokens rest"
  by (auto dest: take_token_shrinks)

lemma clean_expect: "expect_token v ts = Inr rest \<Longrightarrow> clean_tokens ts \<Longrightarrow> clean_tokens rest"
  by (auto simp: expect_token_def dest: clean_take split: if_splits)

abbreviation clean_redirect :: "location_state \<Rightarrow> bool" where
  "clean_redirect st \<equiv> LF \<notin> set (lc_redirect (ls_value st))"

lemma clean_directive:
  assumes "locationDirective name line args st = Inr st'" and "clean_tokens args" and "clean_redirect st"
  shows "clean_redirect st'"
proof -
  have a: "LF \<notin> set (ct_value (args ! 0))" "length args = 2 \<Longrightarrow> LF \<notin> set (ct_value (args ! 1))"
    if "length args = 1 \<or> length args = 2"
    using that assms(2) nth_mem [of 0 args] nth_mem [of 1 args] by (auto simp: clean_tokens_def)
  have "clean_redirect st'" if "redirectDirective args st = Inr st'" "length args = 1 \<or> length args = 2"
    using that assms(3) a by (auto simp: redirectDirective_def updLocation_def split: if_splits)
  moreover have "clean_redirect st'" if "cgiHandlerDirective args st = Inr st'"
    using that assms(3) by (auto simp: cgiHandlerDirective_def updLocation_def Let_def split: if_splits)
  ultimately show ?thesis
    using assms by (auto simp: locationDirective_def updLocation_def split: if_splits)
qed

lemma clean_locationLoop:
  "locationLoop seen st ts = Inr (st', rest) \<Longrightarrow> clean_tokens ts \<Longrightarrow> clean_redirect st \<Longrightarrow>
     clean_redirect st' \<and> clean_tokens rest"
proof (induction seen st ts rule: locationLoop.induct)
  case (2 seen st directive ts)
  show ?case
  proof (cases "ct_value directive = ''}''")
    case False
    then obtain args r seen1 st1 where args: "arguments ts = Inr (args, r)"
      and step: "locationStep directive args seen st = Inr (seen1, st1)"
      and loop: "locationLoop seen1 st1 r = Inr (st', rest)"
      using "2.prems"(1) by auto
    have c: "clean_tokens args" "clean_tokens r" using clean_arguments [OF args] "2.prems"(2) by simp_all
    have "clean_redirect st1"
      using step clean_directive [OF _ c(1) "2.prems"(3)] by (auto simp: locationStep_def Let_def)
    from "2.IH" [OF False args refl step refl loop c(2) this] show ?thesis .
  qed (use 2 in auto)
qed simp

lemma clean_parseLocation:
  assumes "parseLocation ts = Inr (st, rest)" and "clean_tokens ts"
  shows "clean_redirect st" and "clean_tokens rest"
proof -
  obtain path ts1 ts2 st1 where t: "take_token ts = Inr (path, ts1)" "expect_token ''{'' ts1 = Inr ts2"
    and l: "locationLoop {} (updLocation (\<lambda>l. l\<lparr>lc_path := ct_value path\<rparr>) new_location_state) ts2 = Inr (st1, rest)"
    and f: "finishLocation (ct_line path) st1 = Inr st"
    using assms(1) by (auto simp: parseLocation_def split: if_splits)
  have "clean_tokens ts2" using clean_expect [OF t(2)] clean_take [OF t(1)] assms(2) by simp
  with clean_locationLoop [OF l] have "clean_redirect st1 \<and> clean_tokens rest"
    by (simp add: updLocation_def new_location_state_def new_location_def)
  with f show "clean_redirect st" and "clean_tokens rest"
    by (auto simp: finishLocation_def Let_def updLocation_def split: if_splits)
qed

lemma clean_serverLoop:
  "serverLoop pton seen s locs ts = Inr (seen', s', locs', rest) \<Longrightarrow> clean_tokens ts \<Longrightarrow>
     \<forall>st \<in> set locs. clean_redirect st \<Longrightarrow> (\<forall>st \<in> set locs'. clean_redirect st) \<and> clean_tokens rest"
proof (induction pton seen s locs ts rule: serverLoop.induct)
  case (2 pton seen server locs directive ts)
  have ts: "clean_tokens ts" using "2.prems"(2) by simp
  consider "ct_value directive = ''}''" | "ct_value directive \<noteq> ''}''" "ct_value directive = ''location''"
    | "ct_value directive \<noteq> ''}''" "ct_value directive \<noteq> ''location''" by blast
  then show ?case
  proof cases
    case 1
    with "2.prems" show ?thesis by simp
  next
    case 2
    with "2.prems"(1) obtain st r where p: "parseLocation ts = Inr (st, r)"
      and l: "serverLoop pton seen server (locs @ [st]) r = Inr (seen', s', locs', rest)" by auto
    note c = clean_parseLocation [OF p ts]
    from "2.IH"(1) [OF 2 p refl l c(2)] c(1) "2.prems"(3) show ?thesis by simp
  next
    case 3
    with "2.prems"(1) obtain args r seen1 server1 where p: "arguments ts = Inr (args, r)"
      and st: "serverStep pton directive args seen server = Inr (seen1, server1)"
      and l: "serverLoop pton seen1 server1 locs r = Inr (seen', s', locs', rest)" by auto
    have "clean_tokens r" using clean_arguments [OF p ts] by simp
    from "2.IH"(2) [OF 3 p refl st refl l this "2.prems"(3)] show ?thesis .
  qed
qed simp

lemma redirect_inherit [simp]: "lc_redirect (inherit s st) = lc_redirect (ls_value st)"
  by (simp add: inherit_def Let_def)

lemma clean_parseServer:
  assumes "parseServer pton ts = Inr (s, rest)" and "clean_tokens ts"
  shows "\<forall>l \<in> set (sc_locations s). LF \<notin> set (lc_redirect l)" and "clean_tokens rest"
proof -
  obtain ts1 seen server locs where e: "expect_token ''{'' ts = Inr ts1"
    and l: "serverLoop pton {} new_config [] ts1 = Inr (seen, server, locs, rest)"
    and listen: "''listen'' \<in> seen"
    and s: "s = server\<lparr>sc_locations := sc_locations server @ map (inherit server) locs\<rparr>"
    using assms(1) by (auto simp: parseServer_def split: if_splits)
  have "clean_tokens ts1" using clean_expect [OF e assms(2)] .
  with clean_serverLoop [OF l] have c: "(\<forall>st \<in> set locs. clean_redirect st) \<and> clean_tokens rest" by simp
  have "config_ok pton {} new_config" by (simp add: config_ok_def new_config_def valid_methods_def)
  with config_ok_loop [OF l] have "sc_locations server = []" by (simp add: config_ok_def)
  with c show "\<forall>l \<in> set (sc_locations s). LF \<notin> set (lc_redirect l)" and "clean_tokens rest"
    by (auto simp: s)
qed

lemma clean_parseServers:
  "parseServers pton servers ts = Inr servers' \<Longrightarrow> clean_tokens ts \<Longrightarrow>
     \<forall>s \<in> set servers. \<forall>l \<in> set (sc_locations s). LF \<notin> set (lc_redirect l) \<Longrightarrow>
     \<forall>s \<in> set servers'. \<forall>l \<in> set (sc_locations s). LF \<notin> set (lc_redirect l)"
proof (induction pton servers ts rule: parseServers.induct)
  case (2 pton servers keyword ts)
  then obtain server rest where p: "parseServer pton ts = Inr (server, rest)" by (auto split: if_splits)
  have c: "clean_tokens ts" using "2.prems"(2) by simp
  show ?case
    using "2.IH" [OF _ p refl] "2.prems" p clean_parseServer [OF p c] by (auto split: if_splits)
qed simp

lemma valid_methods_clean: "valid_methods ms \<Longrightarrow> list_all (\<lambda>m. LF \<notin> set m) ms"
  by (auto simp: valid_methods_def list_all_iff)

lemma config_parse_clean:
  assumes "config_parse pton path file = Inr servers"
  shows "\<forall>s \<in> set servers. clean_config s"
proof -
  obtain content ts where t: "tokenize content = Inr ts" and p: "parseServers pton [] ts = Inr servers"
    using assms by (auto simp: config_parse_def parse_config_def split: option.splits if_splits)
  have "\<forall>s \<in> set servers. \<forall>l \<in> set (sc_locations s). LF \<notin> set (lc_redirect l)"
    using clean_parseServers [OF p clean_tokenize [OF t]] by simp
  moreover have "\<forall>s \<in> set servers. wf_config pton s" using wf_parseServers [OF p] by simp
  ultimately show ?thesis
    by (auto simp: clean_config_def wf_config_def wf_location_def valid_methods_clean list_all_iff [of _ "sc_locations s" for s])
qed

end
