(* ===== verification/Web_Access.thy ===== *)
theory Web_Access
  imports Web_Response
begin

section \<open>webserv: what a request may touch\<close>

text \<open>
  The effects of a request on the file system, the location that decides about it, and the
  environment a script gets.
\<close>

subsection \<open>Files\<close>

lemma write_all_failed:
  "write_all dir name as body = (False, es) \<Longrightarrow> es \<noteq> [] \<and> last es = FileUnlinkedAt dir name"
  by (induction dir name as body arbitrary: es rule: write_all.induct) (auto split: prod.splits if_splits)

lemma error_status [simp]: "rs_status (error_response os status config) = status"
  by (simp add: error_response_def set_header_def new_response_def Let_def)

lemma set_header_status [simp]: "rs_status (set_header k v r) = rs_status r"
  by (simp add: set_header_def)

lemma delete_effects:
  assumes "delete_handle os route config = (response, es)" and "es \<noteq> []"
  obtains root resolved where "es = [FileUnlinked (rt_diskPath route)]" and "rs_status response = 204"
    and "os_realpath os (route_root route config) = Inr root"
    and "os_realpath os (rt_diskPath route) = Inr resolved" and "pathInside root resolved"
    and "map_option fst (os_fstat os resolved) = Some KRegular"
proof -
  obtain result es' where r: "removeRegular os (route_root route config) (rt_diskPath route) = (result, es')"
    by (cases "removeRegular os (route_root route config) (rt_diskPath route)")
  then have "es' = es" and resp: "response = (if result = FILE_NOT_FOUND then error_response os 404 config
      else if result \<noteq> FILE_OK then error_response os 403 config else new_response 204)"
    using assms(1) by (auto simp: delete_handle_def)
  with r assms(2) that show thesis
    by (elim removeRegular_effects) (auto simp: new_response_def)
qed

text \<open>
  An upload writes one new file, with a valid name, in the upload directory of the location:
  completely when it is answered with 201, and otherwise the file is removed again.
\<close>

lemma upload_effects:
  assumes "upload_handle os request route config = (response, es)" and "es \<noteq> []"
  obtains l dir name es' where "rt_location route = Some l" and "lc_uploadDir l \<noteq> []" and "validFileName name"
    and "os_realpath os (lc_uploadDir l) = Inr dir" and "os_openat os dir name = None"
    and "es = FileCreated dir name # es'"
    and "\<And>e. e \<in> set es' \<Longrightarrow> e = FileUnlinkedAt dir name \<or> (\<exists>d. e = FileWritten dir name d)"
    and "if rs_status response = 201 then written es' = rq_body request else last es = FileUnlinkedAt dir name"
proof -
  obtain l where l: "rt_location route = Some l" "lc_uploadDir l \<noteq> []"
    using assms by (cases "rt_location route") (auto simp: upload_handle_def split: if_splits)
  define name where "name = (case map_of (rq_headers request) ''x-filename'' of
      Some n \<Rightarrow> n | None \<Rightarrow> ''upload-'' @ toString (os_time os) @ ''.bin'')"
  have v: "validFileName name"
    using assms l by (auto simp: upload_handle_def name_def [symmetric] split: if_splits)
  obtain result es0 where c: "createExclusive os (lc_uploadDir l) name (rq_body request) = (result, es0)"
    by (cases "createExclusive os (lc_uploadDir l) name (rq_body request)")
  have es: "es0 = es" and resp: "response =
      (if result = FILE_CONFLICT then error_response os 409 config
       else if result = FILE_FORBIDDEN then error_response os 403 config
       else if result \<noteq> FILE_OK then error_response os 500 config
       else set_header ''Content-Type'' ''text/plain; charset=utf-8''
              (set_header ''Location'' (rq_path request @ ''/'' @ name)
                ((new_response 201)\<lparr>rs_body := ''created'' @ [LF]\<rparr>)))"
    using assms(1) l v c by (auto simp: upload_handle_def name_def [symmetric])
  obtain dir ok es1 where d: "os_realpath os (lc_uploadDir l) = Inr dir" "os_openat os dir name = None"
    and w: "write_all dir name (os_write os dir name) (rq_body request) = (ok, es1)"
    and e: "es = FileCreated dir name # es1" and result: "result = (if ok then FILE_OK else FILE_ERROR)"
    using c assms(2) es
    by (auto simp: createExclusive_def canonicalPath_def split: sum.splits if_splits option.splits prod.splits)
  have status: "rs_status response = (if ok then 201 else 500)"
    by (simp add: resp result) (simp add: new_response_def)
  show thesis
  proof (rule that [OF l v d e])
    show "x = FileUnlinkedAt dir name \<or> (\<exists>d. x = FileWritten dir name d)" if "x \<in> set es1" for x
      using write_all_effects [OF w that] .
    show "if rs_status response = 201 then written es1 = rq_body request else last es = FileUnlinkedAt dir name"
      using w write_all_content write_all_failed status e by (cases ok) auto
  qed
qed

lemma dispatch_effects:
  assumes "dispatch os request config = (response, es)" and "es \<noteq> []"
  shows "rq_method request = ''DELETE'' \<and> delete_handle os (resolve request config) config = (response, es)
    \<or> rq_method request = ''POST'' \<and> upload_handle os request (resolve request config) config = (response, es)"
    and "rt_status (resolve request config) = ROUTE_READY"
proof -
  let ?route = "resolve request config"
  have "rt_status ?route = ROUTE_READY" "rt_status ?route \<noteq> ROUTE_METHOD_NOT_ALLOWED \<and> rt_status ?route \<noteq> ROUTE_REDIRECT"
    using assms by (cases "rt_status ?route"; auto simp: dispatch_def Let_def)+
  with assms show "rq_method request = ''DELETE'' \<and> delete_handle os (resolve request config) config = (response, es)
    \<or> rq_method request = ''POST'' \<and> upload_handle os request (resolve request config) config = (response, es)"
    and "rt_status (resolve request config) = ROUTE_READY"
    by (auto simp: dispatch_def Let_def split: if_splits)
qed

subsection \<open>The location that decides\<close>

lemma resolve_location [simp]:
  "rt_location (resolve request config) = matchLocation config (rq_path request)"
  "rt_methods (resolve request config) =
     (case matchLocation config (rq_path request) of Some l \<Rightarrow> lc_methods l | None \<Rightarrow> sc_methods config)"
  by (auto simp: resolve_def Let_def split: option.split)

lemma resolve_refused:
  "rt_status (resolve request config) = ROUTE_METHOD_NOT_ALLOWED \<longleftrightarrow>
     \<not> methodAllowed (rt_methods (resolve request config)) (rq_method request)"
  by (auto simp: resolve_def Let_def split: option.split)

subsection \<open>The environment of a script\<close>

lemma environment_names:
  "fst ` set (cgi_environment os request path root config) \<subseteq>
     {''GATEWAY_INTERFACE'', ''SERVER_PROTOCOL'', ''SERVER_SOFTWARE'', ''REQUEST_METHOD'', ''REQUEST_URI'',
      ''QUERY_STRING'', ''CONTENT_LENGTH'', ''SCRIPT_NAME'', ''SCRIPT_FILENAME'', ''PATH_INFO'',
      ''PATH_TRANSLATED'', ''DOCUMENT_ROOT'', ''SERVER_NAME'', ''SERVER_PORT'', ''REMOTE_ADDR'',
      ''REMOTE_PORT'', ''REDIRECT_STATUS'', ''CONTENT_TYPE''}
     \<union> {headerEnvironmentName k | k v. (k, v) \<in> set (rq_headers request) \<and> k \<notin> {''content-length'', ''content-type'', ''proxy''}}"
  by (auto simp: cgi_environment_def split: option.splits)

lemma lower_chars: "lower k = k \<Longrightarrow> c \<in> set k \<Longrightarrow> \<not> (CHR ''A'' \<le> c \<and> c \<le> CHR ''Z'')"
proof
  assume k: "lower k = k" "c \<in> set k" and c: "CHR ''A'' \<le> c \<and> c \<le> CHR ''Z''"
  have "map lower_char k = map (\<lambda>c. c) k" using k(1) by (simp add: lower_def)
  then have "lower_char c = c" using k(2) by (simp only: map_eq_conv)
  then have "of_char (lower_char c) = (of_char c :: nat)" by simp
  with c show False by (simp add: lower_char_def char_simps of_char_of)
qed

lemma environment_name_proxy:
  assumes "lower k = k" and "headerEnvironmentName k = ''HTTP_PROXY''"
  shows "k = ''proxy''"
proof -
  have k: "map environment_char k = ''PROXY''" using assms(2) by (simp add: headerEnvironmentName_def)
  then obtain c1 c2 c3 c4 c5 where cs: "k = [c1, c2, c3, c4, c5]" by auto
  have "\<not> (CHR ''A'' \<le> c \<and> c \<le> CHR ''Z'')" if "c \<in> {c1, c2, c3, c4, c5}" for c
    using lower_chars [OF assms(1), of c] that cs by auto
  with k cs environment_char_eq
  have "of_char c1 = (112::nat)" "of_char c2 = (114::nat)" "of_char c3 = (111::nat)"
    "of_char c4 = (120::nat)" "of_char c5 = (121::nat)"
    by force+
  then have "c1 = char_of (112::nat)" "c2 = char_of (114::nat)" "c3 = char_of (111::nat)"
    "c4 = char_of (120::nat)" "c5 = char_of (121::nat)"
    by (metis char_of_char)+
  then show ?thesis by (simp add: cs) code_simp
qed

end
