(* ===== verification/Web_Scenario.thy ===== *)
theory Web_Scenario
  imports Web_Delivery Web_ConfigText Web_Access
begin

section \<open>webserv: an example run\<close>

text \<open>
  One listening socket, one client that connects and stays silent, alone or while others
  connect: the runs on which the properties of the event loop are applied.
\<close>

definition demo_text :: string where
  "demo_text = ''server { listen 127.0.0.1:8080; }''"

definition demo_server :: server_config where
  "demo_server = new_config\<lparr>sc_host := ''127.0.0.1'', sc_port := 8080\<rparr>"

text \<open>A file system on which every call fails, at a given time.\<close>

definition demo_os :: "nat \<Rightarrow> os" where
  "demo_os now =
     \<lparr>os_realpath = (\<lambda>p. Inl ENOENT), os_lstat = (\<lambda>p. Inl ENOENT), os_stat = (\<lambda>p. None),
      os_open = (\<lambda>p. Some ENOENT), os_fstat = (\<lambda>p. None), os_read = (\<lambda>p. []),
      os_openDirectory = (\<lambda>p. False), os_openat = (\<lambda>d n. Some ENOENT), os_write = (\<lambda>d n. []),
      os_unlink = (\<lambda>p. False), os_readdir = (\<lambda>p. None), os_wholeFile = (\<lambda>p. None),
      os_getcwd = None, os_time = now\<rparr>"

definition demo_answers :: "nat \<Rightarrow> accept_answer list \<Rightarrow> web_answers" where
  "demo_answers now accepted =
     \<lparr>wa_os = demo_os now, wa_accept = accepted, wa_input = InputAgain, wa_output = OutputAgain,
      wa_cgi = \<lparr>ca_inputPipe = None, ca_outputPipe = None, ca_fork = - 1, ca_nonBlocking = True\<rparr>,
      wa_waitNoHang = (\<lambda>p. None), wa_wait = (\<lambda>p. 0)\<rparr>"

definition accept_round :: web_tick where
  "accept_round =
     \<lparr>wt_running = True, wt_ready = 1, wt_interrupted = False,
      wt_revents = (\<lambda>fd. if fd = 3 then {POLLIN} else {}),
      wt_answers = (\<lambda>fd. demo_answers 0
        [\<lparr>aa_fd = 4, aa_nonBlocking = True, aa_address = Some ''127.0.0.1'', aa_port = 4000\<rparr>]),
      wt_end = demo_answers 0 []\<rparr>"

definition silent_round_at :: "nat \<Rightarrow> web_tick" where
  "silent_round_at now =
     \<lparr>wt_running = True, wt_ready = 0, wt_interrupted = False, wt_revents = (\<lambda>fd. {}),
      wt_answers = (\<lambda>fd. demo_answers now []), wt_end = demo_answers now []\<rparr>"

definition demo_listen :: listen_answer where
  "demo_listen = \<lparr>la_socket = 3, la_setsockopt = True, la_nonBlocking = True, la_bind = True, la_listen = True\<rparr>"

definition demo_start :: webserver where
  "demo_start =
     \<lparr>ws_configs = [demo_server], ws_listeners = [(3, demo_server)], ws_clients = [],
      ws_inputOwners = Map.empty, ws_outputOwners = Map.empty,
      ws_pollFds = [\<lparr>pf_fd = 3, pf_events = {POLLIN}, pf_revents = {}\<rparr>], ws_trace = [FdOpened 3]\<rparr>"

definition demo_client :: web_client where
  "demo_client = new_web_client\<lparr>wc_fd := 4, wc_config := Some demo_server, wc_touched := 0,
     wc_remoteAddress := ''127.0.0.1'', wc_remotePort := 4000\<rparr>"

definition demo_connected :: webserver where
  "demo_connected =
     demo_start\<lparr>ws_clients := [(4, demo_client)],
       ws_pollFds := [\<lparr>pf_fd = 3, pf_events = {POLLIN}, pf_revents = {POLLIN}\<rparr>,
                      \<lparr>pf_fd = 4, pf_events = {POLLIN}, pf_revents = {}\<rparr>],
       ws_trace := [FdOpened 4, FdOpened 3]\<rparr>"

lemma demo_parsed: "config_parse (\<lambda>host. True) ''c'' (Some demo_text) = Inr [demo_server]"
proof -
  have "tokenize demo_text = Inr (map (\<lambda>v. \<lparr>ct_value = v, ct_line = 1\<rparr>)
      [''server'', ''{'', ''listen'', ''127.0.0.1:8080'', '';'', ''}''])"
    by code_simp
  moreover have "parseNumber \<lparr>ct_value = ''8080'', ct_line = 1\<rparr> = Inr 8080"
    by (simp add: parseNumber_def strtoul10_def is_space_def is_digit_def dec_value_def digit_value_def char_simps Let_def)
  moreover have "split_last (CHR '':'') ''127.0.0.1:8080'' = Some (''127.0.0.1'', ''8080'')"
    by (simp add: split_last_def)
  ultimately show ?thesis
    by (simp add: config_parse_def parse_config_def parseServer_def expect_token_def take_token_def peek_def
        serverStep_def serverDirective_def parseListen_def uniqueName_def markUnique_def Let_def demo_server_def
        new_config_def)
qed

lemma demo_opened: "openListeners (\<lambda>host. True) [(demo_listen, demo_server)] (new_webserver [demo_server]) = Done demo_start"
  by (simp add: openListener_def demo_listen_def demo_start_def new_webserver_def effects_def add_pollfd_def Let_def)

lemma demo_accepted: "web_round accept_round demo_start = Done demo_connected"
proof -
  have k: "classify 3 {POLLIN} (poll_results (wt_revents accept_round) demo_start) = EvListener"
    by (simp add: classify_def isListener_def poll_results_def demo_start_def)
  have "web_events (wt_answers accept_round) 0 1 (poll_results (wt_revents accept_round) demo_start) = Done demo_connected"
    using k
    by (subst web_events.simps, subst web_events.simps)
      (simp add: poll_results_def demo_start_def accept_round_def demo_answers_def handle_event_def next_index_def
        web_acceptClient_def MAX_CONNECTIONS_def effects_def put_client_def add_pollfd_def wa_now_def demo_os_def
        demo_connected_def demo_client_def Let_def)
  then show ?thesis
    by (simp add: web_round_def accept_round_def reapCgi_def ended_cgi_def demo_connected_def demo_client_def
        new_web_client_def effects_def expireClients_def expired_def demo_answers_def demo_os_def)
qed

lemma demo_honest: "poll_honest accept_round demo_start"
  by (simp add: poll_honest_def accept_round_def demo_start_def)

lemma serving_demo_connected: "web_serving demo_connected"
proof (rule web_next [OF web_start demo_honest demo_accepted])
  show "openListeners (\<lambda>host. True) [(demo_listen, demo_server)] (new_webserver [demo_server]) = Done demo_start"
    by (rule demo_opened)
qed (simp_all add: demo_start_def demo_connected_def)

lemma demo_found: "find_client 4 demo_connected = Some demo_client"
  by (simp add: find_client_def demo_connected_def)

text \<open>After 31 seconds the client is answered with 408, of which it then takes nine bytes.\<close>

definition demo_408 :: webserver where
  "demo_408 = await_output 4 (put_client 4 (timeout_answer (demo_os 31) 408 demo_server demo_client)
     (poll_results (\<lambda>fd. {}) demo_connected))"

definition demo_found_408 :: web_client where
  "demo_found_408 = timeout_answer (demo_os 31) 408 demo_server demo_client"

lemma demo_408_found: "find_client 4 demo_408 = Some demo_found_408" "wc_output demo_found_408 \<noteq> []"
  by (simp_all add: find_client_def demo_408_def demo_found_408_def put_client_def poll_results_def demo_connected_def
      timeout_answer_def)

lemma demo_timeout_round: "web_round (silent_round_at 31) demo_connected = Done demo_408"
  by (simp add: web_round_def silent_round_at_def web_events.simps [of _ 0 0] demo_answers_def reapCgi_def
      ended_cgi_def poll_results_def demo_connected_def demo_start_def demo_client_def new_web_client_def effects_def
      expireClients_def expired_def expireClient_def find_client_def with_config_def demo_os_def demo_408_def)

lemma demo_timeout:
  obtains t c where "web_run [accept_round, silent_round_at 31] demo_start = Done t"
    and "find_client 4 t = Some c" and "wc_output c \<noteq> []"
  using that demo_408_found demo_accepted demo_timeout_round by (simp add: accept_round_def silent_round_at_def)

definition sending_round :: web_tick where
  "sending_round =
     \<lparr>wt_running = True, wt_ready = 1, wt_interrupted = False,
      wt_revents = (\<lambda>fd. if fd = 4 then {POLLOUT} else {}),
      wt_answers = (\<lambda>fd. (demo_answers 31 [])\<lparr>wa_output := OutputTook 9\<rparr>),
      wt_end = demo_answers 31 []\<rparr>"

definition demo_sent :: webserver where
  "demo_sent = took_output (wt_answers sending_round 4) 4 demo_found_408 9
     (poll_results (wt_revents sending_round) demo_408)"

lemma demo_408_fields:
  "ws_pollFds demo_408 = [\<lparr>pf_fd = 3, pf_events = {POLLIN}, pf_revents = {}\<rparr>,
     \<lparr>pf_fd = 4, pf_events = {POLLOUT}, pf_revents = {}\<rparr>]"
  "ws_clients demo_408 = [(4, demo_found_408)]" "ws_trace demo_408 = [FdOpened 4, FdOpened 3]"
  "ws_listeners demo_408 = [(3, demo_server)]" "ws_inputOwners demo_408 = Map.empty" "ws_outputOwners demo_408 = Map.empty"
  by (simp_all add: demo_408_def await_output_def put_client_def poll_results_def demo_connected_def demo_start_def
      demo_found_408_def)

lemma demo_408_text: "\<exists>rest. wc_output demo_found_408 = ''HTTP/1.1 '' @ rest \<and> rest \<noteq> []"
  by (simp add: demo_found_408_def timeout_answer_def web_error_def serialize_def)

lemma demo_sent_round: "web_round sending_round demo_408 = Done demo_sent"
proof -
  let ?s = "poll_results (wt_revents sending_round) demo_408"
  have polls: "ws_pollFds ?s = [\<lparr>pf_fd = 3, pf_events = {POLLIN}, pf_revents = {}\<rparr>,
     \<lparr>pf_fd = 4, pf_events = {POLLOUT}, pf_revents = {POLLOUT}\<rparr>]"
    by (simp add: poll_results_def demo_408_fields sending_round_def)
  have k: "classify 4 {POLLOUT} ?s = EvWritable"
    by (simp add: classify_def isListener_def poll_results_def demo_408_fields)
  obtain rest where out: "wc_output demo_found_408 = ''HTTP/1.1 '' @ rest" "rest \<noteq> []" using demo_408_text by blast
  have "writeClient (wt_answers sending_round 4) 1 ?s = demo_sent"
    unfolding demo_sent_def
    by (subst writeClient_eq [of _ 4 demo_found_408])
      (use polls out in \<open>simp_all add: poll_results_def demo_408_fields sending_round_def demo_found_408_def timeout_answer_def\<close>)
  then have "web_events (wt_answers sending_round) 0 1 ?s = Done demo_sent"
    using k polls
    by (subst web_events.simps, subst web_events.simps) (simp add: handle_event_def web_events.simps [of _ _ 0])
  moreover have "ws_clients demo_sent = [(4, demo_found_408\<lparr>wc_sent := 9, wc_touched := 31\<rparr>)]"
    by (simp add: demo_sent_def took_output_def put_client_def poll_results_def demo_408_fields effects_def
        sending_round_def demo_answers_def wa_now_def demo_os_def demo_found_408_def timeout_answer_def)
  ultimately show ?thesis
    by (simp add: web_round_def sending_round_def reapCgi_def ended_cgi_def expireClients_def expired_def
        demo_answers_def demo_os_def demo_found_408_def timeout_answer_def demo_client_def new_web_client_def)
qed

lemma demo_sent_trace: "ws_trace demo_sent = [SentTo 4 ''HTTP/1.1 '', FdOpened 4, FdOpened 3]"
proof -
  have "wc_sent demo_found_408 = 0" by (simp add: demo_found_408_def timeout_answer_def)
  with demo_408_text show ?thesis
    by (auto simp: demo_sent_def took_output_def demo_408_fields)
qed

lemma demo_sent_run:
  "web_run [accept_round, silent_round_at 31, sending_round] demo_start = Done demo_sent"
  "allowed_run poll_honest [accept_round, silent_round_at 31, sending_round] demo_start"
proof -
  have "poll_honest sending_round demo_408"
    by (simp add: poll_honest_def sending_round_def demo_408_fields)
  moreover have "poll_honest (silent_round_at 31) demo_connected"
    by (simp add: poll_honest_def silent_round_at_def)
  ultimately show "web_run [accept_round, silent_round_at 31, sending_round] demo_start = Done demo_sent"
    and "allowed_run poll_honest [accept_round, silent_round_at 31, sending_round] demo_start"
    using demo_accepted demo_timeout_round demo_sent_round demo_honest
    by (simp_all add: accept_round_def silent_round_at_def sending_round_def)
qed

subsection \<open>The same client while others connect\<close>

definition busy_round :: "nat \<Rightarrow> int \<Rightarrow> web_tick" where
  "busy_round now fd = accept_round\<lparr>wt_answers := (\<lambda>_. demo_answers now
       [\<lparr>aa_fd = fd, aa_nonBlocking = True, aa_address = Some ''127.0.0.1'', aa_port = 4000\<rparr>]),
     wt_end := demo_answers now []\<rparr>"

definition other_client :: "nat \<Rightarrow> int \<Rightarrow> web_client" where
  "other_client now fd = demo_client\<lparr>wc_fd := fd, wc_touched := int now\<rparr>"

definition busy_408 :: webserver where
  "busy_408 =
     demo_start\<lparr>ws_clients := [(4, demo_found_408), (5, other_client 31 5)],
       ws_pollFds := [\<lparr>pf_fd = 3, pf_events = {POLLIN}, pf_revents = {POLLIN}\<rparr>,
                      \<lparr>pf_fd = 4, pf_events = {POLLOUT}, pf_revents = {}\<rparr>,
                      \<lparr>pf_fd = 5, pf_events = {POLLIN}, pf_revents = {}\<rparr>],
       ws_trace := [FdOpened 5, FdOpened 4, FdOpened 3]\<rparr>"

definition busy_closed :: webserver where
  "busy_closed =
     demo_start\<lparr>ws_clients := [(5, timeout_answer (demo_os 62) 408 demo_server (other_client 31 5)),
         (6, other_client 62 6)],
       ws_pollFds := [\<lparr>pf_fd = 3, pf_events = {POLLIN}, pf_revents = {POLLIN}\<rparr>,
                      \<lparr>pf_fd = 5, pf_events = {POLLOUT}, pf_revents = {}\<rparr>,
                      \<lparr>pf_fd = 6, pf_events = {POLLIN}, pf_revents = {}\<rparr>],
       ws_trace := [FdClosed 4, FdOpened 6, FdOpened 5, FdOpened 4, FdOpened 3]\<rparr>"

lemma busy_events:
  assumes s: "ws_listeners s = [(3, demo_server)]" "length (ws_clients s) < MAX_CONNECTIONS"
    and ps: "ws_pollFds s = \<lparr>pf_fd = 3, pf_events = {POLLIN}, pf_revents = x\<rparr> # ps" and fd: "0 \<le> fd"
  shows "web_events (wt_answers (busy_round now fd)) 0 1 (poll_results (wt_revents (busy_round now fd)) s) =
    Done (add_pollfd fd {POLLIN} (put_client fd (other_client now fd)
      (effects [FdOpened fd] (poll_results (wt_revents (busy_round now fd)) s))))"
proof -
  let ?s = "poll_results (wt_revents (busy_round now fd)) s"
  have k: "classify 3 {POLLIN} ?s = EvListener"
    by (simp add: classify_def isListener_def poll_results_def s)
  have p: "ws_pollFds ?s ! 0 = \<lparr>pf_fd = 3, pf_events = {POLLIN}, pf_revents = {POLLIN}\<rparr>" "ws_pollFds ?s \<noteq> []"
    by (simp_all add: poll_results_def ps busy_round_def accept_round_def)
  have c: "ws_listeners ?s = [(3, demo_server)]" "length (ws_clients ?s) < MAX_CONNECTIONS"
    by (simp_all add: poll_results_def s)
  have "handle_event (wt_answers (busy_round now fd) 3) EvListener {POLLIN} 0 ?s =
      Done (add_pollfd fd {POLLIN} (put_client fd (other_client now fd) (effects [FdOpened fd] ?s)))"
    using p c fd by (simp add: handle_event_def web_acceptClient_def busy_round_def demo_answers_def Let_def
        other_client_def demo_client_def new_web_client_def wa_now_def demo_os_def)
  with k p show ?thesis
    by (subst web_events.simps) (simp add: Let_def web_events.simps [of _ _ 0])
qed

lemma busy_rounds:
  "web_round (busy_round 31 5) demo_connected = Done busy_408"
  "web_round (busy_round 62 6) busy_408 = Done busy_closed"
proof -
  note state = demo_connected_def demo_start_def busy_408_def busy_closed_def MAX_CONNECTIONS_def
  note parts = add_pollfd_def put_client_def effects_def poll_results_def await_output_def
  note clients = other_client_def demo_client_def new_web_client_def demo_found_408_def timeout_answer_def
  note ending = reapCgi_def ended_cgi_def expireClients_def expired_def expireClient_def find_client_def with_config_def
    demo_answers_def demo_os_def
  have 1: "web_events (wt_answers (busy_round 31 5)) 0 1 (poll_results (wt_revents (busy_round 31 5)) demo_connected) =
    Done (add_pollfd 5 {POLLIN} (put_client 5 (other_client 31 5)
      (effects [FdOpened 5] (poll_results (wt_revents (busy_round 31 5)) demo_connected))))"
    by (rule busy_events) (simp_all add: state)
  show "web_round (busy_round 31 5) demo_connected = Done busy_408"
    using 1 by (simp add: web_round_def busy_round_def accept_round_def state parts clients ending)
  have 2: "web_events (wt_answers (busy_round 62 6)) 0 1 (poll_results (wt_revents (busy_round 62 6)) busy_408) =
    Done (add_pollfd 6 {POLLIN} (put_client 6 (other_client 62 6)
      (effects [FdOpened 6] (poll_results (wt_revents (busy_round 62 6)) busy_408))))"
    by (rule busy_events) (simp_all add: state)
  show "web_round (busy_round 62 6) busy_408 = Done busy_closed"
    using 2 by (simp add: web_round_def busy_round_def accept_round_def state parts clients ending
        closeClient_def release_pipes_def removePollFd_def erase_client_def)
qed

end
