(* ===== verification/Web_Properties.thy ===== *)
theory Web_Properties
  imports Web_Scenario
begin

section \<open>webserv: the properties\<close>

text \<open>
  The statements about the web server that a reader should start from, each with an example
  to which it applies.
\<close>

text \<open>
  C30. A connection is sent its own answer and nothing else. At any state \<open>s\<close> of a run, what
  the present connection of a client has been sent is the part of the answer stored for it that
  \<open>wc_sent\<close> counts, and nothing when there is no answer yet. Once there is one, it is never
  replaced, and at every later state \<open>t\<close> what that connection has been sent is still the
  beginning of this answer, whatever partial writes, other clients and other connections of the
  same descriptor came in between: no byte is lost, repeated or taken from another answer. Every
  connection, also one that is closed, has been sent the beginning of one message whose head and
  length can be read. (\<open>openings\<close> counts the connections of a descriptor, \<open>sent_on k\<close> is what
  the \<open>k\<close>-th has been sent.) The kernel is assumed to hand out only descriptors that are not
  open, and \<open>poll\<close> to report reading and writing only where asked.
\<close>

theorem one_response_per_connection:
  assumes "config_parse pton path file = Inr configs"
    and "openListeners pton (zip las configs) (new_webserver configs) = Done s0"
    and "allowed_run poll_honest pre s0" and "web_run pre s0 = Done s"
    and "allowed_run poll_honest post s" and "web_run post s = Done t" and "kernel_ok (ws_trace t)"
    and "find_client g s = Some c"
  shows "sent_on (openings (ws_trace s) g) (ws_trace s) g = take (wc_sent c) (wc_output c)
    \<and> (wc_output c \<noteq> [] \<longrightarrow>
        (\<exists>n. sent_on (openings (ws_trace s) g) (ws_trace t) g = take n (wc_output c))
        \<and> (\<forall>c'. openings (ws_trace t) g = openings (ws_trace s) g \<and> find_client g t = Some c' \<longrightarrow>
             wc_output c' = wc_output c
             \<and> sent_on (openings (ws_trace s) g) (ws_trace t) g = take (wc_sent c') (wc_output c)))
    \<and> (\<exists>out ls body rest. delimited out ls body \<and> out = sent_on k (ws_trace s) h @ rest)"
proof -
  have clean: "\<forall>config \<in> set configs. clean_config config" by (rule config_parse_clean [OF assms(1)])
  have k: "kernel_ok (ws_trace s)" by (rule extends_kernel [OF extends_run [OF assms(6)] assms(7)])
  obtain out ls body rest where "delimited out ls body" "out = sent_on k (ws_trace s) h @ rest"
    by (rule run_delivers [OF assms(2) clean assms(3,4) k])
  with run_attended(2) [OF assms(2) clean assms(3,4) k assms(8)]
    run_follows [OF assms(2) clean assms(3,4,8) _ assms(5-7)]
  show ?thesis by blast
qed

theorem one_response_per_connection_witness:
  "web_run [accept_round, silent_round_at 31] demo_start = Done demo_408 \<and> web_run [sending_round] demo_408 = Done demo_sent
     \<and> find_client 4 demo_408 = Some demo_found_408 \<and> wc_output demo_found_408 \<noteq> []
     \<and> sent_on 1 (ws_trace demo_sent) 4 = ''HTTP/1.1 ''
     \<and> (\<exists>n. ''HTTP/1.1 '' = take n (wc_output demo_found_408))"
proof -
  have o: "openListeners (\<lambda>host. True) (zip [demo_listen] [demo_server]) (new_webserver [demo_server]) = Done demo_start"
    using demo_opened by simp
  have pre: "allowed_run poll_honest [accept_round, silent_round_at 31] demo_start"
    "web_run [accept_round, silent_round_at 31] demo_start = Done demo_408"
    and post: "allowed_run poll_honest [sending_round] demo_408" "web_run [sending_round] demo_408 = Done demo_sent"
    using demo_sent_run(2) demo_accepted demo_timeout_round demo_sent_round
    by (simp_all add: accept_round_def silent_round_at_def sending_round_def)
  have k: "kernel_ok (ws_trace demo_sent)" by (simp add: demo_sent_trace)
  have n: "openings (ws_trace demo_408) 4 = 1" by (simp add: demo_408_fields)
  have "sent_on 1 (ws_trace demo_sent) 4 = ''HTTP/1.1 ''" by (simp add: demo_sent_trace)
  with one_response_per_connection [OF demo_parsed o pre post k demo_408_found(1)] pre(2) post(2) demo_408_found n
  show ?thesis by auto
qed

text \<open>
  C31. An accepted configuration names at least one server, no listening address twice, and
  every value is in its range: valid addresses and ports, at most 16 MiB of body, distinct
  supported methods, redirects 300 to 399, error statuses 300 to 599, time limits 1 to 300
  seconds, CGI extensions with a dot; and no redirect target carries a line feed.
\<close>

theorem accepted_configuration:
  assumes "config_parse pton path file = Inr servers"
  shows "servers \<noteq> [] \<and> distinct (map (\<lambda>s. (sc_host s, sc_port s)) servers)
    \<and> list_all (\<lambda>s. wf_config pton s \<and> clean_config s) servers"
  using config_parse_valid [OF assms] config_parse_clean [OF assms] by (simp add: list_all_iff)

theorem accepted_configuration_witness: "wf_config (\<lambda>host. True) demo_server \<and> clean_config demo_server"
  using accepted_configuration [OF demo_parsed] by simp

text \<open>
  C32. A request written as HTTP/1.1 prescribes is read back: method, target, decoded path,
  query and headers, their names in lower case however they were written, and the body, which is
  absent, of the announced length, or sent in chunks (\<open>coded\<close>). As long as any part of the text
  has not arrived, be it of the head, of the body or of a chunk, the request stays incomplete;
  bytes that come after it are not taken.
\<close>

theorem request_roundtrip:
  assumes head: "valid_head verb target headers"
    and path: "decodePath (takeWhile (\<lambda>c. c \<noteq> CHR ''?'') target) = Some path"
    and coding: "coded verb headers body payload"
    and size: "length (render_request verb target headers []) \<le> 65536" "length body \<le> maxBody"
      "length (payload @ extra) < 2 ^ 64"
  shows "(\<forall>k < length (render_request verb target headers payload).
        parseRequest (take k (render_request verb target headers payload)) maxBody = Some REQUEST_INCOMPLETE)
    \<and> parseRequest (render_request verb target headers payload @ extra) maxBody =
        Some (REQUEST_OK ((parsed_head verb target path headers)\<lparr>rq_body := body\<rparr>))
    \<and> map_of (rq_headers (parsed_head verb target path headers)) = map_of (lowered headers)"
proof (intro conjI allI impI)
  let ?h = "length (render_request verb target headers [])"
  have d: "distinct (map fst (lowered headers))" using head by (simp add: valid_head_def)
  have raw: "render_request verb target headers payload @ x = render_request verb target headers (payload @ x)"
    "length (render_request verb target headers payload) = ?h + length payload" for x
    by (simp_all add: render_request_def)
  show "map_of (rq_headers (parsed_head verb target path headers)) = map_of (lowered headers)"
    by (rule parsed_headers [OF d])
  show "parseRequest (render_request verb target headers payload @ extra) maxBody =
      Some (REQUEST_OK ((parsed_head verb target path headers)\<lparr>rq_body := body\<rparr>))"
    unfolding raw parseRequest_render [OF head path] by (rule parseBody_coded [OF d coding size(2,3)])
  fix k assume k: "k < length (render_request verb target headers payload)"
  then have "?h \<le> k \<Longrightarrow> k - ?h < length payload" by (simp add: raw)
  with size(3) parseBody_part [OF d coding _ size(2), of "k - ?h"] parseRequest_part [OF head path size(1), of k payload]
  show "parseRequest (take k (render_request verb target headers payload)) maxBody = Some REQUEST_INCOMPLETE"
    by (cases "k < ?h") (simp_all add: not_less)
qed

theorem request_roundtrip_witness:
  "let raw = render_request ''POST'' ''/a?b'' [(''Host'', ''h''), (''Transfer-Encoding'', ''Chunked'')] (encode_chunks [''hi'', ''!''])
   in parseRequest (take 12 raw) 10 = Some REQUEST_INCOMPLETE
     \<and> parseRequest (raw @ ''more'') 10
         = Some (REQUEST_OK ((parsed_head ''POST'' ''/a?b'' ''/a'' [(''Host'', ''h''), (''Transfer-Encoding'', ''Chunked'')])
             \<lparr>rq_body := ''hi!''\<rparr>))"
proof -
  let ?h = "[(''Host'', ''h''), (''Transfer-Encoding'', ''Chunked'')]"
  have head: "valid_head ''POST'' ''/a?b'' ?h" unfolding valid_head_def by code_simp
  have path: "decodePath (takeWhile (\<lambda>c. c \<noteq> CHR ''?'') ''/a?b'') = Some ''/a''" by code_simp
  have "map_option lower (map_of (lowered ?h) ''transfer-encoding'') = Some ''chunked''"
    "map_of (lowered ?h) ''content-length'' = None" by code_simp+
  then have coding: "coded ''POST'' ?h ''hi!'' (encode_chunks [''hi'', ''!''])"
    using coded_chunks [of ?h "[''hi'', ''!'']" "''POST''"] by simp
  have "length (render_request ''POST'' ''/a?b'' ?h []) = 59" by code_simp
  then have size: "length (render_request ''POST'' ''/a?b'' ?h []) \<le> 65536" by linarith
  have sent: "12 < length (render_request ''POST'' ''/a?b'' ?h (encode_chunks [''hi'', ''!'']))" by code_simp
  have "length (encode_chunks [''hi'', ''!''] @ ''more'') = 22" by code_simp
  then have "length (encode_chunks [''hi'', ''!''] @ ''more'') < 2 ^ 64" by simp
  moreover have "length ''hi!'' \<le> 10" by simp
  ultimately show ?thesis
    unfolding Let_def using request_roundtrip [OF head path coding size, of 10 "''more''"] sent by blast
qed

text \<open>
  C33. The file that an accepted request names lies below the root of the location that
  decides about it: the path on disk is that root followed by a path of printable characters
  without the segments \<open>.\<close> and \<open>..\<close>, whatever was escaped in the request. The location is
  the one with the longest matching path.
\<close>

theorem request_stays_below_root:
  assumes "parseRequest raw maxBody = Some (REQUEST_OK request)"
    and "rt_status (resolve request config) = ROUTE_READY"
  shows "(\<exists>rel. safe_path rel \<and> rt_diskPath (resolve request config) = route_root (resolve request config) config @ rel)
    \<and> (case rt_location (resolve request config) of
         None \<Rightarrow> \<not> list_ex (\<lambda>l. prefix_matches (lc_path l) (rq_path request)) (sc_locations config)
       | Some l \<Rightarrow> l \<in> set (sc_locations config) \<and> prefix_matches (lc_path l) (rq_path request)
           \<and> list_all (\<lambda>k. length (lc_path k) \<le> length (lc_path l))
               (filter (\<lambda>k. prefix_matches (lc_path k) (rq_path request)) (sc_locations config)))"
  using resolve_confined [OF parseRequest_ok(1) [OF assms(1)] assms(2)]
    matchLocation_longest [of config "rq_path request"] matchLocation_None [of config "rq_path request"]
  by (auto simp: route_root_def list_all_iff list_ex_iff split: option.split)

theorem request_stays_below_root_witness:
  "\<exists>request rel. parseRequest (''GET /a//./b HTTP/1.1'' @ crlf @ ''host: h'' @ crlf @ crlf) 0 = Some (REQUEST_OK request)
     \<and> safe_path rel \<and> rt_diskPath (resolve request demo_server) = ''www'' @ rel"
proof -
  let ?raw = "''GET /a//./b HTTP/1.1'' @ crlf @ ''host: h'' @ crlf @ crlf"
  let ?r = "parsed_head ''GET'' ''/a//./b'' ''/a/b'' [(''host'', ''h'')]"
  have raw: "?raw = render_request ''GET'' ''/a//./b'' [(''host'', ''h'')] []"
    by (simp add: render_request_def request_line_def header_field_def)
  have "valid_head ''GET'' ''/a//./b'' [(''host'', ''h'')]" unfolding valid_head_def by code_simp
  moreover have "decodePath (takeWhile (\<lambda>c. c \<noteq> CHR ''?'') ''/a//./b'') = Some ''/a/b''" by code_simp
  moreover have "lower ''host'' = ''host''" by code_simp
  ultimately have p: "parseRequest ?raw 0 = Some (REQUEST_OK ?r)"
    unfolding raw by (simp add: parseRequest_render parseBody_def parsed_head_def new_request_def)
  have ready: "rt_status (resolve ?r demo_server) = ROUTE_READY"
    and "route_root (resolve ?r demo_server) demo_server = ''www''"
    by (simp_all add: resolve_def matchLocation_def demo_server_def new_config_def parsed_head_def methodAllowed_def
        route_root_def Let_def)
  with request_stays_below_root [OF p ready] p show ?thesis by auto
qed

text \<open>
  C34. A chunked body whose sizes stay below $2^{63}$ is always decided: the parser returns
  and throws nothing. This does not hold for every request: the size
  \<open>FFFFFFFFFFFFFFEC\<close> wraps the position around, so that after one proper chunk the loop
  comes back to the same size line for ever, appending to the body, and as the first chunk
  it makes \<open>compare\<close> throw, which ends the server.
\<close>

theorem chunked_termination:
  assumes head: "valid_head verb target headers"
    and path: "decodePath (takeWhile (\<lambda>c. c \<noteq> CHR ''?'') target) = Some path"
    and coding: "map_option lower (map_of (lowered headers) ''transfer-encoding'') = Some ''chunked''"
      "map_of (lowered headers) ''content-length'' = None"
    and sizes: "tame_sizes payload" "length payload < 2 ^ 62"
    and chunk: "c \<noteq> []" "length (encode_chunk c) + length rest < 2 ^ 63"
  shows "parseRequest (render_request verb target headers payload) maxBody \<notin> {None, Some PARSE_THROWS}
    \<and> parseRequest (render_request verb target headers (encode_chunk c @ wrapping_size @ crlf @ rest)) maxBody = None
    \<and> parseRequest (render_request verb target headers (wrapping_size @ crlf @ rest)) maxBody = Some PARSE_THROWS"
proof -
  let ?r = "parsed_head verb target path headers"
  have d: "distinct (map fst (lowered headers))" using head by (simp add: valid_head_def)
  obtain te where te: "map_of (lowered headers) ''transfer-encoding'' = Some te" "lower te = ''chunked''"
    using coding(1) by auto
  note b = parseRequest_render [OF head path] parsed_headers [OF d] coding(2) te(1) chunked_coding [OF te(2)]
  obtain ok body complete where "parseChunked payload = Some (ChunkReturn ok body complete)"
    using chunkLoop_returns [OF sizes, of 0 "[]"] by (auto simp: parseChunked_def)
  moreover have "length rest < 2 ^ 63" using chunk(2) by simp
  ultimately show ?thesis
    using parseChunked_endless [OF chunk] parseChunked_throws [of rest] by (simp add: b parseBody_def)
qed

theorem chunked_termination_witness:
  "parseRequest (render_request ''POST'' ''/'' [(''host'', ''h''), (''transfer-encoding'', ''chunked'')]
      (encode_chunk ''x'' @ wrapping_size @ crlf)) 10 = None"
proof -
  let ?h = "[(''host'', ''h''), (''transfer-encoding'', ''chunked'')]"
  have "valid_head ''POST'' ''/'' ?h" unfolding valid_head_def by code_simp
  moreover have "decodePath (takeWhile (\<lambda>c. c \<noteq> CHR ''?'') ''/'') = Some ''/''" by code_simp
  moreover have "map_option lower (map_of (lowered ?h) ''transfer-encoding'') = Some ''chunked''"
    "map_of (lowered ?h) ''content-length'' = None" by code_simp+
  moreover have "tame_sizes []" by (simp add: tame_sizes_def find_text_from_def crlf_def)
  moreover have "length (encode_chunk ''x'') + length ([] :: string) < 2 ^ 63"
    by (simp add: encode_chunk_def show_hex.simps [of "Suc 0"])
  ultimately show ?thesis
    using chunked_termination [of "''POST''" "''/''" ?h "''/''" "[]" "''x''" "[]" 10] by simp
qed

text \<open>
  C35. Whatever clients, scripts and kernel do, what waits for a client is the answer to what
  this client has sent (\<open>right_answer\<close>): the error page that a bad, late or too large request
  gets, what the dispatcher makes of its request, the output of the script that its request
  started, or the error page for a script that failed, made in one of the states of the
  operating system that occurred. Its text is the status line and the headers of that response,
  each on a line of its own, an empty line and the body; the first empty line ends the head, and
  the only \<open>Content-Length\<close> is the length of the body. No \<open>Transfer-Encoding\<close> contradicts it,
  with one exception, which is a defect: \<open>makeResponse\<close> takes over that of a script.
\<close>

theorem answers_are_framed:
  assumes "config_parse pton path file = Inr configs"
    and "openListeners pton (zip las configs) (new_webserver configs) = Done s"
    and "allowed_run poll_honest tks s" and "web_run tks s = Done t" and "kernel_ok (ws_trace t)"
    and "find_client g t = Some c" and "wc_output c \<noteq> []"
  shows "\<exists>config r. wc_config c = Some config \<and> right_answer (\<Union> (tick_os ` set tks)) config c r
    \<and> wc_output c = serialize r
    \<and> delimited (wc_output c) (head_lines r) (rs_body r)
    \<and> (well_framed (wc_output c) (head_lines r) (rs_body r) \<longleftrightarrow> uncoded r)
    \<and> (uncoded r \<or> awaits_script config c \<and> (\<exists>os. r = makeResponse os (wc_cgiOutput c) config))"
proof -
  have clean: "\<forall>config \<in> set configs. clean_config config" by (rule config_parse_clean [OF assms(1)])
  obtain config r where c: "wc_config c = Some config" "clean_config config"
    and r: "right_answer (\<Union> (tick_os ` set tks)) config c r" "wc_output c = serialize r"
    by (rule attended_output [OF run_attended(1) [OF assms(2) clean assms(3-6)] assms(7)])
  have "uncoded r \<or> awaits_script config c \<and> (\<exists>os. r = makeResponse os (wc_cgiOutput c) config)"
    using right_answer_clean(2) [OF r(1) c(2)] by auto
  then have "wc_config c = Some config \<and> right_answer (\<Union> (tick_os ` set tks)) config c r \<and> wc_output c = serialize r
    \<and> delimited (wc_output c) (head_lines r) (rs_body r)
    \<and> (well_framed (wc_output c) (head_lines r) (rs_body r) \<longleftrightarrow> uncoded r)
    \<and> (uncoded r \<or> awaits_script config c \<and> (\<exists>os. r = makeResponse os (wc_cgiOutput c) config))"
    using c(1) r right_answer_delimited [OF r(1) c(2)] by simp
  then show ?thesis by (intro exI)
qed

theorem answers_are_framed_witness:
  "\<exists>config r. web_run [accept_round, silent_round_at 31] demo_start = Done demo_408
     \<and> find_client 4 demo_408 = Some demo_found_408
     \<and> right_answer (\<Union> (tick_os ` set [accept_round, silent_round_at 31])) config demo_found_408 r
     \<and> delimited (wc_output demo_found_408) (head_lines r) (rs_body r)"
proof -
  have o: "openListeners (\<lambda>host. True) (zip [demo_listen] [demo_server]) (new_webserver [demo_server]) = Done demo_start"
    using demo_opened by simp
  have run: "allowed_run poll_honest [accept_round, silent_round_at 31] demo_start"
    "web_run [accept_round, silent_round_at 31] demo_start = Done demo_408"
    using demo_sent_run(2) demo_accepted demo_timeout_round by (simp_all add: accept_round_def silent_round_at_def)
  have "kernel_ok (ws_trace demo_408)" by (simp add: demo_408_fields)
  from answers_are_framed [OF demo_parsed o run this demo_408_found] run(2) demo_408_found(1) show ?thesis by blast
qed

text \<open>The exception: a script's own \<open>Transfer-Encoding\<close> stands beside the \<open>Content-Length\<close>.\<close>

theorem script_coding_forwarded:
  "let r = makeResponse os (''Content-Type: text/plain'' @ crlf @ ''Transfer-Encoding: chunked'' @ crlf @ crlf @ ''0'' @ crlf @ crlf) config
   in rs_headers r = [(''Content-Type'', ''text/plain''), (''Transfer-Encoding'', ''chunked'')] \<and> rs_body r = ''0'' @ crlf @ crlf
     \<and> \<not> well_framed (serialize r) (head_lines r) (rs_body r)"
proof -
  let ?out = "''Content-Type: text/plain'' @ crlf @ ''Transfer-Encoding: chunked'' @ crlf @ crlf @ ''0'' @ crlf @ crlf"
  let ?r = "(new_response 200)\<lparr>rs_headers := [(''Content-Type'', ''text/plain''), (''Transfer-Encoding'', ''chunked'')],
      rs_body := ''0'' @ crlf @ crlf\<rparr>"
  have "cgi_separator ?out = Some (52, 4)" by code_simp
  moreover have "cgi_headers (getlines (take 52 ?out)) (new_response 200) False =
      Some ((new_response 200)\<lparr>rs_headers := [(''Content-Type'', ''text/plain''), (''Transfer-Encoding'', ''chunked'')]\<rparr>, True)"
    by code_simp
  moreover have "drop (52 + 4) ?out = ''0'' @ crlf @ crlf" by code_simp
  ultimately have r: "makeResponse os ?out config = ?r" unfolding makeResponse_def by (simp only: option.case prod.case Let_def if_True)
  have "\<not> uncoded ?r" by code_simp
  with framed_serialize(2) [OF passable_makeResponse [of os ?out config]] r show ?thesis by (simp add: Let_def)
qed

text \<open>
  C36. A request changes the file system in two ways only. DELETE unlinks the path it names,
  a regular file whose canonical path lies inside the canonical root. POST creates one new
  file with a valid name in the upload directory of its location; it holds the whole body
  when the answer is 201, and otherwise it is removed again.
\<close>

theorem file_effects_confined:
  assumes "dispatch os request config = (response, es)" and "es \<noteq> []"
  shows "rq_method request = ''DELETE''
      \<and> (\<exists>root resolved. es = [FileUnlinked (rt_diskPath (resolve request config))] \<and> rs_status response = 204
           \<and> os_realpath os (route_root (resolve request config) config) = Inr root
           \<and> os_realpath os (rt_diskPath (resolve request config)) = Inr resolved \<and> pathInside root resolved
           \<and> map_option fst (os_fstat os resolved) = Some KRegular)
    \<or> rq_method request = ''POST''
      \<and> (\<exists>l dir name es'. matchLocation config (rq_path request) = Some l \<and> lc_uploadDir l \<noteq> []
           \<and> os_realpath os (lc_uploadDir l) = Inr dir \<and> validFileName name \<and> os_openat os dir name = None
           \<and> es = FileCreated dir name # es'
           \<and> list_all (\<lambda>e. e = FileUnlinkedAt dir name \<or> (\<exists>d. e = FileWritten dir name d)) es'
           \<and> (if rs_status response = 201 then written es' = rq_body request
              else last es = FileUnlinkedAt dir name))"
proof -
  from dispatch_effects(1) [OF assms] show ?thesis
  proof (elim disjE conjE)
    assume "delete_handle os (resolve request config) config = (response, es)" "rq_method request = ''DELETE''"
    then show ?thesis using assms(2) by (elim delete_effects) auto
  next
    assume "upload_handle os request (resolve request config) config = (response, es)" "rq_method request = ''POST''"
    then show ?thesis using assms(2) by (elim upload_effects) (auto simp: list_all_iff)
  qed
qed

definition deleting_os :: os where
  "deleting_os = (demo_os 0)
     \<lparr>os_realpath := (\<lambda>p. if p = ''www'' then Inr ''/srv/www'' else Inr ''/srv/www/a''),
      os_lstat := (\<lambda>p. Inr KRegular), os_open := (\<lambda>p. None), os_fstat := (\<lambda>p. Some (KRegular, 0)),
      os_unlink := (\<lambda>p. True)\<rparr>"

theorem file_effects_confined_witness:
  "\<exists>resolved. os_realpath deleting_os ''www/a'' = Inr resolved \<and> pathInside ''/srv/www'' resolved"
proof -
  let ?r = "new_request\<lparr>rq_method := ''DELETE'', rq_path := ''/a''\<rparr>"
  let ?c = "demo_server\<lparr>sc_methods := [''DELETE'']\<rparr>"
  have route: "resolve ?r ?c = \<lparr>rt_status = ROUTE_READY, rt_location = None, rt_methods = [''DELETE''],
      rt_diskPath = ''www/a'', rt_redirect = []\<rparr>"
    by (simp add: resolve_def matchLocation_def demo_server_def new_config_def new_request_def methodAllowed_def Let_def)
  have "dispatch deleting_os ?r ?c = (new_response 204, [FileUnlinked ''www/a''])"
    unfolding dispatch_def Let_def route
    by (simp add: delete_handle_def removeRegular_def resolveExisting_def canonicalPath_def deleting_os_def
        route_root_def demo_server_def new_config_def new_request_def pathInside_def starts_with_def)
  from file_effects_confined [OF this, unfolded route] show ?thesis
    by (auto simp: route_root_def demo_server_def new_config_def deleting_os_def new_request_def)
qed

text \<open>
  C37. In every state at the head of the event loop the tables of the server agree. The poll
  list has each descriptor once: the listeners, the clients, and the pipes of the running
  scripts, with their owners; every entry asks for exactly what its owner waits for (a
  client whose script runs waits for nothing, one with an answer to be writable, any other
  to be readable). No client is without a configuration, and there are at most 128 clients
  and 16 scripts.
\<close>

theorem server_tables_agree:
  assumes "web_serving s"
  shows "distinct (map pf_fd (ws_pollFds s))
    \<and> eventMap (ws_pollFds s) =
        (\<lambda>fd. if fd \<in> fst ` set (ws_listeners s) then Some {POLLIN}
              else case find_client fd s of
                     Some c \<Rightarrow> Some (if 0 < wc_cgiPid c then {} else if wc_output c = [] then {POLLIN} else {POLLOUT})
                   | None \<Rightarrow> if ws_inputOwners s fd \<noteq> None then Some {POLLOUT}
                            else if ws_outputOwners s fd \<noteq> None then Some {POLLIN} else None)
    \<and> (\<forall>fd g. ws_inputOwners s fd = Some g \<longleftrightarrow> 0 \<le> fd \<and> map_option wc_cgiInputFd (find_client g s) = Some fd)
    \<and> (\<forall>fd g. ws_outputOwners s fd = Some g \<longleftrightarrow> 0 \<le> fd \<and> map_option wc_cgiOutputFd (find_client g s) = Some fd)
    \<and> list_all (\<lambda>(fd, c). wc_fd c = fd \<and> wc_config c \<noteq> None) (ws_clients s)
    \<and> length (ws_clients s) \<le> MAX_CONNECTIONS \<and> runningCgi s \<le> MAX_CGI_PROCESSES"
proof -
  have w: "wf_web s" using wf_web_serving [OF assms] by blast
  note d = wf_pendingD [OF w]
  have "list_all (\<lambda>(fd, c). wc_fd c = fd \<and> wc_config c \<noteq> None) (ws_clients s)"
    using d(1) shape_client [OF d(3)]
    by (auto simp: list_all_iff ordered_map_def client_ok_def dest!: map_of_is_SomeI [rotated])
  moreover have "length (ws_clients s) \<le> MAX_CONNECTIONS" "runningCgi s \<le> MAX_CGI_PROCESSES"
    using d(6) length_clients [OF d(1)] runningCgi_card [OF d(1)] by (simp_all add: bounded_def)
  moreover have "eventMap (ws_pollFds s) fd = expected (listenFds s) (clientMap s) (ws_inputOwners s) (ws_outputOwners s) fd" for fd
    using d(3) by (simp add: shape_def)
  ultimately show ?thesis
    using d(2,3)
    by (auto simp: fun_eq_iff expected_def asks_for_def listenFds_def find_client_def shape_def owners_def
        split: option.split)
qed

theorem server_tables_agree_witness:
  "eventMap (ws_pollFds demo_connected) 4 = Some {POLLIN}"
  using server_tables_agree [OF serving_demo_connected]
  by (simp add: demo_found) (simp add: demo_connected_def demo_start_def demo_client_def new_web_client_def)

text \<open>
  C38. When the program ends after it has opened its listeners, by a signal or by an
  exception, every descriptor it opened has been closed exactly as often, and every script it
  started has been waited for. The kernel is assumed to hand out only descriptors that are
  not open and positive process identifiers, and \<open>poll\<close> to report reading and writing only
  where asked.
\<close>

theorem nothing_left_at_exit:
  assumes "config_parse pton path (files path) = Inr configs"
    and "openListeners pton (zip (map answers [0..<length configs]) configs) (new_webserver configs) = Done s0"
    and "allowed_run poll_honest ticks s0"
    and "web_main [path] pton files answers ticks = Some (code, Some s)"
    and "kernel_ok (ws_trace s)"
  shows "fd_balance (ws_trace s) fd = 0 \<and> (0 < pid \<longrightarrow> child_balance (ws_trace s) pid = 0)"
  by (rule web_main_balance [OF assms(2,1,3-5)])

theorem nothing_left_at_exit_witness:
  "\<exists>s. web_main [''c''] (\<lambda>host. True) (\<lambda>p. Some demo_text) (\<lambda>i. demo_listen)
      [accept_round, accept_round\<lparr>wt_running := False\<rparr>] = Some (0, Some s)
     \<and> FdOpened 4 \<in> set (ws_trace s) \<and> fd_balance (ws_trace s) 4 = 0"
proof -
  let ?ticks = "[accept_round, accept_round\<lparr>wt_running := False\<rparr>]"
  have o: "openListeners (\<lambda>host. True) (zip (map (\<lambda>i. demo_listen) [0..<length [demo_server]]) [demo_server])
      (new_webserver [demo_server]) = Done demo_start"
    using demo_opened by simp
  have a: "allowed_run poll_honest ?ticks demo_start"
    using demo_honest demo_accepted by simp
  have "web_run ?ticks demo_start = Done demo_connected"
    using demo_accepted by (simp add: accept_round_def)
  then have m: "web_main [''c''] (\<lambda>host. True) (\<lambda>p. Some demo_text) (\<lambda>i. demo_listen) ?ticks
      = Some (0, Some (destroy_web demo_connected))"
    using demo_parsed demo_opened by (simp add: web_main_def)
  have t: "ws_trace (destroy_web demo_connected) = [FdClosed 3, FdClosed 4, FdOpened 4, FdOpened 3]"
    by (simp add: destroy_web_def effects_def close_all_def wait_all_def demo_connected_def demo_start_def
        demo_client_def new_web_client_def)
  then have "kernel_ok (ws_trace (destroy_web demo_connected))" by simp
  from nothing_left_at_exit [OF demo_parsed o a m this, of 4] m t show ?thesis by auto
qed

text \<open>
  C39. Nobody can hold a connection by staying silent, however busy the server is with others.
  In a run in which \<open>poll\<close> reports neither the connection of \<open>g\<close> nor a pipe of its script, as
  long as that connection is not closed, while it may report anything of all other descriptors,
  the server closes the connection: at the latest in the first round after one more period,
  counted from the first round (\<open>tk1\<close>) that begins its time-out check after the time of the
  client is over. (Rounds in which \<open>poll\<close> was interrupted make no such check.) The state in
  which the client falls silent is any state of the server.
\<close>

theorem silent_client_is_dropped:
  assumes "web_serving s" and "find_client g s = Some c"
    and "allowed_run (\<lambda>tk u. poll_honest tk u \<and> (closes g s u \<or> unready g tk u)) (pre @ tk1 # post) s"
    and "web_run (pre @ tk1 # post) s = Done t" and "kernel_ok (ws_trace t)"
    and "list_all wt_running (pre @ tk1 # post)" and "0 \<le> wt_ready tk1"
    and "list_all (\<lambda>tk. wa_now (wt_end tk) \<le> wa_now (wt_end tk1)) pre"
    and "wc_touched c + int (wc_timeoutSeconds c) < wa_now (wt_end tk1)"
    and "list_ex (\<lambda>tk. 0 \<le> wt_ready tk \<and> wa_now (wt_end tk1) + int (wc_timeoutSeconds c) < wa_now (wt_end tk)) post"
  shows "closes g s t"
proof (rule silent_client_closed [OF _ extends_refl])
  show "wf_web s" using wf_web_serving [OF assms(1)] by blast
  show "clientMap s g = Some c \<or> going g s (wa_now (wt_end tk1)) (wc_timeoutSeconds c) s"
    using assms(2) by (simp add: find_client_def)
  show "allowed_run (silent_on g s) (pre @ tk1 # post) s" using assms(3) by (simp add: silent_on_def [abs_def])
qed (use assms(4-) in \<open>simp_all add: list_all_iff list_ex_iff\<close>)

theorem silent_client_is_dropped_witness:
  "\<exists>t. web_run [busy_round 31 5, busy_round 62 6] demo_connected = Done t \<and> closes 4 demo_connected t
     \<and> find_client 5 t \<noteq> None \<and> find_client 6 t \<noteq> None"
proof -
  have run: "web_run [busy_round 31 5, busy_round 62 6] demo_connected = Done busy_closed"
    using busy_rounds by (simp add: busy_round_def accept_round_def)
  have honest: "poll_honest (busy_round 31 5) demo_connected" "poll_honest (busy_round 62 6) busy_408"
    by (simp_all add: poll_honest_def busy_round_def accept_round_def demo_connected_def busy_408_def)
  have quiet: "unready 4 (busy_round 31 5) demo_connected" "unready 4 (busy_round 62 6) busy_408"
    by (simp_all add: unready_def unheard_def busy_round_def accept_round_def demo_connected_def busy_408_def
        find_client_def demo_found_408_def timeout_answer_def demo_client_def new_web_client_def)
  have a: "allowed_run (\<lambda>tk u. poll_honest tk u \<and> (closes 4 demo_connected u \<or> unready 4 tk u))
      ([] @ busy_round 31 5 # [busy_round 62 6]) demo_connected"
    using honest quiet busy_rounds by (simp add: busy_round_def accept_round_def)
  have k: "kernel_ok (ws_trace busy_closed)" by (simp add: busy_closed_def)
  have "closes 4 demo_connected busy_closed"
    by (rule silent_client_is_dropped [OF serving_demo_connected demo_found a _ k])
      (use run in \<open>simp_all add: busy_round_def accept_round_def wa_now_def demo_answers_def demo_os_def demo_client_def
        new_web_client_def\<close>)
  with run show ?thesis by (auto simp: find_client_def busy_closed_def)
qed

text \<open>
  C40. A variable whose name starts with \<open>HTTP_\<close> in the environment of a script comes from a
  header of the request, and from none of \<open>content-length\<close>, \<open>content-type\<close> and \<open>proxy\<close>. No
  request can make a script see \<open>HTTP_PROXY\<close>, which programs take for the configuration of a
  proxy.
\<close>

theorem script_environment:
  assumes "parseRequest raw maxBody = Some (REQUEST_OK request)"
  shows "''HTTP_PROXY'' \<notin> fst ` set (cgi_environment os request path root config)
    \<and> (\<forall>name \<in> fst ` set (cgi_environment os request path root config).
         take 5 name = ''HTTP_'' \<longrightarrow>
         (\<exists>h \<in> set (rq_headers request). fst h \<notin> {''content-length'', ''content-type'', ''proxy''}
            \<and> name = headerEnvironmentName (fst h)))"
proof -
  let ?env = "fst ` set (cgi_environment os request path root config)"
  have h: "\<exists>h \<in> set (rq_headers request). fst h \<notin> {''content-length'', ''content-type'', ''proxy''}
      \<and> name = headerEnvironmentName (fst h)" if "name \<in> ?env" "take 5 name = ''HTTP_''" for name
    using subsetD [OF environment_names that(1)] that(2) by force
  moreover have "''HTTP_PROXY'' \<notin> ?env"
  proof
    assume "''HTTP_PROXY'' \<in> ?env"
    from h [OF this] obtain k where "k \<in> set (rq_headers request)" "fst k \<noteq> ''proxy''"
      "headerEnvironmentName (fst k) = ''HTTP_PROXY''" by auto
    with parseRequest_ok(5) [OF assms] environment_name_proxy [of "fst k"] show False by auto
  qed
  ultimately show ?thesis by blast
qed

theorem script_environment_witness:
  "\<exists>request. parseRequest (render_request ''GET'' ''/'' [(''host'', ''h''), (''proxy'', ''evil'')] []) 0
       = Some (REQUEST_OK request)
     \<and> ''HTTP_PROXY'' \<notin> fst ` set (cgi_environment (demo_os 0) request ''www/a'' ''www'' demo_server)"
proof -
  let ?h = "[(''host'', ''h''), (''proxy'', ''evil'')]"
  have "valid_head ''GET'' ''/'' ?h" unfolding valid_head_def by code_simp
  moreover have "decodePath (takeWhile (\<lambda>c. c \<noteq> CHR ''?'') ''/'') = Some ''/''" by code_simp
  moreover have "lower ''host'' = ''host''" "lower ''proxy'' = ''proxy''" by code_simp+
  ultimately have p: "parseRequest (render_request ''GET'' ''/'' ?h []) 0
      = Some (REQUEST_OK (parsed_head ''GET'' ''/'' ''/'' ?h))"
    by (simp add: parseRequest_render parseBody_def parsed_head_def new_request_def)
  from script_environment [OF p] p show ?thesis by blast
qed

end
