(* ===== verification/Lab_Echo.thy ===== *)
theory Lab_Echo
  imports Poll_List Web_Server
begin

section \<open>The experimental echo server\<close>

text \<open>
  Models \<open>services/irc/lab/C/main.c\<close>, the skeleton of the \<open>poll\<close> loops: a fixed array of
  poll entries and the number of those in use. \<open>None\<close> is an access outside the array. What
  the kernel is asked to do is recorded with the effects of \<open>Web_Server\<close>, latest first; its
  answers are arguments. Log output and the results of \<open>setsockopt\<close> and \<open>fcntl\<close>, which the
  code ignores, are left out.
\<close>

definition MAX_ECHO_CLIENTS :: nat where
  "MAX_ECHO_CLIENTS = 128"

record echo =
  ec_fds :: "pollfd list"
  ec_nfds :: nat
  ec_trace :: "web_effect list"

definition new_echo :: echo where
  "new_echo = \<lparr>ec_fds = replicate (MAX_ECHO_CLIENTS + 1) \<lparr>pf_fd = 0, pf_events = {}, pf_revents = {}\<rparr>, ec_nfds = 0,
     ec_trace = []\<rparr>"

definition slot :: "nat \<Rightarrow> echo \<Rightarrow> pollfd option" where
  "slot i s = (if i < length (ec_fds s) then Some (ec_fds s ! i) else None)"

definition add_fd :: "int \<Rightarrow> echo \<Rightarrow> echo option" where
  "add_fd fd s =
     (if MAX_ECHO_CLIENTS + 1 \<le> ec_nfds s then Some (s\<lparr>ec_trace := FdClosed fd # ec_trace s\<rparr>)
      else case slot (ec_nfds s) s of
             None \<Rightarrow> None
           | Some old \<Rightarrow>
               Some (s\<lparr>ec_fds := (ec_fds s)[ec_nfds s := \<lparr>pf_fd = fd, pf_events = {POLLIN}, pf_revents = {}\<rparr>],
                       ec_nfds := ec_nfds s + 1\<rparr>))"

text \<open>The last entry takes the place of the removed one; without entries that is index -1.\<close>

definition remove_fd :: "nat \<Rightarrow> echo \<Rightarrow> echo option" where
  "remove_fd index s =
     (if ec_nfds s = 0 then None
      else case (slot index s, slot (ec_nfds s - 1) s) of
             (Some p, Some moved) \<Rightarrow>
               Some (s\<lparr>ec_fds := (ec_fds s)[index := moved], ec_nfds := ec_nfds s - 1,
                       ec_trace := FdClosed (pf_fd p) # ec_trace s\<rparr>)
           | _ \<Rightarrow> None)"

text \<open>The descriptor, or \<open>None\<close> for \<open>exit(1)\<close>.\<close>

record echo_setup =
  es_socket :: int
  es_bind :: bool
  es_listen :: bool

definition setup_server :: "echo_setup \<Rightarrow> echo \<Rightarrow> int option \<times> echo" where
  "setup_server a s =
     (if es_socket a = - 1 then (None, s)
      else
        let s1 = s\<lparr>ec_trace := FdOpened (es_socket a) # ec_trace s\<rparr>
        in if \<not> es_bind a then (None, s1) else if \<not> es_listen a then (None, s1) else (Some (es_socket a), s1))"

record echo_answers =
  ea_accept :: int
  ea_recv :: "string option"
  ea_send :: "nat option"

definition handle_new_connection :: "echo_answers \<Rightarrow> echo \<Rightarrow> echo option" where
  "handle_new_connection a s =
     (if ea_accept a = - 1 then Some s
      else add_fd (ea_accept a) (s\<lparr>ec_trace := FdOpened (ea_accept a) # ec_trace s\<rparr>))"

text \<open>The result of \<open>send\<close> is ignored: what the kernel does not take is lost.\<close>

definition handle_client_data :: "echo_answers \<Rightarrow> nat \<Rightarrow> echo \<Rightarrow> echo option" where
  "handle_client_data a index s =
     (case ea_recv a of
        None \<Rightarrow> remove_fd index s
      | Some data \<Rightarrow>
          if data = [] then remove_fd index s
          else case slot index s of
                 None \<Rightarrow> None
               | Some p \<Rightarrow>
                   (case ea_send a of
                      None \<Rightarrow> Some s
                    | Some n \<Rightarrow> Some (s\<lparr>ec_trace := SentTo (pf_fd p) (take n data) # ec_trace s\<rparr>)))"

definition broken_flags :: "poll_flag set" where
  "broken_flags = {POLLERR, POLLHUP, POLLNVAL}"

text \<open>The body of the loop over the entries; \<open>fds[i]\<close> is read again after the first handler.\<close>

definition echo_input :: "int \<Rightarrow> echo_answers \<Rightarrow> nat \<Rightarrow> pollfd \<Rightarrow> echo \<Rightarrow> echo option" where
  "echo_input server_fd a i p s =
     (if POLLIN \<in> pf_revents p
      then if pf_fd p = server_fd then handle_new_connection a s else handle_client_data a i s
      else Some s)"

definition echo_hangup :: "int \<Rightarrow> nat \<Rightarrow> echo \<Rightarrow> echo option" where
  "echo_hangup server_fd i s =
     (case slot i s of
        None \<Rightarrow> None
      | Some q \<Rightarrow>
          if pf_revents q \<inter> broken_flags \<noteq> {} \<and> pf_fd q \<noteq> server_fd then remove_fd i s else Some s)"

definition echo_entry :: "int \<Rightarrow> (int \<Rightarrow> echo_answers) \<Rightarrow> nat \<Rightarrow> echo \<Rightarrow> echo option" where
  "echo_entry server_fd answers i s =
     (case slot i s of
        None \<Rightarrow> None
      | Some p \<Rightarrow>
          if pf_revents p = {} then Some s
          else (case echo_input server_fd (answers (pf_fd p)) i p s of
                  None \<Rightarrow> None
                | Some s1 \<Rightarrow> echo_hangup server_fd i s1))"

lemma remove_fd_length: "remove_fd i s = Some t \<Longrightarrow> length (ec_fds t) = length (ec_fds s)"
  by (auto simp: remove_fd_def split: if_splits option.splits)

lemma add_fd_length: "add_fd fd s = Some t \<Longrightarrow> length (ec_fds t) = length (ec_fds s)"
  by (auto simp: add_fd_def split: if_splits option.splits)

lemma echo_input_length: "echo_input sfd a i p s = Some t \<Longrightarrow> length (ec_fds t) = length (ec_fds s)"
  by (auto simp: echo_input_def handle_new_connection_def handle_client_data_def
      split: if_splits option.splits dest!: remove_fd_length add_fd_length)

lemma echo_hangup_length: "echo_hangup sfd i s = Some t \<Longrightarrow> length (ec_fds t) = length (ec_fds s)"
  by (auto simp: echo_hangup_def split: if_splits option.splits dest!: remove_fd_length)

lemma echo_entry_length:
  "echo_entry sfd answers i s = Some t \<Longrightarrow> i < length (ec_fds s) \<and> length (ec_fds t) = length (ec_fds s)"
  by (auto simp: echo_entry_def slot_def split: if_splits option.splits
      dest!: echo_input_length echo_hangup_length)

function echo_entries :: "int \<Rightarrow> (int \<Rightarrow> echo_answers) \<Rightarrow> nat \<Rightarrow> echo \<Rightarrow> echo option" where
  "echo_entries server_fd answers i s =
     (if ec_nfds s \<le> i then Some s
      else case echo_entry server_fd answers i s of
             None \<Rightarrow> None
           | Some t \<Rightarrow> echo_entries server_fd answers (i + 1) t)"
  by pat_completeness auto
termination
  by (relation "measure (\<lambda>(_, _, i, s). length (ec_fds s) - i)") (auto dest!: echo_entry_length)

declare echo_entries.simps [simp del]

record echo_tick =
  et_ready :: int
  et_revents :: "int \<Rightarrow> poll_flag set"
  et_answers :: "int \<Rightarrow> echo_answers"

definition echo_poll :: "(int \<Rightarrow> poll_flag set) \<Rightarrow> echo \<Rightarrow> echo" where
  "echo_poll r s =
     s\<lparr>ec_fds := map (\<lambda>p. p\<lparr>pf_revents := r (pf_fd p)\<rparr>) (take (ec_nfds s) (ec_fds s)) @ drop (ec_nfds s) (ec_fds s)\<rparr>"

fun echo_run :: "int \<Rightarrow> echo_tick list \<Rightarrow> echo \<Rightarrow> echo option" where
  "echo_run server_fd [] s = Some s"
| "echo_run server_fd (tk # tks) s =
     (if et_ready tk = - 1 then Some (s\<lparr>ec_trace := FdClosed server_fd # ec_trace s\<rparr>)
      else case echo_entries server_fd (et_answers tk) 0 (echo_poll (et_revents tk) s) of
             None \<Rightarrow> None
           | Some t \<Rightarrow> echo_run server_fd tks t)"

definition echo_main :: "echo_setup \<Rightarrow> echo_tick list \<Rightarrow> echo option" where
  "echo_main a tks =
     (case setup_server a new_echo of
        (None, s) \<Rightarrow> Some s
      | (Some server_fd, s) \<Rightarrow>
          (case add_fd server_fd s of None \<Rightarrow> None | Some t \<Rightarrow> echo_run server_fd tks t))"

subsection \<open>No access outside the array\<close>

definition echo_ok :: "int \<Rightarrow> echo \<Rightarrow> bool" where
  "echo_ok sfd s \<longleftrightarrow>
     length (ec_fds s) = MAX_ECHO_CLIENTS + 1 \<and> ec_nfds s \<le> MAX_ECHO_CLIENTS + 1 \<and> pf_fd (ec_fds s ! 0) = sfd"

lemma echo_ok_remove:
  assumes "echo_ok sfd s" and "0 < i" and "i \<le> MAX_ECHO_CLIENTS" and "0 < ec_nfds s"
  shows "\<exists>t. remove_fd i s = Some t \<and> echo_ok sfd t \<and> ec_nfds t = ec_nfds s - 1"
  using assms by (auto simp: remove_fd_def slot_def echo_ok_def)

lemma echo_ok_add:
  assumes "echo_ok sfd s" and "0 < ec_nfds s"
  shows "\<exists>t. add_fd fd s = Some t \<and> echo_ok sfd t \<and> ec_nfds s \<le> ec_nfds t"
  using assms by (auto simp: add_fd_def slot_def echo_ok_def)

lemma echo_ok_input:
  assumes ok: "echo_ok sfd s" and i: "i < ec_nfds s"
  shows "\<exists>t. echo_input sfd a i (ec_fds s ! i) s = Some t \<and> echo_ok sfd t \<and> (0 < i \<longrightarrow> 0 < ec_nfds t)"
proof -
  have n: "i \<le> MAX_ECHO_CLIENTS" "0 < ec_nfds s" using ok i by (auto simp: echo_ok_def)
  consider (none) "POLLIN \<notin> pf_revents (ec_fds s ! i)"
    | (server) "POLLIN \<in> pf_revents (ec_fds s ! i)" "pf_fd (ec_fds s ! i) = sfd"
    | (client) "POLLIN \<in> pf_revents (ec_fds s ! i)" "pf_fd (ec_fds s ! i) \<noteq> sfd" by blast
  then show ?thesis
  proof cases
    case none
    with ok n show ?thesis by (simp add: echo_input_def)
  next
    case server
    let ?s = "s\<lparr>ec_trace := FdOpened (ea_accept a) # ec_trace s\<rparr>"
    have "\<exists>t. add_fd (ea_accept a) ?s = Some t \<and> echo_ok sfd t \<and> ec_nfds ?s \<le> ec_nfds t"
      by (rule echo_ok_add) (use ok n in \<open>simp_all add: echo_ok_def\<close>)
    with server ok n show ?thesis by (auto simp: echo_input_def handle_new_connection_def)
  next
    case client
    then have "0 < i" using ok by (cases i) (simp_all add: echo_ok_def)
    with echo_ok_remove [OF ok this n] i
    have "\<exists>t. remove_fd i s = Some t \<and> echo_ok sfd t \<and> 0 < ec_nfds t" by auto
    moreover have "slot i s = Some (ec_fds s ! i)" using ok n by (simp add: slot_def echo_ok_def)
    ultimately show ?thesis using client ok n
      by (auto simp: echo_input_def handle_client_data_def echo_ok_def split: option.split)
  qed
qed

lemma echo_ok_entry:
  assumes ok: "echo_ok sfd s" and i: "i < ec_nfds s"
  shows "\<exists>t. echo_entry sfd answers i s = Some t \<and> echo_ok sfd t"
proof -
  let ?p = "ec_fds s ! i"
  have n: "i \<le> MAX_ECHO_CLIENTS" using ok i by (simp add: echo_ok_def)
  have p: "slot i s = Some ?p" using ok n by (simp add: slot_def echo_ok_def)
  obtain t where t: "echo_input sfd (answers (pf_fd ?p)) i ?p s = Some t" "echo_ok sfd t" "0 < i \<longrightarrow> 0 < ec_nfds t"
    using echo_ok_input [OF ok i] by blast
  have q: "slot i t = Some (ec_fds t ! i)" using t(2) n by (simp add: slot_def echo_ok_def)
  have "\<exists>u. echo_hangup sfd i t = Some u \<and> echo_ok sfd u"
  proof (cases "pf_fd (ec_fds t ! i) = sfd")
    case True
    with q t(2) show ?thesis by (simp add: echo_hangup_def)
  next
    case False
    then have "0 < i" using t(2) by (cases i) (simp_all add: echo_ok_def)
    with echo_ok_remove [OF t(2) this n] t(2,3) q show ?thesis by (auto simp: echo_hangup_def)
  qed
  with p t(1) ok show ?thesis by (auto simp: echo_entry_def)
qed

lemma echo_ok_entries: "echo_ok sfd s \<Longrightarrow> \<exists>t. echo_entries sfd answers i s = Some t \<and> echo_ok sfd t"
proof (induction sfd answers i s rule: echo_entries.induct)
  case (1 sfd answers i s)
  show ?case
  proof (cases "ec_nfds s \<le> i")
    case True
    with "1.prems" show ?thesis by (simp add: echo_entries.simps)
  next
    case False
    with echo_ok_entry [OF "1.prems", of i answers] obtain t
      where t: "echo_entry sfd answers i s = Some t" "echo_ok sfd t" by auto
    from "1.IH" [OF False t] False t(1) show ?thesis by (simp add: echo_entries.simps [of _ _ i s])
  qed
qed

lemma echo_ok_run: "echo_ok sfd s \<Longrightarrow> echo_run sfd tks s \<noteq> None"
proof (induction tks arbitrary: s)
  case (Cons tk tks)
  have "echo_ok sfd (echo_poll r s)" for r
    using Cons.prems by (cases "ec_nfds s") (auto simp: echo_ok_def echo_poll_def nth_append)
  then obtain t where "echo_entries sfd (et_answers tk) 0 (echo_poll (et_revents tk) s) = Some t" "echo_ok sfd t"
    using echo_ok_entries by blast
  with Cons.IH show ?case by simp
qed simp

text \<open>Whatever the kernel answers, the program stays inside its array.\<close>

theorem echo_in_bounds: "echo_main a tks \<noteq> None"
proof -
  have "\<exists>t. add_fd (es_socket a) (new_echo\<lparr>ec_trace := [FdOpened (es_socket a)]\<rparr>) = Some t \<and> echo_ok (es_socket a) t"
    by (simp add: add_fd_def slot_def new_echo_def echo_ok_def MAX_ECHO_CLIENTS_def)
  moreover have "ec_trace new_echo = []" by (simp add: new_echo_def)
  ultimately show ?thesis using echo_ok_run
    by (fastforce simp: echo_main_def setup_server_def Let_def)
qed

text \<open>
  A client that resets its connection reports \<open>POLLIN\<close> and \<open>POLLHUP\<close> at once; its entry is
  removed twice. When it is the last entry, its descriptor is closed twice and the entry
  before it is dropped: with one client that is the listening socket.
\<close>

theorem echo_reset_removes_listener:
  assumes "1 < length (ec_fds s)" and "ec_nfds s = 2" and "pf_fd (ec_fds s ! 1) \<noteq> sfd"
    and "{POLLIN, POLLHUP} \<subseteq> pf_revents (ec_fds s ! 1)" and "ea_recv (answers (pf_fd (ec_fds s ! 1))) = None"
  shows "\<exists>t. echo_entry sfd answers 1 s = Some t \<and> ec_nfds t = 0
    \<and> ec_trace t = FdClosed (pf_fd (ec_fds s ! 1)) # FdClosed (pf_fd (ec_fds s ! 1)) # ec_trace s"
  using assms
  by (auto simp: echo_entry_def slot_def echo_input_def handle_client_data_def remove_fd_def echo_hangup_def
      broken_flags_def)

theorem echo_reset_removes_listener_witness:
  "\<exists>t. echo_entry 3 (\<lambda>_. \<lparr>ea_accept = - 1, ea_recv = None, ea_send = None\<rparr>) 1
      \<lparr>ec_fds = [\<lparr>pf_fd = 3, pf_events = {POLLIN}, pf_revents = {}\<rparr>,
         \<lparr>pf_fd = 4, pf_events = {POLLIN}, pf_revents = {POLLIN, POLLHUP}\<rparr>], ec_nfds = 2, ec_trace = []\<rparr> = Some t
     \<and> ec_nfds t = 0"
  using echo_reset_removes_listener [of "\<lparr>ec_fds = [\<lparr>pf_fd = 3, pf_events = {POLLIN}, pf_revents = {}\<rparr>,
         \<lparr>pf_fd = 4, pf_events = {POLLIN}, pf_revents = {POLLIN, POLLHUP}\<rparr>], ec_nfds = 2, ec_trace = []\<rparr>" 3
       "\<lambda>_. \<lparr>ea_accept = - 1, ea_recv = None, ea_send = None\<rparr>"] by auto

end
