(* ===== verification/Lab_Parser.thy ===== *)
theory Lab_Parser
  imports Irc_Reply Irc_Parser Web_Http
begin

section \<open>The experimental message parser\<close>

text \<open>
  Models \<open>services/irc/lab/C++/irc_message_parser.cpp\<close>, the study from which the parser of the
  server grew: \<open>parseIrcMessage\<close> and \<open>makeNumericReply\<close>. As in \<open>Irc_Parser\<close> the position in
  the line is the rest of the line. It accepts everything; on lines as the server frames them
  the parser of the server is the same function with its checks added.
\<close>

record irc_message =
  im_prefix :: string
  im_command :: string
  im_params :: "string list"

definition strip_eol :: "string \<Rightarrow> string" where
  "strip_eol line = rev (dropWhile (\<lambda>c. c = CR \<or> c = LF) (rev line))"

function lab_params :: "string \<Rightarrow> string list \<Rightarrow> string list" where
  "lab_params rest params =
     (case dropWhile (\<lambda>c. c = SP) rest of
        [] \<Rightarrow> params
      | c # cs \<Rightarrow>
          if c = CHR '':'' then params @ [cs]
          else (case find_char SP (c # cs) of
                  None \<Rightarrow> params @ [c # cs]
                | Some end \<Rightarrow> lab_params (drop (end + 1) (c # cs)) (params @ [take end (c # cs)])))"
  by pat_completeness auto
termination
proof (relation "measure (\<lambda>(rest, _). length rest)")
  fix rest :: string and params :: "string list" and c cs "end"
  assume "dropWhile (\<lambda>c. c = SP) rest = c # cs"
  then have "length (c # cs) \<le> length rest" using length_dropWhile_le [of "\<lambda>c. c = SP" rest] by simp
  then show "((drop (end + 1) (c # cs), params @ [take end (c # cs)]), rest, params)
      \<in> measure (\<lambda>(rest, _). length rest)" by simp
qed simp

declare lab_params.simps [simp del]

text \<open>What follows the prefix.\<close>

definition lab_command :: "string \<Rightarrow> string \<Rightarrow> irc_message" where
  "lab_command prefix rest =
     (let r = dropWhile (\<lambda>c. c = SP) rest
      in (case find_char SP r of
            None \<Rightarrow> \<lparr>im_prefix = prefix, im_command = r, im_params = []\<rparr>
          | Some end \<Rightarrow>
              \<lparr>im_prefix = prefix, im_command = take end r, im_params = lab_params (drop (end + 1) r) []\<rparr>))"

definition parseIrcMessage :: "string \<Rightarrow> irc_message" where
  "parseIrcMessage raw =
     (let line = strip_eol raw; msg = \<lparr>im_prefix = [], im_command = [], im_params = []\<rparr>
      in if line = [] then msg
         else if hd line = CHR '':''
         then (case find_char SP (tl line) of
                 None \<Rightarrow> msg
               | Some end \<Rightarrow> lab_command (take end (tl line)) (drop (end + 1) (tl line)))
         else lab_command [] line)"

definition makeNumericReply :: "string \<Rightarrow> int \<Rightarrow> string \<Rightarrow> string \<Rightarrow> string" where
  "makeNumericReply srv num target msg =
     '':'' @ srv @ '' '' @ (if num < 100 then ''0'' else []) @ (if num < 10 then ''0'' else [])
     @ show_int num @ '' '' @ target @ '' '' @ msg @ crlf"

subsection \<open>The parser of the server in terms of the experimental one\<close>

lemma lab_params_space [simp]: "lab_params (SP # rest) ps = lab_params rest ps"
  by (subst (1 2) lab_params.simps) simp

lemma lab_params_Nil [simp]: "lab_params [] ps = ps"
  by (subst lab_params.simps) simp

lemma find_char_takeToken:
  "find_char SP r = None \<Longrightarrow> takeToken r = (r, [])"
  "find_char SP r = Some n \<Longrightarrow> takeToken r = (take n r, SP # drop (n + 1) r)"
proof -
  show "find_char SP r = None \<Longrightarrow> takeToken r = (r, [])" by simp
  assume "find_char SP r = Some n"
  then obtain a b where "r = a @ SP # b" "SP \<notin> set a" "n = length a" by (rule find_char_SomeE)
  then show "takeToken r = (take n r, SP # drop (n + 1) r)" by simp
qed

lemma lab_params_longer: "length ps \<le> length (lab_params rest ps)"
proof (induction rest ps rule: lab_params.induct)
  case (1 rest ps)
  then show ?case by (subst lab_params.simps) (force split: list.split option.split)
qed

lemma parseParams_lab:
  "length ps \<le> MAX_PARAMS \<Longrightarrow>
     parseParams rest ps = (if length (lab_params rest ps) \<le> MAX_PARAMS then Some (lab_params rest ps) else None)"
proof (induction rest ps rule: lab_params.induct)
  case (1 rest ps)
  show ?case
  proof (cases "skipSpaces rest")
    case Nil
    then have d: "dropWhile (\<lambda>c. c = SP) rest = []" by (simp only: skipSpaces_def)
    have "lab_params rest ps = ps" by (subst lab_params.simps) (simp only: d list.case)
    with Nil "1.prems" show ?thesis by (simp add: parseParams_Nil)
  next
    case (Cons c cs)
    then have d: "dropWhile (\<lambda>c. c = SP) rest = c # cs" by (simp add: skipSpaces_def)
    show ?thesis
    proof (cases "c = CHR '':''")
      case True
      with Cons d "1.prems" show ?thesis
        by (subst parseParams.simps, subst (1 2) lab_params.simps) simp
    next
      case False
      show ?thesis
      proof (cases "find_char SP (c # cs)")
        case None
        with Cons d False "1.prems" find_char_takeToken(1) [OF None] show ?thesis
          by (subst parseParams.simps, subst (1 2) lab_params.simps) (simp add: parseParams_Nil)
      next
        case (Some n)
        let ?rest = "drop (n + 1) (c # cs)" and ?ps = "ps @ [take n (c # cs)]"
        have l: "lab_params rest ps = lab_params ?rest ?ps"
          by (subst lab_params.simps) (use d False Some in simp)
        have p: "parseParams rest ps = (if MAX_PARAMS \<le> length ps then None else parseParams (SP # ?rest) ?ps)"
          by (subst parseParams.simps) (use Cons False find_char_takeToken(2) [OF Some] in simp)
        have sp: "parseParams (SP # ?rest) ?ps = parseParams ?rest ?ps"
          by (subst (1 2) parseParams.simps) simp
        show ?thesis
        proof (cases "MAX_PARAMS \<le> length ps")
          case True
          with lab_params_longer [of ?ps ?rest] show ?thesis by (simp add: l p)
        next
          case F: False
          with "1.IH" [OF d False Some] show ?thesis unfolding l p sp by simp
        qed
      qed
    qed
  qed
qed

lemma strip_crlf:
  assumes "line = [] \<or> last line \<notin> {CR, LF}"
  shows "strip_eol (line @ crlf) = line"
proof (cases line rule: rev_cases)
  case (snoc l c)
  with assms show ?thesis by (simp add: strip_eol_def crlf_def)
qed (simp add: strip_eol_def crlf_def)

definition lab_checks :: "string \<Rightarrow> irc_message \<Rightarrow> bool" where
  "lab_checks line r \<longleftrightarrow>
     NUL \<notin> set line \<and> \<not> (im_prefix r = [] \<and> line \<noteq> [] \<and> hd line = CHR '':'')
     \<and> im_command r \<noteq> [] \<and> length (im_params r) \<le> MAX_PARAMS"

lemma parse_lab_command:
  "(case takeToken (skipSpaces rest) of (token, rest2) \<Rightarrow>
      if toUpperAscii token = [] then None
      else (case parseParams rest2 [] of
              None \<Rightarrow> None
            | Some params \<Rightarrow> Some \<lparr>msg_prefix = prefix, msg_command = toUpperAscii token, msg_params = params\<rparr>))
   = (let r = lab_command prefix rest
      in if im_command r \<noteq> [] \<and> length (im_params r) \<le> MAX_PARAMS
         then Some \<lparr>msg_prefix = im_prefix r, msg_command = toUpperAscii (im_command r), msg_params = im_params r\<rparr>
         else None)"
proof (cases "find_char SP (skipSpaces rest)")
  case None
  from find_char_takeToken(1) [OF None] None show ?thesis
    by (simp add: lab_command_def skipSpaces_def [symmetric] Let_def parseParams_Nil toUpperAscii_def)
next
  case (Some n)
  have "parseParams (SP # drop (n + 1) (skipSpaces rest)) [] = parseParams (drop (n + 1) (skipSpaces rest)) []"
    by (subst (1 2) parseParams.simps) simp
  with find_char_takeToken(2) [OF Some] Some show ?thesis
    by (simp add: lab_command_def skipSpaces_def [symmetric] Let_def parseParams_lab toUpperAscii_def)
qed

lemma parse_by_lab:
  assumes "line = [] \<or> hd line \<noteq> SP \<and> last line \<notin> {CR, LF}"
  shows "parse line =
    (let r = parseIrcMessage (line @ crlf)
     in if lab_checks line r
        then Some \<lparr>msg_prefix = im_prefix r, msg_command = toUpperAscii (im_command r), msg_params = im_params r\<rparr>
        else None)"
proof (cases line)
  case Nil
  then show ?thesis
    using strip_crlf [of "[]"]
    by (simp add: parse_def parseIrcMessage_def lab_checks_def Let_def takeToken_def toUpperAscii_def)
next
  case (Cons c cs)
  have strip: "strip_eol (line @ crlf) = line" using assms by (intro strip_crlf) auto
  have sk: "skipSpaces line = line" using assms Cons by simp
  show ?thesis
  proof (cases "c = CHR '':''")
    case True
    show ?thesis
    proof (cases "find_char SP cs")
      case None
      with True Cons sk strip find_char_takeToken(1) [OF None] show ?thesis
        by (simp add: parse_def parseIrcMessage_def lab_checks_def Let_def toUpperAscii_def)
    next
      case (Some n)
      note tk = find_char_takeToken(2) [OF Some]
      have "im_prefix (lab_command (take n cs) (drop (n + 1) cs)) = take n cs"
        by (simp add: lab_command_def Let_def split: option.split)
      with True Cons sk strip tk Some parse_lab_command [where rest = "drop (n + 1) cs" and prefix = "take n cs"] show ?thesis
        by (simp add: parse_def parseIrcMessage_def lab_checks_def Let_def split: prod.splits) (auto split: if_splits)
    qed
  next
    case False
    with Cons sk strip parse_lab_command [where rest = line and prefix = "[]"] show ?thesis
      by (simp add: parse_def parseIrcMessage_def lab_checks_def Let_def split: prod.splits)
  qed
qed

subsection \<open>Numeric replies\<close>

lemma pad3_digits: "n < 1000 \<Longrightarrow> pad3 n = (if n < 100 then ''0'' else []) @ (if n < 10 then ''0'' else []) @ show_nat n"
proof -
  assume n: "n < 1000"
  consider "n < 10" | "10 \<le> n" "n < 100" | "100 \<le> n" by linarith
  then show ?thesis
  proof cases
    case 1
    then have "length (show_nat n) = 1" by (simp add: show_nat.simps [of n])
    with 1 show ?thesis by (simp add: pad3_def numeral_2_eq_2)
  next
    case 2
    then have "length (show_nat n) = 2" by (simp add: show_nat.simps [of n] show_nat.simps [of "n div 10"])
    with 2 show ?thesis by (simp add: pad3_def)
  next
    case 3
    have "\<not> n < 10" "\<not> n div 10 < 10" using 3 by (simp_all add: div_less_iff_less_mult)
    moreover have "n div 10 div 10 < 10" using n by (simp add: div_mult2_eq [symmetric] less_mult_imp_div_less)
    ultimately have "length (show_nat n) = 3"
      by (simp add: show_nat.simps [of n] show_nat.simps [of "n div 10"] show_nat.simps [of "n div 10 div 10"])
    with 3 show ?thesis by (simp add: pad3_def)
  qed
qed

text \<open>Where the server answers at all, it sends what the experiment would.\<close>

lemma reply_numeric_lab:
  assumes "reply_numeric srv c code ps \<noteq> []" and "sanitizeMessageText ps \<noteq> []"
  shows "reply_numeric srv c code ps @ crlf =
    makeNumericReply srv code (if cl_nickname c = [] then ''*'' else cl_nickname c) (sanitizeMessageText ps)"
proof -
  have "0 \<le> code" "code \<le> 999" using assms(1) by (auto simp: reply_numeric_def split: if_splits)
  then have "pad3 (nat code) = (if code < 100 then ''0'' else []) @ (if code < 10 then ''0'' else []) @ show_int code"
    using pad3_digits [of "nat code"] by (auto simp: show_int_def)
  with assms show ?thesis
    by (auto simp: reply_numeric_def makeNumericReply_def Let_def split: if_splits)
qed

end
