(* ===== verification/Old_Config.thy ===== *)
theory Old_Config
  imports Web_Text
begin

section \<open>webserv, earlier version: the configuration\<close>

text \<open>
  Models \<open>apps/webserv/prd/src/parseConf\<close>: a line based configuration without braces. The
  class \<open>Conf\<close> is a record; its members change it in the order \<open>parseArgs\<close> calls them.
  \<open>None\<close> as a result is an access outside a vector, which C++ leaves undefined.
\<close>

datatype conf_error =
  ArgvErr | MissingArgv | TooMuchArgv | DirWrong | DirMissing | NotINT | MethWrong | ErrorPage
| DirTwice | RequestErr | RootErr | IndexLoc | ListingErr | SizeErr | Boot_serverErr

record old_location =
  ol_dir :: string
  ol_root :: string
  ol_index :: string
  ol_listing :: string
  ol_redir :: string
  ol_methods :: "string list"

record old_server =
  ov_name :: string
  ov_listen :: string
  ov_root :: string
  ov_index :: string
  ov_body :: string
  ov_listing :: string
  ov_methods :: "string list"
  ov_error_pages :: "(string \<times> string) list"
  ov_locations :: "old_location list"

record conf =
  cf_file :: "string list"
  cf_directives :: "string list"
  cf_file_pos :: "int list"
  cf_servers :: "old_server list"

definition blank_location :: old_location where
  "blank_location = \<lparr>ol_dir = [], ol_root = [], ol_index = [], ol_listing = [], ol_redir = [], ol_methods = []\<rparr>"

definition blank_server :: old_server where
  "blank_server = \<lparr>ov_name = [], ov_listen = [], ov_root = [], ov_index = [], ov_body = [], ov_listing = [],
     ov_methods = [], ov_error_pages = [], ov_locations = []\<rparr>"

subsection \<open>Words and values\<close>

text \<open>\<open>while (iss >> token)\<close>\<close>

function stream_words :: "string \<Rightarrow> string list" where
  "stream_words s =
     (case next_word s of None \<Rightarrow> [] | Some (w, rest) \<Rightarrow> w # stream_words rest)"
  by pat_completeness auto
termination
proof (relation "measure length")
  fix s p w rest
  assume "next_word s = Some p" and "(w, rest) = p"
  then have n: "next_word s = Some (w, rest)" by simp
  define t where "t = dropWhile is_space s"
  have t: "w = takeWhile (\<lambda>c. \<not> is_space c) t" "rest = dropWhile (\<lambda>c. \<not> is_space c) t"
    using n by (auto simp: next_word_def t_def Let_def split: if_splits)
  have "length t = length w + length rest" unfolding t by (metis length_append takeWhile_dropWhile_id)
  moreover have "length t \<le> length s" by (simp add: t_def length_dropWhile_le)
  ultimately show "(rest, s) \<in> measure length" using next_word_chars(1) [OF n] by (cases w) simp_all
qed simp

declare stream_words.simps [simp del]

definition split_words :: "string \<Rightarrow> string list" where
  "split_words line = stream_words (trim line)"

definition my_atoi :: "string \<Rightarrow> bool" where
  "my_atoi str \<longleftrightarrow> str \<noteq> [] \<and> list_all is_digit str"

definition ft_first_word :: "string \<Rightarrow> string" where
  "ft_first_word line = (case split_words line of [] \<Rightarrow> [] | w # ws \<Rightarrow> w)"

definition is_valid_method :: "string \<Rightarrow> bool" where
  "is_valid_method m \<longleftrightarrow> m = ''GET'' \<or> m = ''POST'' \<or> m = ''DELETE''"

definition is_valid_listing_value :: "string \<Rightarrow> bool" where
  "is_valid_listing_value v \<longleftrightarrow> v = ''on'' \<or> v = ''off''"

subsection \<open>The members of \<open>Conf\<close>\<close>

definition new_conf :: conf where
  "new_conf =
     \<lparr>cf_file = [],
      cf_directives = [''server'', ''listen'', ''server_name'', ''allowed_methods'', ''root'', ''error_page'',
        ''index'', ''client_max_body_size'', ''location'', ''dir_listing'', ''redir''],
      cf_file_pos = [], cf_servers = []\<rparr>"

text \<open>The text of the file, \<open>None\<close> when it cannot be opened.\<close>

definition read_file :: "string option \<Rightarrow> conf \<Rightarrow> conf_error + conf" where
  "read_file file c =
     (case file of
        None \<Rightarrow> Inl ArgvErr
      | Some content \<Rightarrow>
          let lines = cf_file c @ filter (\<lambda>l. \<not> list_all is_space l) (getlines content)
          in if lines = [] then Inl DirMissing else Inr (c\<lparr>cf_file := lines\<rparr>))"

definition is_directive :: "conf \<Rightarrow> string \<Rightarrow> conf_error option" where
  "is_directive c line =
     (case split_words line of
        [] \<Rightarrow> None
      | w # ws \<Rightarrow> if w \<in> set (cf_directives c) then None else Some DirWrong)"

fun check_directive :: "conf \<Rightarrow> string list \<Rightarrow> conf_error option" where
  "check_directive c [] = None"
| "check_directive c (line # ls) =
     (case is_directive c line of Some e \<Rightarrow> Some e | None \<Rightarrow> check_directive c ls)"

text \<open>The loop of \<open>init_file_pos\<close>; \<open>first\<close> is \<open>i == 0\<close>.\<close>

fun file_positions :: "bool \<Rightarrow> int \<Rightarrow> string list \<Rightarrow> conf_error + int list" where
  "file_positions first pos [] = Inr []"
| "file_positions first pos (line # ls) =
     (let word = ft_first_word line;
          pos' = (if word = ''server'' then 0 else if word = ''location'' then 1 else pos)
      in if first \<and> word \<noteq> ''server'' then Inl DirMissing
         else (case file_positions False pos' ls of Inl e \<Rightarrow> Inl e | Inr ps \<Rightarrow> Inr (pos' # ps)))"

definition init_file_pos :: "conf \<Rightarrow> conf_error + conf" where
  "init_file_pos c =
     (case file_positions True 0 (cf_file c) of
        Inl e \<Rightarrow> Inl e
      | Inr ps \<Rightarrow> Inr (c\<lparr>cf_file_pos := cf_file_pos c @ ps\<rparr>))"

definition stock_server :: "string \<Rightarrow> old_server \<Rightarrow> old_server" where
  "stock_server line sv =
     (let ts = split_words line
      in if ts = [] then sv
         else if ts ! 0 = ''server_name'' \<and> 2 \<le> length ts then sv\<lparr>ov_name := ts ! 1\<rparr>
         else if ts ! 0 = ''listen'' \<and> 2 \<le> length ts then sv\<lparr>ov_listen := ts ! 1\<rparr>
         else if ts ! 0 = ''root'' \<and> 2 \<le> length ts then sv\<lparr>ov_root := ts ! 1\<rparr>
         else if ts ! 0 = ''index'' \<and> 2 \<le> length ts then sv\<lparr>ov_index := ts ! 1\<rparr>
         else if ts ! 0 = ''client_max_body_size'' \<and> 2 \<le> length ts then sv\<lparr>ov_body := ts ! 1\<rparr>
         else if ts ! 0 = ''dir_listing'' \<and> 2 \<le> length ts then sv\<lparr>ov_listing := ts ! 1\<rparr>
         else if ts ! 0 = ''allowed_methods'' \<and> 2 \<le> length ts
         then sv\<lparr>ov_methods := ov_methods sv @ [ts ! 1]\<rparr>
         else if ts ! 0 = ''error_page'' \<and> 3 \<le> length ts
         then sv\<lparr>ov_error_pages := map_set (ts ! 1) (ts ! 2) (ov_error_pages sv)\<rparr>
         else sv)"

definition stock_location :: "string \<Rightarrow> old_location \<Rightarrow> old_location" where
  "stock_location line l =
     (let ts = split_words line
      in if ts = [] then l
         else if ts ! 0 = ''location'' \<and> 2 \<le> length ts then l\<lparr>ol_dir := ts ! 1\<rparr>
         else if ts ! 0 = ''root'' \<and> 2 \<le> length ts then l\<lparr>ol_root := ts ! 1\<rparr>
         else if ts ! 0 = ''index'' \<and> 2 \<le> length ts then l\<lparr>ol_index := ts ! 1\<rparr>
         else if ts ! 0 = ''allowed_methods'' \<and> 2 \<le> length ts
         then l\<lparr>ol_methods := ol_methods l @ [ts ! 1]\<rparr>
         else if ts ! 0 = ''dir_listing'' \<and> 2 \<le> length ts then l\<lparr>ol_listing := ts ! 1\<rparr>
         else if ts ! 0 = ''redir'' \<and> 2 \<le> length ts then l\<lparr>ol_redir := ts ! 1\<rparr>
         else l)"

definition add_server :: "old_server list \<Rightarrow> old_server list" where
  "add_server svs = svs @ [blank_server]"

text \<open>\<open>xs[i] = f(xs[i])\<close> for an \<open>int\<close> index.\<close>

definition update_at :: "int \<Rightarrow> ('a \<Rightarrow> 'a) \<Rightarrow> 'a list \<Rightarrow> 'a list option" where
  "update_at i f xs = (if 0 \<le> i \<and> nat i < length xs then Some (xs[nat i := f (xs ! nat i)]) else None)"

text \<open>The body of the loop of \<open>stock_data\<close>: \<open>_servers\<close>, \<open>nb_server\<close> and \<open>nb_locations\<close>.\<close>

definition stock_line :: "string \<Rightarrow> int \<Rightarrow> old_server list \<times> int \<times> int \<Rightarrow> (old_server list \<times> int \<times> int) option" where
  "stock_line line pos st =
     (case st of (svs, nb_server, nb_locations) \<Rightarrow>
        if pos = 0
        then if ft_first_word line = ''server'' then Some (add_server svs, nb_server + 1, - 1)
             else map_option (\<lambda>svs. (svs, nb_server, nb_locations)) (update_at nb_server (stock_server line) svs)
        else
          let opens = (ft_first_word line = ''location'');
              nb = (if opens then nb_locations + 1 else nb_locations);
              grown = (if opens
                       then update_at nb_server (\<lambda>sv. sv\<lparr>ov_locations := ov_locations sv @ [blank_location]\<rparr>) svs
                       else Some svs)
          in (case grown of
                None \<Rightarrow> None
              | Some svs1 \<Rightarrow>
                  if 0 \<le> nb_server \<and> nat nb_server < length svs1
                  then (case update_at nb (stock_location line) (ov_locations (svs1 ! nat nb_server)) of
                          None \<Rightarrow> None
                        | Some ls \<Rightarrow>
                            Some (svs1[nat nb_server := (svs1 ! nat nb_server)\<lparr>ov_locations := ls\<rparr>], nb_server, nb))
                  else None))"

fun stock_lines :: "string list \<Rightarrow> int list \<Rightarrow> old_server list \<times> int \<times> int \<Rightarrow> (old_server list \<times> int \<times> int) option" where
  "stock_lines [] ps st = Some st"
| "stock_lines (line # ls) [] st = None"
| "stock_lines (line # ls) (p # ps) st =
     (case stock_line line p st of None \<Rightarrow> None | Some st' \<Rightarrow> stock_lines ls ps st')"

definition stock_data :: "conf \<Rightarrow> conf option" where
  "stock_data c =
     map_option (\<lambda>(svs, nb_server, nb_locations). c\<lparr>cf_servers := svs\<rparr>)
       (stock_lines (cf_file c) (cf_file_pos c) (cf_servers c, - 1, - 1))"

subsection \<open>The checks\<close>

definition check_location :: "old_location \<Rightarrow> bool" where
  "check_location l \<longleftrightarrow> ol_dir l \<noteq> [] \<and> ol_root l \<noteq> [] \<and> ol_index l \<noteq> [] \<and> ol_methods l \<noteq> [] \<and> ol_listing l \<noteq> []"

definition check_error_pages :: "old_server \<Rightarrow> bool" where
  "check_error_pages sv \<longleftrightarrow> list_all (\<lambda>(code, page). my_atoi code \<and> page \<noteq> []) (ov_error_pages sv)"

definition check_methods :: "old_server \<Rightarrow> bool" where
  "check_methods sv \<longleftrightarrow>
     list_all is_valid_method (ov_methods sv) \<and> list_all (\<lambda>l. list_all is_valid_method (ol_methods l)) (ov_locations sv)"

definition check_root :: "old_server \<Rightarrow> bool" where
  "check_root sv \<longleftrightarrow> ov_root sv \<noteq> [] \<and> list_all (\<lambda>l. ol_root l \<noteq> []) (ov_locations sv)"

definition check_index :: "old_server \<Rightarrow> bool" where
  "check_index sv \<longleftrightarrow> ov_index sv \<noteq> [] \<and> list_all (\<lambda>l. ol_index l \<noteq> []) (ov_locations sv)"

definition check_listing :: "old_server \<Rightarrow> bool" where
  "check_listing sv \<longleftrightarrow>
     is_valid_listing_value (ov_listing sv) \<and> list_all (\<lambda>l. is_valid_listing_value (ol_listing l)) (ov_locations sv)"

definition check_client_size :: "old_server \<Rightarrow> bool" where
  "check_client_size sv \<longleftrightarrow> ov_body sv \<noteq> [] \<and> my_atoi (ov_body sv)"

text \<open>The body of the loop of \<open>check_data\<close>.\<close>

definition check_server :: "old_server \<Rightarrow> conf_error option" where
  "check_server sv =
     (if ov_name sv = [] \<or> ov_listen sv = [] \<or> ov_root sv = [] \<or> ov_index sv = [] \<or> ov_methods sv = []
         \<or> ov_body sv = [] \<or> ov_listing sv = [] then Some DirMissing
      else if \<not> list_all check_location (ov_locations sv) then Some DirMissing
      else if 5 < length (ov_listen sv) \<or> \<not> my_atoi (ov_listen sv) \<or> \<not> my_atoi (ov_body sv) then Some NotINT
      else if \<not> check_error_pages sv then Some ErrorPage
      else if \<not> check_methods sv then Some MethWrong
      else if \<not> check_root sv then Some RootErr
      else if \<not> check_index sv then Some IndexLoc
      else if \<not> check_listing sv then Some ListingErr
      else if \<not> check_client_size sv then Some SizeErr
      else None)"

fun check_data :: "old_server list \<Rightarrow> conf_error option" where
  "check_data [] = None"
| "check_data (sv # svs) = (case check_server sv of Some e \<Rightarrow> Some e | None \<Rightarrow> check_data svs)"

subsection \<open>\<open>parseArgs\<close>\<close>

definition validate_arguments :: "string list \<Rightarrow> conf_error option" where
  "validate_arguments argv = (if length argv \<noteq> 2 then Some ArgvErr else None)"

definition parseArgs :: "string list \<Rightarrow> (string \<Rightarrow> string option) \<Rightarrow> (conf_error + conf) option" where
  "parseArgs argv files =
     (case validate_arguments argv of Some e \<Rightarrow> Some (Inl e) | None \<Rightarrow>
      (case read_file (files (argv ! 1)) new_conf of Inl e \<Rightarrow> Some (Inl e) | Inr c1 \<Rightarrow>
      (case check_directive c1 (cf_file c1) of Some e \<Rightarrow> Some (Inl e) | None \<Rightarrow>
      (case init_file_pos c1 of Inl e \<Rightarrow> Some (Inl e) | Inr c2 \<Rightarrow>
      (case stock_data c2 of None \<Rightarrow> None | Some c3 \<Rightarrow>
      (case check_data (cf_servers c3) of Some e \<Rightarrow> Some (Inl e) | None \<Rightarrow> Some (Inr c3)))))))"

subsection \<open>Loading the lines: no access outside a vector\<close>

text \<open>
  What the two passes over the lines amount to: every line belongs to the last server, and to
  its last location once one has been opened.
\<close>

definition on_last :: "('a \<Rightarrow> 'a) \<Rightarrow> 'a list \<Rightarrow> 'a list" where
  "on_last f xs = butlast xs @ [f (last xs)]"

definition load_line :: "string \<Rightarrow> int \<times> old_server list \<Rightarrow> int \<times> old_server list" where
  "load_line line st =
     (case st of (pos, svs) \<Rightarrow>
        if ft_first_word line = ''server'' then (0, svs @ [blank_server])
        else if ft_first_word line = ''location''
        then (1, on_last (\<lambda>sv. sv\<lparr>ov_locations := ov_locations sv @ [stock_location line blank_location]\<rparr>) svs)
        else if pos = 0 then (0, on_last (stock_server line) svs)
        else (1, on_last (\<lambda>sv. sv\<lparr>ov_locations := on_last (stock_location line) (ov_locations sv)\<rparr>) svs))"

definition loading :: "int \<Rightarrow> old_server list \<times> int \<times> int \<Rightarrow> bool" where
  "loading pos st \<longleftrightarrow>
     (case st of (svs, nb_server, nb_locations) \<Rightarrow>
        svs \<noteq> [] \<and> nb_server = int (length svs) - 1
        \<and> nb_locations = int (length (ov_locations (last svs))) - 1 \<and> (pos = 0 \<or> pos = 1 \<and> 0 \<le> nb_locations))"

lemma on_last_snoc [simp]: "on_last f (xs @ [x]) = xs @ [f x]"
  by (simp add: on_last_def)

lemma update_at_last [simp]: "update_at (int (length xs)) f (xs @ [x]) = Some (xs @ [f x])"
  by (simp add: update_at_def)

lemma locations_stock_server [simp]: "ov_locations (stock_server line sv) = ov_locations sv"
  by (simp add: stock_server_def Let_def)

text \<open>The position \<open>init_file_pos\<close> gives to a line after one at \<open>pos\<close>.\<close>

definition line_pos :: "string \<Rightarrow> int \<Rightarrow> int" where
  "line_pos line pos =
     (if ft_first_word line = ''server'' then 0 else if ft_first_word line = ''location'' then 1 else pos)"

lemma stock_line_loads:
  assumes "loading pos (svs, ns, nl)"
  obtains ns' nl' where "stock_line line (line_pos line pos) (svs, ns, nl) = Some (snd (load_line line (pos, svs)), ns', nl')"
    and "loading (line_pos line pos) (snd (load_line line (pos, svs)), ns', nl')"
    and "fst (load_line line (pos, svs)) = line_pos line pos"
proof -
  obtain us sv where svs: "svs = us @ [sv]" using assms by (cases svs rule: rev_cases) (auto simp: loading_def)
  have st: "ns = int (length us)" "nl = int (length (ov_locations sv)) - 1" "pos = 0 \<or> pos = 1 \<and> 0 \<le> nl"
    using assms by (cases "ov_locations sv"; auto simp: loading_def svs)+
  consider (sv) "ft_first_word line = ''server''" | (loc) "ft_first_word line = ''location''"
    | (in_sv) "ft_first_word line \<noteq> ''server''" "ft_first_word line \<noteq> ''location''" "pos = 0"
    | (in_loc) "ft_first_word line \<noteq> ''server''" "ft_first_word line \<noteq> ''location''" "pos = 1" "0 \<le> nl"
    using st(3) by blast
  then show thesis
  proof cases
    case sv
    show thesis
      by (rule that [of "ns + 1" "- 1"])
        (use sv st in \<open>simp_all add: line_pos_def stock_line_def load_line_def add_server_def loading_def svs blank_server_def\<close>)
  next
    case loc
    show thesis
      by (rule that [of ns "nl + 1"])
        (use loc st in \<open>simp_all add: line_pos_def stock_line_def load_line_def loading_def svs Let_def\<close>)
  next
    case in_sv
    show thesis
      by (rule that [of ns nl])
        (use in_sv st in \<open>simp_all add: line_pos_def stock_line_def load_line_def loading_def svs\<close>)
  next
    case in_loc
    then obtain ls l where ls: "ov_locations sv = ls @ [l]" using st(2) by (cases "ov_locations sv" rule: rev_cases) auto
    show thesis
      by (rule that [of ns nl])
        (use in_loc st in \<open>simp_all add: line_pos_def stock_line_def load_line_def loading_def svs ls Let_def\<close>)
  qed
qed

lemma file_positions_later: "file_positions False pos (line # ls) =
    map_sum id ((#) (line_pos line pos)) (file_positions False (line_pos line pos) ls)"
  by (simp add: line_pos_def Let_def split: sum.split)

lemma file_positions_total: "\<exists>ps. file_positions False pos ls = Inr ps"
proof (induction ls arbitrary: pos)
  case (Cons line ls)
  from Cons.IH [of "line_pos line pos"] show ?case by (auto simp: file_positions_later simp del: file_positions.simps)
qed simp

lemma stock_lines_load:
  assumes "loading pos (svs, ns, nl)" and "file_positions False pos ls = Inr ps"
  shows "\<exists>ns' nl'. stock_lines ls ps (svs, ns, nl) = Some (snd (fold load_line ls (pos, svs)), ns', nl')"
  using assms
proof (induction ls arbitrary: pos svs ns nl ps)
  case (Cons line ls)
  obtain qs where ps: "ps = line_pos line pos # qs" "file_positions False (line_pos line pos) ls = Inr qs"
    using Cons.prems(2) file_positions_total [of "line_pos line pos" ls]
    by (auto simp: file_positions_later simp del: file_positions.simps)
  obtain ns' nl' where s: "stock_line line (line_pos line pos) (svs, ns, nl) = Some (snd (load_line line (pos, svs)), ns', nl')"
    "loading (line_pos line pos) (snd (load_line line (pos, svs)), ns', nl')" "fst (load_line line (pos, svs)) = line_pos line pos"
    using stock_line_loads [OF Cons.prems(1), of line] .
  have "load_line line (pos, svs) = (line_pos line pos, snd (load_line line (pos, svs)))"
    using s(3) by (metis prod.collapse)
  with Cons.IH [OF s(2) ps(2)] s(1) ps(1) show ?case by simp
qed simp

text \<open>A file that starts with \<open>server\<close> is loaded, any other is refused.\<close>

lemma stock_data_loads:
  assumes "init_file_pos c = Inr c'" and "cf_file_pos c = []" and "cf_servers c = []"
  shows "stock_data c' = Some (c'\<lparr>cf_servers := snd (fold load_line (cf_file c) (0, []))\<rparr>)"
proof (cases "cf_file c")
  case Nil
  with assms show ?thesis by (auto simp: init_file_pos_def stock_data_def)
next
  case (Cons line ls)
  obtain ps where ps: "file_positions False 0 ls = Inr ps" using file_positions_total by blast
  with assms Cons have w: "ft_first_word line = ''server''" and c': "c' = c\<lparr>cf_file_pos := 0 # ps\<rparr>"
    by (auto simp: init_file_pos_def Let_def split: if_splits)
  have "stock_line line 0 ([], - 1, - 1) = Some ([blank_server], 0, - 1)"
    using w by (simp add: stock_line_def add_server_def)
  moreover have "loading 0 ([blank_server], 0, - 1)" by (simp add: loading_def blank_server_def)
  from stock_lines_load [OF this ps] obtain ns' nl' where
    "stock_lines ls ps ([blank_server], 0, - 1) = Some (snd (fold load_line ls (0, [blank_server])), ns', nl')" by blast
  moreover have "load_line line (0, []) = (0, [blank_server])" using w by (simp add: load_line_def)
  ultimately show ?thesis using assms(3) Cons by (simp add: stock_data_def c')
qed

lemma init_file_pos_first:
  "init_file_pos c = Inl e \<longleftrightarrow> e = DirMissing \<and> cf_file c \<noteq> [] \<and> ft_first_word (hd (cf_file c)) \<noteq> ''server''"
proof (cases "cf_file c")
  case (Cons line ls)
  obtain ps where "file_positions False 0 ls = Inr ps" using file_positions_total by blast
  with Cons show ?thesis by (auto simp: init_file_pos_def Let_def)
qed (simp add: init_file_pos_def)

subsection \<open>Which errors there are\<close>

lemma check_server_errors:
  "check_server sv = Some e \<Longrightarrow> e \<in> {DirMissing, NotINT, ErrorPage, MethWrong, ListingErr}"
  by (auto simp: check_server_def check_location_def check_root_def check_index_def check_client_size_def
      list_all_iff split: if_splits)

lemma check_data_errors:
  "check_data svs = Some e \<Longrightarrow> e \<in> {DirMissing, NotINT, ErrorPage, MethWrong, ListingErr}"
  by (induction svs) (auto split: option.splits dest: check_server_errors)

lemma check_data_None: "check_data svs = None \<longleftrightarrow> list_all (\<lambda>sv. check_server sv = None) svs"
  by (induction svs) (auto split: option.splits)

lemma check_directive_errors: "check_directive c ls = Some e \<Longrightarrow> e = DirWrong"
  by (induction ls) (auto simp: is_directive_def split: option.splits list.splits if_splits)

text \<open>The lines a file is read as, and the outcome in terms of them.\<close>

definition conf_lines :: "string \<Rightarrow> string list" where
  "conf_lines content = filter (\<lambda>l. \<not> list_all is_space l) (getlines content)"

definition loaded :: "string list \<Rightarrow> old_server list" where
  "loaded ls = snd (fold load_line ls (0, []))"

lemma parseArgs_outcome:
  "parseArgs [prog, path] files = Some (case files path of
     None \<Rightarrow> Inl ArgvErr
   | Some content \<Rightarrow>
       (let ls = conf_lines content
        in if ls = [] then Inl DirMissing
           else if check_directive new_conf ls \<noteq> None then Inl DirWrong
           else if ft_first_word (hd ls) \<noteq> ''server'' then Inl DirMissing
           else (case check_data (loaded ls) of
                   Some e \<Rightarrow> Inl e
                 | None \<Rightarrow> Inr (new_conf\<lparr>cf_file := ls, cf_file_pos := (THE ps. file_positions True 0 ls = Inr ps),
                                       cf_servers := loaded ls\<rparr>))))"
proof -
  have dir: "check_directive (new_conf\<lparr>cf_file := ls\<rparr>) ls' = check_directive new_conf ls'" for ls ls'
  proof (induction ls')
    case (Cons l ls')
    have "is_directive (new_conf\<lparr>cf_file := ls\<rparr>) l = is_directive new_conf l"
      by (simp add: is_directive_def split: list.split)
    with Cons show ?case by (simp split: option.split)
  qed simp
  show ?thesis
  proof (cases "files path")
    case None
    then show ?thesis by (simp add: parseArgs_def validate_arguments_def read_file_def)
  next
    case (Some content)
    define ls where "ls = conf_lines content"
    define c1 where "c1 = new_conf\<lparr>cf_file := ls\<rparr>"
    have c1: "cf_file c1 = ls" "cf_file_pos c1 = []" "cf_servers c1 = []" by (simp_all add: c1_def new_conf_def)
    have r: "read_file (files path) new_conf = (if ls = [] then Inl DirMissing else Inr c1)"
      by (simp add: read_file_def Some conf_lines_def ls_def c1_def new_conf_def Let_def)
    show ?thesis
    proof (cases "ls = [] \<or> check_directive new_conf ls \<noteq> None \<or> ft_first_word (hd ls) \<noteq> ''server''")
      case True
      then show ?thesis
        using r c1 dir [of ls ls] init_file_pos_first [of c1 DirMissing] check_directive_errors [of new_conf ls]
        by (auto simp: parseArgs_def validate_arguments_def Some ls_def [symmetric] c1_def [symmetric] Let_def)
    next
      case False
      then obtain c2 where c2: "init_file_pos c1 = Inr c2"
        using init_file_pos_first [of c1] c1 by (cases "init_file_pos c1") auto
      then have "c2 = c1\<lparr>cf_file_pos := (THE ps. file_positions True 0 ls = Inr ps)\<rparr>"
        using c1 by (auto simp: init_file_pos_def split: sum.splits)
      moreover have "stock_data c2 = Some (c2\<lparr>cf_servers := loaded ls\<rparr>)"
        using stock_data_loads [OF c2] c1 by (simp add: loaded_def)
      ultimately show ?thesis
        using False r c2 dir [of ls ls]
        by (auto simp: parseArgs_def validate_arguments_def Some ls_def [symmetric] c1_def Let_def split: option.split)
    qed
  qed
qed

lemma loaded_nonempty:
  assumes "ls \<noteq> []" and "ft_first_word (hd ls) = ''server''"
  shows "loaded ls \<noteq> []"
proof -
  have step: "snd (load_line l st) \<noteq> []" if "snd st \<noteq> []" for l st
    using that by (cases st) (simp add: load_line_def on_last_def)
  have "snd (fold load_line ls' st) \<noteq> []" if "snd st \<noteq> []" for ls' st
    using that by (induction ls' arbitrary: st) (simp_all add: step)
  then show ?thesis using assms by (cases ls) (simp_all add: loaded_def load_line_def)
qed

subsection \<open>Words of a line\<close>

definition plain :: "string \<Rightarrow> bool" where
  "plain w \<longleftrightarrow> w \<noteq> [] \<and> list_all (\<lambda>c. \<not> is_space c) w"

definition render_line :: "string list \<Rightarrow> string" where
  "render_line ws = tl (concat (map (\<lambda>w. SP # w) ws))"

definition word_line :: "string list \<Rightarrow> bool" where
  "word_line ws \<longleftrightarrow> ws \<noteq> [] \<and> list_all plain ws"

lemma space_SP [simp]: "is_space SP"
  by (simp add: is_space_def)

lemma next_word_space [simp]: "next_word (SP # s) = next_word s"
  by (simp add: next_word_def)

lemma next_word_plain:
  assumes "plain w" and "rest = [] \<or> (\<exists>r. rest = SP # r)"
  shows "next_word (w @ rest) = Some (w, rest)"
proof -
  have p: "\<forall>c \<in> set w. \<not> is_space c" and "w \<noteq> []" using assms(1) by (auto simp: plain_def list_all_iff)
  then have "dropWhile is_space (w @ rest) = w @ rest" by (cases w) auto
  with p \<open>w \<noteq> []\<close> assms(2) show ?thesis by (auto simp: next_word_def)
qed

lemma stream_words_Nil [simp]: "stream_words [] = []"
  by (subst stream_words.simps) (simp add: next_word_def)

lemma stream_words_space [simp]: "stream_words (SP # s) = stream_words s"
  by (subst (1 2) stream_words.simps) simp

lemma stream_words_spaced: "list_all plain ws \<Longrightarrow> stream_words (concat (map (\<lambda>w. SP # w) ws)) = ws"
proof (induction ws)
  case (Cons w ws)
  let ?rest = "concat (map (\<lambda>w. SP # w) ws)"
  have "?rest = [] \<or> (\<exists>r. ?rest = SP # r)" by (cases ws) auto
  then have "next_word (w @ ?rest) = Some (w, ?rest)" using Cons.prems by (intro next_word_plain) auto
  then have "stream_words (w @ ?rest) = w # stream_words ?rest" by (subst stream_words.simps) simp
  with Cons show ?case by simp
qed simp

lemma trim_id: "v = [] \<or> \<not> is_space (hd v) \<and> \<not> is_space (last v) \<Longrightarrow> trim v = v"
proof (cases v rule: rev_cases)
  case (snoc u c)
  assume "v = [] \<or> \<not> is_space (hd v) \<and> \<not> is_space (last v)"
  with snoc have s: "\<not> is_space (hd v)" "\<not> is_space c" by auto
  then have "dropWhile (\<lambda>c. c \<in> {SP, TAB, CR, LF}) v = v"
    by (cases v) (auto simp: is_space_def)
  moreover have "dropWhile (\<lambda>c. c \<in> {SP, TAB, CR, LF}) (rev v) = rev v"
    using s(2) by (auto simp: snoc is_space_def)
  ultimately show ?thesis by (simp add: trim_def Let_def)
qed (simp add: trim_def)

lemma render_line_simps [simp]:
  "render_line [w] = w" "render_line (w # x # ws) = w @ SP # render_line (x # ws)"
  by (simp_all add: render_line_def)

lemma plain_ends: "plain w \<Longrightarrow> w \<noteq> [] \<and> \<not> is_space (hd w) \<and> \<not> is_space (last w)"
  by (auto simp: plain_def list_all_iff)

lemma render_line_ends:
  "word_line ws \<Longrightarrow> render_line ws \<noteq> [] \<and> \<not> is_space (hd (render_line ws)) \<and> \<not> is_space (last (render_line ws))"
proof (induction ws rule: induct_list012)
  case (3 w x ws)
  then show ?case using plain_ends [of w] by (auto simp: word_line_def)
qed (auto simp: word_line_def dest: plain_ends)

lemma split_words_render: "word_line ws \<Longrightarrow> split_words (render_line ws) = ws"
proof -
  assume w: "word_line ws"
  then have "trim (render_line ws) = render_line ws" using render_line_ends by (intro trim_id) blast
  moreover have "stream_words (render_line ws) = stream_words (concat (map (\<lambda>w. SP # w) ws))"
    using w by (cases ws) (auto simp: render_line_def word_line_def)
  ultimately show ?thesis using stream_words_spaced w by (simp add: split_words_def word_line_def)
qed

lemma LF_render_line: "list_all plain ws \<Longrightarrow> LF \<notin> set (render_line ws)"
proof -
  assume p: "list_all plain ws"
  have "LF \<notin> set (concat (map (\<lambda>w. SP # w) ws))"
    using p by (auto simp: list_all_iff plain_def is_space_def)
  then show ?thesis unfolding render_line_def by (cases "concat (map (\<lambda>w. SP # w) ws)") auto
qed

definition render_lines :: "string list list \<Rightarrow> string" where
  "render_lines lss = concat (map (\<lambda>ws. render_line ws @ [LF]) lss)"

lemma conf_lines_render: "list_all word_line lss \<Longrightarrow> conf_lines (render_lines lss) = map render_line lss"
proof (induction lss)
  case (Cons ws lss)
  then have "LF \<notin> set (render_line ws)" using LF_render_line by (simp add: word_line_def)
  then have "getlines (render_lines (ws # lss)) = render_line ws # getlines (render_lines lss)"
    using getlines_line by (simp add: render_lines_def)
  moreover have "\<not> list_all is_space (render_line ws)"
    using render_line_ends [of ws] Cons.prems by (cases "render_line ws") auto
  ultimately show ?case using Cons by (simp add: conf_lines_def)
qed (simp add: conf_lines_def render_lines_def)

subsection \<open>A configuration written out and read back\<close>

definition location_lines :: "old_location \<Rightarrow> string list list" where
  "location_lines l =
     [[''location'', ol_dir l], [''root'', ol_root l], [''index'', ol_index l], [''dir_listing'', ol_listing l]]
     @ (if ol_redir l = [] then [] else [[''redir'', ol_redir l]])
     @ map (\<lambda>m. [''allowed_methods'', m]) (ol_methods l)"

definition server_lines :: "old_server \<Rightarrow> string list list" where
  "server_lines sv =
     [[''server''], [''server_name'', ov_name sv], [''listen'', ov_listen sv], [''root'', ov_root sv],
      [''index'', ov_index sv], [''client_max_body_size'', ov_body sv], [''dir_listing'', ov_listing sv]]
     @ map (\<lambda>m. [''allowed_methods'', m]) (ov_methods sv)
     @ map (\<lambda>(code, page). [''error_page'', code, page]) (ov_error_pages sv)
     @ concat (map location_lines (ov_locations sv))"

definition plain_location :: "old_location \<Rightarrow> bool" where
  "plain_location l \<longleftrightarrow> list_all plain [ol_dir l, ol_root l, ol_index l, ol_listing l]
     \<and> (ol_redir l = [] \<or> plain (ol_redir l)) \<and> list_all plain (ol_methods l)"

definition plain_server :: "old_server \<Rightarrow> bool" where
  "plain_server sv \<longleftrightarrow>
     list_all plain [ov_name sv, ov_listen sv, ov_root sv, ov_index sv, ov_body sv, ov_listing sv]
     \<and> list_all plain (ov_methods sv) \<and> list_all (\<lambda>(code, page). plain code \<and> plain page) (ov_error_pages sv)
     \<and> ordered_map (ov_error_pages sv) \<and> list_all plain_location (ov_locations sv)"

lemma plain_directives [simp]:
  "plain ''server''" "plain ''server_name''" "plain ''listen''" "plain ''root''" "plain ''index''"
  "plain ''client_max_body_size''" "plain ''dir_listing''" "plain ''allowed_methods''" "plain ''error_page''"
  "plain ''location''" "plain ''redir''"
  by (simp_all add: plain_def is_space_def)

lemma word_line_simps [simp]: "word_line (w # ws) \<longleftrightarrow> plain w \<and> list_all plain ws"
  by (simp add: word_line_def)

lemma location_lines_words: "plain_location l \<Longrightarrow> list_all word_line (location_lines l)"
  by (auto simp: plain_location_def location_lines_def list_all_iff)

lemma server_lines_words: "plain_server sv \<Longrightarrow> list_all word_line (server_lines sv)"
  using location_lines_words
  by (fastforce simp: plain_server_def server_lines_def list_all_iff)

lemma words_of_line [simp]: "plain w \<Longrightarrow> list_all plain ws \<Longrightarrow> split_words (render_line (w # ws)) = w # ws"
  by (rule split_words_render) simp

lemma first_of_line [simp]: "plain w \<Longrightarrow> list_all plain ws \<Longrightarrow> ft_first_word (render_line (w # ws)) = w"
  by (simp add: ft_first_word_def del: render_line_simps)

lemma load_location_methods:
  assumes "list_all plain ms"
  shows "fold load_line (map (\<lambda>m. render_line [''allowed_methods'', m]) ms) (1, svs @ [sv\<lparr>ov_locations := ls @ [l]\<rparr>])
    = (1, svs @ [sv\<lparr>ov_locations := ls @ [l\<lparr>ol_methods := ol_methods l @ ms\<rparr>]\<rparr>])"
  using assms
  by (induction ms arbitrary: l) (simp_all add: load_line_def stock_location_def Let_def del: render_line_simps)

lemma load_location:
  assumes "plain_location l"
  shows "fold load_line (map render_line (location_lines l)) (pos, svs @ [sv])
    = (1, svs @ [sv\<lparr>ov_locations := ov_locations sv @ [l]\<rparr>])"
proof -
  let ?l1 = "blank_location\<lparr>ol_dir := ol_dir l, ol_root := ol_root l, ol_index := ol_index l, ol_listing := ol_listing l\<rparr>"
  let ?l2 = "?l1\<lparr>ol_redir := ol_redir l\<rparr>"
  have head: "fold load_line (map render_line (take 4 (location_lines l))) (pos, svs @ [sv]) =
      (1, svs @ [sv\<lparr>ov_locations := ov_locations sv @ [?l1]\<rparr>])"
    using assms
    by (simp add: location_lines_def plain_location_def load_line_def stock_location_def Let_def del: render_line_simps)
  have redir: "fold load_line (map render_line (if ol_redir l = [] then [] else [[''redir'', ol_redir l]]))
      (1, svs @ [sv\<lparr>ov_locations := ov_locations sv @ [?l1]\<rparr>]) = (1, svs @ [sv\<lparr>ov_locations := ov_locations sv @ [?l2]\<rparr>])"
  proof (cases "ol_redir l = []")
    case True
    then have "?l2 = ?l1" by (simp add: blank_location_def)
    with True show ?thesis by simp
  next
    case False
    with assms show ?thesis
      by (simp add: plain_location_def load_line_def stock_location_def Let_def del: render_line_simps)
  qed
  have "?l2\<lparr>ol_methods := ol_methods ?l2 @ ol_methods l\<rparr> = l" by (simp add: blank_location_def)
  then have ms: "fold load_line (map (\<lambda>m. render_line [''allowed_methods'', m]) (ol_methods l))
      (1, svs @ [sv\<lparr>ov_locations := ov_locations sv @ [?l2]\<rparr>]) = (1, svs @ [sv\<lparr>ov_locations := ov_locations sv @ [l]\<rparr>])"
    using assms load_location_methods [where ms = "ol_methods l" and svs = svs and sv = sv and ls = "ov_locations sv" and l = ?l2]
    by (simp only: plain_location_def)
  have eq: "map render_line (location_lines l) = map render_line (take 4 (location_lines l))
      @ map render_line (if ol_redir l = [] then [] else [[''redir'', ol_redir l]])
      @ map (\<lambda>m. render_line [''allowed_methods'', m]) (ol_methods l)"
    by (simp add: location_lines_def comp_def del: render_line_simps)
  show ?thesis unfolding eq fold_append comp_apply head redir ms ..
qed

lemma load_locations:
  "list_all plain_location ls \<Longrightarrow> \<exists>pos'.
     fold load_line (map render_line (concat (map location_lines ls))) (pos, svs @ [sv])
     = (pos', svs @ [sv\<lparr>ov_locations := ov_locations sv @ ls\<rparr>])"
proof (induction ls arbitrary: pos sv)
  case (Cons l ls)
  from Cons.IH [of 1 "sv\<lparr>ov_locations := ov_locations sv @ [l]\<rparr>"] Cons.prems show ?case
    by (simp add: load_location)
qed simp

lemma load_methods:
  assumes "list_all plain ms"
  shows "fold load_line (map (\<lambda>m. render_line [''allowed_methods'', m]) ms) (0, svs @ [sv])
    = (0, svs @ [sv\<lparr>ov_methods := ov_methods sv @ ms\<rparr>])"
  using assms
  by (induction ms arbitrary: sv) (simp_all add: load_line_def stock_server_def Let_def del: render_line_simps)

lemma load_error_pages:
  assumes "list_all (\<lambda>(code, page). plain code \<and> plain page) es"
  shows "fold load_line (map (\<lambda>(code, page). render_line [''error_page'', code, page]) es) (0, svs @ [sv])
    = (0, svs @ [sv\<lparr>ov_error_pages := fold (\<lambda>(k, v). map_set k v) es (ov_error_pages sv)\<rparr>])"
  using assms
proof (induction es arbitrary: sv)
  case (Cons e es)
  obtain code page where e: "e = (code, page)" by (cases e)
  with Cons.prems have p: "plain code" "plain page" by simp_all
  then have "load_line (render_line [''error_page'', code, page]) (0, svs @ [sv])
      = (0, svs @ [sv\<lparr>ov_error_pages := map_set code page (ov_error_pages sv)\<rparr>])"
    by (simp add: load_line_def stock_server_def Let_def del: render_line_simps)
  with Cons e show ?case by (simp del: render_line_simps)
qed simp

lemma map_set_last: "\<forall>e \<in> set m. fst e < k \<Longrightarrow> map_set k v m = m @ [(k, v)]"
  by (induction m) auto

lemma fold_map_set_ordered: "ordered_map (m @ es) \<Longrightarrow> fold (\<lambda>(k, v). map_set k v) es m = m @ es"
proof (induction es arbitrary: m)
  case (Cons e es)
  then have le: "\<forall>x \<in> set m. fst x \<le> fst e" and "fst e \<notin> fst ` set m"
    by (auto simp: ordered_map_def sorted_append)
  then have "\<forall>x \<in> set m. fst x < fst e" by (metis imageI order_less_le)
  with Cons show ?case by (simp add: map_set_last case_prod_beta)
qed simp

lemma load_server:
  assumes "plain_server sv"
  shows "\<exists>pos'. fold load_line (map render_line (server_lines sv)) (pos, svs) = (pos', svs @ [sv])"
proof -
  let ?s1 = "blank_server\<lparr>ov_name := ov_name sv, ov_listen := ov_listen sv, ov_root := ov_root sv,
    ov_index := ov_index sv, ov_body := ov_body sv, ov_listing := ov_listing sv\<rparr>"
  have head: "fold load_line (map render_line (take 7 (server_lines sv))) (pos, svs) = (0, svs @ [?s1])"
    using assms
    by (simp add: server_lines_def plain_server_def load_line_def stock_server_def Let_def del: render_line_simps)
  have pages: "fold (\<lambda>(k, v). map_set k v) (ov_error_pages sv) [] = ov_error_pages sv"
    using assms fold_map_set_ordered [of "[]" "ov_error_pages sv"] by (simp add: plain_server_def)
  have eq: "map render_line (server_lines sv) = map render_line (take 7 (server_lines sv))
      @ map (\<lambda>m. render_line [''allowed_methods'', m]) (ov_methods sv)
      @ map (\<lambda>(code, page). render_line [''error_page'', code, page]) (ov_error_pages sv)
      @ map render_line (concat (map location_lines (ov_locations sv)))"
    by (simp add: server_lines_def comp_def case_prod_beta del: render_line_simps)
  let ?s2 = "?s1\<lparr>ov_methods := ov_methods sv\<rparr>"
  let ?s3 = "?s2\<lparr>ov_error_pages := ov_error_pages sv\<rparr>"
  have m: "fold load_line (map (\<lambda>m. render_line [''allowed_methods'', m]) (ov_methods sv)) (0, svs @ [?s1]) = (0, svs @ [?s2])"
    using assms load_methods [of "ov_methods sv" svs ?s1] by (simp add: plain_server_def blank_server_def del: render_line_simps)
  have e: "fold load_line (map (\<lambda>(code, page). render_line [''error_page'', code, page]) (ov_error_pages sv)) (0, svs @ [?s2])
      = (0, svs @ [?s3])"
    using assms load_error_pages [of "ov_error_pages sv" svs ?s2] pages
    by (simp add: plain_server_def blank_server_def del: render_line_simps)
  obtain pos' where l: "fold load_line (map render_line (concat (map location_lines (ov_locations sv)))) (0, svs @ [?s3])
      = (pos', svs @ [?s3\<lparr>ov_locations := ov_locations ?s3 @ ov_locations sv\<rparr>])"
    using assms load_locations [of "ov_locations sv" 0 svs ?s3] by (auto simp: plain_server_def)
  have "?s3\<lparr>ov_locations := ov_locations ?s3 @ ov_locations sv\<rparr> = sv" by (simp add: blank_server_def)
  then show ?thesis unfolding eq fold_append comp_apply head m e l by blast
qed

lemma load_servers:
  "list_all plain_server svs \<Longrightarrow> \<exists>pos'.
     fold load_line (map render_line (concat (map server_lines svs))) (pos, acc) = (pos', acc @ svs)"
proof (induction svs arbitrary: pos acc)
  case (Cons sv svs)
  obtain p where "fold load_line (map render_line (server_lines sv)) (pos, acc) = (p, acc @ [sv])"
    using load_server Cons.prems by fastforce
  with Cons.IH [of p "acc @ [sv]"] Cons.prems show ?case by simp
qed simp

definition render_conf :: "old_server list \<Rightarrow> string" where
  "render_conf svs = render_lines (concat (map server_lines svs))"

lemma known_directives: "\<forall>ws \<in> set (server_lines sv). ws \<noteq> [] \<and> hd ws \<in> set (cf_directives new_conf)"
  by (auto simp: server_lines_def location_lines_def new_conf_def split: if_splits)

lemma conf_roundtrip:
  assumes "svs \<noteq> []" and "list_all (\<lambda>sv. plain_server sv \<and> check_server sv = None) svs"
  shows "\<exists>c. parseArgs [prog, path] (\<lambda>p. Some (render_conf svs)) = Some (Inr c) \<and> cf_servers c = svs"
proof -
  let ?lss = "concat (map server_lines svs)"
  have words: "list_all word_line ?lss"
    using assms(2) server_lines_words by (fastforce simp: list_all_iff)
  have lines: "conf_lines (render_conf svs) = map render_line ?lss"
    unfolding render_conf_def by (rule conf_lines_render [OF words])
  have dirs: "is_directive new_conf (render_line ws) = None" if "ws \<in> set ?lss" for ws
  proof -
    have "word_line ws" "ws \<noteq> []" "hd ws \<in> set (cf_directives new_conf)"
      using that words known_directives by (auto simp: list_all_iff)
    then show ?thesis using split_words_render by (cases ws) (auto simp: is_directive_def)
  qed
  have "check_directive new_conf (map render_line lss) = None" if "set lss \<subseteq> set ?lss" for lss
    using that dirs by (induction lss) auto
  then have dir: "check_directive new_conf (map render_line ?lss) = None" by blast
  obtain sv rest where svs: "svs = sv # rest" using assms(1) by (cases svs) auto
  have hd: "hd (map render_line ?lss) = ''server''" "map render_line ?lss \<noteq> []"
    by (simp_all add: svs server_lines_def)
  have "ft_first_word ''server'' = ''server''" using first_of_line [of "''server''" "[]"] by simp
  moreover have "loaded (map render_line ?lss) = svs"
    using load_servers [of svs 0 "[]"] assms(2) by (auto simp: loaded_def list_all_iff)
  moreover have "check_data svs = None" using assms(2) by (simp add: check_data_None list_all_iff)
  ultimately show ?thesis
    using hd dir by (simp add: parseArgs_outcome lines Let_def)
qed

end
