(* ===== verification/Old_Server.thy ===== *)
theory Old_Server
  imports Old_Config Web_Delivery
begin

section \<open>webserv, earlier version: the server\<close>

text \<open>
  Models \<open>apps/webserv/prd/src/server/server_multi_io.cpp\<close>: \<open>build_connection\<close>, the loop of
  \<open>boot_server\<close>, the destructor and \<open>tcp\<close>. The answers of the kernel are arguments; what it is
  asked to do is recorded with the effects of \<open>Web_Server\<close>, latest first. The results of
  \<open>fcntl\<close> are ignored by the code.
\<close>

record client_state =
  io_read :: string
  io_write :: string

record old_io =
  oi_server_fd :: int
  oi_port :: int
  oi_fds :: "pollfd list"
  oi_clients :: "int \<rightharpoonup> client_state"
  oi_trace :: "web_effect list"

definition new_io :: old_io where
  "new_io = \<lparr>oi_server_fd = - 1, oi_port = 0, oi_fds = [], oi_clients = Map.empty, oi_trace = []\<rparr>"

subsection \<open>The listening socket\<close>

text \<open>
  \<open>std::stoi\<close>: white space, a sign, digits; \<open>None\<close> when it throws. \<open>htons\<close> takes the value
  modulo \<open>2 ^ 16\<close>.
\<close>

definition stoi :: "string \<Rightarrow> int option" where
  "stoi v =
     (let t = dropWhile is_space v;
          neg = (t \<noteq> [] \<and> hd t = CHR ''-'');
          u = (if t \<noteq> [] \<and> (hd t = CHR ''-'' \<or> hd t = CHR ''+'') then tl t else t);
          ds = takeWhile is_digit u;
          n = (if neg then - int (dec_value ds) else int (dec_value ds))
      in if ds = [] \<or> n < - (2 ^ 31) \<or> 2 ^ 31 \<le> n then None else Some n)"

definition sin_port :: "int \<Rightarrow> 16 word" where
  "sin_port port = word_of_int port"

record old_listen =
  on_socket :: int
  on_setsockopt :: bool
  on_bind :: bool
  on_listen :: bool

text \<open>Whether it returns, and the server; otherwise it has thrown.\<close>

definition build_connection :: "old_server list \<Rightarrow> old_listen \<Rightarrow> old_io \<Rightarrow> bool \<times> old_io" where
  "build_connection servers a s =
     (if servers = [] then (False, s)
      else
        let s1 = s\<lparr>oi_server_fd := on_socket a\<rparr>
        in if on_socket a = - 1 then (False, s1)
           else
             let s2 = s1\<lparr>oi_trace := FdOpened (on_socket a) # oi_trace s1\<rparr>;
                 closed = s2\<lparr>oi_trace := FdClosed (on_socket a) # oi_trace s2\<rparr>
             in if \<not> on_setsockopt a then (False, closed\<lparr>oi_server_fd := - 1\<rparr>)
                else (case stoi (ov_listen (hd servers)) of
                        None \<Rightarrow> (False, s2)
                      | Some port \<Rightarrow>
                          if \<not> on_bind a then (False, closed\<lparr>oi_port := port\<rparr>)
                          else if \<not> on_listen a then (False, closed\<lparr>oi_port := port\<rparr>)
                          else (True, s2\<lparr>oi_port := port\<rparr>)))"

text \<open>\<open>_client_fd\<close> is -1 throughout.\<close>

definition destroy_server :: "old_io \<Rightarrow> old_io" where
  "destroy_server s =
     (if oi_server_fd s \<noteq> - 1
      then s\<lparr>oi_trace := FdClosed (oi_server_fd s) # oi_trace s, oi_server_fd := - 1\<rparr> else s)"

subsection \<open>One entry of the poll list\<close>

text \<open>What \<open>accept\<close>, \<open>recv\<close> and \<open>send\<close> return; \<open>None\<close> is -1.\<close>

record old_answers =
  oa_accept :: int
  oa_recv :: "string option"
  oa_send :: "nat option"

definition hello_body :: string where
  "hello_body = ''Hello webserv'' @ [LF]"

definition hello_response :: string where
  "hello_response =
     ''HTTP/1.1 200 OK'' @ crlf @ ''Content-Type: text/plain'' @ crlf
     @ ''Content-Length: '' @ toString (length hello_body) @ crlf @ ''Connection: close'' @ crlf @ crlf @ hello_body"

definition drop_client :: "nat \<Rightarrow> old_io \<Rightarrow> old_io" where
  "drop_client i s =
     (let fd = pf_fd (oi_fds s ! i)
      in s\<lparr>oi_trace := FdClosed fd # oi_trace s, oi_clients := (oi_clients s)(fd := None),
           oi_fds := take i (oi_fds s) @ drop (Suc i) (oi_fds s)\<rparr>)"

definition old_accept :: "old_answers \<Rightarrow> old_io \<Rightarrow> old_io" where
  "old_accept a s =
     (if oa_accept a = - 1 then s
      else s\<lparr>oi_trace := FdOpened (oa_accept a) # oi_trace s,
             oi_fds := oi_fds s @ [\<lparr>pf_fd = oa_accept a, pf_events = {POLLIN}, pf_revents = {}\<rparr>],
             oi_clients := (oi_clients s)(oa_accept a \<mapsto> \<lparr>io_read = [], io_write = []\<rparr>)\<rparr>)"

text \<open>\<open>clients[fd]\<close> inserts an empty state when there is none.\<close>

definition client_of :: "int \<Rightarrow> old_io \<Rightarrow> client_state" where
  "client_of fd s = (case oi_clients s fd of Some c \<Rightarrow> c | None \<Rightarrow> \<lparr>io_read = [], io_write = []\<rparr>)"

text \<open>The result says whether the entry has been erased.\<close>

definition old_receive :: "old_answers \<Rightarrow> nat \<Rightarrow> old_io \<Rightarrow> old_io \<times> bool" where
  "old_receive a i s =
     (let fd = pf_fd (oi_fds s ! i)
      in case oa_recv a of
           None \<Rightarrow> (drop_client i s, True)
         | Some data \<Rightarrow>
             if data = [] then (drop_client i s, True)
             else
               let cs = client_of fd s; buffer = io_read cs @ data
               in if find_text (crlf @ crlf) buffer \<noteq> None
                  then (s\<lparr>oi_clients := (oi_clients s)(fd \<mapsto> cs\<lparr>io_read := buffer, io_write := hello_response\<rparr>),
                          oi_fds := (oi_fds s)[i := (oi_fds s ! i)\<lparr>pf_events := {POLLOUT}\<rparr>]\<rparr>, False)
                  else (s\<lparr>oi_clients := (oi_clients s)(fd \<mapsto> cs\<lparr>io_read := buffer\<rparr>)\<rparr>, False))"

definition old_send :: "old_answers \<Rightarrow> nat \<Rightarrow> old_io \<Rightarrow> old_io \<times> bool" where
  "old_send a i s =
     (let fd = pf_fd (oi_fds s ! i); cs = client_of fd s
      in case oa_send a of
           None \<Rightarrow> (drop_client i s, True)
         | Some n \<Rightarrow>
             let rest = drop n (io_write cs);
                 s1 = s\<lparr>oi_trace := SentTo fd (take n (io_write cs)) # oi_trace s,
                        oi_clients := (oi_clients s)(fd \<mapsto> cs\<lparr>io_write := rest\<rparr>)\<rparr>
             in if rest = [] then (drop_client i s1, True) else (s1, False))"

text \<open>The body of the loop over the entries with an event; the second result is the next index.\<close>

definition old_event :: "old_answers \<Rightarrow> nat \<Rightarrow> old_io \<Rightarrow> old_io \<times> nat" where
  "old_event a i s =
     (let p = oi_fds s ! i
      in if pf_fd p = oi_server_fd s then (old_accept a s, i + 1)
         else (case (if POLLIN \<in> pf_revents p then old_receive a i s else (s, False)) of (s1, gone) \<Rightarrow>
           if gone then (s1, i)
           else (case (if POLLOUT \<in> pf_revents p then old_send a i s1 else (s1, False)) of (s2, gone2) \<Rightarrow>
             (s2, if gone2 then i else i + 1))))"

definition pending_events :: "nat \<Rightarrow> old_io \<Rightarrow> nat" where
  "pending_events i s = length (filter (\<lambda>p. pf_revents p \<noteq> {}) (drop i (oi_fds s)))"

lemma pending_at:
  "i < length (oi_fds s) \<Longrightarrow>
     pending_events i s = (if pf_revents (oi_fds s ! i) = {} then 0 else 1) + pending_events (Suc i) s"
  by (simp add: pending_events_def Cons_nth_drop_Suc [symmetric])

lemma pending_drop_client: "i < length (oi_fds s) \<Longrightarrow> pending_events i (drop_client i s) = pending_events (Suc i) s"
  by (simp add: pending_events_def drop_client_def Let_def)

lemma drop_client_rest [simp]:
  "i < length (oi_fds s) \<Longrightarrow> length (oi_fds (drop_client i s)) = length (oi_fds s) - 1"
  "oi_server_fd (drop_client i s) = oi_server_fd s"
  by (simp_all add: drop_client_def Let_def)

lemma pending_frame [simp]:
  "pending_events i (s\<lparr>oi_trace := e\<rparr>) = pending_events i s" "pending_events i (s\<lparr>oi_clients := m\<rparr>) = pending_events i s"
  "pending_events (Suc i) (s\<lparr>oi_clients := m, oi_fds := (oi_fds s)[i := p]\<rparr>) = pending_events (Suc i) s"
  by (simp_all add: pending_events_def)

text \<open>Handling an entry uses up its events; an accepted client has none yet.\<close>

definition uses_up :: "nat \<Rightarrow> old_io \<Rightarrow> old_io \<times> bool \<Rightarrow> bool" where
  "uses_up i s r \<longleftrightarrow>
     pending_events (if snd r then i else Suc i) (fst r) = pending_events (Suc i) s
     \<and> (\<not> snd r \<longrightarrow> length (oi_fds (fst r)) = length (oi_fds s))"

lemma uses_up_receive: "i < length (oi_fds s) \<Longrightarrow> uses_up i s (old_receive a i s)"
  using pending_drop_client [of i s]
  by (simp add: old_receive_def uses_up_def Let_def split: option.split)

lemma uses_up_send: "i < length (oi_fds s) \<Longrightarrow> uses_up i s (old_send a i s)"
  using pending_drop_client [of i]
  by (simp add: old_send_def uses_up_def Let_def split: option.split)

lemma old_event_pending:
  assumes i: "i < length (oi_fds s)" and r: "old_event a i s = (t, j)"
  shows "pending_events j t = pending_events (Suc i) s"
proof (cases "pf_fd (oi_fds s ! i) = oi_server_fd s")
  case True
  then have "t = old_accept a s" "j = Suc i" using r by (simp_all add: old_event_def)
  then show ?thesis using i by (simp add: pending_events_def old_accept_def)
next
  case False
  let ?p = "oi_fds s ! i"
  obtain u b where u: "(if POLLIN \<in> pf_revents ?p then old_receive a i s else (s, False)) = (u, b)" by fastforce
  have 1: "uses_up i s (u, b)"
    using uses_up_receive [OF i, of a] u by (cases "POLLIN \<in> pf_revents ?p") (auto simp: uses_up_def)
  show ?thesis
  proof (cases b)
    case True
    with False r u 1 show ?thesis by (simp add: old_event_def uses_up_def Let_def)
  next
    case nb: False
    obtain v d where v: "(if POLLOUT \<in> pf_revents ?p then old_send a i u else (u, False)) = (v, d)" by fastforce
    have "i < length (oi_fds u)" using i 1 nb by (simp add: uses_up_def)
    then have "uses_up i u (v, d)"
      using uses_up_send [of i u a] v by (cases "POLLOUT \<in> pf_revents ?p") (auto simp: uses_up_def)
    with False r u v nb 1 show ?thesis by (auto simp: old_event_def uses_up_def Let_def)
  qed
qed

function old_events :: "(int \<Rightarrow> old_answers) \<Rightarrow> nat \<Rightarrow> old_io \<Rightarrow> old_io" where
  "old_events answers i s =
     (if length (oi_fds s) \<le> i then s
      else if pf_revents (oi_fds s ! i) = {} then old_events answers (i + 1) s
      else (case old_event (answers (pf_fd (oi_fds s ! i))) i s of (s1, j) \<Rightarrow> old_events answers j s1))"
  by pat_completeness auto
termination
  apply (relation "measures [\<lambda>(answers, i, s). pending_events i s, \<lambda>(answers, i, s). length (oi_fds s) - i]")
  subgoal by simp
  subgoal using pending_at by auto
  subgoal premises prems for answers i s t j
  proof -
    have "i < length (oi_fds s)" using prems(1) by simp
    with pending_at [OF this] old_event_pending [OF this prems(3) [symmetric]] prems(2) show ?thesis by simp
  qed
  done

declare old_events.simps [simp del]

subsection \<open>The loop\<close>

record old_tick =
  ot_ready :: int
  ot_revents :: "int \<Rightarrow> poll_flag set"
  ot_answers :: "int \<Rightarrow> old_answers"

definition old_poll :: "(int \<Rightarrow> poll_flag set) \<Rightarrow> old_io \<Rightarrow> old_io" where
  "old_poll r s = s\<lparr>oi_fds := map (\<lambda>p. p\<lparr>pf_revents := r (pf_fd p)\<rparr>) (oi_fds s)\<rparr>"

definition old_round :: "old_tick \<Rightarrow> old_io \<Rightarrow> old_io" where
  "old_round tk s = old_events (ot_answers tk) 0 (old_poll (ot_revents tk) s)"

fun old_run :: "old_tick list \<Rightarrow> old_io \<Rightarrow> old_io" where
  "old_run [] s = s"
| "old_run (tk # tks) s = (if ot_ready tk = - 1 then s else old_run tks (old_round tk s))"

definition boot_server :: "old_server list \<Rightarrow> old_listen \<Rightarrow> old_tick list \<Rightarrow> old_io \<Rightarrow> bool \<times> old_io" where
  "boot_server servers a tks s =
     (case build_connection servers a s of (ok, s1) \<Rightarrow>
        if \<not> ok then (False, s1)
        else (True, old_run tks (s1\<lparr>oi_clients := Map.empty,
          oi_fds := [\<lparr>pf_fd = oi_server_fd s1, pf_events = {POLLIN}, pf_revents = {}\<rparr>]\<rparr>)))"

definition tcp :: "old_server list \<Rightarrow> old_listen \<Rightarrow> old_tick list \<Rightarrow> bool \<times> old_io" where
  "tcp servers a tks = (case boot_server servers a tks new_io of (ok, s) \<Rightarrow> (ok, destroy_server s))"

end
