(* ===== verification/Old_Loop.thy ===== *)
theory Old_Loop
  imports Old_Server
begin

section \<open>webserv, earlier version: what the loop keeps\<close>

text \<open>
  The invariant of the loop of \<open>boot_server\<close>, for a kernel that returns descriptors that are not
  open (\<open>kernel_ok\<close>) and reports no \<open>POLLIN\<close> or \<open>POLLOUT\<close> it was not asked for (\<open>honest\<close>): the
  listed descriptors are the open ones, every listed client has a state that agrees with the events
  asked for, and what a client has been sent is a prefix (\<open>starts_with\<close>) of the one response.
\<close>

definition greeting_ok :: "pollfd \<Rightarrow> client_state \<Rightarrow> string \<Rightarrow> bool" where
  "greeting_ok p c x \<longleftrightarrow>
     (pf_events p = {POLLIN} \<and> io_write c = [] \<and> x = [] \<and> find_text (crlf @ crlf) (io_read c) = None)
     \<or> (pf_events p = {POLLOUT} \<and> io_write c \<noteq> [] \<and> x @ io_write c = hello_response)"

lemma starts_with_Nil [simp]: "starts_with [] s"
  by (simp add: starts_with_def)

definition greets :: "web_effect list \<Rightarrow> bool" where
  "greets tr \<longleftrightarrow> (\<forall>k g. starts_with (received (drop k tr) g) hello_response)"

lemma greets_Cons: "greets (e # tr) \<longleftrightarrow> greets tr \<and> (\<forall>g. starts_with (received (e # tr) g) hello_response)"
  unfolding greets_def
proof (intro iffI conjI allI)
  fix k g
  assume h: "\<forall>k g. starts_with (received (drop k (e # tr)) g) hello_response"
  show "starts_with (received (drop k tr) g) hello_response" using h [rule_format, of "Suc k" g] by simp
  show "starts_with (received (e # tr) g) hello_response" using h [rule_format, of 0 g] by simp
next
  fix k g
  assume "(\<forall>k g. starts_with (received (drop k tr) g) hello_response) \<and> (\<forall>g. starts_with (received (e # tr) g) hello_response)"
  then show "starts_with (received (drop k (e # tr)) g) hello_response" by (cases k) simp_all
qed

lemma greets_now: "greets tr \<Longrightarrow> starts_with (received tr g) hello_response"
  unfolding greets_def by (metis drop0)

definition entry_ok :: "old_io \<Rightarrow> pollfd \<Rightarrow> bool" where
  "entry_ok s p \<longleftrightarrow>
     (case oi_clients s (pf_fd p) of None \<Rightarrow> pf_fd p = oi_server_fd s
      | Some c \<Rightarrow> pf_fd p \<noteq> oi_server_fd s \<and> greeting_ok p c (received (oi_trace s) (pf_fd p)))"

abbreviation listed :: "old_io \<Rightarrow> int list" where
  "listed s \<equiv> map pf_fd (oi_fds s)"

definition io_inv :: "old_io \<Rightarrow> bool" where
  "io_inv s \<longleftrightarrow>
     distinct (listed s) \<and> oi_server_fd s \<in> set (listed s)
     \<and> list_all (entry_ok s) (oi_fds s)
     \<and> (\<forall>g. oi_clients s g \<noteq> None \<longrightarrow> g \<in> set (listed s))
     \<and> (\<forall>g. fd_balance (oi_trace s) g = (if g \<in> set (listed s) then 1 else 0))
     \<and> greets (oi_trace s)"

lemma io_inv_entry:
  assumes "io_inv s" and "p \<in> set (oi_fds s)" and "pf_fd p \<noteq> oi_server_fd s"
  obtains c where "oi_clients s (pf_fd p) = Some c" "greeting_ok p c (received (oi_trace s) (pf_fd p))"
  using assms by (auto simp: io_inv_def list_all_iff entry_ok_def split: option.splits)

lemma io_inv_dom:
  assumes "io_inv s"
  shows "dom (oi_clients s) = pf_fd ` set (oi_fds s) - {oi_server_fd s}"
proof
  show "dom (oi_clients s) \<subseteq> pf_fd ` set (oi_fds s) - {oi_server_fd s}"
  proof
    fix g
    assume "g \<in> dom (oi_clients s)"
    then obtain c where c: "oi_clients s g = Some c" by auto
    with assms obtain p where p: "p \<in> set (oi_fds s)" "g = pf_fd p" by (auto simp: io_inv_def)
    with assms have "entry_ok s p" by (simp add: io_inv_def list_all_iff)
    with p c show "g \<in> pf_fd ` set (oi_fds s) - {oi_server_fd s}" by (simp add: entry_ok_def)
  qed
qed (use assms in \<open>auto elim: io_inv_entry\<close>)

definition fresh_entries :: "nat \<Rightarrow> old_io \<Rightarrow> bool" where
  "fresh_entries i s \<longleftrightarrow> (\<forall>p \<in> set (drop i (oi_fds s)). honest p)"

lemma fresh_mono: "fresh_entries i s \<Longrightarrow> i \<le> j \<Longrightarrow> fresh_entries j s"
  by (auto simp: fresh_entries_def dest: set_drop_subset_set_drop [THEN subsetD])

subsection \<open>One operation each\<close>

lemma split_entry:
  assumes "i < length xs" obtains us v vs where "xs = us @ v # vs" "i = length us" "v = xs ! i"
  using assms by (metis id_take_nth_drop length_take min.absorb4)

lemma entry_ok_frame:
  "oi_clients t (pf_fd p) = oi_clients s (pf_fd p) \<Longrightarrow> received (oi_trace t) (pf_fd p) = received (oi_trace s) (pf_fd p) \<Longrightarrow>
     oi_server_fd t = oi_server_fd s \<Longrightarrow> entry_ok t p = entry_ok s p"
  by (simp add: entry_ok_def split: option.split)

text \<open>A change that concerns one client only: its entry is replaced or erased.\<close>

lemma inv_one_client:
  assumes inv: "io_inv s" and f: "oi_fds s = us @ p # vs" and p: "pf_fd p \<noteq> oi_server_fd s"
    and t: "oi_server_fd t = oi_server_fd s" "oi_fds t = us @ ps @ vs"
    and g: "greets (oi_trace t)"
    and others: "\<And>h. h \<noteq> pf_fd p \<Longrightarrow> oi_clients t h = oi_clients s h \<and> received (oi_trace t) h = received (oi_trace s) h
      \<and> fd_balance (oi_trace t) h = fd_balance (oi_trace s) h"
    and this_one: "(ps = [] \<and> oi_clients t (pf_fd p) = None \<and> fd_balance (oi_trace t) (pf_fd p) = 0)
      \<or> (\<exists>q. ps = [q] \<and> pf_fd q = pf_fd p \<and> entry_ok t q \<and> fd_balance (oi_trace t) (pf_fd p) = 1)"
  shows "io_inv t"
proof -
  have d: "pf_fd p \<notin> set (map pf_fd (us @ vs))" "distinct (map pf_fd (us @ vs))"
    using inv f by (auto simp: io_inv_def)
  have e: "entry_ok t q = entry_ok s q" if "q \<in> set (us @ vs)" for q
  proof (rule entry_ok_frame)
    have "pf_fd q \<noteq> pf_fd p" using d(1) that by (fastforce simp: image_iff)
    with others [of "pf_fd q"] show "oi_clients t (pf_fd q) = oi_clients s (pf_fd q)"
      "received (oi_trace t) (pf_fd q) = received (oi_trace s) (pf_fd q)" by auto
  qed (rule t(1))
  have l: "set (listed t) = (if ps = [] then set (listed s) - {pf_fd p} else set (listed s))"
    using this_one d(1) by (auto simp: t f)
  have "list_all (entry_ok t) (oi_fds t)"
    using inv this_one e by (auto simp: io_inv_def list_all_iff t f)
  moreover have "distinct (listed t)" using d this_one by (fastforce simp: t image_iff)
  moreover have "oi_server_fd t \<in> set (listed t)" unfolding l t(1) using inv p by (simp add: io_inv_def)
  moreover have "h \<in> set (listed t)" if "oi_clients t h \<noteq> None" for h
  proof (cases "h = pf_fd p")
    case True
    with that this_one have "ps \<noteq> []" by auto
    with True show ?thesis unfolding l by (simp add: f)
  next
    case False
    with that others [OF False] inv have "h \<in> set (listed s)" unfolding io_inv_def by metis
    with False show ?thesis unfolding l by simp
  qed
  moreover have "fd_balance (oi_trace t) h = (if h \<in> set (listed t) then 1 else 0)" for h
  proof (cases "h = pf_fd p")
    case True
    with this_one show ?thesis unfolding l by (auto simp: f)
  next
    case False
    have "fd_balance (oi_trace s) h = (if h \<in> set (listed s) then 1 else 0)" using inv by (simp add: io_inv_def)
    with others [OF False] False show ?thesis unfolding l by simp
  qed
  ultimately show ?thesis using g by (simp add: io_inv_def)
qed

lemma inv_drop_client:
  assumes inv: "io_inv s" and i: "i < length (oi_fds s)" and c: "pf_fd (oi_fds s ! i) \<noteq> oi_server_fd s"
  shows "io_inv (drop_client i s)"
proof -
  obtain us p vs where f: "oi_fds s = us @ p # vs" "i = length us" using split_entry [OF i] .
  have t: "drop_client i s = s\<lparr>oi_trace := FdClosed (pf_fd p) # oi_trace s, oi_clients := (oi_clients s)(pf_fd p := None),
      oi_fds := us @ [] @ vs\<rparr>" using f by (simp add: drop_client_def Let_def)
  show ?thesis
  proof (rule inv_one_client [OF inv f(1)])
    show "pf_fd p \<noteq> oi_server_fd s" using c f by simp
    show "greets (oi_trace (drop_client i s))" using inv greets_now by (simp add: t io_inv_def greets_Cons)
    have "fd_balance (oi_trace s) (pf_fd p) = 1" using inv f by (simp add: io_inv_def)
    then show "([] = [] \<and> oi_clients (drop_client i s) (pf_fd p) = None \<and> fd_balance (oi_trace (drop_client i s)) (pf_fd p) = 0)
      \<or> (\<exists>q. [] = [q] \<and> pf_fd q = pf_fd p \<and> entry_ok (drop_client i s) q \<and> fd_balance (oi_trace (drop_client i s)) (pf_fd p) = 1)"
      by (simp add: t)
  qed (simp_all add: t)
qed

lemma inv_accept:
  assumes inv: "io_inv s" and k: "kernel_ok (oi_trace (old_accept a s))"
  shows "io_inv (old_accept a s)"
proof (cases "oa_accept a = - 1")
  case False
  let ?f = "oa_accept a" and ?t = "old_accept a s"
  have b: "fd_balance (oi_trace s) ?f = 0" using k False by (simp add: old_accept_def)
  with inv have n: "?f \<notin> set (listed s)" by (auto simp: io_inv_def)
  have e: "entry_ok ?t q = entry_ok s q" if "q \<in> set (oi_fds s)" for q
  proof (rule entry_ok_frame)
    have "pf_fd q \<noteq> ?f" using that n by (metis image_eqI list.set_map)
    then show "oi_clients ?t (pf_fd q) = oi_clients s (pf_fd q)"
      "received (oi_trace ?t) (pf_fd q) = received (oi_trace s) (pf_fd q)" by (auto simp: old_accept_def)
  qed (simp add: old_accept_def)
  have "oi_server_fd s \<noteq> ?f" using inv n by (auto simp: io_inv_def)
  then have "list_all (entry_ok ?t) (oi_fds ?t)"
    using inv False e by (auto simp: io_inv_def list_all_iff old_accept_def entry_ok_def greeting_ok_def crlf_def)
  moreover have "greets (oi_trace ?t)" using inv greets_now by (simp add: old_accept_def io_inv_def greets_Cons)
  moreover have "fd_balance (oi_trace ?t) h = (if h \<in> set (listed ?t) then 1 else 0)" for h
  proof -
    have "fd_balance (oi_trace s) h = (if h \<in> set (listed s) then 1 else 0)" using inv by (simp add: io_inv_def)
    with b False show ?thesis by (auto simp: old_accept_def)
  qed
  ultimately show ?thesis using inv n False unfolding io_inv_def
    by (simp add: old_accept_def)
qed (use inv in \<open>simp add: old_accept_def\<close>)

text \<open>A change to the state of a client, with its entry kept.\<close>

lemma inv_set_client:
  assumes inv: "io_inv s" and f: "oi_fds s = us @ p # vs" and p: "pf_fd p \<noteq> oi_server_fd s"
    and t: "oi_server_fd t = oi_server_fd s" "oi_fds t = us @ q # vs" "pf_fd q = pf_fd p"
      "oi_clients t = (oi_clients s)(pf_fd p \<mapsto> c)"
    and tr: "oi_trace t = oi_trace s \<or> (\<exists>d. oi_trace t = SentTo (pf_fd p) d # oi_trace s)"
    and g: "greets (oi_trace t)" and ok: "greeting_ok q c (received (oi_trace t) (pf_fd p))"
  shows "io_inv t"
proof (rule inv_one_client [OF inv f p t(1)])
  show "oi_fds t = us @ [q] @ vs" using t(2) by simp
  have "fd_balance (oi_trace s) (pf_fd p) = 1" using inv f by (simp add: io_inv_def)
  then have "fd_balance (oi_trace t) (pf_fd p) = 1" using tr by auto
  moreover have "entry_ok t q" using t ok p by (simp add: entry_ok_def)
  ultimately show "([q] = [] \<and> oi_clients t (pf_fd p) = None \<and> fd_balance (oi_trace t) (pf_fd p) = 0)
      \<or> (\<exists>r. [q] = [r] \<and> pf_fd r = pf_fd p \<and> entry_ok t r \<and> fd_balance (oi_trace t) (pf_fd p) = 1)"
    using t(3) by simp
  show "oi_clients t h = oi_clients s h \<and> received (oi_trace t) h = received (oi_trace s) h
      \<and> fd_balance (oi_trace t) h = fd_balance (oi_trace s) h" if "h \<noteq> pf_fd p" for h
    using that t(4) tr by auto
qed (rule g)

lemma inv_receive:
  assumes inv: "io_inv s" and i: "i < length (oi_fds s)" and c: "pf_fd (oi_fds s ! i) \<noteq> oi_server_fd s"
    and e: "POLLIN \<in> pf_events (oi_fds s ! i)"
  shows "io_inv (fst (old_receive a i s))"
proof (cases "oa_recv a = None \<or> oa_recv a = Some []")
  case True
  then show ?thesis using inv_drop_client [OF inv i c] by (auto simp: old_receive_def Let_def)
next
  case False
  then obtain d where d: "oa_recv a = Some d" "d \<noteq> []" by auto
  obtain us p vs where f: "oi_fds s = us @ p # vs" "i = length us" using split_entry [OF i] .
  from c f have p: "pf_fd p \<noteq> oi_server_fd s" "p \<in> set (oi_fds s)" by simp_all
  obtain cs where cs: "oi_clients s (pf_fd p) = Some cs" "greeting_ok p cs (received (oi_trace s) (pf_fd p))"
    using io_inv_entry [OF inv p(2,1)] .
  from cs(2) e f have r: "received (oi_trace s) (pf_fd p) = []" "io_write cs = []" "pf_events p = {POLLIN}"
    by (auto simp: greeting_ok_def)
  let ?t = "fst (old_receive a i s)" and ?buffer = "io_read cs @ d"
  let ?more = "find_text (crlf @ crlf) ?buffer = None"
  let ?c = "if ?more then cs\<lparr>io_read := ?buffer\<rparr> else cs\<lparr>io_read := ?buffer, io_write := hello_response\<rparr>"
  let ?q = "if ?more then p else p\<lparr>pf_events := {POLLOUT}\<rparr>"
  have t: "?t = s\<lparr>oi_clients := (oi_clients s)(pf_fd p \<mapsto> ?c), oi_fds := us @ ?q # vs\<rparr>"
    using d f cs(1) by (simp add: old_receive_def Let_def client_of_def)
  show ?thesis
  proof (rule inv_set_client [OF inv f(1) p(1)])
    show "greets (oi_trace ?t)" using inv by (simp add: t io_inv_def)
    show "greeting_ok ?q ?c (received (oi_trace ?t) (pf_fd p))"
      using r by (simp add: t greeting_ok_def hello_response_def)
  qed (simp_all add: t)
qed

lemma inv_send:
  assumes inv: "io_inv s" and i: "i < length (oi_fds s)" and c: "pf_fd (oi_fds s ! i) \<noteq> oi_server_fd s"
    and e: "POLLOUT \<in> pf_events (oi_fds s ! i)"
  shows "io_inv (fst (old_send a i s))"
proof (cases "oa_send a")
  case None
  then show ?thesis using inv_drop_client [OF inv i c] by (simp add: old_send_def Let_def)
next
  case (Some n)
  obtain us p vs where f: "oi_fds s = us @ p # vs" "i = length us" using split_entry [OF i] .
  from c f have p: "pf_fd p \<noteq> oi_server_fd s" "p \<in> set (oi_fds s)" by simp_all
  obtain cs where cs: "oi_clients s (pf_fd p) = Some cs" "greeting_ok p cs (received (oi_trace s) (pf_fd p))"
    using io_inv_entry [OF inv p(2,1)] .
  let ?sent = "received (oi_trace s) (pf_fd p)"
  from cs(2) e f have r: "?sent @ io_write cs = hello_response" "pf_events p = {POLLOUT}"
    by (auto simp: greeting_ok_def)
  define rest where "rest = drop n (io_write cs)"
  define s1 where "s1 = s\<lparr>oi_trace := SentTo (pf_fd p) (take n (io_write cs)) # oi_trace s,
    oi_clients := (oi_clients s)(pf_fd p \<mapsto> cs\<lparr>io_write := rest\<rparr>)\<rparr>"
  have whole: "hello_response = (?sent @ take n (io_write cs)) @ rest" using r(1) by (simp add: rest_def)
  have "starts_with (?sent @ take n (io_write cs)) hello_response"
    unfolding whole by (rule starts_with_append)
  then have g: "greets (oi_trace s1)" using inv greets_now by (simp add: io_inv_def greets_Cons s1_def)
  have o: "old_send a i s = (if rest = [] then (drop_client i s1, True) else (s1, False))"
    using Some cs(1) f by (simp add: old_send_def Let_def client_of_def s1_def rest_def)
  show ?thesis
  proof (cases "rest = []")
    case False
    have "io_inv s1"
    proof (rule inv_set_client [OF inv f(1) p(1) _ _ _ _ _ g])
      show "greeting_ok p (cs\<lparr>io_write := rest\<rparr>) (received (oi_trace s1) (pf_fd p))"
        using r(2) False whole by (simp add: greeting_ok_def s1_def)
    qed (simp_all add: s1_def f)
    with o False show ?thesis by simp
  next
    case True
    have t: "drop_client i s1 = s\<lparr>oi_trace := FdClosed (pf_fd p) # oi_trace s1,
        oi_clients := (oi_clients s)(pf_fd p := None), oi_fds := us @ [] @ vs\<rparr>"
      using f by (simp add: drop_client_def Let_def s1_def)
    have "io_inv (drop_client i s1)"
    proof (rule inv_one_client [OF inv f(1) p(1)])
      show "greets (oi_trace (drop_client i s1))" using g greets_now [OF g] by (simp add: t greets_Cons)
      have "fd_balance (oi_trace s) (pf_fd p) = 1" using inv f by (simp add: io_inv_def)
      then show "([] = [] \<and> oi_clients (drop_client i s1) (pf_fd p) = None \<and> fd_balance (oi_trace (drop_client i s1)) (pf_fd p) = 0)
        \<or> (\<exists>q. [] = [q] \<and> pf_fd q = pf_fd p \<and> entry_ok (drop_client i s1) q \<and> fd_balance (oi_trace (drop_client i s1)) (pf_fd p) = 1)"
        by (simp add: t) (simp add: s1_def)
    qed (simp_all add: t, simp_all add: s1_def)
    with o True show ?thesis by simp
  qed
qed

subsection \<open>The loop\<close>

lemma old_events_steps:
  "length (oi_fds s) \<le> i \<Longrightarrow> old_events answers i s = s"
  "i < length (oi_fds s) \<Longrightarrow> pf_revents (oi_fds s ! i) = {} \<Longrightarrow> old_events answers i s = old_events answers (Suc i) s"
  "i < length (oi_fds s) \<Longrightarrow> pf_revents (oi_fds s ! i) \<noteq> {} \<Longrightarrow>
     old_event (answers (pf_fd (oi_fds s ! i))) i s = (t, j) \<Longrightarrow> old_events answers i s = old_events answers j t"
  by (simp_all add: old_events.simps [of _ i])

text \<open>Every operation only adds to the trace.\<close>

definition extends_io :: "old_io \<Rightarrow> old_io \<Rightarrow> bool" where
  "extends_io s t \<longleftrightarrow> (\<exists>es. oi_trace t = es @ oi_trace s)"

lemma extends_io_refl [simp]: "extends_io s s" "oi_trace t = oi_trace s \<Longrightarrow> extends_io s t"
  by (simp_all add: extends_io_def)

lemma extends_io_trans: "extends_io s t \<Longrightarrow> extends_io t u \<Longrightarrow> extends_io s u"
  by (auto simp: extends_io_def)

lemma extends_io_kernel: "extends_io s t \<Longrightarrow> kernel_ok (oi_trace t) \<Longrightarrow> kernel_ok (oi_trace s)"
  by (auto simp: extends_io_def dest: kernel_ok_append)

lemma trace_adds: "extends_io s (s\<lparr>oi_trace := e # oi_trace s\<rparr>)"
  by (simp add: extends_io_def)

lemma extends_operations:
  "extends_io s (drop_client i s)" "extends_io s (old_accept a s)"
  "extends_io s (fst (old_receive a i s))" "extends_io s (fst (old_send a i s))"
  by (auto simp: extends_io_def drop_client_def old_accept_def old_receive_def old_send_def Let_def split: option.split)

text \<open>Receiving leaves the other entries, and no events are handled twice.\<close>

lemma receive_rest:
  "oi_server_fd (fst (old_receive a i s)) = oi_server_fd s" "oi_server_fd (fst (old_send a i s)) = oi_server_fd s"
  by (simp_all add: old_receive_def old_send_def drop_client_def Let_def split: option.split)

lemma receive_kept:
  assumes "i < length (oi_fds s)" and "\<not> snd (old_receive a i s)"
  shows "length (oi_fds (fst (old_receive a i s))) = length (oi_fds s)"
    and "pf_fd (oi_fds (fst (old_receive a i s)) ! i) = pf_fd (oi_fds s ! i)"
    and "drop (Suc i) (oi_fds (fst (old_receive a i s))) = drop (Suc i) (oi_fds s)"
  using assms by (auto simp: old_receive_def Let_def split: option.splits if_splits)

lemma receive_gone:
  assumes "i < length (oi_fds s)" and "snd (old_receive a i s)"
  shows "drop i (oi_fds (fst (old_receive a i s))) = drop (Suc i) (oi_fds s)"
  using assms by (auto simp: old_receive_def drop_client_def Let_def split: option.splits if_splits)

lemma send_rest:
  assumes "i < length (oi_fds s)"
  shows "drop (if snd (old_send a i s) then i else Suc i) (oi_fds (fst (old_send a i s))) = drop (Suc i) (oi_fds s)"
  using assms by (auto simp: old_send_def drop_client_def Let_def split: option.splits if_splits)

lemma honest_asked: "honest p \<Longrightarrow> POLLIN \<in> pf_revents p \<Longrightarrow> POLLIN \<in> pf_events p"
  "honest p \<Longrightarrow> POLLOUT \<in> pf_revents p \<Longrightarrow> POLLOUT \<in> pf_events p"
  by (auto simp: honest_def)

lemma inv_event:
  assumes inv: "io_inv s" and i: "i < length (oi_fds s)" and fresh: "fresh_entries i s"
    and e: "old_event a i s = (t, j)" and k: "kernel_ok (oi_trace t)"
  shows "io_inv t" and "fresh_entries j t"
proof -
  let ?p = "oi_fds s ! i"
  have p: "?p \<in> set (drop i (oi_fds s))" using i by (simp add: Cons_nth_drop_Suc [symmetric])
  then have h: "honest ?p" using fresh by (simp add: fresh_entries_def)
  have later: "\<forall>q \<in> set (drop (Suc i) (oi_fds s)). honest q"
    using fresh_mono [OF fresh, of "Suc i"] by (simp add: fresh_entries_def)
  have "io_inv t \<and> fresh_entries j t"
  proof (cases "pf_fd ?p = oi_server_fd s")
    case True
    then have t: "t = old_accept a s" "j = Suc i" using e by (simp_all add: old_event_def)
    have "honest \<lparr>pf_fd = f, pf_events = {POLLIN}, pf_revents = {}\<rparr>" for f by (simp add: honest_def)
    then have "fresh_entries j t" using later i by (auto simp: t old_accept_def fresh_entries_def)
    with inv_accept [OF inv] k show ?thesis by (simp add: t)
  next
    case client: False
    have one: "pf_events ?p = {POLLIN} \<or> pf_events ?p = {POLLOUT}"
      using io_inv_entry [OF inv _ client] i by (metis greeting_ok_def nth_mem)
    consider (in_) "POLLIN \<in> pf_revents ?p" "POLLOUT \<notin> pf_revents ?p" "POLLIN \<in> pf_events ?p"
      | (out) "POLLIN \<notin> pf_revents ?p" "POLLOUT \<in> pf_revents ?p" "POLLOUT \<in> pf_events ?p"
      | (none) "POLLIN \<notin> pf_revents ?p" "POLLOUT \<notin> pf_revents ?p"
      using one honest_asked [OF h] by auto
    then show ?thesis
    proof cases
      case in_
      let ?r = "old_receive a i s"
      have t: "t = fst ?r" "j = (if snd ?r then i else Suc i)"
        using e client in_ by (auto simp: old_event_def Let_def split: prod.splits if_splits)
      moreover have "\<forall>q \<in> set (drop j (oi_fds t)). honest q"
        using later receive_gone [OF i, of a] receive_kept(3) [OF i, of a] by (auto simp: t)
      ultimately show ?thesis using inv_receive [OF inv i client in_(3)] by (simp add: fresh_entries_def)
    next
      case out
      let ?r = "old_send a i s"
      have t: "t = fst ?r" "j = (if snd ?r then i else Suc i)"
        using e client out by (auto simp: old_event_def Let_def split: prod.splits if_splits)
      then show ?thesis using later send_rest [OF i, of a] inv_send [OF inv i client out(3)]
        by (simp add: fresh_entries_def)
    next
      case none
      then have "t = s" "j = Suc i" using e client by (simp_all add: old_event_def Let_def)
      then show ?thesis using inv later by (simp add: fresh_entries_def)
    qed
  qed
  then show "io_inv t" "fresh_entries j t" by simp_all
qed

lemma extends_event: "old_event a i s = (t, j) \<Longrightarrow> extends_io s t"
proof -
  assume e: "old_event a i s = (t, j)"
  let ?p = "oi_fds s ! i"
  obtain u b where u: "(if POLLIN \<in> pf_revents ?p then old_receive a i s else (s, False)) = (u, b)" by fastforce
  obtain v d where v: "(if POLLOUT \<in> pf_revents ?p then old_send a i u else (u, False)) = (v, d)" by fastforce
  have 1: "extends_io s u" using u extends_operations(3) [of s a i] by (auto split: if_splits)
  have "extends_io u v" using v extends_operations(4) [of u a i] by (auto split: if_splits)
  with 1 have 2: "extends_io s v" by (rule extends_io_trans)
  show ?thesis
  proof (cases "pf_fd ?p = oi_server_fd s")
    case True
    with e extends_operations(2) show ?thesis by (auto simp: old_event_def)
  next
    case False
    with e u v 1 2 show ?thesis by (auto simp: old_event_def Let_def split: if_splits)
  qed
qed

lemma extends_events: "extends_io s (old_events answers i s)"
proof (induction answers i s rule: old_events.induct)
  case (1 answers i s)
  show ?case
  proof (cases "length (oi_fds s) \<le> i")
    case True
    then show ?thesis by (simp add: old_events.simps)
  next
    case more: False
    show ?thesis
    proof (cases "pf_revents (oi_fds s ! i) = {}")
      case True
      with more 1 show ?thesis by (simp add: old_events.simps [of _ i])
    next
      case False
      obtain t j where e: "old_event (answers (pf_fd (oi_fds s ! i))) i s = (t, j)" by fastforce
      have "extends_io t (old_events answers j t)" using 1(2) [OF more False e [symmetric]] by simp
      with extends_event [OF e] have "extends_io s (old_events answers j t)" by (rule extends_io_trans)
      with more False e show ?thesis by (simp add: old_events.simps [of _ i])
    qed
  qed
qed

lemma inv_events:
  "io_inv s \<Longrightarrow> fresh_entries i s \<Longrightarrow> kernel_ok (oi_trace (old_events answers i s)) \<Longrightarrow> io_inv (old_events answers i s)"
proof (induction answers i s rule: old_events.induct)
  case (1 answers i s)
  show ?case
  proof (cases "length (oi_fds s) \<le> i")
    case True
    with 1(3) show ?thesis by (simp add: old_events.simps)
  next
    case more: False
    show ?thesis
    proof (cases "pf_revents (oi_fds s ! i) = {}")
      case True
      with more 1(1,3,5) fresh_mono [OF 1(4), of "Suc i"] show ?thesis by (simp add: old_events.simps [of _ i])
    next
      case False
      obtain t j where e: "old_event (answers (pf_fd (oi_fds s ! i))) i s = (t, j)" by fastforce
      with more False have o: "old_events answers i s = old_events answers j t" by (simp add: old_events.simps [of _ i])
      with 1(5) have k: "kernel_ok (oi_trace (old_events answers j t))" by simp
      have "kernel_ok (oi_trace t)" using extends_io_kernel [OF extends_events k] .
      with inv_event [OF 1(3) _ 1(4) e] more have "io_inv t" "fresh_entries j t" by simp_all
      with 1(2) [OF more False e [symmetric]] k o show ?thesis by simp
    qed
  qed
qed

definition old_honest :: "old_tick \<Rightarrow> old_io \<Rightarrow> bool" where
  "old_honest tk s \<longleftrightarrow> list_all honest (oi_fds (old_poll (ot_revents tk) s))"

lemma inv_old_poll: "io_inv s \<Longrightarrow> io_inv (old_poll r s)"
proof -
  assume inv: "io_inv s"
  have "entry_ok (old_poll r s) (p\<lparr>pf_revents := e\<rparr>) = entry_ok s p" for p e
    by (simp add: entry_ok_def greeting_ok_def old_poll_def split: option.split)
  with inv show ?thesis by (simp add: io_inv_def old_poll_def list_all_iff comp_def)
qed

lemma inv_round:
  assumes "io_inv s" and "old_honest tk s" and "kernel_ok (oi_trace (old_round tk s))"
  shows "io_inv (old_round tk s)"
  unfolding old_round_def
proof (rule inv_events)
  show "fresh_entries 0 (old_poll (ot_revents tk) s)"
    using assms(2) by (simp add: fresh_entries_def old_honest_def list_all_iff)
qed (use assms inv_old_poll in \<open>simp_all add: old_round_def\<close>)

text \<open>The states between two calls of \<open>poll\<close>.\<close>

inductive old_serving :: "old_io \<Rightarrow> bool" where
  old_start: "build_connection servers a new_io = (True, s) \<Longrightarrow> 0 \<le> on_socket a \<Longrightarrow> old_serving
    (s\<lparr>oi_clients := Map.empty, oi_fds := [\<lparr>pf_fd = oi_server_fd s, pf_events = {POLLIN}, pf_revents = {}\<rparr>]\<rparr>)"
| old_next: "old_serving s \<Longrightarrow> old_honest tk s \<Longrightarrow> kernel_ok (oi_trace (old_round tk s)) \<Longrightarrow> old_serving (old_round tk s)"

lemma build_connection_done:
  assumes "build_connection servers a new_io = (True, s)"
  shows "oi_server_fd s = on_socket a" "oi_trace s = [FdOpened (on_socket a)]"
  using assms by (auto simp: build_connection_def new_io_def Let_def split: if_splits option.splits)

lemma serving_io_inv: "old_serving s \<Longrightarrow> io_inv s"
proof (induction rule: old_serving.induct)
  case (old_start servers a s)
  have "greets [FdOpened f]" for f by (simp add: greets_Cons) (simp add: greets_def)
  with build_connection_done [OF old_start(1)] show ?case by (simp add: io_inv_def entry_ok_def)
qed (rule inv_round)

end
