(* ===== verification/Old_Properties.thy ===== *)
theory Old_Properties
  imports Lab_Parser Old_Response Old_Loop
begin

section \<open>The earlier web server and the experimental parser: properties\<close>

text \<open>
  The properties of \<open>Old_Config\<close>, \<open>Old_Response\<close>, \<open>Old_Loop\<close> and \<open>Lab_Parser\<close>, each with a
  concrete case, and three defects of the earlier server.
\<close>

subsection \<open>The experimental parser\<close>

text \<open>
  C21. The parser of the IRC server is the experimental parser plus checks: on a framed line (no CR
  or LF at its end, no space at its start) it accepts exactly what the experiment parses into a
  command with at most fifteen parameters, no NUL, and not a prefix that is empty; the message is the
  same, with its command in upper case. So the two agree on prefix, middle parameters and the
  trailing one.
\<close>

theorem parser_refines_experiment:
  assumes "line = [] \<or> hd line \<noteq> SP \<and> last line \<notin> {CR, LF}"
  shows "parse line =
    (let r = parseIrcMessage (line @ crlf)
     in if NUL \<notin> set line \<and> \<not> (im_prefix r = [] \<and> line \<noteq> [] \<and> hd line = CHR '':'')
           \<and> im_command r \<noteq> [] \<and> length (im_params r) \<le> MAX_PARAMS
        then Some \<lparr>msg_prefix = im_prefix r, msg_command = toUpperAscii (im_command r), msg_params = im_params r\<rparr>
        else None)"
  using parse_by_lab [OF assms] by (simp add: lab_checks_def)

theorem parser_refines_experiment_witness:
  "parseIrcMessage ('':bob privmsg  #c :hi  all'' @ crlf) =
     \<lparr>im_prefix = ''bob'', im_command = ''privmsg'', im_params = [''#c'', ''hi  all'']\<rparr>
   \<and> parse '':bob privmsg  #c :hi  all'' =
     Some \<lparr>msg_prefix = ''bob'', msg_command = ''PRIVMSG'', msg_params = [''#c'', ''hi  all'']\<rparr>"
proof -
  define line where "line = '':bob privmsg  #c :hi  all''"
  have e: "parseIrcMessage (line @ crlf) =
     \<lparr>im_prefix = ''bob'', im_command = ''privmsg'', im_params = [''#c'', ''hi  all'']\<rparr>"
    unfolding line_def by code_simp
  have l: "hd line \<noteq> SP" "last line \<notin> {CR, LF}" "NUL \<notin> set line"
    unfolding line_def by (simp_all add: char_simps)
  have "toUpperAscii ''privmsg'' = ''PRIVMSG''" by code_simp
  with parser_refines_experiment [of line] e l have "parse line =
     Some \<lparr>msg_prefix = ''bob'', msg_command = ''PRIVMSG'', msg_params = [''#c'', ''hi  all'']\<rparr>"
    by (simp add: MAX_PARAMS_def)
  with e show ?thesis by (simp add: line_def)
qed

subsection \<open>The earlier configuration\<close>

text \<open>
  C27. \<open>parseArgs\<close> of the earlier server never reads outside a vector, whatever the arguments and
  the file are, although \<open>stock_data\<close> indexes its vectors with counters that start at -1. It
  either stops with one of seven errors or returns the servers written in the file, at least one,
  each with every value its checks ask for. The other errors of \<open>check_data\<close> cannot occur.
\<close>

theorem parseArgs_total:
  "\<exists>r. parseArgs argv files = Some r \<and>
    (case r of
       Inl e \<Rightarrow> e \<in> {ArgvErr, DirMissing, DirWrong, NotINT, ErrorPage, MethWrong, ListingErr}
     | Inr c \<Rightarrow> cf_servers c = loaded (cf_file c) \<and> cf_servers c \<noteq> []
         \<and> list_all (\<lambda>sv. check_server sv = None) (cf_servers c))"
proof (cases "length argv = 2")
  case False
  then show ?thesis by (simp add: parseArgs_def validate_arguments_def)
next
  case True
  then obtain prog path where a: "argv = [prog, path]"
    by (metis One_nat_def Suc_1 length_0_conv length_Suc_conv)
  show ?thesis
  proof (cases "files path")
    case None
    then show ?thesis by (simp add: a parseArgs_outcome)
  next
    case (Some content)
    have n: "loaded ls \<noteq> []" if "ls \<noteq> []" "ft_first_word (hd ls) = ''server''" for ls
      using loaded_nonempty [OF that] .
    show ?thesis
      using n [of "conf_lines content"]
      by (auto simp: a parseArgs_outcome Some Let_def check_data_None dest!: check_data_errors split: option.split)
  qed
qed

text \<open>
  C28. A configuration written out line by line, as the servers of a file with their locations, is
  read back as the same servers, for any servers that pass the checks and whose values are words.
\<close>

theorem old_config_roundtrip:
  assumes "svs \<noteq> []" and "list_all (\<lambda>sv. plain_server sv \<and> check_server sv = None) svs"
  shows "\<exists>c. parseArgs [prog, path] (\<lambda>p. Some (render_conf svs)) = Some (Inr c) \<and> cf_servers c = svs"
  by (rule conf_roundtrip [OF assms])

definition sample_server :: old_server where
  "sample_server = \<lparr>ov_name = ''a'', ov_listen = ''80'', ov_root = ''/w'', ov_index = ''i'', ov_body = ''9'',
     ov_listing = ''on'', ov_methods = [''GET'', ''POST''], ov_error_pages = [(''404'', ''e'')],
     ov_locations = [\<lparr>ol_dir = ''/u'', ol_root = ''/r'', ol_index = ''j'', ol_listing = ''off'', ol_redir = [],
       ol_methods = [''DELETE'']\<rparr>]\<rparr>"

theorem old_config_roundtrip_witness:
  "\<exists>c. parseArgs [''webserv'', ''f''] (\<lambda>p. Some (render_conf [sample_server])) = Some (Inr c)
     \<and> cf_servers c = [sample_server]"
proof (rule old_config_roundtrip)
  have "plain_server sample_server"
    by (simp add: sample_server_def plain_server_def plain_location_def plain_def is_space_def char_simps)
  moreover have "check_server sample_server = None" by code_simp
  ultimately show "list_all (\<lambda>sv. plain_server sv \<and> check_server sv = None) [sample_server]" by simp
qed simp

subsection \<open>The earlier responses\<close>

lemma framed_buildError:
  assumes "LF \<notin> set date"
  shows "well_framed (createResponse (buildErrorResponse date n)) (old_head (buildErrorResponse date n))
    (od_body (buildErrorResponse date n))"
  using assms LF_reason_phrase
  by (intro framed_createResponse [where date = date]) (simp_all add: buildErrorResponse_def Let_def basic_headers)

lemma framed_handleGet:
  assumes "LF \<notin> set date"
  shows "well_framed (createResponse (handleGet date req)) (old_head (handleGet date req)) (od_body (handleGet date req))"
  using assms LF_reason_phrase
  by (intro framed_createResponse [where date = date]) (simp_all add: handleGet_def basic_headers)

text \<open>Which response is built, with the lines of its head.\<close>

lemma reasons_used:
  "getReasonPhrase 200 = ''OK''" "getReasonPhrase 501 = ''Not Implemented''" "getReasonPhrase 405 = ''Method Not Allowed''"
  "show_int 200 = ''200''" "show_int 501 = ''501''" "show_int 405 = ''405''"
  by code_simp+

lemma built_response:
  "od_body (handleGet date req) = ''<h1>Hello from GET</h1>''"
  "old_head (handleGet date req) = [''HTTP/1.1 200 OK'', ''Content-Length: '' @ show_nat (length ''<h1>Hello from GET</h1>''),
     ''Content-Type: text/html'', ''Date: '' @ date, ''Server: webserv/0.1'']"
  "od_body (buildErrorResponse date n) = ''<h1>'' @ show_int n @ '' '' @ getReasonPhrase n @ ''</h1>''"
  "old_head (buildErrorResponse date n) = [''HTTP/1.1 '' @ show_int n @ '' '' @ getReasonPhrase n,
     ''Content-Length: '' @ show_nat (length (''<h1>'' @ show_int n @ '' '' @ getReasonPhrase n @ ''</h1>'')),
     ''Content-Type: text/html'', ''Date: '' @ date, ''Server: webserv/0.1'']"
  by (simp_all add: handleGet_def buildErrorResponse_def Let_def old_head_def basic_headers header_field_def reasons_used)

lemma framed_hello:
  "well_framed hello_response [''HTTP/1.1 200 OK'', ''Content-Type: text/plain'', ''Content-Length: 14'', ''Connection: close'']
     (''Hello webserv'' @ [LF])"
proof -
  let ?pre = "[(''Content-Type'', ''text/plain'')]" and ?post = "[(''Connection'', ''close'')]"
  let ?ls = "[''HTTP/1.1 200 OK'', ''Content-Type: text/plain'', ''Content-Length: 14'', ''Connection: close'']"
  have n: "show_nat (length (''Hello webserv'' @ [LF])) = ''14''" by code_simp
  have status: "starts_with ''HTTP/1.1 '' ''HTTP/1.1 200 OK''" "LF \<notin> set ''HTTP/1.1 200 OK''" by code_simp+
  have passable: "\<forall>h \<in> set ?pre. passable_header h" "\<forall>h \<in> set ?post. passable_header h"
    and "\<forall>h \<in> set ?pre \<union> set ?post. lower (fst h) \<noteq> ''transfer-encoding''" by code_simp+
  moreover have "?ls = ''HTTP/1.1 200 OK'' # map header_field
      (?pre @ (''Content-Length'', show_nat (length (''Hello webserv'' @ [LF]))) # ?post)"
    unfolding n by (simp add: header_field_def)
  moreover have "hello_response = crlf_lines ?ls @ crlf @ ''Hello webserv'' @ [LF]"
    by (simp add: hello_response_def hello_body_def toString_def n [simplified])
  ultimately show ?thesis using delimited_head(2) [OF status passable] by metis
qed

text \<open>
  C29. The response that the earlier server sends and every response that its response builder
  makes have the framing a client needs, with exactly these lines: the status line that belongs
  to the method of the request, the headers, one blank line, and the body that the one
  \<open>Content-Length\<close> announces. The builder answers only GET; POST and DELETE are not
  implemented, any other method is not allowed. The date is assumed to have no line feed.
\<close>

theorem old_responses_framed:
  assumes "LF \<notin> set date"
  shows "well_framed hello_response [''HTTP/1.1 200 OK'', ''Content-Type: text/plain'', ''Content-Length: 14'', ''Connection: close'']
      (''Hello webserv'' @ [LF])
    \<and> (let (status, body) =
            if oq_method req = ''GET'' then (''200 OK'', ''<h1>Hello from GET</h1>'')
            else if oq_method req \<in> {''POST'', ''DELETE''} then (''501 Not Implemented'', ''<h1>501 Not Implemented</h1>'')
            else (''405 Method Not Allowed'', ''<h1>405 Method Not Allowed</h1>'')
       in well_framed (createResponse (buildResponse date req))
            [''HTTP/1.1 '' @ status, ''Content-Length: '' @ show_nat (length body), ''Content-Type: text/html'',
             ''Date: '' @ date, ''Server: webserv/0.1''] body)"
  using framed_hello framed_handleGet [OF assms, of req] framed_buildError [OF assms, of 501] framed_buildError [OF assms, of 405]
  by (simp add: buildResponse_def old_handlePost_def old_handleDelete_def built_response reasons_used Let_def)

theorem old_responses_framed_witness:
  "well_framed (createResponse (buildResponse ''now'' \<lparr>oq_method = ''PUT'', oq_target = ''/'', oq_body = []\<rparr>))
     [''HTTP/1.1 405 Method Not Allowed'', ''Content-Length: 31'', ''Content-Type: text/html'', ''Date: now'',
      ''Server: webserv/0.1''] ''<h1>405 Method Not Allowed</h1>''"
proof -
  have "show_nat (length ''<h1>405 Method Not Allowed</h1>'') = ''31''" by code_simp
  then show ?thesis
    using old_responses_framed [of "''now''" "\<lparr>oq_method = ''PUT'', oq_target = ''/'', oq_body = []\<rparr>"]
    by (simp add: char_simps)
qed

subsection \<open>The earlier event loop\<close>

text \<open>
  C23. Between two calls of \<open>poll\<close> the open descriptors are exactly the listed ones, each
  listed once; the clients with a state are the listed ones but the listener; and every
  client has been sent, at that and at any earlier moment, a prefix of the one response, however
  \<open>send\<close> has cut it: nothing is repeated, skipped or sent to a reused descriptor.
\<close>

theorem old_loop_invariant:
  assumes "old_serving s"
  shows "distinct (map pf_fd (oi_fds s))
    \<and> (\<forall>g. fd_balance (oi_trace s) g = (if g \<in> pf_fd ` set (oi_fds s) then 1 else 0))
    \<and> dom (oi_clients s) = pf_fd ` set (oi_fds s) - {oi_server_fd s}
    \<and> (\<forall>k g. starts_with (received (drop k (oi_trace s)) g) hello_response)"
proof -
  note inv = serving_io_inv [OF assms]
  then have "dom (oi_clients s) = pf_fd ` set (oi_fds s) - {oi_server_fd s}"
    by (rule io_inv_dom)
  with inv show ?thesis by (simp add: io_inv_def greets_def)
qed

text \<open>A client connects, and sends its request in one piece; the answer is sent in two.\<close>

definition sample_listen :: old_listen where
  "sample_listen = \<lparr>on_socket = 3, on_setsockopt = True, on_bind = True, on_listen = True\<rparr>"

definition sample_tick :: "poll_flag set \<Rightarrow> poll_flag set \<Rightarrow> nat \<Rightarrow> old_tick" where
  "sample_tick listener client n =
     \<lparr>ot_ready = 1, ot_revents = (\<lambda>g. if g = 3 then listener else client),
      ot_answers = (\<lambda>_. \<lparr>oa_accept = 4, oa_recv = Some (''GET'' @ crlf @ crlf), oa_send = Some n\<rparr>)\<rparr>"

definition sample_state :: "poll_flag set \<Rightarrow> (poll_flag set \<times> poll_flag set \<times> client_state) option \<Rightarrow> web_effect list \<Rightarrow> old_io" where
  "sample_state listener client tr =
     \<lparr>oi_server_fd = 3, oi_port = 80,
      oi_fds = \<lparr>pf_fd = 3, pf_events = {POLLIN}, pf_revents = listener\<rparr> #
        (case client of None \<Rightarrow> [] | Some (ev, re, c) \<Rightarrow> [\<lparr>pf_fd = 4, pf_events = ev, pf_revents = re\<rparr>]),
      oi_clients = (case client of None \<Rightarrow> Map.empty | Some (ev, re, c) \<Rightarrow> [4 \<mapsto> c]), oi_trace = tr\<rparr>"

abbreviation opened :: "web_effect list" where
  "opened \<equiv> [FdOpened 4, FdOpened 3]"

definition sample_sent :: old_io where
  "sample_sent = sample_state {} (Some ({POLLOUT}, {POLLOUT},
     \<lparr>io_read = ''GET'' @ crlf @ crlf, io_write = drop 20 hello_response\<rparr>)) (SentTo 4 (take 20 hello_response) # opened)"

lemma sample_accept:
  "old_round (sample_tick {POLLIN} {} 0) (sample_state {} None [FdOpened 3]) =
     sample_state {POLLIN} (Some ({POLLIN}, {}, \<lparr>io_read = [], io_write = []\<rparr>)) opened"
  by (simp add: old_round_def old_poll_def sample_tick_def sample_state_def old_events_steps old_event_def old_accept_def)

lemma sample_receive:
  "old_round (sample_tick {} {POLLIN} 0) (sample_state {POLLIN} (Some ({POLLIN}, {}, \<lparr>io_read = [], io_write = []\<rparr>)) opened) =
     sample_state {} (Some ({POLLOUT}, {POLLIN}, \<lparr>io_read = ''GET'' @ crlf @ crlf, io_write = hello_response\<rparr>)) opened"
proof -
  have "find_text (crlf @ crlf) (''GET'' @ crlf @ crlf) \<noteq> None" by code_simp
  then show ?thesis
    by (simp add: old_round_def old_poll_def sample_tick_def sample_state_def old_events_steps old_event_def
        old_receive_def client_of_def Let_def)
qed

lemma sample_send:
  "old_round (sample_tick {} {POLLOUT} 20)
     (sample_state {} (Some ({POLLOUT}, {POLLIN}, \<lparr>io_read = ''GET'' @ crlf @ crlf, io_write = hello_response\<rparr>)) opened) =
     sample_sent"
proof -
  have "drop 20 hello_response \<noteq> []" by code_simp
  then show ?thesis
    by (simp add: old_round_def old_poll_def sample_tick_def sample_sent_def sample_state_def old_events_steps
        old_event_def old_send_def client_of_def Let_def)
qed

lemma sample_serving: "old_serving sample_sent"
proof -
  have "stoi ''80'' = Some 80" by code_simp
  then have "build_connection [blank_server\<lparr>ov_listen := ''80''\<rparr>] sample_listen new_io =
    (True, \<lparr>oi_server_fd = 3, oi_port = 80, oi_fds = [], oi_clients = Map.empty, oi_trace = [FdOpened 3]\<rparr>)"
    by (simp add: build_connection_def sample_listen_def new_io_def)
  from old_start [OF this] have 0: "old_serving (sample_state {} None [FdOpened 3])"
    by (simp add: sample_state_def sample_listen_def)
  note tick = old_honest_def old_poll_def honest_def sample_tick_def sample_state_def sample_sent_def
  have 1: "old_serving (sample_state {POLLIN} (Some ({POLLIN}, {}, \<lparr>io_read = [], io_write = []\<rparr>)) opened)"
    using old_next [OF 0, of "sample_tick {POLLIN} {} 0"] unfolding sample_accept by (simp add: tick)
  have 2: "old_serving (sample_state {} (Some ({POLLOUT}, {POLLIN},
      \<lparr>io_read = ''GET'' @ crlf @ crlf, io_write = hello_response\<rparr>)) opened)"
    using old_next [OF 1, of "sample_tick {} {POLLIN} 0"] unfolding sample_receive by (simp add: tick)
  show ?thesis
    using old_next [OF 2, of "sample_tick {} {POLLOUT} 20"] unfolding sample_send by (simp add: tick)
qed

theorem old_loop_invariant_witness:
  "received (oi_trace sample_sent) 4 = take 20 hello_response
   \<and> starts_with (received (drop 0 (oi_trace sample_sent)) 4) hello_response
   \<and> fd_balance (oi_trace sample_sent) 4 = (if 4 \<in> pf_fd ` set (oi_fds sample_sent) then 1 else 0)"
proof -
  have "starts_with (received (drop 0 (oi_trace sample_sent)) 4) hello_response"
    "fd_balance (oi_trace sample_sent) 4 = (if 4 \<in> pf_fd ` set (oi_fds sample_sent) then 1 else 0)"
    using old_loop_invariant [OF sample_serving] by blast+
  then show ?thesis by (simp add: sample_sent_def sample_state_def)
qed

subsection \<open>Defects of the earlier server\<close>

text \<open>
  When \<open>bind\<close> or \<open>listen\<close> fails, the descriptor is closed at once and once more by the destructor.
\<close>

theorem listen_failure_closes_twice:
  "case tcp [blank_server\<lparr>ov_listen := ''80''\<rparr>] (sample_listen\<lparr>on_bind := False\<rparr>) [] of (ok, s) \<Rightarrow>
     \<not> ok \<and> oi_trace s = [FdClosed 3, FdClosed 3, FdOpened 3]"
proof -
  have "stoi ''80'' = Some 80" by code_simp
  then show ?thesis
    by (simp add: tcp_def boot_server_def destroy_server_def build_connection_def sample_listen_def new_io_def)
qed

text \<open>A port above 65535 passes the checks; the server listens on it modulo 65536.\<close>

theorem listen_wraps:
  "check_server (sample_server\<lparr>ov_listen := ''99999''\<rparr>) = None \<and> stoi ''99999'' = Some 99999 \<and> sin_port 99999 = 34463"
proof (intro conjI)
  show "check_server (sample_server\<lparr>ov_listen := ''99999''\<rparr>) = None" by code_simp
  have c: "is_digit CHR ''9''" "\<not> is_space CHR ''9''" "digit_value CHR ''9'' = 9" by code_simp+
  show "stoi ''99999'' = Some 99999" by (simp add: stoi_def Let_def dec_value_def c char_simps)
  show "sin_port 99999 = 34463" by (simp add: sin_port_def)
qed

text \<open>
  A connection that only reports \<open>POLLHUP\<close> or \<open>POLLERR\<close> is neither read nor closed, so that
  \<open>poll\<close> returns at once again, for ever.
\<close>

theorem hangup_ignored:
  "pf_fd (oi_fds s ! i) \<noteq> oi_server_fd s \<Longrightarrow> pf_revents (oi_fds s ! i) \<subseteq> {POLLHUP, POLLERR} \<Longrightarrow>
     old_event a i s = (s, i + 1)"
  by (auto simp: old_event_def Let_def)

theorem hangup_ignored_witness:
  "old_event a 0 \<lparr>oi_server_fd = 3, oi_port = 80, oi_fds = [\<lparr>pf_fd = 4, pf_events = {POLLIN}, pf_revents = {POLLHUP}\<rparr>],
      oi_clients = Map.empty, oi_trace = []\<rparr> =
    (\<lparr>oi_server_fd = 3, oi_port = 80, oi_fds = [\<lparr>pf_fd = 4, pf_events = {POLLIN}, pf_revents = {POLLHUP}\<rparr>],
      oi_clients = Map.empty, oi_trace = []\<rparr>, 1)"
  by (subst hangup_ignored) simp_all

end
