(* ===== verification/Spec2Isabelle.thy ===== *)
theory Spec2Isabelle
  imports Irc_Scenario Irc_ModeReplay Irc_Identity Web_Properties Lab_Echo Old_Properties
begin

text \<open>
  The repository holds two C++98 servers, both modelled here: the IRC server \<open>ircserv\<close>
  (\<open>services/irc/prd\<close>) and the web server \<open>webserv\<close> (\<open>apps/webserv\<close>) that delivers the
  browser client. They are separate processes and share no code; each is one process with one
  \<open>poll\<close> loop over an in-memory state. Their theories are \<open>Irc_*\<close> and \<open>Web_*\<close>; both use
  \<open>Irc_Prelude\<close> (bytes, string searches, decimal text, folds) and \<open>Poll_List\<close> (the poll
  list as a list of entries).

  \<^bold>\<open>The IRC server.\<close> Each theory of the model translates one source file, in the order of
  the code; a member function is a definition of the same name.

  \<^item> \<open>Irc_Util\<close>: \<open>util/IrcUtil.cpp\<close>, \<open>util/IrcUtil.hpp\<close>, \<open>util/Numerics.hpp\<close>.
  \<^item> \<open>Irc_Buffer\<close>: \<open>util/BufferUtil.cpp\<close> (line framing). \<open>Irc_Parser\<close>: \<open>util/Parser.cpp\<close>,
    \<open>domain/Message.hpp\<close>. \<open>Irc_Reply\<close>: \<open>util/Reply.cpp\<close>.
  \<^item> \<open>Irc_Client\<close>: \<open>domain/Client\<close>. \<open>Irc_Channel\<close>: \<open>domain/Channel\<close>.
  \<^item> \<open>Irc_Server\<close>: the state of \<open>interface/Server.hpp\<close> as the record \<open>server\<close>, the
    constructor, \<open>interface/ServerRelations.cpp\<close> and the poll-list helpers.
  \<^item> \<open>Irc_Auth\<close>, \<open>Irc_ChannelCmds\<close>, \<open>Irc_MessageCmds\<close>, \<open>Irc_Mode\<close>: the handlers of
    \<open>handler/\<close>. \<open>Irc_Dispatch\<close>: \<open>interface/ServerDispatch.cpp\<close>.
  \<^item> \<open>Irc_Network\<close>: \<open>interface/ServerNetwork.cpp\<close> and the destructor of \<open>Server.cpp\<close>.
    \<open>Irc_Main\<close>: \<open>main.cpp\<close>.

  \<^bold>\<open>The web server.\<close>

  \<^item> \<open>Web_Text\<close>: the string helpers and what the parsers use of the C and C++ libraries.
  \<^item> \<open>Web_Config\<close>: \<open>Config.cpp\<close>, from the text of the file to the records of \<open>Webserv.hpp\<close>.
  \<^item> \<open>Web_Http\<close>: \<open>Http.cpp\<close> (request parser, path decoding, chunks, serialization).
  \<^item> \<open>Web_Router\<close>: \<open>Router.cpp\<close>. \<open>Web_Files\<close>: \<open>FileSystem.cpp\<close>. \<open>Web_Handlers\<close>: the
    handlers for files, uploads and deletion, \<open>ResponseFactory.cpp\<close> and \<open>Dispatcher.cpp\<close>.
  \<^item> \<open>Web_Cgi\<close>: \<open>CgiHandler.cpp\<close> (starting a script, its environment, its output).
  \<^item> \<open>Web_Server\<close>: \<open>Server.cpp\<close> and \<open>main.cpp\<close>: the state as the record \<open>webserver\<close>, the
    handlers of listeners, clients and pipes, time-outs, the loop, the destructor.

  \<^bold>\<open>The earlier web server and the experiments.\<close> The repository keeps an earlier version of the
  web server under \<open>apps/webserv/prd/src\<close>, which the build does not use, and the studies the IRC
  server grew from under \<open>services/irc/lab\<close>.

  \<^item> \<open>Old_Config\<close>: \<open>parseConf/\<close>, a configuration by lines. \<open>Old_Response\<close>:
    the builder and the serializer of \<open>responsebuilder/\<close>. \<open>Old_Server\<close>: \<open>server/server_multi_io.cpp\<close>, one listener and a fixed
    answer; \<open>Old_Loop\<close> has the invariant of its loop.
  \<^item> \<open>Lab_Parser\<close>: \<open>lab/C++/irc_message_parser.cpp\<close> and its relation to the parser of the
    server. \<open>Lab_Echo\<close>: \<open>lab/C/main.c\<close>, an echo server with a fixed array of poll entries.

  \<^bold>\<open>How state and effects correspond.\<close> A \<open>std::map\<close> is a partial function, or an ordered
  association list where the code iterates over it; a \<open>std::set\<close> is a finite set that loops
  visit in ascending order; a \<open>std::string\<close> is a list of bytes. A pointer or reference to an
  element is its key in the owning container, so a read through it sees every earlier write.
  An operation maps the state to the new state; one that returns \<open>bool\<close> returns the pair. A
  \<open>std::runtime_error\<close> is the left value of a sum in \<open>Irc_*\<close> and in the parsers, and an
  outcome \<open>Raised\<close> of the web server, whose other outcomes are returning, never returning and
  reading through \<open>NULL\<close>. \<open>std::size_t\<close> is \<open>64 word\<close>, or arithmetic modulo $2^{64}$, where it
  can overflow. The records have fields the classes do not have: \<open>sv_opened\<close> and
  \<open>sv_closed\<close>, the descriptors opened and closed by the IRC server, and \<open>ws_trace\<close>, what the
  web server asked of the kernel, the newest call first.

  \<^bold>\<open>The kernel.\<close> System calls are arguments. For the IRC server \<open>setup_env\<close> has the results of
  the calls that open the listening socket, a \<open>tick\<close> those of one round. For the web server
  \<open>os\<close> answers the calls on files while one event is handled, \<open>web_answers\<close> those on sockets,
  pipes and children, a \<open>web_tick\<close> holds those of one round, and effects on files are values
  of \<open>file_effect\<close>. The loops run over the answers given so far, so a statement about all
  lists of ticks is one about every moment of every run; a run itself need not end.
  Assumptions on the kernel are named where they are used: \<open>accept_ok\<close> (\<open>accept\<close> does not
  return the listening descriptor), \<open>kernel_ok\<close> (a new descriptor is not open, \<open>fork\<close> gives
  the parent a positive number), \<open>poll_honest\<close> (reading and writing are reported only where
  asked). Loops are total functions; only the chunk loop of \<open>Web_Http\<close> is \<open>while_option\<close>,
  because it need not end (C34 says when it does).

  \<^bold>\<open>Interfaces.\<close> \<open>Irc_Contract\<close> states what a predicate on states must satisfy to survive the
  writes of the handlers (\<open>output_contract\<close>, \<open>command_contract\<close>, \<open>session_contract\<close>) and
  proves once that every handler and the dispatcher keep it; \<open>Irc_Rounds\<close> does the same for
  the network layer (\<open>dispatch_contract\<close>, \<open>network_contract\<close>) and defines the reachable
  states \<open>serving\<close>; \<open>Irc_Wire\<close> reduces the contract for predicates on the output side
  (\<open>wire_contract\<close>, \<open>buffer_contract\<close>), \<open>Irc_Identity\<close> for predicates on the clients' data
  (\<open>client_view\<close>). Their interpretations on the model give the invariants: consistency,
  authentication, bounded and clean send buffers, the poll list, the account of
  descriptors, registration. \<open>Web_Exit\<close> states the contract of one round of the web server
  (\<open>round_contract\<close>) and lifts it to runs; it is interpreted by the consistency of the tables
  and, in \<open>Web_Delivery\<close>, by the contract of the answers: each client has its right answer or
  none yet, and each connection has been sent the beginning of it.

  \<^bold>\<open>Groups of lemmas.\<close> \<open>Irc_Frame\<close> and \<open>Irc_Stable\<close>: what operations leave unchanged.
  \<open>Irc_Invariant\<close> and \<open>Irc_Disconnect\<close>: the consistency invariant and its preservation.
  \<open>Irc_Input\<close>: the receive buffers between rounds. \<open>Irc_Access\<close>: who may do what.
  \<open>Irc_Effects\<close>: the exact effect of JOIN, PART, KICK, PRIVMSG, NICK, TOPIC and INVITE.
  \<open>Irc_ModeReplay\<close>: MODE notifications against a reference replay. \<open>Irc_Pending\<close>: the
  scheduled disconnections. \<open>Irc_Scenario\<close>: the example states of the witnesses.
  \<open>Web_ConfigValid\<close> and \<open>Web_ConfigText\<close>: what an accepted configuration guarantees.
  \<open>Web_Path\<close>, \<open>Web_Chunked\<close>, \<open>Web_Request\<close>: paths, chunks and whole requests. \<open>Web_Response\<close>:
  how a reader finds the parts of a response, and that the responses are \<open>delimited\<close> and
  \<open>well_framed\<close>. \<open>Web_Access\<close>: files and script environments.
  \<open>Web_Invariant\<close>, \<open>Web_Tables\<close>, \<open>Web_Keeps\<close>, \<open>Web_Events\<close>: the consistency of the server's
  tables under its operations. \<open>Web_Loop\<close>: rounds and the destructor. \<open>Web_Exit\<close>:
  whole runs. \<open>Web_Silent\<close>: what the events of others leave of a client, and a client of which
  \<open>poll\<close> reports nothing. \<open>Web_Answers\<close>: the specification \<open>right_answer\<close> of what a client is
  answered. \<open>Web_Delivery\<close>: that it is answered this, and what each connection of a descriptor
  is sent. \<open>Web_Scenario\<close>: example runs.
  The properties C21, C23, C27, C28 and C29 are in \<open>Old_Properties\<close>, C30 to C40 in
  \<open>Web_Properties\<close>, the others in this theory.

  \<^bold>\<open>Not modelled.\<close> Log output, socket options, the fields of socket addresses, the
  installation of the signal handlers (their effect, the stop flag, is an argument), memory
  exhaustion, and what the child does between \<open>fork\<close> and \<open>exec\<close>. Of the earlier web server
  \<open>main.cpp\<close>, \<open>persing/\<close> and \<open>responsebuilder/methods/method_get.cpp\<close>, which do not compile (the
  last calls functions that are static in another file), \<open>logging/\<close>, the test programs and the
  mocks; of the experiments the copied samples \<open>lab/C/server.c\<close> (does not compile) and
  \<open>lab/C/SoSimpleHTTP\<close>. The gateway (JavaScript), the browser client and the deployment.
\<close>

section \<open>The running server\<close>

text \<open>
  C1. Every state a running server reaches at the head of its event loop is consistent:
  clients are stored under their own descriptors and have valid identities, channels under
  their normalised names with valid settings and at least one member, membership is recorded
  on both sides, the nickname index is the inverse of the clients' nicknames, and
  invitations and quit reasons belong to connected clients.
\<close>

theorem reachable_states_consistent: "serving s \<Longrightarrow> wf_server s"
  by (rule wf_serving)

theorem reachable_states_consistent_witness: "wf_server just_connected"
  by (rule reachable_states_consistent) simp

text \<open>
  C2. In every such state the poll list names the listening socket and each client exactly
  once, and a client's entry asks for \<open>POLLOUT\<close> exactly when bytes wait in its send buffer:
  no queued reply is ever forgotten by the loop.
\<close>

theorem reachable_poll_list:
  assumes "serving s"
  shows "distinct (map pf_fd (sv_pollFds s))
    \<and> pf_fd ` set (sv_pollFds s) = insert (sv_listenFd s) (dom (sv_clients s))
    \<and> sv_listenFd s \<notin> dom (sv_clients s)
    \<and> (\<forall>p \<in> set (sv_pollFds s). \<forall>c. sv_clients s (pf_fd p) = Some c \<longrightarrow>
         pf_events p = {POLLIN} \<union> (if hasPendingOutput c then {POLLOUT} else {}))"
  using serving_poll_sync [OF assms]
  by (auto simp: poll_sync_def outputs_def interest_def hasPendingOutput_def)

theorem reachable_poll_list_witness:
  "distinct (map pf_fd (sv_pollFds just_connected))
    \<and> pf_fd ` set (sv_pollFds just_connected)
        = insert (sv_listenFd just_connected) (dom (sv_clients just_connected))"
  using reachable_poll_list [OF serving_just_connected] by blast

text \<open>
  C3. No descriptor leaks and none is closed twice: whatever the kernel answers, when the
  program ends (normally or by an exception) every descriptor that \<open>socket\<close> and \<open>accept\<close>
  returned has been closed exactly as often as it was opened. The only assumption is that
  \<open>accept\<close> never returns the listening descriptor.
\<close>

theorem no_descriptor_leak:
  assumes "\<And>tk. tk \<in> set tks \<Longrightarrow> accept_ok (se_socket e) tk"
    and "server_main args env start e tks = (code, Some s)"
  shows "count_list (sv_opened s) fd = count_list (sv_closed s) fd"
  by (rule server_main_account [OF assms])

theorem no_descriptor_leak_witness:
  "\<exists>s. server_main [''6667'', ''pw''] None None
      \<lparr>se_socket = 3, se_fcntl = 0, se_bind = 0, se_listen = 0\<rparr> [accept_tick] = (0, Some s)
     \<and> count_list (sv_opened s) 4 = count_list (sv_closed s) 4"
proof -
  let ?e = "\<lparr>se_socket = 3, se_fcntl = 0, se_bind = 0, se_listen = 0\<rparr>"
  have a: "parse_arguments [''6667'', ''pw''] None = Some (6667, ''pw'')" by code_simp
  have "setupListeningSocket ?e (new_server 6667 ''pw'' None) = Inr (listening 3 6667 ''pw'' None)"
    by (simp add: setup_listening)
  then have "run ?e [accept_tick] (new_server 6667 ''pw'' None) = Inr just_connected"
    using round_just_connected
    by (simp add: run_def new_server_def listening_def) (simp add: accept_tick_def)
  with a have m: "server_main [''6667'', ''pw''] None None ?e [accept_tick] = (0, Some (destroy just_connected))"
    by (simp add: server_main_def)
  moreover have "accept_ok (se_socket ?e) tk" if "tk \<in> set [accept_tick]" for tk
    using that by (simp add: accept_ok_def accept_tick_def)
  ultimately show ?thesis using no_descriptor_leak [OF _ m] by blast
qed

text \<open>
  C4. Between two rounds of the event loop no client's receive buffer holds a complete line,
  and the unfinished rest is shorter than 512 bytes: every line that arrived was handled in
  the round in which its terminator arrived.
\<close>

theorem input_between_rounds:
  assumes "serving s" and "sv_clients s fd = Some c"
  shows "\<not> hasCompleteLine (cl_receiveBuffer c) \<and> length (cl_receiveBuffer c) < 512"
  using serving_settled [OF assms(1)] assms(2)
  by (auto simp: settled_def inputs_def incomplete_def IRC_MAX_LINE_def)

theorem input_between_rounds_witness:
  "\<not> hasCompleteLine (cl_receiveBuffer (new_client 4 ''10.0.0.4''))
   \<and> length (cl_receiveBuffer (new_client 4 ''10.0.0.4'')) < 512"
  by (rule input_between_rounds [OF serving_just_connected just_connected_client])

text \<open>
  C5. What waits to be sent to a client is at most 1 MiB and is the rest of a sequence of
  lines, each ended by CRLF and free of CR, LF and NUL inside: nothing a client sends can
  split or forge a line for another one.
\<close>

theorem bytes_on_the_wire:
  assumes "serving s" and "sv_clients s fd = Some c"
  shows "length (cl_sendBuffer c) \<le> MAX_SEND_BUFFER
    \<and> (\<exists>sent ls. sent @ cl_sendBuffer c = concat (map (\<lambda>l. l @ crlf) ls) \<and> (\<forall>l \<in> set ls. clean_text l))"
  using serving_bounded [OF assms] serving_line_stream [OF assms]
  by (simp add: send_bounded_def line_stream_def)

theorem bytes_on_the_wire_witness:
  "length (cl_sendBuffer (new_client 4 ''10.0.0.4'')) \<le> MAX_SEND_BUFFER"
  using bytes_on_the_wire [OF serving_just_connected just_connected_client] by blast

section \<open>Who may do what\<close>

text \<open>
  C6. The password gate: a session that counts as authenticated after a command did so
  before, or the command is its own PASS with the server's password.
\<close>

theorem password_gate:
  assumes "wf_server s" and "sv_clients (dispatchCommand fd msg s) g = Some c" and "cl_passwordAccepted c"
  shows "(\<exists>c0. sv_clients s g = Some c0 \<and> cl_passwordAccepted c0)
    \<or> g = fd \<and> msg_command msg = ''PASS'' \<and> (\<exists>ps. msg_params msg = sv_password s # ps)"
  using auth_dispatch [OF assms(1), of g fd msg] assms(2,3) by (auto simp: authenticated_def)

theorem password_gate_witness:
  "(\<exists>c0. sv_clients demo 7 = Some c0 \<and> cl_passwordAccepted c0) \<or> (7 :: int) = 7
     \<and> ''PASS'' = ''PASS'' \<and> (\<exists>ps. [''pw''] = sv_password demo # ps)"
proof -
  let ?m = "\<lparr>msg_prefix = [], msg_command = ''PASS'', msg_params = [''pw'']\<rparr>"
  have "sv_clients (dispatchCommand 7 ?m demo) 7 = Some (acceptPassword dave)"
    by (simp add: dispatchCommand_def findClientByFd_def find_entry_def command_table_def handlePass_def
        requireParams_def tryRegisterClient_def tryCompleteRegistration_def updClient_def acceptPassword_def
        hasNickname_def dave_def new_client_def)
  from password_gate [OF wf_demo this] show ?thesis by (simp add: acceptPassword_def)
qed

text \<open>
  C7. Isolation before registration: whatever an unregistered session sends, no channel and
  no other session changes, not even another session's send buffer.
\<close>

theorem unregistered_isolated:
  assumes "sv_clients s fd = Some c" and "\<not> cl_registered c" and "g \<noteq> fd"
  shows "sv_channels (dispatchCommand fd msg s) = sv_channels s
    \<and> sv_clients (dispatchCommand fd msg s) g = sv_clients s g"
  using own_only_dispatch [OF assms(1,2), of msg] assms(3) by (simp add: own_only_def)

theorem unregistered_isolated_witness:
  "sv_channels (dispatchCommand 7 \<lparr>msg_prefix = [], msg_command = ''JOIN'', msg_params = [''#a'']\<rparr> demo)
     = sv_channels demo
   \<and> sv_clients (dispatchCommand 7 \<lparr>msg_prefix = [], msg_command = ''JOIN'', msg_params = [''#a'']\<rparr> demo) 4
     = sv_clients demo 4"
  by (rule unregistered_isolated [where c = dave]) simp_all

text \<open>
  C8. Channel operators: MODE, KICK, INVITE and (on a topic-restricted channel) TOPIC change
  no channel, nickname or membership when the sender is not an operator of the channel they
  name; they only send.
\<close>

theorem operator_authority:
  assumes "findChannel name s = Some ch" and "\<not> isOperator fd ch"
    and "(msg_command msg \<in> {''MODE'', ''KICK''} \<and> (\<exists>ps. msg_params msg = name # ps))
      \<or> (msg_command msg = ''INVITE'' \<and> (\<exists>nick ps. msg_params msg = nick # name # ps))
      \<or> (msg_command msg = ''TOPIC'' \<and> ch_topicRestricted ch \<and> (\<exists>ps. msg_params msg = name # ps))"
  shows "sv_channels (dispatchCommand fd msg s) = sv_channels s
    \<and> sv_nickToFd (dispatchCommand fd msg s) = sv_nickToFd s
    \<and> (\<forall>g. map_option (cl_sendBuffer_update (\<lambda>_. [])) (sv_clients (dispatchCommand fd msg s) g)
          = map_option (cl_sendBuffer_update (\<lambda>_. [])) (sv_clients s g))"
  using authority_dispatch [OF assms] by (simp add: same_frame_def)

theorem operator_authority_witness:
  "sv_channels (dispatchCommand 5 \<lparr>msg_prefix = [], msg_command = ''KICK'',
     msg_params = [''#a'', ''alice'']\<rparr> demo) = sv_channels demo"
  using operator_authority [of "''#a''" demo chan_a 5
      "\<lparr>msg_prefix = [], msg_command = ''KICK'', msg_params = [''#a'', ''alice'']\<rparr>"]
  by (simp add: isOperator_def)

section \<open>Channel commands\<close>

text \<open>
  C9. JOIN of one channel the sender is not in: a channel that does not exist is created with
  the sender as its only member and operator; an existing one is entered exactly when the
  invite-only flag, the key and the user limit admit the sender, and entering uses up the
  invitation. No other channel changes.
\<close>

theorem join_outcome:
  assumes "wf_server s" and "sv_clients s fd = Some c" and "cl_registered c"
    and "isValidChannelName name" and "normalizeChannelName name |\<notin>| cl_joinedChannels c"
    and "msg_command msg = ''JOIN''" and "msg_params msg = [name, key]" and "CHR '','' \<notin> set key"
  shows "sv_channels (dispatchCommand fd msg s) = (sv_channels s)(normalizeChannelName name \<mapsto>
     (case findChannel name s of
        None \<Rightarrow> (new_channel name (normalizeChannelName name))
                  \<lparr>ch_members := {|fd|}, ch_operators := {|fd|}\<rparr>
      | Some ch \<Rightarrow>
          if (ch_inviteOnly ch \<longrightarrow> isInvited fd ch) \<and> matchesKey key ch \<and> \<not> isFull ch
          then ch\<lparr>ch_members := finsert fd (ch_members ch), ch_invited := ch_invited ch |-| {|fd|}\<rparr>
          else ch))"
proof -
  have "dispatchCommand fd msg s = joinOne fd name key s"
    using dispatch_registered(1) [OF assms(2,3,6)] handleJoin_single [OF assms(2,7,4,8)] by simp
  then show ?thesis
    using joinOne_channels [OF assms(1,2,4,5), of key]
    by (simp add: joined_channel_def entered_channel_def new_channel_def admits_def cong: if_cong
        split: option.split)
qed

theorem join_outcome_witness:
  "sv_channels (dispatchCommand 6 \<lparr>msg_prefix = [], msg_command = ''JOIN'', msg_params = [''#a'', []]\<rparr> demo)
     ''#a'' = Some (chan_a\<lparr>ch_members := {|6, 4, 5|}, ch_invited := ch_invited chan_a |-| {|6|}\<rparr>)"
  using join_outcome [OF wf_demo demo_clients(3), where name = "''#a''" and key = "[]"
      and msg = "\<lparr>msg_prefix = [], msg_command = ''JOIN'', msg_params = [''#a'', []]\<rparr>"]
  by (simp add: matchesKey_def isFull_def)

text \<open>
  C10. A refused JOIN answers with one numeric, the first that applies of 473 (not invited),
  475 (wrong key) and 471 (full), and does nothing else.
\<close>

theorem join_refusal:
  assumes "sv_clients s fd = Some c" and "cl_registered c" and "isValidChannelName name"
    and "normalizeChannelName name |\<notin>| cl_joinedChannels c" and "findChannel name s = Some ch"
    and "\<not> ((ch_inviteOnly ch \<longrightarrow> isInvited fd ch) \<and> matchesKey key ch \<and> \<not> isFull ch)"
    and "msg_command msg = ''JOIN''" and "msg_params msg = [name, key]" and "CHR '','' \<notin> set key"
  shows "dispatchCommand fd msg s =
     (if ch_inviteOnly ch \<and> \<not> isInvited fd ch
      then queueNumeric fd 473 (ch_name ch @ '' :Cannot join channel (+i)'') s
      else if \<not> matchesKey key ch
      then queueNumeric fd 475 (ch_name ch @ '' :Cannot join channel (+k)'') s
      else queueNumeric fd 471 (ch_name ch @ '' :Cannot join channel (+l)'') s)"
proof -
  have "dispatchCommand fd msg s = joinOne fd name key s"
    using dispatch_registered(1) [OF assms(1,2,7)] handleJoin_single [OF assms(1,8,3,9)] by simp
  with joinOne_refused [OF assms(1,3,4,5), of key] assms(6) show ?thesis
    by (simp add: admits_def numeric_codes)
qed

theorem join_refusal_witness:
  "dispatchCommand 6 \<lparr>msg_prefix = [], msg_command = ''JOIN'', msg_params = [''#a'', []]\<rparr>
      (updChannel ''#a'' (setInviteOnly True) demo)
   = queueNumeric 6 473 ''#a :Cannot join channel (+i)'' (updChannel ''#a'' (setInviteOnly True) demo)"
proof -
  have f: "findChannel ''#a'' (updChannel ''#a'' (setInviteOnly True) demo) = Some (setInviteOnly True chan_a)"
    by (simp add: findChannel_def updChannel_channels)
  have i: "\<not> isInvited 6 (setInviteOnly True chan_a)" "ch_inviteOnly (setInviteOnly True chan_a)"
    by (simp_all add: isInvited_def setInviteOnly_def chan_a_def new_channel_def)
  have "ch_name (setInviteOnly True chan_a) = ''#a''" by (simp add: setInviteOnly_def)
  with join_refusal [OF _ demo_fields(3) _ _ f, where key = "[]" and fd = 6
      and msg = "\<lparr>msg_prefix = [], msg_command = ''JOIN'', msg_params = [''#a'', []]\<rparr>"] i
  show ?thesis by simp
qed

text \<open>
  C11. KICK by an operator of a member of the channel: the target loses membership, operator
  status and invitation, the channel disappears if it was the last member, every member (the
  target included) gets the KICK line once, and nothing else changes in any channel or client.
\<close>

theorem kick_outcome:
  assumes "wf_server s" and "sv_clients s fd = Some c" and "cl_registered c"
    and "msg_command msg = ''KICK''" and "msg_params msg = [name, nick, reason]"
    and "findChannel name s = Some ch" and "isOperator fd ch"
    and "findClientByNickname nick s = Some t" and "cl_fd t |\<in>| ch_members ch"
  shows "sv_channels (dispatchCommand fd msg s) =
      (sv_channels s)(ch_keyName ch := left_channel (cl_fd t) (drop_invite (cl_fd t) ch))
    \<and> (\<forall>g. sv_clients (dispatchCommand fd msg s) g =
        (let told = (if g |\<in>| ch_members ch
                     then map_option (push_line (kick_notice c ch t reason)) (sv_clients s g)
                     else sv_clients s g)
         in if g = cl_fd t
            then map_option (\<lambda>c. c\<lparr>cl_joinedChannels := cl_joinedChannels c |-| {|ch_keyName ch|}\<rparr>) told
            else told))"
  using handleKick_effect [OF assms(1,2,5-9)] dispatch_registered(3) [OF assms(2,3,4)]
  by (simp add: drop_member_def)

theorem kick_outcome_witness:
  "sv_channels (dispatchCommand 4 \<lparr>msg_prefix = [], msg_command = ''KICK'',
     msg_params = [''#a'', ''bob'', ''bye'']\<rparr> demo) ''#a'' = left_channel 5 (drop_invite 5 chan_a)"
  using kick_outcome [OF wf_demo demo_clients(1) demo_fields(1), where ch = chan_a and t = bob
      and name = "''#a''" and nick = "''bob''" and reason = "''bye''"
      and msg = "\<lparr>msg_prefix = [], msg_command = ''KICK'', msg_params = [''#a'', ''bob'', ''bye'']\<rparr>"]
  by (simp add: isOperator_def)

text \<open>
  C12. PART of one channel by a member: every member (the leaving one included) gets the PART
  line once, then exactly this membership is gone on both sides; an empty channel disappears.
\<close>

theorem part_outcome:
  assumes "wf_server s" and "sv_clients s fd = Some c" and "cl_registered c"
    and "msg_command msg = ''PART''" and "msg_params msg = [name, reason]" and "CHR '','' \<notin> set name"
    and "findChannel name s = Some ch" and "fd |\<in>| ch_members ch"
  shows "sv_channels (dispatchCommand fd msg s) =
      (sv_channels s)(ch_keyName ch := left_channel fd (drop_invite fd ch))
    \<and> (\<forall>g. sv_clients (dispatchCommand fd msg s) g =
        (let told = (if g |\<in>| ch_members ch
                     then map_option (push_line (part_notice c ch reason)) (sv_clients s g)
                     else sv_clients s g)
         in if g = fd
            then map_option (\<lambda>c. c\<lparr>cl_joinedChannels := cl_joinedChannels c |-| {|ch_keyName ch|}\<rparr>) told
            else told))"
proof -
  have "name \<noteq> []"
    using wf_findChannel(1,3) [OF assms(1,7)] isValidChannelName_not_Nil [of "ch_name ch"]
    by (auto simp: wf_channel_def normalizeChannelName_def ircCaseFold_def)
  then have "dispatchCommand fd msg s = partOne fd reason name s"
    using dispatch_registered(2) [OF assms(2,3,4)] handlePart_single [OF assms(2,5,6)] by simp
  with partOne_effect [OF assms(1,2,7,8)] show ?thesis by (simp add: drop_member_def)
qed

theorem part_outcome_witness:
  "sv_channels (dispatchCommand 5 \<lparr>msg_prefix = [], msg_command = ''PART'',
     msg_params = [''#a'', ''bye'']\<rparr> demo) ''#a'' = left_channel 5 (drop_invite 5 chan_a)"
  using part_outcome [OF wf_demo demo_clients(2) demo_fields(2), where ch = chan_a
      and name = "''#a''" and reason = "''bye''"
      and msg = "\<lparr>msg_prefix = [], msg_command = ''PART'', msg_params = [''#a'', ''bye'']\<rparr>"]
  by simp

text \<open>
  C13. The MODE notification describes the change: after MODE by an operator, replaying the
  announced mode string and parameters on the channel before the command gives the channel
  after it, no other channel changes, every other member gets exactly this one MODE line
  (none when nothing was announced), and no one else gets anything.
\<close>

theorem mode_notification:
  assumes "wf_server s" and "sv_clients s fd = Some c" and "cl_registered c"
    and "msg_command msg = ''MODE''" and "msg_params msg = name # modestr # rest"
    and "findChannel name s = Some ch" and "isOperator fd ch"
  shows "\<exists>modes ps.
     sv_channels (dispatchCommand fd msg s)
       = (sv_channels s)(ch_keyName ch \<mapsto> replay (\<lambda>n. sv_nickToFd s (ircCaseFold n)) modes ps ch)
     \<and> (\<forall>g. g \<noteq> fd \<longrightarrow> sv_clients (dispatchCommand fd msg s) g =
           (if modes \<noteq> [] \<and> g |\<in>| ch_members ch
            then map_option (push_line (mode_notice c ch modes ps)) (sv_clients s g)
            else sv_clients s g))"
  using handleMode_effect [OF assms(1,2,5,6,7)] dispatch_registered(8) [OF assms(2,3,4)] by simp

theorem mode_notification_witness:
  "\<exists>modes ps. sv_channels (dispatchCommand 4 \<lparr>msg_prefix = [], msg_command = ''MODE'',
       msg_params = [''#a'', ''+i'']\<rparr> demo)
     = (sv_channels demo)(''#a'' \<mapsto> replay (\<lambda>n. sv_nickToFd demo (ircCaseFold n)) modes ps chan_a)"
  using mode_notification [OF wf_demo demo_clients(1) demo_fields(1), where ch = chan_a
      and name = "''#a''" and modestr = "''+i''" and rest = "[]"
      and msg = "\<lparr>msg_prefix = [], msg_command = ''MODE'', msg_params = [''#a'', ''+i'']\<rparr>"]
  by (simp add: isOperator_def) blast

section \<open>Messages and identities\<close>

text \<open>
  C14. PRIVMSG to one target: a channel message of a member reaches every other member once
  and not the sender, a private message reaches the client of that nickname, both with the
  sender's prefix and the target's own spelling; nobody outside the recipients and the
  sender gets anything, and without recipients only the sender may be answered.
\<close>

theorem privmsg_delivery:
  assumes "sv_clients s fd = Some c" and "cl_registered c"
    and "msg_command msg = ''PRIVMSG''" and "msg_params msg = [target, body]"
    and "CHR '','' \<notin> set target" and "target \<noteq> []" and "body \<noteq> []"
  shows "(\<forall>g \<in> recipients fd target s. sv_clients (dispatchCommand fd msg s) g =
        map_option (push_line (privmsg_line c (display_name target s) body)) (sv_clients s g))
    \<and> (\<forall>g. g \<notin> recipients fd target s \<and> (g \<noteq> fd \<or> recipients fd target s \<noteq> {}) \<longrightarrow>
        sv_clients (dispatchCommand fd msg s) g = sv_clients s g)"
proof -
  have "dispatchCommand fd msg s = privmsgOne fd body target s"
    using dispatch_registered(4) [OF assms(1,2,3)] handlePrivmsg_single [OF assms(1,4-7)] by simp
  with privmsgOne_others [of _ fd target s body] show ?thesis
    using privmsgOne_delivered [OF assms(1), of target body]
    by (cases "recipients fd target s = {}") simp_all
qed

theorem privmsg_delivery_witness:
  "sv_clients (dispatchCommand 4 \<lparr>msg_prefix = [], msg_command = ''PRIVMSG'',
     msg_params = [''#a'', ''hi'']\<rparr> demo) 5 = Some (push_line (privmsg_line alice ''#a'' ''hi'') bob)"
proof -
  have "recipients 4 ''#a'' demo = {5}" and "display_name ''#a'' demo = ''#a''"
    by (auto simp: recipients_def display_name_def)
  with privmsg_delivery [OF demo_clients(1) demo_fields(1), where target = "''#a''" and body = "''hi''"
      and msg = "\<lparr>msg_prefix = [], msg_command = ''PRIVMSG'', msg_params = [''#a'', ''hi'']\<rparr>"]
  show ?thesis by simp
qed

text \<open>
  C15. NICK by a registered client to a valid, free nickname: the client and the index are
  renamed, the client and everybody who shares a channel with it get the NICK line exactly
  once however many channels they share, under the old prefix, and nobody else gets it.
\<close>

theorem nick_change:
  assumes "wf_server s" and "sv_clients s fd = Some c" and "cl_registered c"
    and "msg_command msg = ''NICK''" and "msg_params msg = n # rest"
    and "isValidNickname n" and "isNicknameAvailable n fd s"
  shows "sv_nickToFd (dispatchCommand fd msg s) =
      ((sv_nickToFd s)(ircCaseFold (cl_nickname c) := None))(ircCaseFold n \<mapsto> fd)
    \<and> sv_clients (dispatchCommand fd msg s) fd = Some (push_line (nick_notice c n) (setNickname n c))
    \<and> (\<forall>g. g \<noteq> fd \<longrightarrow> sv_clients (dispatchCommand fd msg s) g =
        (if \<exists>key ch. key |\<in>| cl_joinedChannels c \<and> findChannel key s = Some ch \<and> g |\<in>| ch_members ch
         then map_option (push_line (nick_notice c n)) (sv_clients s g) else sv_clients s g))"
  using handleNick_effect [OF assms(1,2,3,5,6,7)] dispatch_registered(5) [OF assms(2,3,4)]
    wf_client_at [OF assms(1,2)]
  by (simp add: shared_targets_iff)

theorem nick_change_witness:
  "sv_nickToFd (dispatchCommand 5 \<lparr>msg_prefix = [], msg_command = ''NICK'', msg_params = [''robert'']\<rparr> demo)
     ''robert'' = Some 5"
proof -
  have "isNicknameAvailable ''robert'' 5 demo"
    by (simp add: isNicknameAvailable_def demo_def new_server_def)
  with nick_change [OF wf_demo demo_clients(2) demo_fields(2), where n = "''robert''" and rest = "[]"
      and msg = "\<lparr>msg_prefix = [], msg_command = ''NICK'', msg_params = [''robert'']\<rparr>"]
  show ?thesis by simp
qed

text \<open>
  C16. Who gets a nickname. In every reachable state NICK with a valid nickname is refused with
  433, and changes nothing else, exactly when another client has this nickname in some spelling
  (RFC 1459 case folding); whether the two clients are registered does not matter. Otherwise the
  client has it from then on, nobody else's nickname changes, and lookups follow: any spelling of
  the new nickname finds the client, its old one finds nobody, every other finds whom it found
  before.
\<close>

theorem nickname_outcome:
  assumes "serving s" and "sv_clients s fd = Some c"
    and "msg_command msg = ''NICK''" and "msg_params msg = n # rest" and "isValidNickname n"
  shows "let t = dispatchCommand fd msg s
    in if \<exists>g d. g \<noteq> fd \<and> sv_clients s g = Some d \<and> ircCaseFold (cl_nickname d) = ircCaseFold n
       then t = queueNumeric fd ERR_NICKNAMEINUSE (n @ '' :Nickname is already in use'') s
       else (\<forall>g. map_option cl_nickname (sv_clients t g) =
               (if g = fd then Some n else map_option cl_nickname (sv_clients s g)))
         \<and> (\<forall>m. findClientByNickname m t =
               (if ircCaseFold m = ircCaseFold n then sv_clients t fd
                else if ircCaseFold m = ircCaseFold (cl_nickname c) then None
                else case findClientByNickname m s of None \<Rightarrow> None | Some d \<Rightarrow> sv_clients t (cl_fd d)))"
proof -
  note wf = wf_serving [OF assms(1)]
  note nick = dispatch_NICK [OF assms(2,3)]
  have "n \<noteq> []" using assms(5) by (simp add: isValidNickname_def)
  note free = isNicknameAvailable_iff [OF wf this, of fd]
  show ?thesis
  proof (cases "\<exists>g d. g \<noteq> fd \<and> sv_clients s g = Some d \<and> ircCaseFold (cl_nickname d) = ircCaseFold n")
    case True
    with handleNick_in_use [OF assms(2,4,5)] free show ?thesis by (simp add: nick)
  next
    case False
    with free have "isNicknameAvailable n fd s" by blast
    note names = handleNick_names [OF assms(2,4,5) this]
    have none: "sv_nickToFd s [] = None"
      using wf_nick [OF wf, of "[]"] by (cases "sv_nickToFd s []") (auto simp: nick_of_def)
    have empty: "ircCaseFold [] = []" by simp
    have index: "sv_nickToFd (handleNick fd msg s) =
        ((sv_nickToFd s)(ircCaseFold (cl_nickname c) := None))(ircCaseFold n \<mapsto> fd)"
      unfolding names(2) using none by (auto simp: fun_eq_iff empty)
    have "map_option cl_nickname (sv_clients (handleNick fd msg s) g) =
        (if g = fd then Some n else map_option cl_nickname (sv_clients s g))" for g
      using fun_cong [OF names(1), of g] by (simp add: nicknames_def)
    moreover have "\<exists>d. sv_clients s g = Some d \<and> cl_fd d = g" if "sv_nickToFd s k = Some g" for k g
      using that wf_client_at [OF wf, of g] unfolding wf_nick [OF wf] nick_of_def by blast
    ultimately show ?thesis
      unfolding nick Let_def using False
      by (auto simp: findClientByNickname_def findClientByFd_def index split: option.split) fastforce+
  qed
qed

theorem nickname_outcome_witness:
  "map_option cl_nickname (findClientByNickname ''BOB''
     (dispatchCommand 4 \<lparr>msg_prefix = [], msg_command = ''NICK'', msg_params = [''bob'']\<rparr> just_connected)) = Some ''bob''"
proof -
  let ?msg = "\<lparr>msg_prefix = [], msg_command = ''NICK'', msg_params = [''bob'']\<rparr>"
  have v: "isValidNickname ''bob''" and b: "ircCaseFold ''BOB'' = ircCaseFold ''bob''" "ircCaseFold ''bob'' \<noteq> []" by code_simp+
  have "\<not> (\<exists>g d. g \<noteq> 4 \<and> sv_clients just_connected g = Some d \<and> ircCaseFold (cl_nickname d) = ircCaseFold ''bob'')"
    by (simp add: just_connected_def)
  with nickname_outcome [OF serving_just_connected just_connected_client _ _ v, of ?msg "[]"] b
  show ?thesis by (auto simp: Let_def)
qed

text \<open>
  C17. Registration: in every reachable state a session is registered exactly when its
  password was accepted, it has a nickname and USER was received, in whatever order the
  three arrived.
\<close>

theorem registration_exact:
  assumes "serving s" and "sv_clients s fd = Some c"
  shows "cl_registered c \<longleftrightarrow> cl_passwordAccepted c \<and> cl_nickname c \<noteq> [] \<and> cl_userReceived c"
proof -
  have "prompt_at fd s" using serving_prompt [OF assms(1)] by (simp add: prompt_def)
  then have "complete c \<longrightarrow> cl_registered c" using assms(2) by (simp add: prompt_at_def)
  moreover have "wf_client c" using wf_client_at [OF wf_serving [OF assms(1)] assms(2)] by blast
  ultimately show ?thesis unfolding complete_def wf_client_def by blast
qed

theorem registration_exact_witness:
  "cl_registered (new_client 4 ''10.0.0.4'') \<longleftrightarrow> cl_passwordAccepted (new_client 4 ''10.0.0.4'')
     \<and> cl_nickname (new_client 4 ''10.0.0.4'') \<noteq> [] \<and> cl_userReceived (new_client 4 ''10.0.0.4'')"
  by (rule registration_exact [OF serving_just_connected just_connected_client])

section \<open>Disconnecting\<close>

text \<open>
  C18. A disconnection erases the client everywhere (client map, channels on both sides,
  invitations, nickname index, poll list, stored reason), closes its descriptor once, leaves
  the state consistent and every other membership as it was, and sends the QUIT line exactly
  once to each client that shares a channel with it and to nobody else.
\<close>

theorem disconnect_purges:
  assumes "wf_server s" and "poll_sync s" and "sv_clients s fd = Some c"
  shows "wf_server (disconnectClient fd reason s)
    \<and> sv_clients (disconnectClient fd reason s) fd = None
    \<and> (\<forall>k. \<not> member_of (disconnectClient fd reason s) fd k)
    \<and> (\<forall>k ch. sv_channels (disconnectClient fd reason s) k = Some ch \<longrightarrow> fd |\<notin>| ch_invited ch)
    \<and> (\<forall>n. sv_nickToFd (disconnectClient fd reason s) n \<noteq> Some fd)
    \<and> fd \<notin> pf_fd ` set (sv_pollFds (disconnectClient fd reason s))
    \<and> sv_closed (disconnectClient fd reason s) = sv_closed s @ [fd]
    \<and> (\<forall>g k. g \<noteq> fd \<longrightarrow> member_of (disconnectClient fd reason s) g k = member_of s g k)
    \<and> (\<forall>g. g \<noteq> fd \<longrightarrow> sv_clients (disconnectClient fd reason s) g =
         (if \<exists>key ch. key |\<in>| cl_joinedChannels c \<and> findChannel key s = Some ch \<and> g |\<in>| ch_members ch
          then map_option (push_line (reply_command (clientPrefix c) ''QUIT'' ('':'' @ reason))) (sv_clients s g)
          else sv_clients s g))"
proof -
  let ?d = "disconnectClient fd reason s"
  note f = disconnectClient_facts [where reason = reason, OF assms(1,3)]
  have n: "sv_clients ?d fd = None" by (simp add: f(2))
  have "fd \<notin> pf_fd ` set (sv_pollFds ?d)"
  proof -
    have "distinct (map pf_fd (sv_pollFds s))" using assms(2) by (simp add: poll_sync_def)
    then have "fd \<notin> set (map pf_fd (sv_pollFds ?d))" by (simp add: f(6))
    then show ?thesis by simp
  qed
  moreover have "\<not> member_of ?d fd k" for k
    using wf_member [OF f(1)] n by (fastforce simp: member_of_def)
  moreover have "fd |\<notin>| ch_invited ch" if "sv_channels ?d k = Some ch" for k ch
    using wf_channel_at [OF f(1) that] n by auto
  moreover have "sv_nickToFd ?d m \<noteq> Some fd" for m
    using wf_nick [OF f(1), of m fd] n by (simp add: nick_of_def)
  moreover have "cl_fd c = fd" using wf_client_at [OF assms(1,3)] by simp
  ultimately show ?thesis using f(1,3,5) n by (simp add: f(2) shared_targets_iff)
qed

theorem disconnect_purges_witness:
  "sv_clients (disconnectClient 4 ''bye'' just_connected) 4 = None
   \<and> sv_closed (disconnectClient 4 ''bye'' just_connected) = [4]"
  using disconnect_purges [OF wf_serving serving_poll_sync just_connected_client, OF serving_just_connected
      serving_just_connected, of "''bye''"]
  by (simp add: just_connected_def listening_def new_server_def)

text \<open>
  C19. Processing the scheduled disconnections removes exactly the scheduled clients and
  their memberships; everybody else stays connected and keeps every membership.
\<close>

theorem scheduled_are_removed:
  assumes "wf_server s"
  shows "dom (sv_clients (processPendingDisconnects s)) = dom (sv_clients s) - fset (sv_pendingDisconnects s)
    \<and> (\<forall>g k. member_of (processPendingDisconnects s) g k
          \<longleftrightarrow> g |\<notin>| sv_pendingDisconnects s \<and> member_of s g k)"
  using clients_processPending [OF assms] member_processPending [OF assms] by blast

theorem scheduled_are_removed_witness:
  "\<not> member_of (processPendingDisconnects (scheduleDisconnect 5 demo)) 5 ''#a''"
  using scheduled_are_removed [OF wf_schedule [OF wf_demo, of 5]] by (simp add: scheduleDisconnect_def)

text \<open>
  C20. A defect: when two members of one channel are scheduled in one round and the QUIT line
  of the first does not fit into the send buffer of the second, the descriptor of the second
  stays scheduled after it was disconnected, and a new client that is accepted on the reused
  descriptor is disconnected by the next round although nobody asked for it.
\<close>

theorem stale_schedule_hits_new_client:
  assumes "wf_server s" and "sv_pendingDisconnects s = {|a, b|}" and "a < b"
    and "sv_clients s a = Some ca" and "sv_clients s b = Some cb" and "b |\<in>| shared_targets ca s"
    and "MAX_SEND_BUFFER < length (cl_sendBuffer cb)
      + length (normalize_line (reply_command (clientPrefix ca) ''QUIT'' ('':'' @ disconnect_reason a s)))"
  shows "sv_clients (processPendingDisconnects s) b = None
    \<and> sv_clients (connected b host (processPendingDisconnects s)) b = Some (new_client b host)
    \<and> sv_clients (processPendingDisconnects (connected b host (processPendingDisconnects s))) b = None"
proof -
  let ?s1 = "processPendingDisconnects s"
  let ?s2 = "connected b host ?s1"
  note st = stale_pending [OF assms]
  have b: "0 \<le> b" using wf_client_at [OF assms(1,5)] by simp
  have wf2: "wf_server ?s2" by (rule wf_connected [OF wf_processPending [OF assms(1)] b])
  have "sv_pendingDisconnects ?s2 = sv_pendingDisconnects ?s1"
    using st(1) by (simp add: connected_def addClient_def addClientPollFd_def)
  then have "sv_clients (processPendingDisconnects ?s2) b = None"
    using clients_processPending [OF wf2] st(2) by auto
  then show ?thesis
    using st(1) by (simp add: connected_def addClient_def addClientPollFd_def)
qed

theorem stale_schedule_hits_new_client_witness:
  "\<exists>s host. sv_clients (connected 5 host (processPendingDisconnects s)) 5 = Some (new_client 5 host)
     \<and> sv_clients (processPendingDisconnects (connected 5 host (processPendingDisconnects s))) 5 = None"
proof -
  let ?full = "bob\<lparr>cl_sendBuffer := replicate MAX_SEND_BUFFER (CHR ''x'')\<rparr>"
  define s where "s = demo\<lparr>sv_clients := (sv_clients demo)(5 \<mapsto> ?full), sv_pendingDisconnects := {|4, 5|}\<rparr>"
  have c4: "sv_clients s 4 = Some alice" and c5: "sv_clients s 5 = Some ?full" by (simp_all add: s_def)
  have fr: "same_frame demo s"
  proof -
    have "map_option (cl_sendBuffer_update (\<lambda>_. [])) (sv_clients s fd)
        = map_option (cl_sendBuffer_update (\<lambda>_. [])) (sv_clients demo fd)" for fd
      by (simp add: s_def)
    then show ?thesis by (simp add: same_frame_def s_def demo_def new_server_def)
  qed
  have wf: "wf_server s" by (rule wf_same_frame [OF wf_demo fr])
  have "findChannel ''#a'' s = Some chan_a" by (simp add: findChannel_def s_def)
  then have sh: "5 |\<in>| shared_targets alice s" by (auto simp: shared_targets_iff)
  have "normalize_line m \<noteq> []" for m by (auto simp: normalize_line_def)
  then have full: "MAX_SEND_BUFFER < length (cl_sendBuffer ?full) + length (normalize_line m)" for m by simp
  have p: "sv_pendingDisconnects s = {|4, 5|}" by (simp add: s_def)
  show ?thesis
    using stale_schedule_hits_new_client [OF wf p _ c4 c5 sh full] by auto
qed

text \<open>
  A client that is already scheduled for disconnection is still served: its next event
  in the same round is received, and the line it completes is parsed and executed.
\<close>

theorem scheduled_client_is_served:
  assumes "fd |\<in>| sv_pendingDisconnects s" and "sv_clients s fd = Some c" and "cl_receiveBuffer c = []"
    and "LF \<notin> set l" and "length l \<le> 510" and "parse l = Some msg"
    and "tk_recv tk fd = Received (l @ crlf)"
  shows "handleClientEvent tk fd {POLLIN} s = dispatchCommand fd msg s"
  using scheduled_client_served [OF assms(1-5,7)] assms(6) by (simp add: processLine_def)

theorem scheduled_client_is_served_witness:
  "handleClientEvent (accept_tick\<lparr>tk_recv := (\<lambda>_. Received (''QUIT'' @ crlf))\<rparr>) 5 {POLLIN}
     (scheduleDisconnect 5 demo)
   = dispatchCommand 5 \<lparr>msg_prefix = [], msg_command = ''QUIT'', msg_params = []\<rparr> (scheduleDisconnect 5 demo)"
proof (rule scheduled_client_is_served [where c = bob and l = "''QUIT''"])
  show "parse ''QUIT'' = Some \<lparr>msg_prefix = [], msg_command = ''QUIT'', msg_params = []\<rparr>" by code_simp
qed (simp_all add: scheduleDisconnect_def bob_def new_client_def)

text \<open>
  C22. A defect: MODE accepts a channel key with a comma, but JOIN splits its keys at commas,
  so nobody who is not already a member can enter such a channel, whatever key is given.
\<close>

theorem comma_key_locks_channel:
  assumes "wf_server s" and "sv_clients s fd = Some c" and "cl_registered c"
    and "isValidChannelName name" and "normalizeChannelName name |\<notin>| cl_joinedChannels c"
    and "findChannel name s = Some ch" and "ch_keyEnabled ch" and "CHR '','' \<in> set (ch_channelKey ch)"
    and "msg_command msg = ''JOIN''" and "msg_params msg = [name, key]"
  shows "sv_channels (dispatchCommand fd msg s) = sv_channels s
    \<and> \<not> member_of (dispatchCommand fd msg s) fd (normalizeChannelName name)"
proof -
  let ?k = "if 0 < length (splitCommaList key) then splitCommaList key ! 0 else []"
  have "CHR '','' \<notin> set ?k"
    using splitCommaFrom_inverse [of key] by (auto simp: splitCommaList_def)
  then have "\<not> matchesKey ?k ch" using assms(7,8) by (auto simp: matchesKey_def)
  then have na: "\<not> admits fd ?k ch" by (simp add: admits_def)
  have n: "CHR '','' \<notin> set name" "name \<noteq> []" "name \<noteq> ''0''"
    using assms(4) by (cases name; auto simp: isValidChannelName_def list_all_iff)+
  have "dispatchCommand fd msg s = joinOne fd name ?k s"
    using n assms(2,10)
    by (simp add: dispatch_registered(1) [OF assms(2,3,9)] handleJoin_def findClientByFd_def
        requireParams_def splitCommaList_single [of name] Let_def)
  then have ch: "sv_channels (dispatchCommand fd msg s) = sv_channels s"
    using joinOne_refused [OF assms(2,4,5,6) na] by (simp split del: if_split) simp
  have "\<not> member_of s fd (normalizeChannelName name)"
    using assms(1,2,5) by (auto simp: wf_server_def membership_ok_def joined_of_def)
  with ch show ?thesis by (simp add: member_of_def)
qed

theorem comma_key_locks_channel_witness:
  "isValidChannelKey ''a,b''
   \<and> sv_channels (dispatchCommand 6 \<lparr>msg_prefix = [], msg_command = ''JOIN'', msg_params = [''#a'', ''a,b'']\<rparr>
        (updChannel ''#a'' (setChannelKey ''a,b'') demo))
     = sv_channels (updChannel ''#a'' (setChannelKey ''a,b'') demo)"
proof -
  let ?s = "updChannel ''#a'' (setChannelKey ''a,b'') demo"
  have v: "isValidChannelKey ''a,b''" by code_simp
  then have wf: "wf_server ?s" by (intro wf_mode_change) auto
  have f: "findChannel ''#a'' ?s = Some (setChannelKey ''a,b'' chan_a)"
    by (simp add: findChannel_def updChannel_channels)
  have "ch_keyEnabled (setChannelKey ''a,b'' chan_a)"
    and "CHR '','' \<in> set (ch_channelKey (setChannelKey ''a,b'' chan_a))"
    by (simp_all add: setChannelKey_def)
  from comma_key_locks_channel [OF wf _ demo_fields(3) _ _ f this, where fd = 6 and key = "''a,b''"
      and msg = "\<lparr>msg_prefix = [], msg_command = ''JOIN'', msg_params = [''#a'', ''a,b'']\<rparr>"] v
  show ?thesis by simp
qed

section \<open>Text\<close>

text \<open>
  Relayed lines may exceed the protocol's limit: a channel message whose prefix, target
  and text together have more than 498 bytes reaches the other members as a line for which
  \<open>fitsIrcLine\<close> is false, as long as their buffers have room.
\<close>

theorem overlong_relay:
  assumes "sv_clients s fd = Some c" and "cl_registered c" and "isSafeToken (clientPrefix c)"
    and "msg_command msg = ''PRIVMSG''" and "msg_params msg = [target, body]"
    and "CHR '','' \<notin> set target" and "target \<noteq> []" and "body \<noteq> []"
    and "clean_text (display_name target s)" and "clean_text body"
    and "498 < length (clientPrefix c) + length (display_name target s) + length body"
    and "g \<in> recipients fd target s" and "sv_clients s g = Some d"
    and "length (cl_sendBuffer d) + length (privmsg_line c (display_name target s) body) + 2 \<le> MAX_SEND_BUFFER"
  shows "\<exists>line. \<not> fitsIrcLine line \<and> sv_clients (dispatchCommand fd msg s) g
     = Some (d\<lparr>cl_sendBuffer := cl_sendBuffer d @ line @ crlf\<rparr>)"
proof -
  let ?l = "privmsg_line c (display_name target s) body"
  have "dispatchCommand fd msg s = privmsgOne fd body target s"
    using dispatch_registered(4) [OF assms(1,2,4)] handlePrivmsg_single [OF assms(1,5-8)] by simp
  moreover have "recipients fd target s \<noteq> {}" using assms(12) by blast
  ultimately have "sv_clients (dispatchCommand fd msg s) g = Some (push_line ?l d)"
    using privmsgOne_delivered [OF assms(1), of target body] assms(12,13) by simp
  moreover have "normalize_line ?l = ?l @ crlf"
    by (rule normalize_clean) (simp add: privmsg_line_def)
  moreover have "\<not> fitsIrcLine ?l"
    using privmsg_line_eq [OF assms(3,9,10)] assms(11)
    by (simp add: fitsIrcLine_def IRC_MAX_CONTENT_def)
  ultimately show ?thesis using assms(14) by (auto simp: push_line_def)
qed

theorem overlong_relay_witness:
  "\<exists>line. \<not> fitsIrcLine line \<and> sv_clients (dispatchCommand 4 \<lparr>msg_prefix = [], msg_command = ''PRIVMSG'',
      msg_params = [''#a'', replicate 490 (CHR ''x'')]\<rparr> demo) 5
     = Some (bob\<lparr>cl_sendBuffer := line @ crlf\<rparr>)"
proof -
  have r: "recipients 4 ''#a'' demo = {5}" and n: "display_name ''#a'' demo = ''#a''"
    by (auto simp: recipients_def display_name_def)
  have p: "clientPrefix alice = ''alice!a@10.0.0.4''" by (simp add: clientPrefix_def alice_def new_client_def)
  have sp: "isSafeToken (clientPrefix alice)" unfolding p by code_simp
  have rep: "replicate 490 (CHR ''x'') \<noteq> []" "clean_text (replicate 490 (CHR ''x''))"
    by simp_all
  have len: "length (privmsg_line alice ''#a'' (replicate 490 (CHR ''x''))) \<le> 600"
    using privmsg_line_eq [OF sp, of "''#a''" "replicate 490 (CHR ''x'')"] p by simp
  show ?thesis
    using overlong_relay [OF demo_clients(1) demo_fields(1) sp, where target = "''#a''" and g = 5 and d = bob
        and body = "replicate 490 (CHR ''x'')"
        and msg = "\<lparr>msg_prefix = [], msg_command = ''PRIVMSG'', msg_params = [''#a'', replicate 490 (CHR ''x'')]\<rparr>"]
      r n p rep len
    by (simp add: MAX_SEND_BUFFER_def)
qed

text \<open>
  C24. The parser and the message grammar agree: rendering a message and parsing the text
  gives the message back exactly when it is well formed (upper-case command, at most 15
  parameters, only the last of them free text), and every accepted line yields such a message.
\<close>

theorem parser_grammar:
  "(parse (render_message m) = Some m \<longleftrightarrow> wf_message m)
   \<and> (\<forall>line. parse line = Some m \<longrightarrow> wf_message m)"
  using parse_render [of m] parse_sound [of _ m] by blast

theorem parser_grammar_witness:
  "wf_message \<lparr>msg_prefix = [], msg_command = ''PRIVMSG'', msg_params = [''#a'', ''hi all'']\<rparr>"
proof -
  have "parse ''privmsg #a :hi all''
      = Some \<lparr>msg_prefix = [], msg_command = ''PRIVMSG'', msg_params = [''#a'', ''hi all'']\<rparr>" by code_simp
  with parser_grammar show ?thesis by blast
qed

text \<open>
  C25. Framing: from a stream of lines of at most 510 bytes, each ended by CRLF, followed by
  an unfinished tail, exactly these lines are cut and the tail stays in the buffer.
\<close>

theorem framing_roundtrip:
  assumes "\<forall>l \<in> set ls. LF \<notin> set l \<and> length l \<le> 510" and "LF \<notin> set rest" and "length rest < 512"
  shows "drain (concat (map (\<lambda>l. l @ crlf) ls) @ rest) = (ls, LINE_INCOMPLETE, rest)"
  using drain_lines [OF assms(1), of rest] assms(2,3) by (simp add: drain_no_LF)

theorem framing_roundtrip_witness:
  "drain (concat (map (\<lambda>l. l @ crlf) [''NICK a'', ''QUIT'']) @ ''PIN'') = ([''NICK a'', ''QUIT''], LINE_INCOMPLETE, ''PIN'')"
  by (rule framing_roundtrip) simp_all

text \<open>
  C26. Cutting lines does not depend on how TCP split the stream: what a first chunk leaves
  in the buffer, continued by the next chunk, yields the lines of the two chunks together.
\<close>

theorem framing_chunks:
  assumes "drain a = (ls, LINE_INCOMPLETE, left)" and "drain (left @ b) = (ls', status, left')"
  shows "drain (a @ b) = (ls @ ls', status, left')"
  using drain_append [OF assms(1), of b] assms(2) by simp

theorem framing_chunks_witness:
  "drain ((''QUIT'' @ crlf @ ''PI'') @ ''NG'') = ([''QUIT''] @ [], LINE_INCOMPLETE, ''PING'')"
proof (rule framing_chunks)
  show "drain (''QUIT'' @ crlf @ ''PI'') = ([''QUIT''], LINE_INCOMPLETE, ''PI'')"
    using drain_lines [of "[''QUIT'']" "''PI''"] by (simp add: drain_no_LF)
  show "drain (''PI'' @ ''NG'') = ([], LINE_INCOMPLETE, ''PING'')" by (simp add: drain_no_LF)
qed

text \<open>
  The user limit of MODE +l: \<open>parsePositiveSize\<close> accepts exactly the non-empty decimal
  texts of a positive number below \<open>2 ^ 64\<close> and returns that number; the 64-bit arithmetic
  never wraps around.
\<close>

theorem positive_size_exact:
  "parsePositiveSize v = Some w \<longleftrightarrow>
     v \<noteq> [] \<and> list_all is_digit v \<and> 0 < dec_value v \<and> dec_value v < 2 ^ 64 \<and> unat w = dec_value v"
  by (rule parsePositiveSize_Some_iff)

text \<open>
  Comma lists: the parts of a value contain no comma, joining them by commas gives the
  value back, and they are the only list of parts with these two properties; empty parts
  are kept.
\<close>

theorem comma_list_inverse:
  assumes "v \<noteq> []"
  shows "join_commas (splitCommaList v) = v \<and> (\<forall>x \<in> set (splitCommaList v). CHR '','' \<notin> set x)
    \<and> (\<forall>xs. xs \<noteq> [] \<and> (\<forall>x \<in> set xs. CHR '','' \<notin> set x) \<and> join_commas xs = v \<longrightarrow> splitCommaList v = xs)"
  using splitCommaFrom_join splitCommaFrom_inverse [of v] assms by (auto simp: splitCommaList_def)

theorem comma_list_inverse_witness: "splitCommaList ''#a,,#b'' = [''#a'', [], ''#b'']"
proof -
  have "[''#a'', [], ''#b''] \<noteq> [] \<and> (\<forall>x \<in> set [''#a'', [], ''#b'']. CHR '','' \<notin> set x)
    \<and> join_commas [''#a'', [], ''#b''] = ''#a,,#b''" by simp
  then show ?thesis using comma_list_inverse [of "''#a,,#b''"] by blast
qed

text \<open>
  No reply can be split: whatever bytes clients put into nicknames, user names, texts or
  parameters, a numeric or command reply followed by CRLF is read back by the line cutter as
  this one line.
\<close>

theorem reply_is_one_line:
  assumes "length (reply_command prefix cmd ps) \<le> 510"
  shows "drain (reply_command prefix cmd ps @ crlf) = ([reply_command prefix cmd ps], LINE_INCOMPLETE, [])"
proof -
  have "LF \<notin> set (reply_command prefix cmd ps)"
    using clean_reply_command [of prefix cmd ps] by (simp add: clean_text_def)
  with assms drain_lines [of "[reply_command prefix cmd ps]" "[]"] show ?thesis by (simp add: drain_no_LF)
qed

theorem reply_is_one_line_witness:
  "drain (reply_command ''a!b@c'' ''PRIVMSG'' (''#a :x'' @ crlf @ ''QUIT'') @ crlf)
   = ([reply_command ''a!b@c'' ''PRIVMSG'' (''#a :x'' @ crlf @ ''QUIT'')], LINE_INCOMPLETE, [])"
proof -
  have "length (reply_command ''a!b@c'' ''PRIVMSG'' (''#a :x'' @ crlf @ ''QUIT'')) \<le> 510" by code_simp
  then show ?thesis by (rule reply_is_one_line)
qed

text \<open>
  The port argument: exactly the decimal texts of the numbers 1 to 65535 are accepted
  (leading zeros included), however long the text is, and the number is returned.
\<close>

theorem port_argument:
  "parsePort v = Some p \<longleftrightarrow>
     v \<noteq> [] \<and> (\<forall>c \<in> set v. is_digit c) \<and> 1 \<le> dec_value v \<and> dec_value v \<le> 65535 \<and> p = int (dec_value v)"
  by (rule parsePort_iff)

theorem port_argument_witness: "parsePort ''06667'' = Some 6667"
proof -
  have "dec_value ''06667'' = 6667"
    by (simp add: dec_value_def digit_value_def of_char_def)
  moreover have "\<forall>c \<in> set ''06667''. is_digit c" by (simp add: is_digit_def less_eq_char_def)
  ultimately show ?thesis using port_argument [of "''06667''" 6667] by simp
qed

end
